(* ===== verification/Prelude.thy ===== *)
theory Prelude
  imports Main "HOL-Library.List_Lexorder" "HOL-Library.Char_ord" "HOL-Library.Product_Lexorder"
begin

text \<open>
  What every component of the development shares: the error values of the store, the string
  operations of Go's \<^verbatim>\<open>strings\<close> and \<^verbatim>\<open>fmt\<close> packages that the code calls,
  keyed tables (a table is the list of its rows, in insertion order) with their lookup and
  update laws, and the collections of rewrite rules that carry the component proofs.

  Strings are HOL \<^verbatim>\<open>string\<close>s, one \<^verbatim>\<open>char\<close> per byte. Timestamps are strings too,
  because the code compares them as strings; the order is the lexicographic one of
  \<^verbatim>\<open>List_Lexorder\<close> over \<^verbatim>\<open>Char_ord\<close>, which is SQLite's binary collation and Go's
  string order. The functions that look at letter case and white space treat the ASCII range
  as Go does and leave bytes above 127 alone.
\<close>

named_theorems record_defs \<open>definitions a component unfolds in its own proofs\<close>
named_theorems frame_simps \<open>what an operation leaves unchanged\<close>

section \<open>Errors\<close>

text \<open>The error vocabulary of \<^verbatim>\<open>internal/kernel/store/errors.go\<close>; \<^verbatim>\<open>DriverErr\<close> stands for
  any error of the driver that is not a constraint violation (an I/O error, a closed database).\<close>

datatype store_err = ErrNotFound | ErrUnique | ErrForeignKey | ErrCheck | ErrNotNull | DriverErr

type_synonym 'a res = "store_err + 'a"

fun is_ok :: "'e + 'a \<Rightarrow> bool" where
  "is_ok (Inl _) = False"
| "is_ok (Inr _) = True"

lemma is_ok_iff: "is_ok r \<longleftrightarrow> (\<exists>x. r = Inr x)"
  by (cases r) auto

section \<open>Strings\<close>

definition has_prefix :: "string \<Rightarrow> string \<Rightarrow> bool" where
  "has_prefix s p \<longleftrightarrow> take (length p) s = p"

definition has_suffix :: "string \<Rightarrow> string \<Rightarrow> bool" where
  "has_suffix s p \<longleftrightarrow> length p \<le> length s \<and> drop (length s - length p) s = p"

definition trim_suffix :: "string \<Rightarrow> string \<Rightarrow> string" where
  "trim_suffix s p = (if has_suffix s p then take (length s - length p) s else s)"

fun contains_str :: "string \<Rightarrow> string \<Rightarrow> bool" where
  "contains_str [] sub = (sub = [])"
| "contains_str (c # cs) sub = (has_prefix (c # cs) sub \<or> contains_str cs sub)"

definition to_lower_char :: "char \<Rightarrow> char" where
  "to_lower_char c = (if CHR ''A'' \<le> c \<and> c \<le> CHR ''Z'' then char_of (of_char c + (32::nat)) else c)"

definition to_lower :: "string \<Rightarrow> string" where
  "to_lower s = map to_lower_char s"

definition is_space :: "char \<Rightarrow> bool" where
  "is_space c \<longleftrightarrow> c \<in> {CHR 0x20, CHR 0x09, CHR 0x0A, CHR 0x0B, CHR 0x0C, CHR 0x0D}"

definition trim_space :: "string \<Rightarrow> string" where
  "trim_space s = rev (dropWhile is_space (rev (dropWhile is_space s)))"

text \<open>\<^verbatim>\<open>strings.Split\<close> with a one-byte separator.\<close>

fun split_on :: "char \<Rightarrow> string \<Rightarrow> string list" where
  "split_on c [] = [[]]"
| "split_on c (x # xs) =
     (if x = c then [] # split_on c xs
      else (case split_on c xs of [] \<Rightarrow> [[x]] | w # ws \<Rightarrow> (x # w) # ws))"

text \<open>\<^verbatim>\<open>strings.Fields\<close>: the maximal runs of bytes that are not white space.\<close>

function fields :: "string \<Rightarrow> string list" where
  "fields s = (let s' = dropWhile is_space s in
     if s' = [] then [] else takeWhile (\<lambda>c. \<not> is_space c) s' # fields (dropWhile (\<lambda>c. \<not> is_space c) s'))"
  by pat_completeness auto
termination
proof (relation "measure length")
  fix s s' :: string
  assume s': "s' = dropWhile is_space s" and ne: "s' \<noteq> []"
  obtain c cs where c: "s' = c # cs" using ne by (meson list.exhaust)
  have "\<not> is_space c"
    using hd_dropWhile [of is_space s] s' c by (metis list.discI list.sel(1))
  moreover have "length (dropWhile (\<lambda>c. \<not> is_space c) cs) \<le> length cs"
    by (rule length_dropWhile_le)
  moreover have "length s' \<le> length s"
    unfolding s' by (rule length_dropWhile_le)
  ultimately show "(dropWhile (\<lambda>c. \<not> is_space c) s', s) \<in> measure length"
    using c by simp
qed simp

declare fields.simps [simp del]

fun join :: "string \<Rightarrow> string list \<Rightarrow> string" where
  "join sep [] = []"
| "join sep [w] = w"
| "join sep (w # ws) = w @ sep @ join sep ws"

text \<open>Decimal rendering: \<^verbatim>\<open>%d\<close>, and \<^verbatim>\<open>%02d\<close> as the money strings use it.\<close>

definition digit_char :: "nat \<Rightarrow> char" where
  "digit_char n = char_of (48 + n)"

fun fmt_nat :: "nat \<Rightarrow> string" where
  "fmt_nat n = (if n < 10 then [digit_char n] else fmt_nat (n div 10) @ [digit_char (n mod 10)])"

declare fmt_nat.simps [simp del]

definition fmt_int :: "int \<Rightarrow> string" where
  "fmt_int i = (if i < 0 then CHR ''-'' # fmt_nat (nat (- i)) else fmt_nat (nat i))"

definition fmt_int2 :: "int \<Rightarrow> string" where
  "fmt_int2 i = (let s = fmt_int i in if length s < 2 then CHR ''0'' # s else s)"

lemma fmt_nat_nonempty [simp]: "fmt_nat n \<noteq> []"
  by (subst fmt_nat.simps) simp

lemma fmt_int_nonempty [simp]: "fmt_int i \<noteq> []"
  by (simp add: fmt_int_def)

section \<open>Go's truncated division\<close>

definition go_div :: "int \<Rightarrow> int \<Rightarrow> int" where
  "go_div a b = sgn a * sgn b * (\<bar>a\<bar> div \<bar>b\<bar>)"

definition go_mod :: "int \<Rightarrow> int \<Rightarrow> int" where
  "go_mod a b = a - b * go_div a b"

lemma go_div_nonneg [simp]: "0 \<le> a \<Longrightarrow> 0 < b \<Longrightarrow> go_div a b = a div b"
  by (cases "a = 0") (simp_all add: go_div_def)

lemma go_mod_nonneg [simp]: "0 \<le> a \<Longrightarrow> 0 < b \<Longrightarrow> go_mod a b = a mod b"
  by (simp add: go_mod_def minus_mult_div_eq_mod)

section \<open>Keyed tables\<close>

text \<open>
  A table is the list of its rows. \<^verbatim>\<open>find_row\<close> is \<^verbatim>\<open>SELECT ... WHERE key = ?\<close> on a
  unique key, \<^verbatim>\<open>update_where\<close> is \<^verbatim>\<open>UPDATE ... SET ... WHERE p\<close>.
\<close>

definition find_row :: "('r \<Rightarrow> string) \<Rightarrow> string \<Rightarrow> 'r list \<Rightarrow> 'r option" where
  "find_row key k t = find (\<lambda>r. key r = k) t"

definition update_where :: "('r \<Rightarrow> bool) \<Rightarrow> ('r \<Rightarrow> 'r) \<Rightarrow> 'r list \<Rightarrow> 'r list" where
  "update_where p f t = map (\<lambda>r. if p r then f r else r) t"

definition rows_affected :: "('r \<Rightarrow> bool) \<Rightarrow> 'r list \<Rightarrow> nat" where
  "rows_affected p t = length (filter p t)"

lemma find_row_Nil [simp]: "find_row key k [] = None"
  by (simp add: find_row_def)

lemma find_row_Cons: "find_row key k (r # t) = (if key r = k then Some r else find_row key k t)"
  by (simp add: find_row_def)

lemma find_row_Some: "find_row key k t = Some r \<Longrightarrow> r \<in> set t \<and> key r = k"
  by (auto simp: find_row_def find_Some_iff)

lemma find_row_None: "find_row key k t = None \<longleftrightarrow> (\<forall>r \<in> set t. key r \<noteq> k)"
  by (auto simp: find_row_def find_None_iff)

lemma find_row_append:
  "find_row key k (t @ u) = (case find_row key k t of None \<Rightarrow> find_row key k u | Some r \<Rightarrow> Some r)"
  by (induction t) (simp_all add: find_row_Cons)

lemma set_update_where: "set (update_where p f t) = (\<lambda>r. if p r then f r else r) ` set t"
  by (simp add: update_where_def)

lemma length_update_where [simp]: "length (update_where p f t) = length t"
  by (simp add: update_where_def)

lemma update_where_Nil [simp]: "update_where p f [] = []"
  by (simp add: update_where_def)

lemma update_where_Cons:
  "update_where p f (r # t) = (if p r then f r else r) # update_where p f t"
  by (simp add: update_where_def)

lemma update_where_noop: "(\<And>r. r \<in> set t \<Longrightarrow> \<not> p r) \<Longrightarrow> update_where p f t = t"
  by (simp add: update_where_def map_idI)

lemma rows_affected_pos: "0 < rows_affected p t \<longleftrightarrow> (\<exists>r \<in> set t. p r)"
  by (auto simp: rows_affected_def filter_empty_conv)

lemma rows_affected_Nil [simp]: "rows_affected p [] = 0"
  by (simp add: rows_affected_def)

lemma rows_affected_Cons [simp]:
  "rows_affected p (x # t) = (if p x then Suc (rows_affected p t) else rows_affected p t)"
  by (simp add: rows_affected_def)

lemma rows_affected_zero: "rows_affected p t = 0 \<longleftrightarrow> (\<forall>x \<in> set t. \<not> p x)"
  by (auto simp: rows_affected_def filter_empty_conv)

lemma update_where_consumes:
  assumes "\<And>r. \<not> p (f r)"
  shows "\<forall>r \<in> set (update_where p f t). \<not> p r"
  by (induction t) (simp_all add: update_where_Cons assms)

text \<open>
  The interface of a table with a unique text key, as every repository of the store relies on
  it: a client that updates the row it has read finds exactly the updated row afterwards, and
  every other row is as it was.
\<close>

locale keyed_table =
  fixes key :: "'r \<Rightarrow> string"
begin

lemma find_update_same:
  assumes "find_row key k t = Some r" and "\<And>r. key (f r) = key r"
  shows "find_row key k (update_where (\<lambda>r. key r = k \<and> p r) f t) = Some (if p r then f r else r)"
  using assms(1)
  by (induction t) (auto simp: find_row_Cons update_where_Cons assms(2) split: if_splits)

lemma find_update_other:
  assumes "k' \<noteq> k" and "\<And>r. key (f r) = key r"
  shows "find_row key k' (update_where (\<lambda>r. key r = k \<and> p r) f t) = find_row key k' t"
  using assms(1)
  by (induction t) (auto simp: find_row_Cons update_where_Cons assms(2))

lemma find_update_none:
  assumes "find_row key k t = None" and "\<And>r. key (f r) = key r"
  shows "find_row key k (update_where p f t) = None"
  using assms by (auto simp: find_row_None set_update_where)

lemma keys_update:
  assumes "\<And>r. key (f r) = key r"
  shows "map key (update_where p f t) = map key t"
  by (induction t) (auto simp: update_where_Cons assms)

lemma distinct_find:
  assumes "distinct (map key t)" and "r \<in> set t"
  shows "find_row key (key r) t = Some r"
  using assms
proof (induction t)
  case (Cons x t)
  show ?case
  proof (cases "r = x")
    case False
    with Cons.prems have "r \<in> set t" "key x \<noteq> key r" by auto
    with Cons show ?thesis by (simp add: find_row_Cons)
  qed (simp add: find_row_Cons)
qed simp

end

end
