(* ===== verification/GoStd.thy ===== *)
theory GoStd
  imports Complex_Main Prelude
begin

text \<open>
  The parts of Go's standard library the modelled code calls and whose behaviour its properties
  depend on: decoded JSON values and the decoding rules of \<^verbatim>\<open>encoding/json\<close> for the target types
  the code uses, and \<^verbatim>\<open>path.Match\<close>. Numbers are the rationals that the decoded
  \<^verbatim>\<open>float64\<close> values are (JSON has no infinity and no NaN), so comparing them is exact.
  \<^verbatim>\<open>path.Match\<close> is modelled for one-byte runes.
\<close>

section \<open>Durations\<close>

text \<open>\<^verbatim>\<open>Duration.String\<close> of a whole number of seconds: \<^verbatim>\<open>1h0m0s\<close>, \<^verbatim>\<open>1m30s\<close>, \<^verbatim>\<open>45s\<close>.\<close>

definition fmt_seconds :: "int \<Rightarrow> string" where
  "fmt_seconds n =
     (let a = nat \<bar>n\<bar>; h = a div 3600; m = a div 60 mod 60; sec = a mod 60 in
      (if n < 0 then ''-'' else '''') @
      (if 0 < h then fmt_nat h @ ''h'' else '''') @
      (if 0 < h \<or> 0 < m then fmt_nat m @ ''m'' else '''') @ fmt_nat sec @ ''s'')"

section \<open>JSON\<close>

datatype json =
    JNull
  | JBool bool
  | JNum rat
  | JStr string
  | JArr "json list"
  | JObj "(string \<times> json) list"

text \<open>A \<^verbatim>\<open>json.RawMessage\<close>: empty, a text that does not parse, or the value it holds.\<close>

datatype raw_json = RawEmpty | RawBad | Raw json

text \<open>A decoded object as a Go map: of two equal keys the later one counts.\<close>

definition obj_get :: "(string \<times> json) list \<Rightarrow> string \<Rightarrow> json option" where
  "obj_get kvs k = map_of (rev kvs) k"

text \<open>Field names of a struct target match without regard to case.\<close>

definition field_is :: "string \<Rightarrow> string \<Rightarrow> bool" where
  "field_is k name \<longleftrightarrow> to_lower k = name"

text \<open>
  \<^verbatim>\<open>json.Unmarshal\<close> of a value into a variable that holds the zero value: \<^verbatim>\<open>None\<close> is an error.
  A JSON null leaves the variable alone.
\<close>

fun dec_string :: "json \<Rightarrow> string option" where
  "dec_string (JStr s) = Some s"
| "dec_string JNull = Some ''''"
| "dec_string _ = None"

fun dec_float :: "json \<Rightarrow> rat option" where
  "dec_float (JNum n) = Some n"
| "dec_float JNull = Some 0"
| "dec_float _ = None"

fun dec_bool :: "json \<Rightarrow> bool option" where
  "dec_bool (JBool b) = Some b"
| "dec_bool JNull = Some False"
| "dec_bool _ = None"

text \<open>An integer target refuses a number with a fraction or outside the 64-bit range.\<close>

definition rat_int :: "rat \<Rightarrow> int option" where
  "rat_int q = (let i = floor q in
     if of_int i = q \<and> - (2 ^ 63) \<le> i \<and> i < 2 ^ 63 then Some i else None)"

fun dec_strings :: "json list \<Rightarrow> string list option" where
  "dec_strings [] = Some []"
| "dec_strings (j # js) =
     (case (dec_string j, dec_strings js) of (Some s, Some ss) \<Rightarrow> Some (s # ss) | _ \<Rightarrow> None)"

fun dec_string_list :: "json \<Rightarrow> string list option" where
  "dec_string_list (JArr js) = dec_strings js"
| "dec_string_list JNull = Some []"
| "dec_string_list _ = None"

text \<open>The decoders lifted to a raw message: an empty or malformed text is an error.\<close>

fun unmarshal :: "(json \<Rightarrow> 'a option) \<Rightarrow> raw_json \<Rightarrow> 'a option" where
  "unmarshal d (Raw j) = d j"
| "unmarshal d _ = None"

section \<open>path.Match\<close>

datatype glob_tok = GLit char | GAny | GClass bool "(char \<times> char) list"

definition get_esc :: "string \<Rightarrow> (char \<times> string) option" where
  "get_esc s =
     (case s of
        [] \<Rightarrow> None
      | c # cs \<Rightarrow>
          if c = CHR ''-'' \<or> c = CHR '']'' then None
          else if c = CHR 0x5C then (case cs of d # e # rest \<Rightarrow> Some (d, e # rest) | _ \<Rightarrow> None)
          else (case cs of e # rest \<Rightarrow> Some (c, e # rest) | [] \<Rightarrow> None))"

lemma get_esc_shorter: "get_esc s = Some (c, r) \<Longrightarrow> length r < length s"
  by (auto simp: get_esc_def split: list.splits if_splits)

text \<open>The ranges of a character class up to its closing bracket.\<close>

function class_ranges :: "string \<Rightarrow> (char \<times> char) list \<Rightarrow> ((char \<times> char) list \<times> string) option" where
  "class_ranges s acc =
     (if acc \<noteq> [] \<and> s \<noteq> [] \<and> hd s = CHR '']'' then Some (acc, tl s)
      else (case get_esc s of
              None \<Rightarrow> None
            | Some (lo, r) \<Rightarrow>
                if hd r = CHR ''-''
                then (case get_esc (tl r) of
                        None \<Rightarrow> None
                      | Some (hi, r') \<Rightarrow> class_ranges r' (acc @ [(lo, hi)]))
                else class_ranges r (acc @ [(lo, lo)])))"
  by pat_completeness auto
termination
proof (relation "measure (length \<circ> fst)", goal_cases)
  case (2 s acc x lo r y hi r')
  then show ?case
    using get_esc_shorter [of s lo r] get_esc_shorter [of "tl r" hi r'] by simp
next
  case (3 s acc x lo r)
  then show ?case using get_esc_shorter [of s lo r] by simp
qed simp

declare class_ranges.simps [simp del]

lemma class_ranges_shorter: "class_ranges s acc = Some (rs, rest) \<Longrightarrow> length rest < length s"
proof (induction s acc arbitrary: rs rest rule: class_ranges.induct)
  case (1 s acc)
  show ?case
  proof (cases "acc \<noteq> [] \<and> s \<noteq> [] \<and> hd s = CHR '']''")
    case True
    with "1.prems" show ?thesis by (subst (asm) class_ranges.simps) auto
  next
    case False
    with "1.prems" obtain lo r where e: "get_esc s = Some (lo, r)"
      by (subst (asm) class_ranges.simps) (auto split: option.splits if_splits)
    note l = get_esc_shorter [OF e]
    show ?thesis
    proof (cases "hd r = CHR ''-''")
      case True
      with "1.prems" False e obtain hi r' where e': "get_esc (tl r) = Some (hi, r')"
        and c: "class_ranges r' (acc @ [(lo, hi)]) = Some (rs, rest)"
        by (subst (asm) class_ranges.simps) (auto split: option.splits)
      have "length rest < length r'"
        using "1.IH"(1) [OF False e refl True e' refl] c by simp
      with get_esc_shorter [OF e'] l show ?thesis by simp
    next
      case no: False
      with "1.prems" False e have "class_ranges r (acc @ [(lo, lo)]) = Some (rs, rest)"
        by (subst (asm) class_ranges.simps) auto
      then have "length rest < length r"
        using "1.IH"(2) [OF False e refl no] by simp
      with l show ?thesis by simp
    qed
  qed
qed

text \<open>One chunk (a pattern without a star) as tokens; \<^verbatim>\<open>None\<close> is \<^verbatim>\<open>ErrBadPattern\<close>.\<close>

function chunk_toks :: "string \<Rightarrow> glob_tok list option" where
  "chunk_toks [] = Some []"
| "chunk_toks (c # cs) =
     (if c = CHR ''['' then
        (let neg = (cs \<noteq> [] \<and> hd cs = CHR ''^''); cs' = (if neg then tl cs else cs) in
         case class_ranges cs' [] of
           None \<Rightarrow> None
         | Some (rs, rest) \<Rightarrow> map_option ((#) (GClass neg rs)) (chunk_toks rest))
      else if c = CHR ''?'' then map_option ((#) GAny) (chunk_toks cs)
      else if c = CHR 0x5C then
        (case cs of [] \<Rightarrow> None | d # ds \<Rightarrow> map_option ((#) (GLit d)) (chunk_toks ds))
      else map_option ((#) (GLit c)) (chunk_toks cs))"
  by pat_completeness auto
termination
proof (relation "measure length", goal_cases)
  case (2 c cs neg cs' x rs rest)
  then show ?case
    using class_ranges_shorter [of cs' "[]" rs rest] by (cases cs) (auto split: if_splits)
qed auto

declare chunk_toks.simps(2) [simp del]

definition class_match :: "bool \<Rightarrow> (char \<times> char) list \<Rightarrow> char \<Rightarrow> bool" where
  "class_match neg rs c \<longleftrightarrow> (list_ex (\<lambda>(lo, hi). lo \<le> c \<and> c \<le> hi) rs \<noteq> neg)"

text \<open>A chunk against the start of the name: the rest of the name where it matches.\<close>

fun match_toks :: "glob_tok list \<Rightarrow> string \<Rightarrow> string option" where
  "match_toks [] s = Some s"
| "match_toks (t # ts) [] = None"
| "match_toks (GLit d # ts) (c # cs) = (if c = d then match_toks ts cs else None)"
| "match_toks (GAny # ts) (c # cs) = (if c = CHR ''/'' then None else match_toks ts cs)"
| "match_toks (GClass neg rs # ts) (c # cs) =
     (if class_match neg rs c then match_toks ts cs else None)"

text \<open>\<^verbatim>\<open>scanChunk\<close>: whether the chunk follows a star, the chunk, and what is left of the pattern.\<close>

fun scan_body :: "bool \<Rightarrow> string \<Rightarrow> string \<times> string" where
  "scan_body inrange [] = ([], [])"
| "scan_body inrange (c # cs) =
     (if c = CHR ''*'' \<and> \<not> inrange then ([], c # cs)
      else if c = CHR 0x5C then
        (case cs of
           [] \<Rightarrow> ([c], [])
         | d # ds \<Rightarrow> (case scan_body inrange ds of (ch, r) \<Rightarrow> (c # d # ch, r)))
      else (case scan_body (if c = CHR ''['' then True else if c = CHR '']'' then False else inrange) cs of
              (ch, r) \<Rightarrow> (c # ch, r)))"

definition is_star :: "char \<Rightarrow> bool" where
  "is_star c \<longleftrightarrow> c = CHR ''*''"

definition scan_chunk :: "string \<Rightarrow> bool \<times> string \<times> string" where
  "scan_chunk p = (let p' = dropWhile is_star p in (p \<noteq> p', scan_body False p'))"

lemma scan_body_append: "fst (scan_body b s) @ snd (scan_body b s) = s"
proof (induction b s rule: scan_body.induct)
  case (2 b c cs)
  show ?case
  proof (cases "c = CHR ''*'' \<and> \<not> b")
    case False
    note nostar = this
    show ?thesis
    proof (cases "c = CHR 0x5C")
      case True
      with nostar 2(1) show ?thesis by (cases cs) (simp_all add: case_prod_beta)
    next
      case no: False
      show ?thesis
        using 2(2) [OF nostar no] nostar no
        by (subst (1 2) scan_body.simps) (simp only: if_False case_prod_beta fst_conv snd_conv append_Cons)
    qed
  qed simp
qed simp

lemma scan_body_Nil: "fst (scan_body False (c # cs)) = [] \<Longrightarrow> c = CHR ''*''"
  by (cases cs) (auto simp: case_prod_beta split: if_splits)

lemma scan_chunk_shorter:
  assumes "p \<noteq> []"
  shows "length (snd (snd (scan_chunk p))) < length p"
proof -
  let ?p' = "dropWhile is_star p"
  have body: "length (snd (scan_body False q)) \<le> length q" for q
    using arg_cong [OF scan_body_append [of False q], of length] by simp
  obtain c cs where c: "p = c # cs" using assms by (cases p) auto
  show ?thesis
  proof (cases "is_star c")
    case True
    then have "?p' = dropWhile is_star cs" by (simp add: c)
    then have "length ?p' \<le> length cs" by (simp add: length_dropWhile_le)
    with body [of ?p'] show ?thesis by (simp add: scan_chunk_def Let_def c)
  next
    case False
    then have same: "?p' = p" by (simp add: c)
    have "c \<noteq> CHR ''*''" using False by (simp only: is_star_def simp_thms)
    then have "fst (scan_body False p) \<noteq> []"
      using scan_body_Nil [of c cs] unfolding c by blast
    then have "0 < length (fst (scan_body False p))" by blast
    moreover have "length (fst (scan_body False p)) + length (snd (scan_body False p)) = length p"
      using arg_cong [OF scan_body_append [of False p], of length] by (simp only: length_append)
    ultimately have "length (snd (scan_body False p)) < length p" by linarith
    then show ?thesis by (simp only: scan_chunk_def same Let_def snd_conv)
  qed
qed

lemma scan_chunk_rest:
  assumes "p \<noteq> []" and "x = scan_chunk p" and "(a, y) = x" and "(b, rest) = y"
  shows "length rest < length p"
  using scan_chunk_shorter [OF assms(1)] assms(2-4) by (metis snd_conv)

text \<open>The rest of the pattern is scanned for syntax errors once a chunk has failed to match.\<close>

function pattern_ok :: "string \<Rightarrow> bool" where
  "pattern_ok p = (if p = [] then True else
     (case scan_chunk p of (_, ch, rest) \<Rightarrow> chunk_toks ch \<noteq> None \<and> pattern_ok rest))"
  by pat_completeness auto
termination
  by (relation "measure length") (simp_all add: scan_chunk_rest)

declare pattern_ok.simps [simp del]

text \<open>
  After a star the chunk is tried at every later position that is not behind a slash;
  \<^verbatim>\<open>last\<close> is set when the chunk is the last one, and then it has to exhaust the name.
\<close>

fun star_scan :: "glob_tok list \<Rightarrow> bool \<Rightarrow> string \<Rightarrow> string option" where
  "star_scan ts final [] = None"
| "star_scan ts final (c # cs) =
     (if c = CHR ''/'' then None
      else (case match_toks ts cs of
              Some t \<Rightarrow> if final \<and> t \<noteq> [] then star_scan ts final cs else Some t
            | None \<Rightarrow> star_scan ts final cs))"

text \<open>
  \<^verbatim>\<open>path.Match\<close>: \<^verbatim>\<open>None\<close> is \<^verbatim>\<open>ErrBadPattern\<close>. Go scans a chunk for
  errors to its end even where the name runs out, which \<^verbatim>\<open>chunk_toks\<close> does up front.
\<close>

function glob_match :: "string \<Rightarrow> string \<Rightarrow> bool option" where
  "glob_match p name =
     (if p = [] then Some (name = [])
      else (case scan_chunk p of (star, ch, rest) \<Rightarrow>
        if star \<and> ch = [] then Some (CHR ''/'' \<notin> set name)
        else (case chunk_toks ch of
          None \<Rightarrow> None
        | Some ts \<Rightarrow>
            (case match_toks ts name of
               Some t \<Rightarrow>
                 if t = [] \<or> rest \<noteq> [] then glob_match rest t
                 else if star then
                   (case star_scan ts True name of Some t' \<Rightarrow> glob_match rest t' | None \<Rightarrow> Some False)
                 else Some False
             | None \<Rightarrow>
                 if star then
                   (case star_scan ts (rest = []) name of
                      Some t' \<Rightarrow> glob_match rest t'
                    | None \<Rightarrow> if pattern_ok rest then Some False else None)
                 else if pattern_ok rest then Some False else None))))"
  by pat_completeness auto
termination
  by (relation "measure (\<lambda>(p, name). length p)")
     (simp_all add: scan_chunk_rest)

declare glob_match.simps [simp del]

section \<open>Runes\<close>

text \<open>
  \<^verbatim>\<open>[]rune(s)\<close>: the UTF-8 encoded characters of a string, each as its bytes. A byte that
  starts no valid encoding counts as one rune, U+FFFD, as Go's conversion has it.
\<close>

definition byte :: "char \<Rightarrow> nat" where
  "byte c = of_char c"

definition is_cont :: "char \<Rightarrow> bool" where
  "is_cont c \<longleftrightarrow> 128 \<le> byte c \<and> byte c < 192"

fun rune_width :: "string \<Rightarrow> nat" where
  "rune_width [] = 0"
| "rune_width (c # cs) =
     (let b = byte c in
      if b < 128 then 1
      else if 194 \<le> b \<and> b < 224 then
        (case cs of c1 # _ \<Rightarrow> if is_cont c1 then 2 else 0 | _ \<Rightarrow> 0)
      else if 224 \<le> b \<and> b < 240 then
        (case cs of c1 # c2 # _ \<Rightarrow>
           if is_cont c1 \<and> is_cont c2 \<and> (b = 224 \<longrightarrow> 160 \<le> byte c1) \<and> (b = 237 \<longrightarrow> byte c1 < 160)
           then 3 else 0
         | _ \<Rightarrow> 0)
      else if 240 \<le> b \<and> b < 245 then
        (case cs of c1 # c2 # c3 # _ \<Rightarrow>
           if is_cont c1 \<and> is_cont c2 \<and> is_cont c3 \<and> (b = 240 \<longrightarrow> 144 \<le> byte c1) \<and> (b = 244 \<longrightarrow> byte c1 < 144)
           then 4 else 0
         | _ \<Rightarrow> 0)
      else 0)"

function runes :: "string \<Rightarrow> string list" where
  "runes s =
     (if s = [] then []
      else if rune_width s = 0 then [CHR 0xEF, CHR 0xBF, CHR 0xBD] # runes (tl s)
      else take (rune_width s) s # runes (drop (rune_width s) s))"
  by pat_completeness auto
termination by (relation "measure length") auto

declare runes.simps [simp del]

text \<open>\<^verbatim>\<open>truncate\<close>, which the scheduler uses for titles: at most \<^verbatim>\<open>n\<close> runes.\<close>

definition truncate_runes :: "string \<Rightarrow> nat \<Rightarrow> string" where
  "truncate_runes s n =
     (if length (runes s) \<le> n then s
      else concat (take (n - 1) (runes s)) @ [CHR 0xE2, CHR 0x80, CHR 0xA6])"

text \<open>\<^verbatim>\<open>strings.ReplaceAll\<close> with a non-empty pattern.\<close>

function replace_all :: "string \<Rightarrow> string \<Rightarrow> string \<Rightarrow> string" where
  "replace_all s old new =
     (if s = [] \<or> old = [] then s
      else if has_prefix s old then new @ replace_all (drop (length old) s) old new
      else hd s # replace_all (tl s) old new)"
  by pat_completeness auto
termination by (relation "measure (\<lambda>(s, _, _). length s)") auto

declare replace_all.simps [simp del]

lemma has_prefix_refl [simp]: "has_prefix (p @ s) p"
  by (simp add: has_prefix_def)

end
