(* ===== verification/Domain.thy ===== *)
theory Domain
  imports GoStd
begin

text \<open>
  The data model of \<^verbatim>\<open>internal/domain\<close>: the enumerations of \<^verbatim>\<open>enums.go\<close> with the text
  each is stored as, the row types as records (a nullable column is an \<^verbatim>\<open>option\<close>, an
  \<^verbatim>\<open>int64\<close> column an \<^verbatim>\<open>int\<close>, a raw JSON column a \<^verbatim>\<open>raw_json\<close>, a timestamp
  the string it is stored as), and the pure operations the package defines on them. A record field
  carries a prefix naming its record, since field selectors are global names.
\<close>

section \<open>Enumerations (enums.go)\<close>

datatype UserRole = RoleOwner | RoleMember

primrec UserRole_str :: "UserRole \<Rightarrow> string" where
  "UserRole_str RoleOwner = ''owner''"
| "UserRole_str RoleMember = ''member''"

definition UserRole_IsValid :: "string \<Rightarrow> bool" where
  "UserRole_IsValid s \<longleftrightarrow>
    s = UserRole_str RoleOwner \<or> s = UserRole_str RoleMember"

datatype SecretScope = SecretScopeWorkspace | SecretScopeProject

primrec SecretScope_str :: "SecretScope \<Rightarrow> string" where
  "SecretScope_str SecretScopeWorkspace = ''workspace''"
| "SecretScope_str SecretScopeProject = ''project''"

definition SecretScope_IsValid :: "string \<Rightarrow> bool" where
  "SecretScope_IsValid s \<longleftrightarrow>
    s = SecretScope_str SecretScopeWorkspace \<or> s = SecretScope_str SecretScopeProject"

datatype Autonomy = AutonomySuggest | AutonomyApproveEach | AutonomyAutoGates | AutonomyAuto

primrec Autonomy_str :: "Autonomy \<Rightarrow> string" where
  "Autonomy_str AutonomySuggest = ''suggest''"
| "Autonomy_str AutonomyApproveEach = ''approve_each''"
| "Autonomy_str AutonomyAutoGates = ''auto_gates''"
| "Autonomy_str AutonomyAuto = ''auto''"

definition Autonomy_IsValid :: "string \<Rightarrow> bool" where
  "Autonomy_IsValid s \<longleftrightarrow>
    s = Autonomy_str AutonomySuggest \<or> s = Autonomy_str AutonomyApproveEach \<or>
    s = Autonomy_str AutonomyAutoGates \<or> s = Autonomy_str AutonomyAuto"

datatype PermissionDecision = DecisionAllow | DecisionDeny | DecisionAsk

primrec PermissionDecision_str :: "PermissionDecision \<Rightarrow> string" where
  "PermissionDecision_str DecisionAllow = ''allow''"
| "PermissionDecision_str DecisionDeny = ''deny''"
| "PermissionDecision_str DecisionAsk = ''ask''"

definition PermissionDecision_IsValid :: "string \<Rightarrow> bool" where
  "PermissionDecision_IsValid s \<longleftrightarrow>
    s = PermissionDecision_str DecisionAllow \<or> s = PermissionDecision_str DecisionDeny \<or>
    s = PermissionDecision_str DecisionAsk"

datatype ColumnCategory = CategoryBacklog | CategoryReady | CategoryRunning | CategoryReview | CategoryDone | CategoryCanceled

primrec ColumnCategory_str :: "ColumnCategory \<Rightarrow> string" where
  "ColumnCategory_str CategoryBacklog = ''backlog''"
| "ColumnCategory_str CategoryReady = ''ready''"
| "ColumnCategory_str CategoryRunning = ''running''"
| "ColumnCategory_str CategoryReview = ''review''"
| "ColumnCategory_str CategoryDone = ''done''"
| "ColumnCategory_str CategoryCanceled = ''canceled''"

definition ColumnCategory_IsValid :: "string \<Rightarrow> bool" where
  "ColumnCategory_IsValid s \<longleftrightarrow>
    s = ColumnCategory_str CategoryBacklog \<or> s = ColumnCategory_str CategoryReady \<or>
    s = ColumnCategory_str CategoryRunning \<or> s = ColumnCategory_str CategoryReview \<or>
    s = ColumnCategory_str CategoryDone \<or> s = ColumnCategory_str CategoryCanceled"

datatype Priority = PriorityNone | PriorityLow | PriorityMedium | PriorityHigh | PriorityUrgent

primrec Priority_str :: "Priority \<Rightarrow> string" where
  "Priority_str PriorityNone = ''none''"
| "Priority_str PriorityLow = ''low''"
| "Priority_str PriorityMedium = ''medium''"
| "Priority_str PriorityHigh = ''high''"
| "Priority_str PriorityUrgent = ''urgent''"

definition Priority_IsValid :: "string \<Rightarrow> bool" where
  "Priority_IsValid s \<longleftrightarrow>
    s = Priority_str PriorityNone \<or> s = Priority_str PriorityLow \<or>
    s = Priority_str PriorityMedium \<or> s = Priority_str PriorityHigh \<or>
    s = Priority_str PriorityUrgent"

datatype TicketOrigin = OriginHuman | OriginAgent | OriginTrigger | OriginImport

primrec TicketOrigin_str :: "TicketOrigin \<Rightarrow> string" where
  "TicketOrigin_str OriginHuman = ''human''"
| "TicketOrigin_str OriginAgent = ''agent''"
| "TicketOrigin_str OriginTrigger = ''trigger''"
| "TicketOrigin_str OriginImport = ''import''"

definition TicketOrigin_IsValid :: "string \<Rightarrow> bool" where
  "TicketOrigin_IsValid s \<longleftrightarrow>
    s = TicketOrigin_str OriginHuman \<or> s = TicketOrigin_str OriginAgent \<or>
    s = TicketOrigin_str OriginTrigger \<or> s = TicketOrigin_str OriginImport"

datatype TriageState = TriagePending | TriageAccepted | TriageDuplicate | TriageDeclined | TriageSnoozed

primrec TriageState_str :: "TriageState \<Rightarrow> string" where
  "TriageState_str TriagePending = ''pending''"
| "TriageState_str TriageAccepted = ''accepted''"
| "TriageState_str TriageDuplicate = ''duplicate''"
| "TriageState_str TriageDeclined = ''declined''"
| "TriageState_str TriageSnoozed = ''snoozed''"

definition TriageState_IsValid :: "string \<Rightarrow> bool" where
  "TriageState_IsValid s \<longleftrightarrow>
    s = TriageState_str TriagePending \<or> s = TriageState_str TriageAccepted \<or>
    s = TriageState_str TriageDuplicate \<or> s = TriageState_str TriageDeclined \<or>
    s = TriageState_str TriageSnoozed"

datatype StreamKind =
  StreamComment
  | StreamStatusChange
  | StreamFieldChange
  | StreamRun
  | StreamPREvent
  | StreamTriggerFired
  | StreamProposal

primrec StreamKind_str :: "StreamKind \<Rightarrow> string" where
  "StreamKind_str StreamComment = ''comment''"
| "StreamKind_str StreamStatusChange = ''status_change''"
| "StreamKind_str StreamFieldChange = ''field_change''"
| "StreamKind_str StreamRun = ''run''"
| "StreamKind_str StreamPREvent = ''pr_event''"
| "StreamKind_str StreamTriggerFired = ''trigger_fired''"
| "StreamKind_str StreamProposal = ''proposal''"

definition StreamKind_IsValid :: "string \<Rightarrow> bool" where
  "StreamKind_IsValid s \<longleftrightarrow>
    s = StreamKind_str StreamComment \<or> s = StreamKind_str StreamStatusChange \<or>
    s = StreamKind_str StreamFieldChange \<or> s = StreamKind_str StreamRun \<or>
    s = StreamKind_str StreamPREvent \<or> s = StreamKind_str StreamTriggerFired \<or>
    s = StreamKind_str StreamProposal"

datatype ActorKind = ActorHuman | ActorAgent | ActorTrigger | ActorSystem | ActorExternal

primrec ActorKind_str :: "ActorKind \<Rightarrow> string" where
  "ActorKind_str ActorHuman = ''human''"
| "ActorKind_str ActorAgent = ''agent''"
| "ActorKind_str ActorTrigger = ''trigger''"
| "ActorKind_str ActorSystem = ''system''"
| "ActorKind_str ActorExternal = ''external''"

definition ActorKind_IsValid :: "string \<Rightarrow> bool" where
  "ActorKind_IsValid s \<longleftrightarrow>
    s = ActorKind_str ActorHuman \<or> s = ActorKind_str ActorAgent \<or>
    s = ActorKind_str ActorTrigger \<or> s = ActorKind_str ActorSystem"

datatype WikiState = WikiLive | WikiProposed

primrec WikiState_str :: "WikiState \<Rightarrow> string" where
  "WikiState_str WikiLive = ''live''"
| "WikiState_str WikiProposed = ''proposed''"

definition WikiState_IsValid :: "string \<Rightarrow> bool" where
  "WikiState_IsValid s \<longleftrightarrow>
    s = WikiState_str WikiLive \<or> s = WikiState_str WikiProposed"

datatype AgentScope = ScopeAlways | ScopeAuto | ScopePaths | ScopeManual | ScopeNever

primrec AgentScope_str :: "AgentScope \<Rightarrow> string" where
  "AgentScope_str ScopeAlways = ''always''"
| "AgentScope_str ScopeAuto = ''auto''"
| "AgentScope_str ScopePaths = ''paths''"
| "AgentScope_str ScopeManual = ''manual''"
| "AgentScope_str ScopeNever = ''never''"

definition AgentScope_IsValid :: "string \<Rightarrow> bool" where
  "AgentScope_IsValid s \<longleftrightarrow>
    s = AgentScope_str ScopeAlways \<or> s = AgentScope_str ScopeAuto \<or>
    s = AgentScope_str ScopePaths \<or> s = AgentScope_str ScopeManual \<or>
    s = AgentScope_str ScopeNever"

datatype MentionFromKind = MentionFromWiki | MentionFromTicket | MentionFromComment

primrec MentionFromKind_str :: "MentionFromKind \<Rightarrow> string" where
  "MentionFromKind_str MentionFromWiki = ''wiki''"
| "MentionFromKind_str MentionFromTicket = ''ticket''"
| "MentionFromKind_str MentionFromComment = ''comment''"

definition MentionFromKind_IsValid :: "string \<Rightarrow> bool" where
  "MentionFromKind_IsValid s \<longleftrightarrow>
    s = MentionFromKind_str MentionFromWiki \<or> s = MentionFromKind_str MentionFromTicket \<or>
    s = MentionFromKind_str MentionFromComment"

datatype MentionToKind = MentionToWiki | MentionToTicket | MentionToAgent | MentionToUser

primrec MentionToKind_str :: "MentionToKind \<Rightarrow> string" where
  "MentionToKind_str MentionToWiki = ''wiki''"
| "MentionToKind_str MentionToTicket = ''ticket''"
| "MentionToKind_str MentionToAgent = ''agent''"
| "MentionToKind_str MentionToUser = ''user''"

definition MentionToKind_IsValid :: "string \<Rightarrow> bool" where
  "MentionToKind_IsValid s \<longleftrightarrow>
    s = MentionToKind_str MentionToWiki \<or> s = MentionToKind_str MentionToTicket \<or>
    s = MentionToKind_str MentionToAgent \<or> s = MentionToKind_str MentionToUser"

datatype FiringOutcome =
  FiringSucceeded
  | FiringNoAction
  | FiringAwaitingApproval
  | FiringErrored
  | FiringDebounced
  | FiringSuperseded
  | FiringLoopStopped
  | FiringBudgetExceeded

primrec FiringOutcome_str :: "FiringOutcome \<Rightarrow> string" where
  "FiringOutcome_str FiringSucceeded = ''succeeded''"
| "FiringOutcome_str FiringNoAction = ''no_action''"
| "FiringOutcome_str FiringAwaitingApproval = ''awaiting_approval''"
| "FiringOutcome_str FiringErrored = ''errored''"
| "FiringOutcome_str FiringDebounced = ''debounced''"
| "FiringOutcome_str FiringSuperseded = ''superseded''"
| "FiringOutcome_str FiringLoopStopped = ''loop_stopped''"
| "FiringOutcome_str FiringBudgetExceeded = ''budget_exceeded''"

definition FiringOutcome_IsValid :: "string \<Rightarrow> bool" where
  "FiringOutcome_IsValid s \<longleftrightarrow>
    s = FiringOutcome_str FiringSucceeded \<or> s = FiringOutcome_str FiringNoAction \<or>
    s = FiringOutcome_str FiringAwaitingApproval \<or> s = FiringOutcome_str FiringErrored \<or>
    s = FiringOutcome_str FiringDebounced \<or> s = FiringOutcome_str FiringSuperseded \<or>
    s = FiringOutcome_str FiringLoopStopped \<or> s = FiringOutcome_str FiringBudgetExceeded"

datatype DispatchState = DispatchPending | DispatchDone | DispatchFailed

primrec DispatchState_str :: "DispatchState \<Rightarrow> string" where
  "DispatchState_str DispatchPending = ''pending''"
| "DispatchState_str DispatchDone = ''done''"
| "DispatchState_str DispatchFailed = ''failed''"

definition DispatchState_IsValid :: "string \<Rightarrow> bool" where
  "DispatchState_IsValid s \<longleftrightarrow>
    s = DispatchState_str DispatchPending \<or> s = DispatchState_str DispatchDone \<or>
    s = DispatchState_str DispatchFailed"

datatype RunState =
  RunQueued
  | RunProvisioning
  | RunRunning
  | RunNeedsInput
  | RunAwaitingApproval
  | RunCompleted
  | RunFailed
  | RunTimedOut
  | RunCanceled
  | RunLoopStopped

primrec RunState_str :: "RunState \<Rightarrow> string" where
  "RunState_str RunQueued = ''queued''"
| "RunState_str RunProvisioning = ''provisioning''"
| "RunState_str RunRunning = ''running''"
| "RunState_str RunNeedsInput = ''needs_input''"
| "RunState_str RunAwaitingApproval = ''awaiting_approval''"
| "RunState_str RunCompleted = ''completed''"
| "RunState_str RunFailed = ''failed''"
| "RunState_str RunTimedOut = ''timed_out''"
| "RunState_str RunCanceled = ''canceled''"
| "RunState_str RunLoopStopped = ''loop_stopped''"

definition RunState_IsValid :: "string \<Rightarrow> bool" where
  "RunState_IsValid s \<longleftrightarrow>
    s = RunState_str RunQueued \<or> s = RunState_str RunProvisioning \<or>
    s = RunState_str RunRunning \<or> s = RunState_str RunNeedsInput \<or>
    s = RunState_str RunAwaitingApproval \<or> s = RunState_str RunCompleted \<or>
    s = RunState_str RunFailed \<or> s = RunState_str RunTimedOut \<or>
    s = RunState_str RunCanceled \<or> s = RunState_str RunLoopStopped"

datatype ActivityType =
  ActivityThought
  | ActivityAction
  | ActivityElicitation
  | ActivityResponse
  | ActivityError
  | ActivitySystem
  | ActivityProvision

primrec ActivityType_str :: "ActivityType \<Rightarrow> string" where
  "ActivityType_str ActivityThought = ''thought''"
| "ActivityType_str ActivityAction = ''action''"
| "ActivityType_str ActivityElicitation = ''elicitation''"
| "ActivityType_str ActivityResponse = ''response''"
| "ActivityType_str ActivityError = ''error''"
| "ActivityType_str ActivitySystem = ''system''"
| "ActivityType_str ActivityProvision = ''provision''"

definition ActivityType_IsValid :: "string \<Rightarrow> bool" where
  "ActivityType_IsValid s \<longleftrightarrow>
    s = ActivityType_str ActivityThought \<or> s = ActivityType_str ActivityAction \<or>
    s = ActivityType_str ActivityElicitation \<or> s = ActivityType_str ActivityResponse \<or>
    s = ActivityType_str ActivityError \<or> s = ActivityType_str ActivitySystem \<or>
    s = ActivityType_str ActivityProvision"

datatype ElicitationKind = ElicitationQuestion | ElicitationApproval

primrec ElicitationKind_str :: "ElicitationKind \<Rightarrow> string" where
  "ElicitationKind_str ElicitationQuestion = ''question''"
| "ElicitationKind_str ElicitationApproval = ''approval''"

definition ElicitationKind_IsValid :: "string \<Rightarrow> bool" where
  "ElicitationKind_IsValid s \<longleftrightarrow>
    s = ElicitationKind_str ElicitationQuestion \<or>
    s = ElicitationKind_str ElicitationApproval"

datatype ElicitationState = ElicitationPending | ElicitationAnswered | ElicitationDenied | ElicitationExpired | ElicitationCanceled

primrec ElicitationState_str :: "ElicitationState \<Rightarrow> string" where
  "ElicitationState_str ElicitationPending = ''pending''"
| "ElicitationState_str ElicitationAnswered = ''answered''"
| "ElicitationState_str ElicitationDenied = ''denied''"
| "ElicitationState_str ElicitationExpired = ''expired''"
| "ElicitationState_str ElicitationCanceled = ''canceled''"

definition ElicitationState_IsValid :: "string \<Rightarrow> bool" where
  "ElicitationState_IsValid s \<longleftrightarrow>
    s = ElicitationState_str ElicitationPending \<or>
    s = ElicitationState_str ElicitationAnswered \<or>
    s = ElicitationState_str ElicitationDenied \<or>
    s = ElicitationState_str ElicitationExpired \<or>
    s = ElicitationState_str ElicitationCanceled"

datatype RunOutputKind =
  OutputBranch
  | OutputPullRequest
  | OutputComment
  | OutputReview
  | OutputWikiProposal
  | OutputTicket
  | OutputPartialWork

primrec RunOutputKind_str :: "RunOutputKind \<Rightarrow> string" where
  "RunOutputKind_str OutputBranch = ''branch''"
| "RunOutputKind_str OutputPullRequest = ''pull_request''"
| "RunOutputKind_str OutputComment = ''comment''"
| "RunOutputKind_str OutputReview = ''review''"
| "RunOutputKind_str OutputWikiProposal = ''wiki_proposal''"
| "RunOutputKind_str OutputTicket = ''ticket''"
| "RunOutputKind_str OutputPartialWork = ''partial_work''"

definition RunOutputKind_IsValid :: "string \<Rightarrow> bool" where
  "RunOutputKind_IsValid s \<longleftrightarrow>
    s = RunOutputKind_str OutputBranch \<or> s = RunOutputKind_str OutputPullRequest \<or>
    s = RunOutputKind_str OutputComment \<or> s = RunOutputKind_str OutputReview \<or>
    s = RunOutputKind_str OutputWikiProposal \<or> s = RunOutputKind_str OutputTicket \<or>
    s = RunOutputKind_str OutputPartialWork"

datatype RunMessageState = MessageQueued | MessageDelivered | MessageDropped

primrec RunMessageState_str :: "RunMessageState \<Rightarrow> string" where
  "RunMessageState_str MessageQueued = ''queued''"
| "RunMessageState_str MessageDelivered = ''delivered''"
| "RunMessageState_str MessageDropped = ''dropped''"

definition RunMessageState_IsValid :: "string \<Rightarrow> bool" where
  "RunMessageState_IsValid s \<longleftrightarrow>
    s = RunMessageState_str MessageQueued \<or> s = RunMessageState_str MessageDelivered \<or>
    s = RunMessageState_str MessageDropped"

datatype NotificationFlavor = FlavorQuestion | FlavorApproval | FlavorReview | FlavorFailure

primrec NotificationFlavor_str :: "NotificationFlavor \<Rightarrow> string" where
  "NotificationFlavor_str FlavorQuestion = ''question''"
| "NotificationFlavor_str FlavorApproval = ''approval''"
| "NotificationFlavor_str FlavorReview = ''review''"
| "NotificationFlavor_str FlavorFailure = ''failure''"

definition NotificationFlavor_IsValid :: "string \<Rightarrow> bool" where
  "NotificationFlavor_IsValid s \<longleftrightarrow>
    s = NotificationFlavor_str FlavorQuestion \<or>
    s = NotificationFlavor_str FlavorApproval \<or> s = NotificationFlavor_str FlavorReview \<or>
    s = NotificationFlavor_str FlavorFailure"

datatype NotificationState = NotificationUnread | NotificationRead | NotificationDismissed

primrec NotificationState_str :: "NotificationState \<Rightarrow> string" where
  "NotificationState_str NotificationUnread = ''unread''"
| "NotificationState_str NotificationRead = ''read''"
| "NotificationState_str NotificationDismissed = ''dismissed''"

definition NotificationState_IsValid :: "string \<Rightarrow> bool" where
  "NotificationState_IsValid s \<longleftrightarrow>
    s = NotificationState_str NotificationUnread \<or>
    s = NotificationState_str NotificationRead \<or>
    s = NotificationState_str NotificationDismissed"

section \<open>Runs\<close>

record Run =
  run_ID :: string
  run_Seq :: int
  run_ProjectID :: string
  run_AgentID :: string
  run_TicketID :: "string option"
  run_TriggerID :: "string option"
  run_CauseEventID :: "string option"
  run_ParentRunID :: "string option"
  run_RequestedByUserID :: "string option"
  run_State :: RunState
  run_StateReason :: string
  run_HoldReason :: string
  run_Autonomy :: Autonomy
  run_DirectiveVersionID :: "string option"
  run_Model :: string
  run_Effort :: string
  run_Prompt :: string
  run_RuntimeID :: string
  run_SandboxID :: string
  run_ContainerID :: "string option"
  run_InstanceID :: "string option"
  run_LogOffset :: int
  run_Branch :: "string option"
  run_BaseSHA :: "string option"
  run_Depth :: int
  run_SubjectKey :: string
  run_CurrentStep :: string
  run_CostCents :: int
  run_TokensIn :: int
  run_TokensOut :: int
  run_TokensCacheRead :: int
  run_TokensCacheWrite :: int
  run_StepCount :: int
  run_ErrorMessage :: string
  run_TakeoverNote :: string
  run_QueuedAt :: string
  run_StartedAt :: "string option"
  run_EndedAt :: "string option"
  run_AcknowledgedAt :: "string option"

record UsageDelta =
  ud_TokensIn :: int
  ud_TokensOut :: int
  ud_TokensCacheRead :: int
  ud_TokensCacheWrite :: int
  ud_CostCents :: int

definition UsageDelta_Add :: "UsageDelta \<Rightarrow> UsageDelta \<Rightarrow> UsageDelta" where
  "UsageDelta_Add u v = \<lparr>
     ud_TokensIn = ud_TokensIn u + ud_TokensIn v,
     ud_TokensOut = ud_TokensOut u + ud_TokensOut v,
     ud_TokensCacheRead = ud_TokensCacheRead u + ud_TokensCacheRead v,
     ud_TokensCacheWrite = ud_TokensCacheWrite u + ud_TokensCacheWrite v,
     ud_CostCents = ud_CostCents u + ud_CostCents v \<rparr>"

text \<open>A run in one of these states is settled for good: no legal transition leaves them.\<close>

definition Terminal :: "RunState \<Rightarrow> bool" where
  "Terminal s = (case s of
     RunCompleted \<Rightarrow> True | RunFailed \<Rightarrow> True | RunTimedOut \<Rightarrow> True
   | RunCanceled \<Rightarrow> True | RunLoopStopped \<Rightarrow> True | _ \<Rightarrow> False)"

lemma Terminal_simps [simp]:
  "Terminal RunCompleted" "Terminal RunFailed" "Terminal RunTimedOut" "Terminal RunCanceled"
  "Terminal RunLoopStopped" "\<not> Terminal RunQueued" "\<not> Terminal RunProvisioning"
  "\<not> Terminal RunRunning" "\<not> Terminal RunNeedsInput" "\<not> Terminal RunAwaitingApproval"
  by (simp_all add: Terminal_def)

record Elicitation =
  el_ID :: string
  el_RunID :: string
  el_ActivitySeq :: int
  el_Kind :: ElicitationKind
  el_Request :: raw_json
  el_State :: ElicitationState
  el_Response :: raw_json
  el_RespondedBy :: "string option"
  el_RespondedAt :: "string option"
  el_CreatedAt :: string

record RunOutput =
  ro_ID :: string
  ro_RunID :: string
  ro_Kind :: RunOutputKind
  ro_Ref :: string
  ro_URL :: string
  ro_Summary :: string
  ro_CreatedAt :: string

record RunMessage =
  rm_ID :: string
  rm_RunID :: string
  rm_Body :: string
  rm_AuthorID :: "string option"
  rm_State :: RunMessageState
  rm_CreatedAt :: string
  rm_DeliveredAt :: "string option"

record RunContextItem =
  rc_ID :: string
  rc_RunID :: string
  rc_Provider :: string
  rc_SourceKind :: string
  rc_SourceRef :: string
  rc_Title :: string
  rc_Reason :: string
  rc_Tokens :: int
  rc_Position :: int
  rc_Injected :: bool

record Activity =
  act_RunID :: string
  act_Seq :: int
  act_Type :: ActivityType
  act_Level :: int
  act_ToolName :: string
  act_GroupKey :: string
  act_Title :: string
  act_Payload :: raw_json
  act_OK :: "bool option"
  act_Attempt :: int
  act_DurationMS :: "int option"
  act_QueuedMS :: "int option"
  act_ModelMS :: "int option"
  act_ToolMS :: "int option"
  act_CostCents :: int
  act_TokensIn :: int
  act_TokensOut :: int
  act_TokensCacheRead :: int
  act_CreatedAt :: string

section \<open>Events and triggers\<close>

record Event =
  ev_ID :: string
  ev_ProjectID :: "string option"
  ev_Source :: string
  ev_Kind :: string
  ev_ActivityType :: string
  ev_ActorKind :: ActorKind
  ev_ActorID :: "string option"
  ev_ActorLogin :: "string option"
  ev_ActorEmail :: "string option"
  ev_SubjectKind :: string
  ev_SubjectID :: "string option"
  ev_SubjectNumber :: "int option"
  ev_SubjectBranch :: "string option"
  ev_Payload :: raw_json
  ev_CauseRunID :: "string option"
  ev_DedupeKey :: string
  ev_DispatchState :: DispatchState
  ev_OccurredAt :: string
  ev_CreatedAt :: string

record Trigger =
  tr_ID :: string
  tr_ProjectID :: string
  tr_Name :: string
  tr_Enabled :: bool
  tr_SourceID :: string
  tr_Event :: string
  tr_ActivityTypes :: raw_json
  tr_Filters :: raw_json
  tr_Conditions :: raw_json
  tr_Actions :: raw_json
  tr_LoopConfig :: raw_json
  tr_Cron :: "string option"
  tr_CreatedBy :: "string option"
  tr_CreatedAt :: string
  tr_UpdatedAt :: string

record TriggerFiring =
  tf_ID :: string
  tf_TriggerID :: string
  tf_EventID :: string
  tf_Outcome :: FiringOutcome
  tf_Reason :: string
  tf_RunID :: "string option"
  tf_AbsorbedByRunID :: "string option"
  tf_Warnings :: raw_json
  tf_CreatedAt :: string

definition DefaultLoopConfig :: raw_json where
  "DefaultLoopConfig = Raw (JObj [
     (''actor_suppression'', JBool True), (''debounce_seconds'', JNum 90),
     (''cancel_in_progress'', JBool True), (''depth_limit'', JNum 3),
     (''daily_budget_cents'', JNull)])"

section \<open>Tickets, columns, projects, agents\<close>

record Ticket =
  tk_ID :: string
  tk_ProjectID :: string
  tk_Seq :: int
  tk_Key :: string
  tk_Title :: string
  tk_Description :: string
  tk_ColumnID :: string
  tk_Position :: rat
  tk_Priority :: Priority
  tk_AssigneeID :: "string option"
  tk_DelegateAgentID :: "string option"
  tk_ParentID :: "string option"
  tk_PRNumber :: "int option"
  tk_PRState :: "string option"
  tk_PRChecks :: "string option"
  tk_PRAdditions :: "int option"
  tk_PRDeletions :: "int option"
  tk_Branch :: "string option"
  tk_Origin :: TicketOrigin
  tk_CreatedByUserID :: "string option"
  tk_CreatedByAgentID :: "string option"
  tk_ArchivedAt :: "string option"
  tk_CreatedAt :: string
  tk_UpdatedAt :: string

record StreamEntry =
  se_ID :: string
  se_TicketID :: string
  se_Kind :: StreamKind
  se_ActorKind :: ActorKind
  se_ActorID :: "string option"
  se_Body :: string
  se_Payload :: raw_json
  se_RunID :: "string option"
  se_EditedAt :: "string option"
  se_CreatedAt :: string

record TriageItem =
  ti_ID :: string
  ti_TicketID :: string
  ti_Provenance :: string
  ti_SourceTriggerID :: "string option"
  ti_SourceRunID :: "string option"
  ti_State :: TriageState
  ti_DuplicateOf :: "string option"
  ti_Reason :: string
  ti_SnoozeUntil :: "string option"
  ti_ResolvedBy :: "string option"
  ti_ResolvedAt :: "string option"
  ti_CreatedAt :: string

definition Unresolved :: "TriageItem \<Rightarrow> bool" where
  "Unresolved t \<longleftrightarrow> ti_State t = TriagePending \<or> ti_State t = TriageSnoozed"

record WorkspaceSettings =
  ws_DefaultBranch :: string
  ws_DefaultBranchTemplate :: string
  ws_DefaultNetworkPolicy :: string
  ws_DefaultDailyBudgetCents :: int
  ws_DefaultContextThresholdTokens :: int
  ws_DefaultVerificationDays :: int
  ws_MaxConcurrentContainers :: int
  ws_PollIntervalSeconds :: int
  ws_PRSizeWarningLines :: int
  ws_UpdatedAt :: string

record Column =
  col_ID :: string
  col_ProjectID :: string
  col_Name :: string
  col_Category :: ColumnCategory
  col_Position :: int
  col_WIPLimit :: "int option"
  col_AutoStartDelegate :: bool
  col_CreatedAt :: string
  col_UpdatedAt :: string

record Project =
  prj_ID :: string
  prj_Key :: string
  prj_Name :: string
  prj_Description :: string
  prj_Color :: string
  prj_OwnerID :: string
  prj_AgentGuidance :: string
  prj_DailyBudgetCents :: "int option"
  prj_ContextThresholdTokens :: "int option"
  prj_VerificationDays :: "int option"
  prj_PRSizeWarningLines :: "int option"
  prj_TicketSeq :: int
  prj_ArchivedAt :: "string option"
  prj_CreatedAt :: string
  prj_UpdatedAt :: string

record AgentPermissions =
  perm_ReadFiles :: bool
  perm_EditFiles :: bool
  perm_RunCommands :: bool
  perm_PushBranches :: bool
  perm_OpenPRs :: bool
  perm_CommentPRs :: bool
  perm_SubmitReviews :: bool
  perm_CreateWikiPages :: bool

record Agent =
  ag_ID :: string
  ag_ProjectID :: string
  ag_Name :: string
  ag_Role :: string
  ag_Color :: string
  ag_RuntimeID :: string
  ag_Model :: string
  ag_Effort :: string
  ag_Autonomy :: Autonomy
  ag_Permissions :: AgentPermissions
  ag_GitAuthorName :: string
  ag_GitAuthorEmail :: string
  ag_ForgeLogin :: "string option"
  ag_ForgeTokenSecretID :: "string option"
  ag_ConcurrencyCap :: int
  ag_DailyCapCents :: "int option"
  ag_MaxWallClockSeconds :: int
  ag_MaxSteps :: int
  ag_Enabled :: bool
  ag_DirectiveVersionID :: "string option"
  ag_ArchivedAt :: "string option"
  ag_CreatedAt :: string
  ag_UpdatedAt :: string

record AgentDirective =
  ad_ID :: string
  ad_AgentID :: string
  ad_Version :: int
  ad_Body :: string
  ad_TokenEstimate :: int
  ad_AuthorID :: "string option"
  ad_Note :: string
  ad_CreatedAt :: string

record AgentPermissionRule =
  pr_ID :: string
  pr_AgentID :: string
  pr_Tool :: string
  pr_Pattern :: string
  pr_Decision :: PermissionDecision
  pr_CreatedFromRunID :: "string option"
  pr_CreatedBy :: "string option"
  pr_CreatedAt :: string

section \<open>Labels, criteria, mentions, wiki pages, people\<close>

record Label =
  lb_ID :: string
  lb_ProjectID :: string
  lb_Name :: string
  lb_Color :: string

record Criterion =
  cr_ID :: string
  cr_TicketID :: string
  cr_Position :: int
  cr_Text :: string
  cr_Checked :: bool
  cr_CheckedByRunID :: "string option"
  cr_CheckedByUserID :: "string option"
  cr_Note :: string
  cr_UpdatedAt :: string

record Mention =
  mn_ID :: string
  mn_ProjectID :: string
  mn_FromKind :: string
  mn_FromID :: string
  mn_ToKind :: string
  mn_ToID :: string
  mn_Linked :: bool
  mn_ContextText :: string

record WikiPage =
  wp_ID :: string
  wp_ProjectID :: string
  wp_Slug :: string
  wp_Title :: string
  wp_ParentID :: "string option"
  wp_Position :: rat
  wp_OwnerID :: "string option"
  wp_VerifiedUntil :: "string option"
  wp_AgentScope :: AgentScope
  wp_ScopePaths :: "string list"
  wp_Tags :: "string list"
  wp_Body :: string
  wp_TokenEstimate :: int
  wp_State :: WikiState
  wp_ProposedByRunID :: "string option"
  wp_ProposedBaseVersion :: "int option"
  wp_ProposalTargetID :: "string option"
  wp_ProposedReason :: "string option"
  wp_ImportedFrom :: "string option"
  wp_DemotedAt :: "string option"
  wp_DemotedFrom :: "string option"
  wp_ArchivedAt :: "string option"
  wp_CreatedAt :: string
  wp_UpdatedAt :: string

record UserPrefs =
  up_RailCollapsed :: "bool option"
  up_Density :: "string option"
  up_Theme :: "string option"
  up_DefaultVerbosity :: "int option"

record User =
  us_ID :: string
  us_Email :: string
  us_DisplayName :: string
  us_PasswordHash :: string
  us_Role :: UserRole
  us_AvatarColor :: string
  us_Prefs :: UserPrefs
  us_ArchivedAt :: "string option"
  us_CreatedAt :: string

record Notification =
  nt_ID :: string
  nt_UserID :: string
  nt_ProjectID :: string
  nt_RunID :: "string option"
  nt_Flavor :: NotificationFlavor
  nt_Title :: string
  nt_Body :: string
  nt_State :: NotificationState
  nt_Pushed :: bool
  nt_CreatedAt :: string
  nt_UpdatedAt :: string

text \<open>One problem with one field of a request (\<^verbatim>\<open>internal/kernel/httpx\<close>).\<close>

record FieldError =
  fe_Field :: string
  fe_Message :: string

end
