(* ===== verification/StoreRuns.thy ===== *)
theory StoreRuns
  imports Domain
begin

text \<open>
  The state of the system and the runs repository (\<^verbatim>\<open>internal/kernel/store/runs.go\<close>,
  \<^verbatim>\<open>runstate.go\<close>). A \<^verbatim>\<open>World\<close> holds the tables of the SQLite database the modelled
  components read and write, one list of rows each in insertion order, and the two outward effects
  a component has: the frames it publishes on the bus and the runs it hands to a supervisor.

  Every database call names its site and a key (the row it is about), and a \<^verbatim>\<open>faults\<close> oracle
  says whether the driver refuses it there and with which error. A refused statement changes
  nothing. Constraint violations that the tables themselves decide (a duplicate key) are computed;
  those that need tables outside the model (a foreign key) come from the oracle.
\<close>

section \<open>The world\<close>

record AuditEntry =
  au_Action :: string
  au_Kind :: string
  au_TargetID :: string
  au_ProjectID :: string
  au_Note :: string
  au_Before :: "(string \<times> string) list"
  au_After :: "(string \<times> string) list"

text \<open>\<^verbatim>\<open>budget_ledger\<close>: cents per day, project, agent and trigger (the last two nullable).\<close>

record LedgerRow =
  lr_Day :: string
  lr_ProjectID :: string
  lr_AgentID :: "string option"
  lr_TriggerID :: "string option"
  lr_Cents :: int

datatype Frame =
    RunStateFrame Run
  | RunMessageFrame string string string
  | RunActivityFrame Activity
  | RunStepFrame string string
  | RunUsageFrame string UsageDelta
  | RunElicitationFrame string string ElicitationKind ElicitationState
  | ProvisionStepFrame string string string string
  | EventFrame Event

text \<open>Outward effects of the scheduler that are not rows: what it tells its ports and its own loops.\<close>

datatype Effect = RevokeToken string | UnregisterProxy string | DestroyInstance string | WakeAdmission

record World =
  w_runs :: "Run list"
  w_tickets :: "Ticket list"
  w_columns :: "Column list"
  w_projects :: "Project list"
  w_agents :: "Agent list"
  w_workspace :: WorkspaceSettings
  w_messages :: "RunMessage list"
  w_elicitations :: "Elicitation list"
  w_outputs :: "RunOutput list"
  w_budget :: "LedgerRow list"
  w_events :: "Event list"
  w_triggers :: "Trigger list"
  w_firings :: "TriggerFiring list"
  w_triage :: "TriageItem list"
  w_activities :: "Activity list"
  w_context :: "RunContextItem list"
  w_stream :: "StreamEntry list"
  w_directives :: "AgentDirective list"
  w_audit :: "AuditEntry list"
  w_labels :: "Label list"
  w_ticket_labels :: "(string \<times> string) list"
  w_criteria :: "Criterion list"
  w_mentions :: "Mention list"
  w_wiki :: "WikiPage list"
  w_users :: "User list"
  w_notifications :: "Notification list"
  w_frames :: "Frame list"
  w_started :: "string list"
  w_effects :: "Effect list"

type_synonym faults = "string \<Rightarrow> string \<Rightarrow> store_err option"

definition no_faults :: faults where
  "no_faults = (\<lambda>_ _. None)"

lemma no_faults_simp [simp]: "no_faults s k = None"
  by (simp add: no_faults_def)

definition query :: "faults \<Rightarrow> string \<Rightarrow> string \<Rightarrow> 'a \<Rightarrow> 'a res" where
  "query f site k v = (case f site k of Some e \<Rightarrow> Inl e | None \<Rightarrow> Inr v)"

definition query_row :: "faults \<Rightarrow> string \<Rightarrow> string \<Rightarrow> 'a option \<Rightarrow> 'a res" where
  "query_row f site k v =
     (case f site k of Some e \<Rightarrow> Inl e
      | None \<Rightarrow> (case v of None \<Rightarrow> Inl ErrNotFound | Some x \<Rightarrow> Inr x))"

definition exec :: "faults \<Rightarrow> string \<Rightarrow> string \<Rightarrow> 'a \<Rightarrow> (World \<Rightarrow> World) \<Rightarrow> World \<Rightarrow> 'a res \<times> World" where
  "exec f site k v upd w = (case f site k of Some e \<Rightarrow> (Inl e, w) | None \<Rightarrow> (Inr v, upd w))"

text \<open>An UPDATE that reports a missing row: \<^verbatim>\<open>errIfNone\<close> and its inlined copies.\<close>

definition exec_one :: "faults \<Rightarrow> string \<Rightarrow> string \<Rightarrow> nat \<Rightarrow> (World \<Rightarrow> World) \<Rightarrow> World \<Rightarrow> unit res \<times> World" where
  "exec_one f site k n upd w =
     (case f site k of Some e \<Rightarrow> (Inl e, w)
      | None \<Rightarrow> (if n = 0 then Inl ErrNotFound else Inr (), upd w))"

lemma query_Inr [simp]: "query f s k v = Inr x \<longleftrightarrow> f s k = None \<and> x = v"
  by (auto simp: query_def split: option.splits)

lemma query_row_Inr [simp]: "query_row f s k v = Inr x \<longleftrightarrow> f s k = None \<and> v = Some x"
  by (auto simp: query_row_def split: option.splits)

lemma query_no_faults [simp]: "query no_faults s k v = Inr v"
  by simp

lemma exec_no_faults [simp]: "exec no_faults s k v upd w = (Inr v, upd w)"
  by (simp add: exec_def)

text \<open>\<^verbatim>\<open>ORDER BY k DESC LIMIT 1\<close>.\<close>

definition newest_by :: "('r \<Rightarrow> 'k::linorder) \<Rightarrow> 'r list \<Rightarrow> 'r option" where
  "newest_by k rs = (case rev (sort_key k rs) of [] \<Rightarrow> None | r # _ \<Rightarrow> Some r)"

lemma newest_by_Some:
  assumes "newest_by k rs = Some r"
  shows "r \<in> set rs \<and> (\<forall>x \<in> set rs. k x \<le> k r)"
proof -
  obtain ys where ys: "rev (sort_key k rs) = r # ys"
    using assms by (auto simp: newest_by_def split: list.splits)
  then have s: "sort_key k rs = rev ys @ [r]" by (metis rev.simps(2) rev_rev_ident)
  have "sorted (map k (rev ys @ [r]))" using sorted_sort_key [of k rs] by (simp only: s)
  then have "\<forall>x \<in> set (rev ys @ [r]). k x \<le> k r" by (auto simp: sorted_append)
  moreover have "set (rev ys @ [r]) = set rs" by (metis s set_sort)
  ultimately show ?thesis by auto
qed

lemma newest_by_None: "newest_by k rs = None \<longleftrightarrow> rs = []"
proof -
  have "newest_by k rs = None \<longleftrightarrow> sort_key k rs = []"
    by (auto simp: newest_by_def split: list.splits)
  also have "\<dots> \<longleftrightarrow> rs = []" by (metis length_0_conv length_sort)
  finally show ?thesis .
qed

section \<open>The runs repository\<close>

definition queue_key :: "Run \<Rightarrow> string \<times> int" where
  "queue_key r = (run_QueuedAt r, run_Seq r)"

definition Runs_ByID :: "faults \<Rightarrow> string \<Rightarrow> World \<Rightarrow> Run res" where
  "Runs_ByID f i w = query_row f ''Runs.ByID'' i (find_row run_ID i (w_runs w))"

definition Runs_NextSeq :: "faults \<Rightarrow> string \<Rightarrow> World \<Rightarrow> int res" where
  "Runs_NextSeq f pid w = query f ''Runs.NextSeq'' pid
     (fold max (map run_Seq (filter (\<lambda>r. run_ProjectID r = pid) (w_runs w))) 0 + 1)"

text \<open>\<^verbatim>\<open>id\<close> is the primary key and \<^verbatim>\<open>(project_id, seq)\<close> is unique.\<close>

definition Runs_Create :: "faults \<Rightarrow> Run \<Rightarrow> World \<Rightarrow> unit res \<times> World" where
  "Runs_Create f r w =
     (if list_ex (\<lambda>x. run_ID x = run_ID r \<or>
                      run_ProjectID x = run_ProjectID r \<and> run_Seq x = run_Seq r) (w_runs w)
      then (Inl ErrUnique, w)
      else exec f ''Runs.Create'' (run_ID r) () (w_runs_update (\<lambda>t. t @ [r])) w)"

definition Runs_BranchInUse :: "faults \<Rightarrow> string \<Rightarrow> string \<Rightarrow> World \<Rightarrow> bool res" where
  "Runs_BranchInUse f pid branch w = query f ''Runs.BranchInUse'' branch
     (list_ex (\<lambda>r. run_ProjectID r = pid \<and> run_Branch r = Some branch) (w_runs w))"

definition Runs_ForProject :: "faults \<Rightarrow> string \<Rightarrow> World \<Rightarrow> Run list res" where
  "Runs_ForProject f pid w = query f ''Runs.ForProject'' pid
     (rev (sort_key run_Seq (filter (\<lambda>r. run_ProjectID r = pid) (w_runs w))))"

definition Runs_ForTicket :: "faults \<Rightarrow> string \<Rightarrow> World \<Rightarrow> Run list res" where
  "Runs_ForTicket f tid w = query f ''Runs.ForTicket'' tid
     (rev (sort_key queue_key (filter (\<lambda>r. run_TicketID r = Some tid) (w_runs w))))"

definition Runs_LatestForAgentOnBranch :: "faults \<Rightarrow> string \<Rightarrow> string \<Rightarrow> string \<Rightarrow> World \<Rightarrow> Run res" where
  "Runs_LatestForAgentOnBranch f pid aid branch w = query_row f ''Runs.LatestForAgentOnBranch'' aid
     (newest_by (\<lambda>r. (if Terminal (run_State r) then 0 else 1 :: int, queue_key r))
        (filter (\<lambda>r. run_ProjectID r = pid \<and> run_AgentID r = aid \<and> run_Branch r = Some branch)
           (w_runs w)))"

definition Runs_SetCurrentStep :: "faults \<Rightarrow> string \<Rightarrow> string \<Rightarrow> World \<Rightarrow> unit res \<times> World" where
  "Runs_SetCurrentStep f i step w = exec_one f ''Runs.SetCurrentStep'' i
     (rows_affected (\<lambda>r. run_ID r = i) (w_runs w))
     (w_runs_update (update_where (\<lambda>r. run_ID r = i) (run_CurrentStep_update (\<lambda>_. step)))) w"

record AgentRunStats =
  RunsSince :: int
  SpendCentsSince :: int
  Ended :: int
  Succeeded :: int

definition count_if :: "('a \<Rightarrow> bool) \<Rightarrow> 'a list \<Rightarrow> int" where
  "count_if p xs = int (length (filter p xs))"

definition Runs_StatsForProjectAgents ::
  "faults \<Rightarrow> string \<Rightarrow> string \<Rightarrow> World \<Rightarrow> (string \<Rightarrow> AgentRunStats option) res" where
  "Runs_StatsForProjectAgents f pid since w = query f ''Runs.StatsForProjectAgents'' pid
     (\<lambda>aid. let rs = filter (\<lambda>r. run_ProjectID r = pid \<and> run_AgentID r = aid) (w_runs w) in
        if rs = [] then None
        else Some \<lparr>
          RunsSince = count_if (\<lambda>r. since \<le> run_QueuedAt r) rs,
          SpendCentsSince = sum_list (map run_CostCents (filter (\<lambda>r. since \<le> run_QueuedAt r) rs)),
          Ended = count_if (\<lambda>r. Terminal (run_State r)) rs,
          Succeeded = count_if (\<lambda>r. run_State r = RunCompleted) rs \<rparr>)"

text \<open>The probes of the loop guard: \<^verbatim>\<open>loop_stopped\<close> rows are not started work.\<close>

definition Runs_LatestOnSubject :: "faults \<Rightarrow> string \<Rightarrow> string \<Rightarrow> string \<Rightarrow> World \<Rightarrow> Run res" where
  "Runs_LatestOnSubject f trg subj cutoff w = query_row f ''Runs.LatestOnSubject'' trg
     (newest_by queue_key
        (filter (\<lambda>r. run_TriggerID r = Some trg \<and> run_SubjectKey r = subj \<and>
                     cutoff \<le> run_QueuedAt r \<and> run_State r \<noteq> RunLoopStopped) (w_runs w)))"

definition Runs_ActiveOnSubject :: "faults \<Rightarrow> string \<Rightarrow> string \<Rightarrow> World \<Rightarrow> Run res" where
  "Runs_ActiveOnSubject f trg subj w = query_row f ''Runs.ActiveOnSubject'' trg
     (newest_by queue_key
        (filter (\<lambda>r. run_TriggerID r = Some trg \<and> run_SubjectKey r = subj \<and>
                     \<not> Terminal (run_State r)) (w_runs w)))"

text \<open>
  \<^verbatim>\<open>json_extract(payload, '$.outer.inner') = ?\<close> against a text parameter: the columns it
  compares are text, since the poller writes review ids as strings.
\<close>

definition payload_text :: "raw_json \<Rightarrow> string \<Rightarrow> string \<Rightarrow> string option" where
  "payload_text p outer inner =
     (case p of Raw (JObj kvs) \<Rightarrow>
        (case map_of kvs outer of Some (JObj kvs') \<Rightarrow>
           (case map_of kvs' inner of Some (JStr s) \<Rightarrow> Some s | _ \<Rightarrow> None)
         | _ \<Rightarrow> None)
      | _ \<Rightarrow> None)"

definition Runs_LatestForReview ::
  "faults \<Rightarrow> string \<Rightarrow> string \<Rightarrow> string \<Rightarrow> int \<Rightarrow> string \<Rightarrow> World \<Rightarrow> Run res" where
  "Runs_LatestForReview f trg pid kind num rid w = query_row f ''Runs.LatestForReview'' trg
     (newest_by queue_key
        (filter (\<lambda>r. run_TriggerID r = Some trg \<and> run_State r \<noteq> RunLoopStopped \<and>
            list_ex (\<lambda>e. run_CauseEventID r = Some (ev_ID e) \<and> ev_ProjectID e = Some pid \<and>
                ev_SubjectKind e = kind \<and> ev_SubjectNumber e = Some num \<and>
                (payload_text (ev_Payload e) ''review'' ''id'' = Some rid \<or>
                 payload_text (ev_Payload e) ''comment'' ''review_id'' = Some rid)) (w_events w))
           (w_runs w)))"

definition Runs_ByCauseEvent :: "faults \<Rightarrow> string \<Rightarrow> World \<Rightarrow> Run list res" where
  "Runs_ByCauseEvent f eid w = query f ''Runs.ByCauseEvent'' eid
     (sort_key queue_key (filter (\<lambda>r. run_CauseEventID r = Some eid) (w_runs w)))"

section \<open>The scheduler's write surface\<close>

record RunStateUpdate =
  su_StateReason :: "string option"
  su_HoldReason :: "string option"
  su_ErrorMessage :: "string option"
  su_StartedAt :: "string option"
  su_EndedAt :: "string option"

definition empty_update :: RunStateUpdate where
  "empty_update = \<lparr> su_StateReason = None, su_HoldReason = None, su_ErrorMessage = None,
                    su_StartedAt = None, su_EndedAt = None \<rparr>"

fun if_set :: "'a option \<Rightarrow> ('a \<Rightarrow> 'r \<Rightarrow> 'r) \<Rightarrow> 'r \<Rightarrow> 'r" where
  "if_set None g r = r"
| "if_set (Some v) g r = g v r"

definition apply_state :: "RunState \<Rightarrow> RunStateUpdate \<Rightarrow> Run \<Rightarrow> Run" where
  "apply_state to u r =
     if_set (su_EndedAt u) (\<lambda>v. run_EndedAt_update (\<lambda>_. Some v))
     (if_set (su_StartedAt u) (\<lambda>v. run_StartedAt_update (\<lambda>_. Some v))
     (if_set (su_ErrorMessage u) (\<lambda>v. run_ErrorMessage_update (\<lambda>_. v))
     (if_set (su_HoldReason u) (\<lambda>v. run_HoldReason_update (\<lambda>_. v))
     (if_set (su_StateReason u) (\<lambda>v. run_StateReason_update (\<lambda>_. v))
     (run_State_update (\<lambda>_. to) r)))))"

definition Runs_SetState ::
  "faults \<Rightarrow> string \<Rightarrow> RunState list \<Rightarrow> RunState \<Rightarrow> RunStateUpdate \<Rightarrow> World \<Rightarrow> bool res \<times> World" where
  "Runs_SetState f i from_states to u w =
     (let p = (\<lambda>r. run_ID r = i \<and> (from_states = [] \<or> run_State r \<in> set from_states)) in
      exec f ''Runs.SetState'' i (0 < rows_affected p (w_runs w))
        (w_runs_update (update_where p (apply_state to u))) w)"

definition Runs_SetHoldReason :: "faults \<Rightarrow> string \<Rightarrow> string \<Rightarrow> World \<Rightarrow> unit res \<times> World" where
  "Runs_SetHoldReason f i reason w = exec f ''Runs.SetHoldReason'' i ()
     (w_runs_update (update_where (\<lambda>r. run_ID r = i \<and> run_State r = RunQueued)
        (run_HoldReason_update (\<lambda>_. reason)))) w"

definition null_if_empty :: "string \<Rightarrow> string option" where
  "null_if_empty s = (if s = [] then None else Some s)"

definition Runs_SetProvisioned ::
  "faults \<Rightarrow> string \<Rightarrow> string \<Rightarrow> string \<Rightarrow> string \<Rightarrow> string \<Rightarrow> World \<Rightarrow> unit res \<times> World" where
  "Runs_SetProvisioned f i instid cid branch sha w = exec_one f ''Runs.SetProvisioned'' i
     (rows_affected (\<lambda>r. run_ID r = i) (w_runs w))
     (w_runs_update (update_where (\<lambda>r. run_ID r = i)
        (\<lambda>r. r\<lparr> run_InstanceID := Some instid, run_ContainerID := null_if_empty cid,
               run_Branch := null_if_empty branch, run_BaseSHA := null_if_empty sha \<rparr>))) w"

definition Runs_SetLogOffset :: "faults \<Rightarrow> string \<Rightarrow> int \<Rightarrow> World \<Rightarrow> unit res \<times> World" where
  "Runs_SetLogOffset f i off w = exec f ''Runs.SetLogOffset'' i ()
     (w_runs_update (update_where (\<lambda>r. run_ID r = i \<and> run_LogOffset r < off)
        (run_LogOffset_update (\<lambda>_. off)))) w"

definition Runs_AddUsage :: "faults \<Rightarrow> string \<Rightarrow> UsageDelta \<Rightarrow> World \<Rightarrow> unit res \<times> World" where
  "Runs_AddUsage f i d w = exec f ''Runs.AddUsage'' i ()
     (w_runs_update (update_where (\<lambda>r. run_ID r = i)
        (\<lambda>r. r\<lparr> run_CostCents := run_CostCents r + ud_CostCents d,
               run_TokensIn := run_TokensIn r + ud_TokensIn d,
               run_TokensOut := run_TokensOut r + ud_TokensOut d,
               run_TokensCacheRead := run_TokensCacheRead r + ud_TokensCacheRead d,
               run_TokensCacheWrite := run_TokensCacheWrite r + ud_TokensCacheWrite d \<rparr>))) w"

definition Runs_SetStepCount :: "faults \<Rightarrow> string \<Rightarrow> int \<Rightarrow> World \<Rightarrow> unit res \<times> World" where
  "Runs_SetStepCount f i n w = exec f ''Runs.SetStepCount'' i ()
     (w_runs_update (update_where (\<lambda>r. run_ID r = i) (run_StepCount_update (\<lambda>_. n)))) w"

text \<open>The states that hold, or are about to hold, a container.\<close>

definition active_state :: "RunState \<Rightarrow> bool" where
  "active_state s \<longleftrightarrow> s \<in> {RunProvisioning, RunRunning, RunNeedsInput, RunAwaitingApproval}"

lemma active_state_simps [simp]:
  "active_state RunProvisioning" "active_state RunRunning" "active_state RunNeedsInput"
  "active_state RunAwaitingApproval" "\<not> active_state RunQueued" "\<not> active_state RunCompleted"
  "\<not> active_state RunFailed" "\<not> active_state RunTimedOut" "\<not> active_state RunCanceled"
  "\<not> active_state RunLoopStopped"
  by (simp_all add: active_state_def)

definition Runs_ByStates :: "faults \<Rightarrow> RunState list \<Rightarrow> World \<Rightarrow> Run list res" where
  "Runs_ByStates f states w =
     (if states = [] then Inr []
      else query f ''Runs.ByStates'' ''''
        (sort_key queue_key (filter (\<lambda>r. run_State r \<in> set states) (w_runs w))))"

definition Runs_ActiveCountByAgent :: "faults \<Rightarrow> World \<Rightarrow> (string \<Rightarrow> int) res" where
  "Runs_ActiveCountByAgent f w = query f ''Runs.ActiveCountByAgent'' ''''
     (\<lambda>aid. count_if (\<lambda>r. active_state (run_State r) \<and> run_AgentID r = aid) (w_runs w))"

definition Runs_ActiveCount :: "faults \<Rightarrow> World \<Rightarrow> int res" where
  "Runs_ActiveCount f w = query f ''Runs.ActiveCount'' ''''
     (count_if (\<lambda>r. active_state (run_State r)) (w_runs w))"

definition Runs_NonTerminalCountForProject :: "faults \<Rightarrow> string \<Rightarrow> World \<Rightarrow> int res" where
  "Runs_NonTerminalCountForProject f pid w = query f ''Runs.NonTerminalCountForProject'' pid
     (count_if (\<lambda>r. run_ProjectID r = pid \<and> (run_State r = RunQueued \<or> active_state (run_State r)))
        (w_runs w))"

definition Runs_ActiveForTicket :: "faults \<Rightarrow> string \<Rightarrow> World \<Rightarrow> Run list res" where
  "Runs_ActiveForTicket f tid w = query f ''Runs.ActiveForTicket'' tid
     (sort_key queue_key
        (filter (\<lambda>r. run_TicketID r = Some tid \<and> \<not> Terminal (run_State r)) (w_runs w)))"

definition needs_you :: "Run \<Rightarrow> bool" where
  "needs_you r \<longleftrightarrow> run_State r \<in> {RunNeedsInput, RunAwaitingApproval} \<or>
     run_State r \<in> {RunFailed, RunLoopStopped} \<and> run_AcknowledgedAt r = None"

definition Runs_NeedsYou :: "faults \<Rightarrow> string \<Rightarrow> World \<Rightarrow> Run list res" where
  "Runs_NeedsYou f pid w = query f ''Runs.NeedsYou'' pid
     (sort_key queue_key (filter (\<lambda>r. run_ProjectID r = pid \<and> needs_you r) (w_runs w)))"

definition Runs_NeedsYouAll :: "faults \<Rightarrow> World \<Rightarrow> Run list res" where
  "Runs_NeedsYouAll f w = query f ''Runs.NeedsYouAll'' ''''
     (sort_key queue_key (filter needs_you (w_runs w)))"

definition Runs_Acknowledge :: "faults \<Rightarrow> string \<Rightarrow> string \<Rightarrow> World \<Rightarrow> unit res \<times> World" where
  "Runs_Acknowledge f i ts w = exec_one f ''Runs.Acknowledge'' i
     (rows_affected (\<lambda>r. run_ID r = i \<and> Terminal (run_State r)) (w_runs w))
     (w_runs_update (update_where (\<lambda>r. run_ID r = i \<and> Terminal (run_State r))
        (run_AcknowledgedAt_update (\<lambda>_. Some ts)))) w"

definition Runs_SetTakeoverNote :: "faults \<Rightarrow> string \<Rightarrow> string \<Rightarrow> World \<Rightarrow> unit res \<times> World" where
  "Runs_SetTakeoverNote f i note w = exec_one f ''Runs.SetTakeoverNote'' i
     (rows_affected (\<lambda>r. run_ID r = i) (w_runs w))
     (w_runs_update (update_where (\<lambda>r. run_ID r = i) (run_TakeoverNote_update (\<lambda>_. note)))) w"

definition Runs_LatestTakeoverNote :: "faults \<Rightarrow> string \<Rightarrow> World \<Rightarrow> (string \<times> int) res" where
  "Runs_LatestTakeoverNote f tid w =
     (case query_row f ''Runs.LatestTakeoverNote'' tid
        (newest_by queue_key
           (filter (\<lambda>r. run_TicketID r = Some tid \<and> run_TakeoverNote r \<noteq> []) (w_runs w))) of
        Inl e \<Rightarrow> if e = ErrNotFound then Inr ([], 0) else Inl e
      | Inr r \<Rightarrow> Inr (run_TakeoverNote r, run_Seq r))"

record RunFilter =
  rf_States :: "RunState list"
  rf_AgentID :: string
  rf_TicketID :: string

definition Runs_ForProjectFiltered :: "faults \<Rightarrow> string \<Rightarrow> RunFilter \<Rightarrow> World \<Rightarrow> Run list res" where
  "Runs_ForProjectFiltered f pid rf w = query f ''Runs.ForProjectFiltered'' pid
     (rev (sort_key run_Seq (filter (\<lambda>r. run_ProjectID r = pid \<and>
        (rf_States rf = [] \<or> run_State r \<in> set (rf_States rf)) \<and>
        (rf_AgentID rf = [] \<or> run_AgentID r = rf_AgentID rf) \<and>
        (rf_TicketID rf = [] \<or> run_TicketID r = Some (rf_TicketID rf))) (w_runs w))))"

section \<open>The runs table as a keyed table\<close>

interpretation runs_table: keyed_table run_ID .

lemma if_set_run_ID [simp]:
  "(\<And>v r. run_ID (g v r) = run_ID r) \<Longrightarrow> run_ID (if_set o' g r) = run_ID r"
  by (cases o') simp_all

lemma apply_state_fields [simp]:
  "run_ID (apply_state to u r) = run_ID r"
  "run_State (apply_state to u r) = to"
  "run_Seq (apply_state to u r) = run_Seq r"
  "run_ProjectID (apply_state to u r) = run_ProjectID r"
  "run_AgentID (apply_state to u r) = run_AgentID r"
  "run_TicketID (apply_state to u r) = run_TicketID r"
  "run_QueuedAt (apply_state to u r) = run_QueuedAt r"
  "run_StepCount (apply_state to u r) = run_StepCount r"
  "run_LogOffset (apply_state to u r) = run_LogOffset r"
  by (cases "su_EndedAt u"; cases "su_StartedAt u"; cases "su_ErrorMessage u";
      cases "su_HoldReason u"; cases "su_StateReason u"; simp add: apply_state_def)+

lemma apply_state_ended [simp]:
  "run_EndedAt (apply_state to u r) = (case su_EndedAt u of None \<Rightarrow> run_EndedAt r | Some t \<Rightarrow> Some t)"
  by (cases "su_EndedAt u"; cases "su_StartedAt u"; cases "su_ErrorMessage u";
      cases "su_HoldReason u"; cases "su_StateReason u"; simp add: apply_state_def)

text \<open>A run of the world by its id; \<^verbatim>\<open>state_of\<close> is what the properties speak about.\<close>

definition run_of :: "World \<Rightarrow> string \<Rightarrow> Run option" where
  "run_of w i = find_row run_ID i (w_runs w)"

definition state_of :: "World \<Rightarrow> string \<Rightarrow> RunState option" where
  "state_of w i = map_option run_State (run_of w i)"

definition runs_wf :: "World \<Rightarrow> bool" where
  "runs_wf w \<longleftrightarrow> distinct (map run_ID (w_runs w)) \<and>
                distinct (map (\<lambda>r. (run_ProjectID r, run_Seq r)) (w_runs w))"

lemma Runs_ByID_Inr [simp]: "Runs_ByID f i w = Inr r \<longleftrightarrow> f ''Runs.ByID'' i = None \<and> run_of w i = Some r"
  by (simp add: Runs_ByID_def run_of_def)

lemma run_of_ID: "run_of w i = Some r \<Longrightarrow> run_ID r = i"
  by (auto simp: run_of_def dest: find_row_Some)

lemma run_of_mem: "run_of w i = Some r \<Longrightarrow> r \<in> set (w_runs w)"
  by (auto simp: run_of_def dest: find_row_Some)

lemma mem_run_of: "runs_wf w \<Longrightarrow> r \<in> set (w_runs w) \<Longrightarrow> run_of w (run_ID r) = Some r"
  by (simp add: run_of_def runs_wf_def runs_table.distinct_find)

text \<open>A statement that keeps every row's key keeps the table well formed.\<close>

lemma runs_wf_update_where:
  assumes "runs_wf w"
    and "\<And>r. run_ID (g r) = run_ID r" "\<And>r. run_ProjectID (g r) = run_ProjectID r"
    and "\<And>r. run_Seq (g r) = run_Seq r"
  shows "runs_wf (w_runs_update (update_where p g) w)"
proof -
  have "map run_ID (update_where p g t) = map run_ID t" for t
    using assms(2) by (rule runs_table.keys_update)
  moreover have "map (\<lambda>r. (run_ProjectID r, run_Seq r)) (update_where p g t)
      = map (\<lambda>r. (run_ProjectID r, run_Seq r)) t" for t
    by (induction t) (simp_all add: update_where_Cons assms)
  ultimately show ?thesis using assms(1) by (simp add: runs_wf_def)
qed

lemma run_of_update_where:
  assumes "\<And>r. run_ID (g r) = run_ID r"
  shows "run_of (w_runs_update (update_where (\<lambda>r. run_ID r = i \<and> p r) g) w) k =
    (if k = i then map_option (\<lambda>r. if p r then g r else r) (run_of w i) else run_of w k)"
proof (cases "k = i")
  case True
  show ?thesis
  proof (cases "run_of w i")
    case None
    then show ?thesis
      using runs_table.find_update_none [OF _ assms, of i "w_runs w"] True by (simp add: run_of_def)
  next
    case (Some r)
    then show ?thesis
      using runs_table.find_update_same [OF _ assms, of i "w_runs w" r] True by (simp add: run_of_def)
  qed
next
  case False
  then show ?thesis
    using runs_table.find_update_other [OF False assms] by (simp add: run_of_def)
qed

lemma rows_affected_run_of:
  "runs_wf w \<Longrightarrow> 0 < rows_affected (\<lambda>r. run_ID r = i \<and> p r) (w_runs w)
     \<longleftrightarrow> (\<exists>r. run_of w i = Some r \<and> p r)"
  unfolding rows_affected_pos
  by (metis mem_run_of run_of_ID run_of_mem)

section \<open>What the write surface guarantees\<close>

text \<open>
  \<^verbatim>\<open>SetState\<close> is a compare-and-set: it answers true exactly when the row existed in one of the
  expected states, then only that row changed, and it changed to the target.
\<close>

lemma SetState_cas:
  assumes "runs_wf w" and "Runs_SetState f i from_states to u w = (Inr ok, w')"
  shows "ok \<longleftrightarrow> (\<exists>r. run_of w i = Some r \<and> (from_states = [] \<or> run_State r \<in> set from_states))"
    and "ok \<Longrightarrow> state_of w' i = Some to"
    and "\<not> ok \<Longrightarrow> run_of w' i = run_of w i"
    and "k \<noteq> i \<Longrightarrow> run_of w' k = run_of w k"
    and "runs_wf w'"
proof -
  let ?p = "\<lambda>r. from_states = [] \<or> run_State r \<in> set from_states"
  have ok: "ok = (0 < rows_affected (\<lambda>r. run_ID r = i \<and> ?p r) (w_runs w))"
    and w': "w' = w_runs_update (update_where (\<lambda>r. run_ID r = i \<and> ?p r) (apply_state to u)) w"
    using assms(2) by (auto simp: Runs_SetState_def exec_def Let_def split: option.splits)
  show 1: "ok \<longleftrightarrow> (\<exists>r. run_of w i = Some r \<and> ?p r)"
    unfolding ok by (rule rows_affected_run_of [OF assms(1)])
  have at: "run_of w' k = (if k = i then map_option (\<lambda>r. if ?p r then apply_state to u r else r) (run_of w i)
      else run_of w k)" for k
    unfolding w' by (rule run_of_update_where) simp
  show "ok \<Longrightarrow> state_of w' i = Some to" using 1 at [of i] by (auto simp: state_of_def)
  show "\<not> ok \<Longrightarrow> run_of w' i = run_of w i" using 1 at [of i] by (cases "run_of w i") auto
  show "k \<noteq> i \<Longrightarrow> run_of w' k = run_of w k" using at [of k] by simp
  show "runs_wf w'" unfolding w' by (rule runs_wf_update_where [OF assms(1)]) simp_all
qed

text \<open>A number minted by \<^verbatim>\<open>NextSeq\<close> is larger than every number of the project.\<close>

lemma fold_max_upper: "(x :: int) \<in> set xs \<Longrightarrow> x \<le> fold max xs m"
  by (metis List.finite_set Max_ge Max.set_eq_fold finite_insert insertI2 list.set(2))

lemma NextSeq_fresh:
  assumes "Runs_NextSeq f pid w = Inr n" and "r \<in> set (w_runs w)" and "run_ProjectID r = pid"
  shows "run_Seq r < n"
proof -
  have "n = fold max (map run_Seq (filter (\<lambda>r. run_ProjectID r = pid) (w_runs w))) 0 + 1"
    using assms(1) by (simp add: Runs_NextSeq_def)
  moreover have "run_Seq r \<in> set (map run_Seq (filter (\<lambda>r. run_ProjectID r = pid) (w_runs w)))"
    using assms(2,3) by auto
  ultimately show ?thesis using fold_max_upper by fastforce
qed

lemma Runs_Create_wf:
  assumes "runs_wf w" and "Runs_Create f r w = (x, w')"
  shows "runs_wf w'"
proof (cases "w' = w")
  case False
  then have fresh: "\<forall>x \<in> set (w_runs w). run_ID x \<noteq> run_ID r \<and>
        \<not> (run_ProjectID x = run_ProjectID r \<and> run_Seq x = run_Seq r)"
    and w': "w' = w_runs_update (\<lambda>t. t @ [r]) w"
    using assms(2) by (auto simp: Runs_Create_def exec_def list_ex_iff split: if_splits option.splits)
  have "run_ID r \<notin> run_ID ` set (w_runs w)"
    and "(run_ProjectID r, run_Seq r) \<notin> (\<lambda>r. (run_ProjectID r, run_Seq r)) ` set (w_runs w)"
    using fresh by force+
  then show ?thesis using assms(1) by (simp add: w' runs_wf_def)
qed (use assms(1) in simp)

end
