(* ===== verification/Samples.thy ===== *)
theory Samples
  imports StoreRuns
begin

text \<open>
  Blank rows: every column at Go's zero value (an enumeration at its first constant), and a world
  without rows. The witnesses of the properties build their concrete inputs from them.
\<close>

definition blank_AgentPermissions :: AgentPermissions where
  "blank_AgentPermissions = \<lparr>
     perm_ReadFiles = False, perm_EditFiles = False, perm_RunCommands = False,
     perm_PushBranches = False, perm_OpenPRs = False, perm_CommentPRs = False,
     perm_SubmitReviews = False, perm_CreateWikiPages = False \<rparr>"

definition blank_Run :: Run where
  "blank_Run = \<lparr>
     run_ID = '''', run_Seq = 0, run_ProjectID = '''', run_AgentID = '''',
     run_TicketID = None, run_TriggerID = None, run_CauseEventID = None,
     run_ParentRunID = None, run_RequestedByUserID = None, run_State = RunQueued,
     run_StateReason = '''', run_HoldReason = '''', run_Autonomy = AutonomySuggest,
     run_DirectiveVersionID = None, run_Model = '''', run_Effort = '''', run_Prompt = '''',
     run_RuntimeID = '''', run_SandboxID = '''', run_ContainerID = None,
     run_InstanceID = None, run_LogOffset = 0, run_Branch = None, run_BaseSHA = None,
     run_Depth = 0, run_SubjectKey = '''', run_CurrentStep = '''', run_CostCents = 0,
     run_TokensIn = 0, run_TokensOut = 0, run_TokensCacheRead = 0, run_TokensCacheWrite = 0,
     run_StepCount = 0, run_ErrorMessage = '''', run_TakeoverNote = '''', run_QueuedAt = '''',
     run_StartedAt = None, run_EndedAt = None, run_AcknowledgedAt = None \<rparr>"

definition blank_RunMessage :: RunMessage where
  "blank_RunMessage = \<lparr>
     rm_ID = '''', rm_RunID = '''', rm_Body = '''', rm_AuthorID = None,
     rm_State = MessageQueued, rm_CreatedAt = '''', rm_DeliveredAt = None \<rparr>"

definition blank_RunOutput :: RunOutput where
  "blank_RunOutput = \<lparr>
     ro_ID = '''', ro_RunID = '''', ro_Kind = OutputBranch, ro_Ref = '''', ro_URL = '''',
     ro_Summary = '''', ro_CreatedAt = '''' \<rparr>"

definition blank_RunContextItem :: RunContextItem where
  "blank_RunContextItem = \<lparr>
     rc_ID = '''', rc_RunID = '''', rc_Provider = '''', rc_SourceKind = '''',
     rc_SourceRef = '''', rc_Title = '''', rc_Reason = '''', rc_Tokens = 0, rc_Position = 0,
     rc_Injected = False \<rparr>"

definition blank_Activity :: Activity where
  "blank_Activity = \<lparr>
     act_RunID = '''', act_Seq = 0, act_Type = ActivityThought, act_Level = 0,
     act_ToolName = '''', act_GroupKey = '''', act_Title = '''', act_Payload = RawEmpty,
     act_OK = None, act_Attempt = 0, act_DurationMS = None, act_QueuedMS = None,
     act_ModelMS = None, act_ToolMS = None, act_CostCents = 0, act_TokensIn = 0,
     act_TokensOut = 0, act_TokensCacheRead = 0, act_CreatedAt = '''' \<rparr>"

definition blank_Elicitation :: Elicitation where
  "blank_Elicitation = \<lparr>
     el_ID = '''', el_RunID = '''', el_ActivitySeq = 0, el_Kind = ElicitationQuestion,
     el_Request = RawEmpty, el_State = ElicitationPending, el_Response = RawEmpty,
     el_RespondedBy = None, el_RespondedAt = None, el_CreatedAt = '''' \<rparr>"

definition blank_Event :: Event where
  "blank_Event = \<lparr>
     ev_ID = '''', ev_ProjectID = None, ev_Source = '''', ev_Kind = '''',
     ev_ActivityType = '''', ev_ActorKind = ActorHuman, ev_ActorID = None,
     ev_ActorLogin = None, ev_ActorEmail = None, ev_SubjectKind = '''', ev_SubjectID = None,
     ev_SubjectNumber = None, ev_SubjectBranch = None, ev_Payload = RawEmpty,
     ev_CauseRunID = None, ev_DedupeKey = '''', ev_DispatchState = DispatchPending,
     ev_OccurredAt = '''', ev_CreatedAt = '''' \<rparr>"

definition blank_Trigger :: Trigger where
  "blank_Trigger = \<lparr>
     tr_ID = '''', tr_ProjectID = '''', tr_Name = '''', tr_Enabled = False,
     tr_SourceID = '''', tr_Event = '''', tr_ActivityTypes = RawEmpty, tr_Filters = RawEmpty,
     tr_Conditions = RawEmpty, tr_Actions = RawEmpty, tr_LoopConfig = RawEmpty,
     tr_Cron = None, tr_CreatedBy = None, tr_CreatedAt = '''', tr_UpdatedAt = '''' \<rparr>"

definition blank_TriggerFiring :: TriggerFiring where
  "blank_TriggerFiring = \<lparr>
     tf_ID = '''', tf_TriggerID = '''', tf_EventID = '''', tf_Outcome = FiringSucceeded,
     tf_Reason = '''', tf_RunID = None, tf_AbsorbedByRunID = None, tf_Warnings = RawEmpty,
     tf_CreatedAt = '''' \<rparr>"

definition blank_Ticket :: Ticket where
  "blank_Ticket = \<lparr>
     tk_ID = '''', tk_ProjectID = '''', tk_Seq = 0, tk_Key = '''', tk_Title = '''',
     tk_Description = '''', tk_ColumnID = '''', tk_Position = 0, tk_Priority = PriorityNone,
     tk_AssigneeID = None, tk_DelegateAgentID = None, tk_ParentID = None, tk_PRNumber = None,
     tk_PRState = None, tk_PRChecks = None, tk_PRAdditions = None, tk_PRDeletions = None,
     tk_Branch = None, tk_Origin = OriginHuman, tk_CreatedByUserID = None,
     tk_CreatedByAgentID = None, tk_ArchivedAt = None, tk_CreatedAt = '''',
     tk_UpdatedAt = '''' \<rparr>"

definition blank_StreamEntry :: StreamEntry where
  "blank_StreamEntry = \<lparr>
     se_ID = '''', se_TicketID = '''', se_Kind = StreamComment, se_ActorKind = ActorHuman,
     se_ActorID = None, se_Body = '''', se_Payload = RawEmpty, se_RunID = None,
     se_EditedAt = None, se_CreatedAt = '''' \<rparr>"

definition blank_TriageItem :: TriageItem where
  "blank_TriageItem = \<lparr>
     ti_ID = '''', ti_TicketID = '''', ti_Provenance = '''', ti_SourceTriggerID = None,
     ti_SourceRunID = None, ti_State = TriagePending, ti_DuplicateOf = None, ti_Reason = '''',
     ti_SnoozeUntil = None, ti_ResolvedBy = None, ti_ResolvedAt = None, ti_CreatedAt = '''' \<rparr>"

definition blank_Column :: Column where
  "blank_Column = \<lparr>
     col_ID = '''', col_ProjectID = '''', col_Name = '''', col_Category = CategoryBacklog,
     col_Position = 0, col_WIPLimit = None, col_AutoStartDelegate = False,
     col_CreatedAt = '''', col_UpdatedAt = '''' \<rparr>"

definition blank_Project :: Project where
  "blank_Project = \<lparr>
     prj_ID = '''', prj_Key = '''', prj_Name = '''', prj_Description = '''', prj_Color = '''',
     prj_OwnerID = '''', prj_AgentGuidance = '''', prj_DailyBudgetCents = None,
     prj_ContextThresholdTokens = None, prj_VerificationDays = None,
     prj_PRSizeWarningLines = None, prj_TicketSeq = 0, prj_ArchivedAt = None,
     prj_CreatedAt = '''', prj_UpdatedAt = '''' \<rparr>"

definition blank_Agent :: Agent where
  "blank_Agent = \<lparr>
     ag_ID = '''', ag_ProjectID = '''', ag_Name = '''', ag_Role = '''', ag_Color = '''',
     ag_RuntimeID = '''', ag_Model = '''', ag_Effort = '''', ag_Autonomy = AutonomySuggest,
     ag_Permissions = blank_AgentPermissions, ag_GitAuthorName = '''',
     ag_GitAuthorEmail = '''', ag_ForgeLogin = None, ag_ForgeTokenSecretID = None,
     ag_ConcurrencyCap = 0, ag_DailyCapCents = None, ag_MaxWallClockSeconds = 0,
     ag_MaxSteps = 0, ag_Enabled = False, ag_DirectiveVersionID = None, ag_ArchivedAt = None,
     ag_CreatedAt = '''', ag_UpdatedAt = '''' \<rparr>"

definition blank_AgentDirective :: AgentDirective where
  "blank_AgentDirective = \<lparr>
     ad_ID = '''', ad_AgentID = '''', ad_Version = 0, ad_Body = '''', ad_TokenEstimate = 0,
     ad_AuthorID = None, ad_Note = '''', ad_CreatedAt = '''' \<rparr>"

definition blank_AgentPermissionRule :: AgentPermissionRule where
  "blank_AgentPermissionRule = \<lparr>
     pr_ID = '''', pr_AgentID = '''', pr_Tool = '''', pr_Pattern = '''',
     pr_Decision = DecisionAllow, pr_CreatedFromRunID = None, pr_CreatedBy = None,
     pr_CreatedAt = '''' \<rparr>"

definition blank_WorkspaceSettings :: WorkspaceSettings where
  "blank_WorkspaceSettings = \<lparr>
     ws_DefaultBranch = '''', ws_DefaultBranchTemplate = '''', ws_DefaultNetworkPolicy = '''',
     ws_DefaultDailyBudgetCents = 0, ws_DefaultContextThresholdTokens = 0,
     ws_DefaultVerificationDays = 0, ws_MaxConcurrentContainers = 0,
     ws_PollIntervalSeconds = 0, ws_PRSizeWarningLines = 0, ws_UpdatedAt = '''' \<rparr>"

definition blank_Label :: Label where
  "blank_Label = \<lparr> lb_ID = '''', lb_ProjectID = '''', lb_Name = '''', lb_Color = '''' \<rparr>"

definition blank_Criterion :: Criterion where
  "blank_Criterion = \<lparr>
     cr_ID = '''', cr_TicketID = '''', cr_Position = 0, cr_Text = '''', cr_Checked = False,
     cr_CheckedByRunID = None, cr_CheckedByUserID = None, cr_Note = '''', cr_UpdatedAt = '''' \<rparr>"

definition blank_User :: User where
  "blank_User = \<lparr>
     us_ID = '''', us_Email = '''', us_DisplayName = '''', us_PasswordHash = '''', us_Role = RoleOwner,
     us_AvatarColor = '''', us_Prefs = \<lparr> up_RailCollapsed = None, up_Density = None, up_Theme = None,
       up_DefaultVerbosity = None \<rparr>, us_ArchivedAt = None, us_CreatedAt = '''' \<rparr>"

definition blank_World :: World where
  "blank_World = \<lparr>
     w_runs = [], w_tickets = [], w_columns = [], w_projects = [], w_agents = [],
     w_workspace = blank_WorkspaceSettings, w_messages = [], w_elicitations = [],
     w_outputs = [], w_budget = [], w_events = [], w_triggers = [], w_firings = [],
     w_triage = [], w_activities = [], w_context = [], w_stream = [], w_directives = [],
     w_audit = [], w_labels = [], w_ticket_labels = [], w_criteria = [], w_mentions = [],
     w_wiki = [], w_users = [], w_notifications = [], w_frames = [], w_started = [], w_effects = [] \<rparr>"

lemmas blanks =
  blank_AgentPermissions_def blank_Run_def blank_RunMessage_def blank_RunOutput_def
  blank_RunContextItem_def blank_Activity_def blank_Elicitation_def blank_Event_def
  blank_Trigger_def blank_TriggerFiring_def blank_Ticket_def blank_StreamEntry_def
  blank_TriageItem_def blank_Column_def blank_Project_def blank_Agent_def
  blank_AgentDirective_def blank_AgentPermissionRule_def blank_Label_def blank_Criterion_def blank_User_def
  blank_WorkspaceSettings_def blank_World_def

end
