(* ===== verification/StoreFlow.thy ===== *)
theory StoreFlow
  imports StoreRuns Samples
begin

text \<open>
  The repositories of what flows through the system: steering messages, elicitations, outputs and
  the budget ledger of a run, events, triggers and trigger firings
  (\<^verbatim>\<open>internal/kernel/store\<close>: \<^verbatim>\<open>runmessages.go\<close>, \<^verbatim>\<open>elicitations.go\<close>,
  \<^verbatim>\<open>runoutputs.go\<close>, \<^verbatim>\<open>budget.go\<close>, \<^verbatim>\<open>events.go\<close>, \<^verbatim>\<open>triggers.go\<close>,
  \<^verbatim>\<open>firings.go\<close>), and what their guarded statements guarantee.
\<close>

section \<open>Steering messages\<close>

definition msg_order :: "RunMessage \<Rightarrow> string \<times> string" where
  "msg_order m = (rm_CreatedAt m, rm_ID m)"

definition RunMessages_Create :: "faults \<Rightarrow> RunMessage \<Rightarrow> World \<Rightarrow> unit res \<times> World" where
  "RunMessages_Create f m w =
     (if list_ex (\<lambda>x. rm_ID x = rm_ID m) (w_messages w) then (Inl ErrUnique, w)
      else exec f ''RunMessages.Create'' (rm_ID m) () (w_messages_update (\<lambda>t. t @ [m])) w)"

definition RunMessages_QueuedForRun :: "faults \<Rightarrow> string \<Rightarrow> World \<Rightarrow> RunMessage list res" where
  "RunMessages_QueuedForRun f i w = query f ''RunMessages.QueuedForRun'' i
     (sort_key msg_order (filter (\<lambda>m. rm_RunID m = i \<and> rm_State m = MessageQueued) (w_messages w)))"

definition RunMessages_ForRun :: "faults \<Rightarrow> string \<Rightarrow> World \<Rightarrow> RunMessage list res" where
  "RunMessages_ForRun f i w = query f ''RunMessages.ForRun'' i
     (sort_key msg_order (filter (\<lambda>m. rm_RunID m = i) (w_messages w)))"

definition RunMessages_mark ::
  "faults \<Rightarrow> string \<Rightarrow> RunMessageState \<Rightarrow> string option \<Rightarrow> World \<Rightarrow> unit res \<times> World" where
  "RunMessages_mark f i st ts w = exec_one f ''RunMessages.mark'' i
     (rows_affected (\<lambda>m. rm_ID m = i \<and> rm_State m = MessageQueued) (w_messages w))
     (w_messages_update (update_where (\<lambda>m. rm_ID m = i \<and> rm_State m = MessageQueued)
        (\<lambda>m. m\<lparr> rm_State := st, rm_DeliveredAt := ts \<rparr>))) w"

definition RunMessages_MarkDelivered :: "faults \<Rightarrow> string \<Rightarrow> string \<Rightarrow> World \<Rightarrow> unit res \<times> World" where
  "RunMessages_MarkDelivered f i ts w = RunMessages_mark f i MessageDelivered (Some ts) w"

definition RunMessages_DropQueued :: "faults \<Rightarrow> string \<Rightarrow> World \<Rightarrow> nat res \<times> World" where
  "RunMessages_DropQueued f i w = exec f ''RunMessages.DropQueued'' i
     (rows_affected (\<lambda>m. rm_RunID m = i \<and> rm_State m = MessageQueued) (w_messages w))
     (w_messages_update (update_where (\<lambda>m. rm_RunID m = i \<and> rm_State m = MessageQueued)
        (rm_State_update (\<lambda>_. MessageDropped)))) w"

section \<open>Elicitations\<close>

text \<open>\<^verbatim>\<open>rawText\<close>: a JSON column defaults an empty document, so that its CHECK holds.\<close>

fun rawText :: "raw_json \<Rightarrow> raw_json \<Rightarrow> raw_json" where
  "rawText RawEmpty dflt = dflt"
| "rawText r dflt = r"

definition Elicitations_Create :: "faults \<Rightarrow> Elicitation \<Rightarrow> World \<Rightarrow> unit res \<times> World" where
  "Elicitations_Create f e w =
     (if list_ex (\<lambda>x. el_ID x = el_ID e) (w_elicitations w) then (Inl ErrUnique, w)
      else exec f ''Elicitations.Create'' (el_ID e) ()
        (w_elicitations_update (\<lambda>t. t @ [e\<lparr> el_Request := rawText (el_Request e) (Raw (JObj [])) \<rparr>])) w)"

definition Elicitations_ByID :: "faults \<Rightarrow> string \<Rightarrow> World \<Rightarrow> Elicitation res" where
  "Elicitations_ByID f i w = query_row f ''Elicitations.ByID'' i (find_row el_ID i (w_elicitations w))"

definition oldest_first :: "('r \<Rightarrow> 'k::linorder) \<Rightarrow> 'r list \<Rightarrow> 'r option" where
  "oldest_first k rs = (case sort_key k rs of [] \<Rightarrow> None | r # _ \<Rightarrow> Some r)"

definition Elicitations_PendingByRequest ::
  "faults \<Rightarrow> string \<Rightarrow> ElicitationKind \<Rightarrow> raw_json \<Rightarrow> World \<Rightarrow> Elicitation res" where
  "Elicitations_PendingByRequest f i kind req w = query_row f ''Elicitations.PendingByRequest'' i
     (oldest_first el_CreatedAt (filter (\<lambda>e. el_RunID e = i \<and> el_Kind e = kind \<and>
        el_State e = ElicitationPending \<and> el_Request e = rawText req (Raw (JObj []))) (w_elicitations w)))"

definition Elicitations_PendingForRun :: "faults \<Rightarrow> string \<Rightarrow> World \<Rightarrow> Elicitation list res" where
  "Elicitations_PendingForRun f i w = query f ''Elicitations.PendingForRun'' i
     (sort_key el_CreatedAt
        (filter (\<lambda>e. el_RunID e = i \<and> el_State e = ElicitationPending) (w_elicitations w)))"

definition Elicitations_ForRun :: "faults \<Rightarrow> string \<Rightarrow> World \<Rightarrow> Elicitation list res" where
  "Elicitations_ForRun f i w = query f ''Elicitations.ForRun'' i
     (sort_key (\<lambda>e. (el_CreatedAt e, el_ID e)) (filter (\<lambda>e. el_RunID e = i) (w_elicitations w)))"

definition Elicitations_PendingOlderThan :: "faults \<Rightarrow> string \<Rightarrow> World \<Rightarrow> Elicitation list res" where
  "Elicitations_PendingOlderThan f cutoff w = query f ''Elicitations.PendingOlderThan'' cutoff
     (sort_key (\<lambda>e. (el_CreatedAt e, el_ID e))
        (filter (\<lambda>e. el_State e = ElicitationPending \<and> el_CreatedAt e \<le> cutoff) (w_elicitations w)))"

definition Elicitations_Respond ::
  "faults \<Rightarrow> string \<Rightarrow> ElicitationState \<Rightarrow> raw_json \<Rightarrow> string option \<Rightarrow> string \<Rightarrow> World \<Rightarrow> unit res \<times> World" where
  "Elicitations_Respond f i st resp by_user ts w = exec_one f ''Elicitations.Respond'' i
     (rows_affected (\<lambda>e. el_ID e = i \<and> el_State e = ElicitationPending) (w_elicitations w))
     (w_elicitations_update (update_where (\<lambda>e. el_ID e = i \<and> el_State e = ElicitationPending)
        (\<lambda>e. e\<lparr> el_State := st, el_Response := resp, el_RespondedBy := by_user,
               el_RespondedAt := Some ts \<rparr>))) w"

section \<open>Outputs\<close>

definition RunOutputs_Append :: "faults \<Rightarrow> RunOutput \<Rightarrow> World \<Rightarrow> unit res \<times> World" where
  "RunOutputs_Append f ro w =
     (if list_ex (\<lambda>x. ro_ID x = ro_ID ro) (w_outputs w) then (Inl ErrUnique, w)
      else exec f ''RunOutputs.Append'' (ro_ID ro) () (w_outputs_update (\<lambda>t. t @ [ro])) w)"

definition out_order :: "RunOutput \<Rightarrow> string \<times> string" where
  "out_order ro = (ro_CreatedAt ro, ro_ID ro)"

definition RunOutputs_ForRun :: "faults \<Rightarrow> string \<Rightarrow> World \<Rightarrow> RunOutput list res" where
  "RunOutputs_ForRun f i w = query f ''RunOutputs.ForRun'' i
     (sort_key out_order (filter (\<lambda>x. ro_RunID x = i) (w_outputs w)))"

text \<open>SQLite's \<^verbatim>\<open>CAST(text AS INTEGER)\<close>: the longest numeric prefix, 0 where there is none.\<close>

definition is_digit :: "char \<Rightarrow> bool" where
  "is_digit c \<longleftrightarrow> CHR ''0'' \<le> c \<and> c \<le> CHR ''9''"

definition digits_val :: "string \<Rightarrow> int" where
  "digits_val ds = foldl (\<lambda>n c. 10 * n + (of_char c - 48)) 0 ds"

definition sql_cast_int :: "string \<Rightarrow> int" where
  "sql_cast_int s =
     (case dropWhile is_space s of
        CHR ''-'' # cs \<Rightarrow> - digits_val (takeWhile is_digit cs)
      | CHR ''+'' # cs \<Rightarrow> digits_val (takeWhile is_digit cs)
      | cs \<Rightarrow> digits_val (takeWhile is_digit cs))"

record PRTicket =
  prt_TicketID :: string
  prt_RunID :: string
  prt_RunSeq :: int

definition RunOutputs_TicketForPR :: "faults \<Rightarrow> string \<Rightarrow> int \<Rightarrow> World \<Rightarrow> PRTicket res" where
  "RunOutputs_TicketForPR f pid num w = query_row f ''RunOutputs.TicketForPR'' pid
     (map_option (\<lambda>(ro, r). \<lparr> prt_TicketID = the (run_TicketID r), prt_RunID = run_ID r, prt_RunSeq = run_Seq r \<rparr>)
       (oldest_first (\<lambda>(ro, r). out_order ro)
          (filter (\<lambda>(ro, r). ro_Kind ro = OutputPullRequest \<and> ro_RunID ro = run_ID r \<and>
                      run_ProjectID r = pid \<and> sql_cast_int (ro_Ref ro) = num \<and> run_TicketID r \<noteq> None)
             (List.product (w_outputs w) (w_runs w)))))"

section \<open>Activities and context items\<close>

text \<open>\<^verbatim>\<open>(run_id, seq)\<close> is the primary key of the transcript.\<close>

definition stored_activity :: "Activity \<Rightarrow> Activity" where
  "stored_activity a = a\<lparr> act_Payload := rawText (act_Payload a) (Raw (JObj [])) \<rparr>"

definition Activities_Append :: "faults \<Rightarrow> Activity \<Rightarrow> World \<Rightarrow> unit res \<times> World" where
  "Activities_Append f a w =
     (if list_ex (\<lambda>x. act_RunID x = act_RunID a \<and> act_Seq x = act_Seq a) (w_activities w)
      then (Inl ErrUnique, w)
      else exec f ''Activities.Append'' (act_RunID a) () (w_activities_update (\<lambda>t. t @ [stored_activity a])) w)"

definition max_seq :: "string \<Rightarrow> World \<Rightarrow> int" where
  "max_seq i w = fold max (map act_Seq (filter (\<lambda>a. act_RunID a = i) (w_activities w))) (- 1)"

text \<open>The allocated sequence number is written back onto the row: the result is the row as stored.\<close>

definition Activities_AppendNext :: "faults \<Rightarrow> Activity \<Rightarrow> World \<Rightarrow> Activity res \<times> World" where
  "Activities_AppendNext f a w =
     (let a' = a\<lparr> act_Seq := max_seq (act_RunID a) w + 1 \<rparr>
      in exec f ''Activities.AppendNext'' (act_RunID a) a' (w_activities_update (\<lambda>t. t @ [stored_activity a'])) w)"

definition Activities_Update :: "faults \<Rightarrow> Activity \<Rightarrow> World \<Rightarrow> unit res \<times> World" where
  "Activities_Update f a w = exec_one f ''Activities.Update'' (act_RunID a)
     (rows_affected (\<lambda>x. act_RunID x = act_RunID a \<and> act_Seq x = act_Seq a) (w_activities w))
     (w_activities_update (update_where (\<lambda>x. act_RunID x = act_RunID a \<and> act_Seq x = act_Seq a)
        (\<lambda>x. (stored_activity a)\<lparr> act_CreatedAt := act_CreatedAt x \<rparr>))) w"

definition Activities_MaxSeq :: "faults \<Rightarrow> string \<Rightarrow> World \<Rightarrow> int res" where
  "Activities_MaxSeq f i w = query f ''Activities.MaxSeq'' i (max_seq i w)"

definition Activities_ByRunSeq :: "faults \<Rightarrow> string \<Rightarrow> int \<Rightarrow> World \<Rightarrow> Activity res" where
  "Activities_ByRunSeq f i n w = query_row f ''Activities.ByRunSeq'' i
     (find (\<lambda>a. act_RunID a = i \<and> act_Seq a = n) (w_activities w))"

definition Activities_ForRun :: "faults \<Rightarrow> string \<Rightarrow> World \<Rightarrow> Activity list res" where
  "Activities_ForRun f i w = query f ''Activities.ForRun'' i
     (sort_key act_Seq (filter (\<lambda>a. act_RunID a = i) (w_activities w)))"

definition RunContextItems_Create :: "faults \<Rightarrow> RunContextItem \<Rightarrow> World \<Rightarrow> unit res \<times> World" where
  "RunContextItems_Create f it w =
     (if list_ex (\<lambda>x. rc_ID x = rc_ID it) (w_context w) then (Inl ErrUnique, w)
      else exec f ''RunContextItems.Create'' (rc_ID it) () (w_context_update (\<lambda>t. t @ [it])) w)"

definition RunContextItems_ForRun :: "faults \<Rightarrow> string \<Rightarrow> World \<Rightarrow> RunContextItem list res" where
  "RunContextItems_ForRun f i w = query f ''RunContextItems.ForRun'' i
     (sort_key rc_Position (filter (\<lambda>x. rc_RunID x = i) (w_context w)))"

section \<open>The budget ledger\<close>

definition ledger_cell :: "string \<Rightarrow> string \<Rightarrow> string \<Rightarrow> string \<Rightarrow> LedgerRow \<Rightarrow> bool" where
  "ledger_cell day pid aid tid l \<longleftrightarrow> lr_Day l = day \<and> lr_ProjectID l = pid \<and>
     lr_AgentID l = null_if_empty aid \<and> lr_TriggerID l = null_if_empty tid"

definition Budget_Add ::
  "faults \<Rightarrow> string \<Rightarrow> string \<Rightarrow> string \<Rightarrow> string \<Rightarrow> int \<Rightarrow> World \<Rightarrow> unit res \<times> World" where
  "Budget_Add f day pid aid tid cents w =
     (if cents = 0 then (Inr (), w)
      else case exec f ''Budget.Add.update'' pid (rows_affected (ledger_cell day pid aid tid) (w_budget w))
             (w_budget_update (update_where (ledger_cell day pid aid tid)
                (\<lambda>l. l\<lparr> lr_Cents := lr_Cents l + cents \<rparr>))) w of
        (Inl e, w') \<Rightarrow> (Inl e, w')
      | (Inr n, w') \<Rightarrow>
          if 0 < n then (Inr (), w')
          else exec f ''Budget.Add.insert'' pid ()
            (w_budget_update (\<lambda>t. t @ [\<lparr> lr_Day = day, lr_ProjectID = pid, lr_AgentID = null_if_empty aid,
               lr_TriggerID = null_if_empty tid, lr_Cents = cents \<rparr>])) w')"

definition sum_cents :: "(LedgerRow \<Rightarrow> bool) \<Rightarrow> LedgerRow list \<Rightarrow> int" where
  "sum_cents p t = sum_list (map lr_Cents (filter p t))"

definition Budget_ProjectDay :: "faults \<Rightarrow> string \<Rightarrow> string \<Rightarrow> World \<Rightarrow> int res" where
  "Budget_ProjectDay f day pid w = query f ''Budget.ProjectDay'' pid
     (sum_cents (\<lambda>l. lr_Day l = day \<and> lr_ProjectID l = pid) (w_budget w))"

definition Budget_AgentDay :: "faults \<Rightarrow> string \<Rightarrow> string \<Rightarrow> World \<Rightarrow> int res" where
  "Budget_AgentDay f day aid w = query f ''Budget.AgentDay'' aid
     (sum_cents (\<lambda>l. lr_Day l = day \<and> lr_AgentID l = Some aid) (w_budget w))"

definition Budget_TriggerDay :: "faults \<Rightarrow> string \<Rightarrow> string \<Rightarrow> World \<Rightarrow> int res" where
  "Budget_TriggerDay f day tid w = query f ''Budget.TriggerDay'' tid
     (sum_cents (\<lambda>l. lr_Day l = day \<and> lr_TriggerID l = Some tid) (w_budget w))"

section \<open>Events\<close>

definition Events_Insert :: "faults \<Rightarrow> Event \<Rightarrow> World \<Rightarrow> unit res \<times> World" where
  "Events_Insert f e w =
     (if list_ex (\<lambda>x. ev_ID x = ev_ID e \<or> ev_DedupeKey x = ev_DedupeKey e) (w_events w)
      then (Inl ErrUnique, w)
      else exec f ''Events.Insert'' (ev_ID e) ()
        (w_events_update (\<lambda>t. t @ [e\<lparr> ev_Payload := rawText (ev_Payload e) (Raw (JObj [])) \<rparr>])) w)"

definition Events_ByID :: "faults \<Rightarrow> string \<Rightarrow> World \<Rightarrow> Event res" where
  "Events_ByID f i w = query_row f ''Events.ByID'' i (find_row ev_ID i (w_events w))"

definition Events_ListPending :: "faults \<Rightarrow> World \<Rightarrow> Event list res" where
  "Events_ListPending f w = query f ''Events.ListPending'' ''''
     (sort_key (\<lambda>e. (ev_CreatedAt e, ev_ID e)) (filter (\<lambda>e. ev_DispatchState e = DispatchPending) (w_events w)))"

definition Events_SetDispatchState :: "faults \<Rightarrow> string \<Rightarrow> DispatchState \<Rightarrow> World \<Rightarrow> unit res \<times> World" where
  "Events_SetDispatchState f i st w = exec_one f ''Events.SetDispatchState'' i
     (rows_affected (\<lambda>e. ev_ID e = i) (w_events w))
     (w_events_update (update_where (\<lambda>e. ev_ID e = i) (ev_DispatchState_update (\<lambda>_. st)))) w"

definition ev_history :: "Event \<Rightarrow> string \<times> string \<times> string" where
  "ev_history e = (ev_OccurredAt e, ev_CreatedAt e, ev_ID e)"

definition Events_ByCauseRun :: "faults \<Rightarrow> string \<Rightarrow> World \<Rightarrow> Event list res" where
  "Events_ByCauseRun f i w = query f ''Events.ByCauseRun'' i
     (sort_key ev_history (filter (\<lambda>e. ev_CauseRunID e = Some i) (w_events w)))"

definition Events_ForPRSubject :: "faults \<Rightarrow> string \<Rightarrow> int \<Rightarrow> World \<Rightarrow> Event list res" where
  "Events_ForPRSubject f pid num w = query f ''Events.ForPRSubject'' pid
     (sort_key ev_history (filter (\<lambda>e. ev_ProjectID e = Some pid \<and> ev_SubjectKind e = ''pr'' \<and>
        ev_SubjectNumber e = Some num \<and> ev_Kind e \<noteq> ''trigger'') (w_events w)))"

definition Events_SinceForProject :: "faults \<Rightarrow> string \<Rightarrow> string \<Rightarrow> World \<Rightarrow> Event list res" where
  "Events_SinceForProject f pid since w = query f ''Events.SinceForProject'' pid
     (rev (sort_key ev_history (filter (\<lambda>e. ev_ProjectID e = Some pid \<and> ev_Kind e \<noteq> ''trigger'' \<and>
        since \<le> ev_OccurredAt e) (w_events w))))"

definition Events_HasExternalForProject :: "faults \<Rightarrow> string \<Rightarrow> World \<Rightarrow> bool res" where
  "Events_HasExternalForProject f pid w = query f ''Events.HasExternalForProject'' pid
     (list_ex (\<lambda>e. ev_ProjectID e = Some pid \<and> ev_Source e \<noteq> ''internal'') (w_events w))"

definition Events_NewestHumanActionAt ::
  "faults \<Rightarrow> string \<Rightarrow> string \<Rightarrow> int option \<Rightarrow> string option \<Rightarrow> World \<Rightarrow> string res" where
  "Events_NewestHumanActionAt f pid kind num sid w = query f ''Events.NewestHumanActionAt'' pid
     (fold max (map ev_OccurredAt (filter (\<lambda>e. ev_ProjectID e = Some pid \<and> ev_ActorKind e = ActorHuman \<and>
        ev_SubjectKind e = kind \<and> ev_SubjectNumber e = num \<and> ev_SubjectID e = sid) (w_events w))) '''')"

section \<open>Triggers\<close>

definition trig_order :: "Trigger \<Rightarrow> string \<times> string" where
  "trig_order t = (tr_CreatedAt t, tr_ID t)"

definition stored_trigger :: "Trigger \<Rightarrow> Trigger" where
  "stored_trigger t = t\<lparr>
     tr_ActivityTypes := rawText (tr_ActivityTypes t) (Raw (JArr [])),
     tr_Filters := rawText (tr_Filters t) (Raw (JObj [])),
     tr_Conditions := rawText (tr_Conditions t) (Raw (JObj [(''all'', JArr [])])),
     tr_Actions := rawText (tr_Actions t) (Raw (JArr [])),
     tr_LoopConfig := rawText (tr_LoopConfig t) (Raw (JObj [])) \<rparr>"

definition Triggers_Create :: "faults \<Rightarrow> Trigger \<Rightarrow> World \<Rightarrow> unit res \<times> World" where
  "Triggers_Create f t w =
     (if list_ex (\<lambda>x. tr_ID x = tr_ID t) (w_triggers w) then (Inl ErrUnique, w)
      else exec f ''Triggers.Create'' (tr_ID t) () (w_triggers_update (\<lambda>ts. ts @ [stored_trigger t])) w)"

definition Triggers_ForProject :: "faults \<Rightarrow> string \<Rightarrow> World \<Rightarrow> Trigger list res" where
  "Triggers_ForProject f pid w = query f ''Triggers.ForProject'' pid
     (sort_key trig_order (filter (\<lambda>t. tr_ProjectID t = pid) (w_triggers w)))"

definition Triggers_ByID :: "faults \<Rightarrow> string \<Rightarrow> World \<Rightarrow> Trigger res" where
  "Triggers_ByID f i w = query_row f ''Triggers.ByID'' i (find_row tr_ID i (w_triggers w))"

definition Triggers_Enabled :: "faults \<Rightarrow> string \<Rightarrow> World \<Rightarrow> Trigger list res" where
  "Triggers_Enabled f pid w = query f ''Triggers.Enabled'' pid
     (sort_key trig_order (filter (\<lambda>t. tr_ProjectID t = pid \<and> tr_Enabled t) (w_triggers w)))"

definition Triggers_EnabledBySource :: "faults \<Rightarrow> string \<Rightarrow> World \<Rightarrow> Trigger list res" where
  "Triggers_EnabledBySource f src w = query f ''Triggers.EnabledBySource'' src
     (sort_key trig_order (filter (\<lambda>t. tr_SourceID t = src \<and> tr_Enabled t) (w_triggers w)))"

definition Triggers_Update :: "faults \<Rightarrow> Trigger \<Rightarrow> World \<Rightarrow> unit res \<times> World" where
  "Triggers_Update f tr w = exec_one f ''Triggers.Update'' (tr_ID tr)
     (rows_affected (\<lambda>t. tr_ID t = tr_ID tr) (w_triggers w))
     (w_triggers_update (update_where (\<lambda>t. tr_ID t = tr_ID tr)
        (\<lambda>t. (stored_trigger tr)\<lparr> tr_ProjectID := tr_ProjectID t, tr_CreatedBy := tr_CreatedBy t,
               tr_CreatedAt := tr_CreatedAt t \<rparr>))) w"

text \<open>Two statements; a trigger other rows still reference is an error of the second.\<close>

definition Triggers_Delete :: "faults \<Rightarrow> string \<Rightarrow> World \<Rightarrow> unit res \<times> World" where
  "Triggers_Delete f i w =
     (case exec f ''Triggers.Delete.firings'' i () (w_firings_update (filter (\<lambda>x. tf_TriggerID x \<noteq> i))) w of
        (Inl e, w') \<Rightarrow> (Inl e, w')
      | (Inr _, w') \<Rightarrow>
          if list_ex (\<lambda>r. run_TriggerID r = Some i) (w_runs w') \<or>
             list_ex (\<lambda>l. lr_TriggerID l = Some i) (w_budget w') \<or>
             list_ex (\<lambda>ti. ti_SourceTriggerID ti = Some i) (w_triage w')
          then (Inl ErrForeignKey, w')
          else exec_one f ''Triggers.Delete'' i (rows_affected (\<lambda>t. tr_ID t = i) (w_triggers w'))
                 (w_triggers_update (filter (\<lambda>t. tr_ID t \<noteq> i))) w')"

section \<open>Firings\<close>

definition fired :: "World \<Rightarrow> string \<Rightarrow> string \<Rightarrow> bool" where
  "fired w tid eid \<longleftrightarrow> list_ex (\<lambda>x. tf_TriggerID x = tid \<and> tf_EventID x = eid) (w_firings w)"

text \<open>\<^verbatim>\<open>ON CONFLICT (trigger_id, event_id) DO NOTHING\<close>: false is the pair already recorded.\<close>

definition Firings_Create :: "faults \<Rightarrow> TriggerFiring \<Rightarrow> World \<Rightarrow> bool res \<times> World" where
  "Firings_Create f x w =
     (case f ''Firings.Create'' (tf_TriggerID x) of
        Some e \<Rightarrow> (Inl e, w)
      | None \<Rightarrow>
          if fired w (tf_TriggerID x) (tf_EventID x) then (Inr False, w)
          else if list_ex (\<lambda>y. tf_ID y = tf_ID x) (w_firings w) then (Inl ErrUnique, w)
          else (Inr True, w_firings_update
            (\<lambda>t. t @ [x\<lparr> tf_Warnings := rawText (tf_Warnings x) (Raw (JArr [])) \<rparr>]) w))"

definition Firings_Exists :: "faults \<Rightarrow> string \<Rightarrow> string \<Rightarrow> World \<Rightarrow> bool res" where
  "Firings_Exists f tid eid w = query f ''Firings.Exists'' tid (fired w tid eid)"

definition fire_order :: "TriggerFiring \<Rightarrow> string \<times> string" where
  "fire_order x = (tf_CreatedAt x, tf_ID x)"

definition newest_firings :: "string \<Rightarrow> int \<Rightarrow> World \<Rightarrow> TriggerFiring list" where
  "newest_firings tid n w =
     take (nat (if n \<le> 0 then 50 else n))
       (rev (sort_key fire_order (filter (\<lambda>x. tf_TriggerID x = tid) (w_firings w))))"

definition Firings_ForTrigger :: "faults \<Rightarrow> string \<Rightarrow> int \<Rightarrow> World \<Rightarrow> TriggerFiring list res" where
  "Firings_ForTrigger f tid limit w = query f ''Firings.ForTrigger'' tid (newest_firings tid limit w)"

record Health =
  h_Counts :: "FiringOutcome \<Rightarrow> int option"
  h_LastFiredAt :: string

definition Firings_HealthFor :: "faults \<Rightarrow> string \<Rightarrow> int \<Rightarrow> World \<Rightarrow> Health res" where
  "Firings_HealthFor f tid n w = query f ''Firings.HealthFor'' tid
     (let xs = newest_firings tid n w in
      \<lparr> h_Counts = (\<lambda>out. let c = count_if (\<lambda>x. tf_Outcome x = out) xs in if c = 0 then None else Some c),
        h_LastFiredAt = fold max (map tf_CreatedAt xs) '''' \<rparr>)"

definition Firings_Supersede ::
  "faults \<Rightarrow> string \<Rightarrow> string \<Rightarrow> string \<Rightarrow> string \<Rightarrow> World \<Rightarrow> unit res \<times> World" where
  "Firings_Supersede f tid rid absorbed reason w = exec f ''Firings.Supersede'' tid ()
     (w_firings_update (update_where
        (\<lambda>x. tf_TriggerID x = tid \<and> tf_RunID x = Some rid \<and> tf_Outcome x \<noteq> FiringSuperseded)
        (\<lambda>x. x\<lparr> tf_Outcome := FiringSuperseded, tf_Reason := reason, tf_AbsorbedByRunID := Some absorbed \<rparr>))) w"

section \<open>What the guarded statements guarantee\<close>

text \<open>The ledger holds one row per cell: nothing is counted twice.\<close>

definition ledger_wf :: "World \<Rightarrow> bool" where
  "ledger_wf w \<longleftrightarrow>
     distinct (map (\<lambda>l. (lr_Day l, lr_ProjectID l, lr_AgentID l, lr_TriggerID l)) (w_budget w))"

lemma sum_cents_Nil [simp]: "sum_cents p [] = 0"
  by (simp add: sum_cents_def)

lemma sum_cents_Cons [simp]: "sum_cents p (l # t) = (if p l then lr_Cents l + sum_cents p t else sum_cents p t)"
  by (simp add: sum_cents_def)

lemma sum_cents_append [simp]: "sum_cents p (t @ u) = sum_cents p t + sum_cents p u"
  by (simp add: sum_cents_def)

lemma sum_cents_bump:
  assumes "\<And>l. p (l\<lparr> lr_Cents := lr_Cents l + c \<rparr>) = p l"
    and "\<And>l. q l \<Longrightarrow> p l = b"
  shows "sum_cents p (update_where q (\<lambda>l. l\<lparr> lr_Cents := lr_Cents l + c \<rparr>) t) =
    sum_cents p t + (if b then int (rows_affected q t) * c else 0)"
proof (induction t)
  case (Cons l t)
  show ?case
  proof (cases "q l")
    case True
    then show ?thesis using Cons assms by (simp add: update_where_Cons algebra_simps)
  qed (use Cons in \<open>simp add: update_where_Cons\<close>)
qed (simp add: rows_affected_def)

lemma rows_affected_cell:
  assumes "ledger_wf w"
  shows "rows_affected (ledger_cell day pid aid tid) (w_budget w) \<le> 1"
proof -
  let ?k = "\<lambda>l. (lr_Day l, lr_ProjectID l, lr_AgentID l, lr_TriggerID l)"
  have "distinct (map ?k t) \<Longrightarrow> length (filter (ledger_cell day pid aid tid) t) \<le> 1" for t
  proof (induction t)
    case (Cons l t)
    show ?case
    proof (cases "ledger_cell day pid aid tid l")
      case True
      have "\<forall>x \<in> set t. \<not> ledger_cell day pid aid tid x"
      proof
        fix x assume "x \<in> set t"
        then have "?k x \<in> ?k ` set t" by (rule imageI)
        moreover have "?k l \<notin> ?k ` set t" using Cons.prems by simp
        ultimately have "?k x \<noteq> ?k l" by metis
        then show "\<not> ledger_cell day pid aid tid x" using True by (auto simp: ledger_cell_def)
      qed
      then have "filter (ledger_cell day pid aid tid) t = []" by (simp add: filter_empty_conv)
      then show ?thesis by simp
    qed (use Cons in simp)
  qed simp
  then show ?thesis using assms by (simp add: rows_affected_def ledger_wf_def)
qed

lemma map_ledger_key_update:
  "map (\<lambda>l. (lr_Day l, lr_ProjectID l, lr_AgentID l, lr_TriggerID l))
     (update_where q (\<lambda>l. l\<lparr> lr_Cents := lr_Cents l + c \<rparr>) t) =
   map (\<lambda>l. (lr_Day l, lr_ProjectID l, lr_AgentID l, lr_TriggerID l)) t"
  by (induction t) (simp_all add: update_where_Cons)

lemma Budget_Add_sum:
  assumes wf: "ledger_wf w" and nof: "\<And>s k. f s k = None"
    and p: "\<And>l c. p (l\<lparr> lr_Cents := c \<rparr>) = p l"
    and b: "\<And>l. ledger_cell day pid aid tid l \<Longrightarrow> p l = b"
    and add: "Budget_Add f day pid aid tid cents w = (x, w')"
  shows "sum_cents p (w_budget w') = sum_cents p (w_budget w) + (if b then cents else 0)"
proof (cases "cents = 0")
  case False
  let ?q = "ledger_cell day pid aid tid"
  let ?n = "rows_affected ?q (w_budget w)"
  have bump: "sum_cents p (update_where ?q (\<lambda>l. l\<lparr> lr_Cents := lr_Cents l + cents \<rparr>) (w_budget w)) =
      sum_cents p (w_budget w) + (if b then int ?n * cents else 0)"
    by (rule sum_cents_bump) (simp_all add: p b)
  show ?thesis
  proof (cases "?n = 0")
    case True
    let ?l = "\<lparr> lr_Day = day, lr_ProjectID = pid, lr_AgentID = null_if_empty aid,
               lr_TriggerID = null_if_empty tid, lr_Cents = cents \<rparr>"
    have "p ?l = b" by (rule b) (simp add: ledger_cell_def)
    then show ?thesis using add False True bump
      by (auto simp: Budget_Add_def exec_def nof)
  next
    case n: False
    then have "?n = 1" using rows_affected_cell [OF wf, of day pid aid tid] by simp
    then show ?thesis using add False bump by (auto simp: Budget_Add_def exec_def nof)
  qed
qed (use add in \<open>simp add: Budget_Add_def\<close>)

lemma Budget_Add_wf:
  assumes "ledger_wf w" and "Budget_Add f day pid aid tid cents w = (x, w')"
  shows "ledger_wf w'"
proof -
  let ?q = "ledger_cell day pid aid tid"
  let ?w1 = "w_budget_update (update_where ?q (\<lambda>l. l\<lparr> lr_Cents := lr_Cents l + cents \<rparr>)) w"
  let ?l = "\<lparr> lr_Day = day, lr_ProjectID = pid, lr_AgentID = null_if_empty aid,
               lr_TriggerID = null_if_empty tid, lr_Cents = cents \<rparr>"
  have w1: "ledger_wf ?w1" using assms(1) by (simp add: ledger_wf_def map_ledger_key_update)
  have ins: "ledger_wf (w_budget_update (\<lambda>t. t @ [?l]) ?w1)" if "rows_affected ?q (w_budget w) = 0"
  proof -
    have "\<forall>l \<in> set (w_budget w). \<not> ?q l" using that by (simp add: rows_affected_zero)
    moreover from this have "update_where ?q g (w_budget w) = w_budget w" for g
      by (simp add: update_where_noop)
    ultimately show ?thesis using assms(1) by (fastforce simp: ledger_wf_def ledger_cell_def)
  qed
  show ?thesis
    using assms w1 ins
    by (auto simp: Budget_Add_def exec_def split: if_splits option.splits)
qed

text \<open>
  Budget accounting is exact: adding an amount to a ledger with one row per cell keeps it so,
  raises the project's spend of that day by exactly that amount, and leaves every other day and
  every other project's spend as it was.
\<close>

theorem budget_add_exact:
  assumes "ledger_wf w" and "\<And>s k. f s k = None"
    and "Budget_Add f day pid aid tid cents w = (x, w')"
  shows "ledger_wf w' \<and>
    Budget_ProjectDay f day pid w' = Inr (sum_cents (\<lambda>l. lr_Day l = day \<and> lr_ProjectID l = pid) (w_budget w) + cents) \<and>
    (\<forall>d p. (d, p) \<noteq> (day, pid) \<longrightarrow> Budget_ProjectDay f d p w' = Budget_ProjectDay f d p w) \<and>
    (aid \<noteq> [] \<longrightarrow> Budget_AgentDay f day aid w' = map_sum id (\<lambda>c. c + cents) (Budget_AgentDay f day aid w))"
proof (intro conjI allI impI)
  show "ledger_wf w'" using assms(1,3) by (rule Budget_Add_wf)
  note sum = Budget_Add_sum [OF assms(1,2) _ _ assms(3)]
  show "Budget_ProjectDay f day pid w' =
      Inr (sum_cents (\<lambda>l. lr_Day l = day \<and> lr_ProjectID l = pid) (w_budget w) + cents)"
    using sum [of "\<lambda>l. lr_Day l = day \<and> lr_ProjectID l = pid" True] assms(2)
    by (simp add: Budget_ProjectDay_def ledger_cell_def)
  show "Budget_ProjectDay f d p w' = Budget_ProjectDay f d p w" if "(d, p) \<noteq> (day, pid)" for d p
    using sum [of "\<lambda>l. lr_Day l = d \<and> lr_ProjectID l = p" False] that
    by (auto simp: Budget_ProjectDay_def ledger_cell_def query_def assms(2))
  show "Budget_AgentDay f day aid w' = map_sum id (\<lambda>c. c + cents) (Budget_AgentDay f day aid w)" if "aid \<noteq> []"
    using sum [of "\<lambda>l. lr_Day l = day \<and> lr_AgentID l = Some aid" True] that assms(2)
    by (simp add: Budget_AgentDay_def ledger_cell_def query_def null_if_empty_def)
qed

theorem budget_add_exact_witness:
  "let w = blank_World\<lparr> w_budget := [\<lparr> lr_Day = ''d'', lr_ProjectID = ''p'', lr_AgentID = Some ''a'',
               lr_TriggerID = None, lr_Cents = 40 \<rparr>] \<rparr>;
       w' = snd (Budget_Add no_faults ''d'' ''p'' ''a'' '''' 2 w)
   in ledger_wf w' \<and> Budget_ProjectDay no_faults ''d'' ''p'' w' = Inr 42 \<and>
      Budget_ProjectDay no_faults ''e'' ''p'' w' = Inr 0"
proof -
  let ?w = "blank_World\<lparr> w_budget := [\<lparr> lr_Day = ''d'', lr_ProjectID = ''p'', lr_AgentID = Some ''a'',
               lr_TriggerID = None, lr_Cents = 40 \<rparr>] \<rparr>"
  have "ledger_wf ?w" by (simp add: ledger_wf_def)
  from budget_add_exact [where f = no_faults and day = "''d''" and pid = "''p''" and aid = "''a''"
      and tid = "''''" and cents = 2, OF this no_faults_simp surjective_pairing]
  show ?thesis
    by (simp add: Let_def Budget_ProjectDay_def)
qed

section \<open>Guards\<close>

definition firings_wf :: "World \<Rightarrow> bool" where
  "firings_wf w \<longleftrightarrow> distinct (map (\<lambda>x. (tf_TriggerID x, tf_EventID x)) (w_firings w))"

text \<open>
  Recording a firing is idempotent on (trigger, event): the pair has at most one row in every
  reachable table, a recorded pair is answered with false and changes nothing, and an accepted one
  is found by \<^verbatim>\<open>Exists\<close> from then on.
\<close>

theorem firing_create_idempotent:
  assumes "firings_wf w" and "Firings_Create f x w = (r, w')"
  shows "firings_wf w' \<and>
    (r = Inr False \<longrightarrow> w' = w \<and> fired w (tf_TriggerID x) (tf_EventID x)) \<and>
    (r = Inr True \<longrightarrow> \<not> fired w (tf_TriggerID x) (tf_EventID x) \<and> fired w' (tf_TriggerID x) (tf_EventID x)) \<and>
    (\<forall>e. r = Inl e \<longrightarrow> w' = w)"
proof (cases "r = Inr True")
  case True
  then have new: "\<not> fired w (tf_TriggerID x) (tf_EventID x)"
    and w': "w' = w_firings_update (\<lambda>t. t @ [x\<lparr> tf_Warnings := rawText (tf_Warnings x) (Raw (JArr [])) \<rparr>]) w"
    using assms(2) by (auto simp: Firings_Create_def split: option.splits if_splits)
  have "(tf_TriggerID x, tf_EventID x) \<notin> (\<lambda>x. (tf_TriggerID x, tf_EventID x)) ` set (w_firings w)"
    using new by (auto simp: fired_def list_ex_iff)
  then have "firings_wf w'" using assms(1) by (simp add: firings_wf_def w')
  moreover have "fired w' (tf_TriggerID x) (tf_EventID x)" by (simp add: fired_def w')
  ultimately show ?thesis using True new by simp
next
  case False
  then have "w' = w \<and> (r = Inr False \<longrightarrow> fired w (tf_TriggerID x) (tf_EventID x))"
    using assms(2) by (auto simp: Firings_Create_def split: option.splits if_splits)
  then show ?thesis using False assms(1) by simp
qed

theorem firing_create_idempotent_witness:
  "let x = blank_TriggerFiring\<lparr> tf_TriggerID := ''t'', tf_EventID := ''e'' \<rparr>;
       w = snd (Firings_Create no_faults x blank_World)
   in firings_wf w \<and> fired w ''t'' ''e'' \<and> snd (Firings_Create no_faults x w) = w"
proof -
  let ?x = "blank_TriggerFiring\<lparr> tf_TriggerID := ''t'', tf_EventID := ''e'' \<rparr>"
  let ?w = "snd (Firings_Create no_faults ?x blank_World)"
  have wf: "firings_wf blank_World" by (simp add: firings_wf_def blanks)
  have ok: "fst (Firings_Create no_faults ?x blank_World) = Inr True"
    by (simp add: Firings_Create_def fired_def blanks)
  from firing_create_idempotent [OF wf surjective_pairing, of no_faults ?x] ok
  have 1: "firings_wf ?w \<and> fired ?w ''t'' ''e''" by simp
  then have "fst (Firings_Create no_faults ?x ?w) = Inr False" by (simp add: Firings_Create_def)
  with firing_create_idempotent [OF conjunct1 [OF 1] surjective_pairing, of no_faults ?x] 1
  show ?thesis by (simp add: Let_def)
qed

text \<open>
  Of two responders to the same elicitation exactly one wins: once a response is accepted the
  row is out of \<^verbatim>\<open>pending\<close>, and any later response is refused with not-found and leaves
  the row (the first response included) as it was.
\<close>

theorem elicitation_single_answer:
  assumes "Elicitations_Respond f i st resp u ts w = (Inr (), w1)" and "st \<noteq> ElicitationPending"
    and "Elicitations_Respond g i st' resp' u' ts' w1 = (r, w2)"
  shows "w2 = w1 \<and> (\<exists>e. r = Inl e) \<and> (g ''Elicitations.Respond'' i = None \<longrightarrow> r = Inl ErrNotFound)"
proof -
  let ?p = "\<lambda>e. el_ID e = i \<and> el_State e = ElicitationPending"
  let ?g = "\<lambda>e. e\<lparr> el_State := st, el_Response := resp, el_RespondedBy := u, el_RespondedAt := Some ts \<rparr>"
  have w1: "w1 = w_elicitations_update (update_where ?p ?g) w"
    using assms(1) by (auto simp: Elicitations_Respond_def exec_one_def split: option.splits if_splits)
  have "\<forall>e \<in> set (update_where ?p ?g (w_elicitations w)). \<not> ?p e"
    by (rule update_where_consumes) (simp add: assms(2))
  moreover have "w_elicitations w1 = update_where ?p ?g (w_elicitations w)" by (simp add: w1)
  ultimately have none: "\<forall>e \<in> set (w_elicitations w1). \<not> ?p e" by metis
  then have "rows_affected ?p (w_elicitations w1) = 0" by (simp add: rows_affected_zero)
  moreover have "w_elicitations_update (update_where ?p h) w1 = w1" for h
    by (rule World.equality) (simp_all add: update_where_noop none)
  ultimately have "(r, w2) = (case g ''Elicitations.Respond'' i of Some e \<Rightarrow> (Inl e, w1) | None \<Rightarrow> (Inl ErrNotFound, w1))"
    unfolding assms(3) [symmetric] Elicitations_Respond_def exec_one_def by (simp split: option.split)
  then show ?thesis by (simp split: option.splits)
qed

theorem elicitation_single_answer_witness:
  "let w = blank_World\<lparr> w_elicitations := [blank_Elicitation\<lparr> el_ID := ''e'' \<rparr>] \<rparr>;
       w1 = snd (Elicitations_Respond no_faults ''e'' ElicitationAnswered RawEmpty None ''t'' w)
   in fst (Elicitations_Respond no_faults ''e'' ElicitationDenied RawEmpty None ''u'' w1) = Inl ErrNotFound"
proof -
  let ?w = "blank_World\<lparr> w_elicitations := [blank_Elicitation\<lparr> el_ID := ''e'' \<rparr>] \<rparr>"
  have "Elicitations_Respond no_faults ''e'' ElicitationAnswered RawEmpty None ''t'' ?w =
      (Inr (), snd (Elicitations_Respond no_faults ''e'' ElicitationAnswered RawEmpty None ''t'' ?w))"
    by (simp add: Elicitations_Respond_def exec_one_def blank_Elicitation_def)
  from elicitation_single_answer [OF this _ surjective_pairing, of no_faults ElicitationDenied RawEmpty None "''u''"]
  show ?thesis by (simp add: Let_def)
qed

end
