(* ===== verification/Bus.thy ===== *)
theory Bus
  imports StoreFlow Samples
begin

text \<open>
  The event bus (\<^verbatim>\<open>internal/kernel/bus/bus.go\<close>): persist, then dispatch to every matching
  subscription's bounded queue, and record the outcome once all of them have reported. The goroutines
  are steps: a publisher that found a queue full waits as a \<^verbatim>\<open>Flight\<close>, a consumer takes one item at a
  time and reports what its handler returned. A sequence of \<^verbatim>\<open>bus_op\<close>s is one interleaving. The first,
  non-blocking pass of \<^verbatim>\<open>dispatch\<close> is one step. Counters are unbounded where the code has 64 bits.
  \<^verbatim>\<open>bs_calls\<close> is no field of the code: it is the history of what the handlers returned.
\<close>

section \<open>Subscriptions\<close>

definition Topic :: "Event \<Rightarrow> string" where
  "Topic e = ev_Kind e @ ''.'' @ ev_ActivityType e"

datatype matcher = ByKind string | ByTopic string

fun matches :: "matcher \<Rightarrow> Event \<Rightarrow> bool" where
  "matches (ByKind kind) e = (ev_Kind e = kind)"
| "matches (ByTopic pattern) e = (glob_match pattern (Topic e) = Some True)"

fun match_text :: "matcher \<Rightarrow> string" where
  "match_text (ByKind kind) = ''kind='' @ kind"
| "match_text (ByTopic pattern) = ''topic='' @ pattern"

text \<open>An item is the event with the index of its tracker.\<close>

type_synonym item = "Event \<times> nat"

record Subscription =
  sb_name :: string
  sb_matcher :: matcher
  sb_queue :: "item list"
  sb_current :: "item option"
  sb_enqueued :: int
  sb_processed :: int
  sb_failed :: int

record Tracker =
  tk_eventID :: string
  tk_remaining :: int
  tk_anyFailed :: bool

record Flight =
  fl_item :: item
  fl_full :: "nat list"

record Bus =
  bs_bufSize :: nat
  bs_bootedAt :: string
  bs_subs :: "Subscription list"
  bs_trackers :: "Tracker list"
  bs_flight :: "Flight list"
  bs_recover :: "Event list"
  bs_waits :: "nat option"
  bs_started :: bool
  bs_stopped :: bool
  bs_calls :: "(nat \<times> nat \<times> bool) list"

type_synonym BusSys = "Bus \<times> World"

definition DefaultBufferSize :: nat where "DefaultBufferSize = 64"

definition New :: "int \<Rightarrow> string \<Rightarrow> Bus" where
  "New bufsize now = \<lparr> bs_bufSize = (if bufsize \<le> 0 then DefaultBufferSize else nat bufsize), bs_bootedAt = now,
     bs_subs = [], bs_trackers = [], bs_flight = [], bs_recover = [], bs_waits = None,
     bs_started = False, bs_stopped = False, bs_calls = [] \<rparr>"

datatype sub_err = NoKind | BadPattern | NoName | NilHandler | SubStopped | NameTaken

definition subscribe :: "string \<Rightarrow> matcher \<Rightarrow> bool \<Rightarrow> Bus \<Rightarrow> sub_err option \<times> Bus" where
  "subscribe name mt has_handler b =
     (if name = '''' then (Some NoName, b)
      else if \<not> has_handler then (Some NilHandler, b)
      else if bs_stopped b then (Some SubStopped, b)
      else if list_ex (\<lambda>s. sb_name s = name) (bs_subs b) then (Some NameTaken, b)
      else (None, b\<lparr> bs_subs := bs_subs b @ [\<lparr> sb_name = name, sb_matcher = mt, sb_queue = [], sb_current = None,
              sb_enqueued = 0, sb_processed = 0, sb_failed = 0 \<rparr>] \<rparr>))"

definition SubscribeKind :: "string \<Rightarrow> string \<Rightarrow> bool \<Rightarrow> Bus \<Rightarrow> sub_err option \<times> Bus" where
  "SubscribeKind name kind has_handler b =
     (if kind = '''' then (Some NoKind, b) else subscribe name (ByKind kind) has_handler b)"

definition SubscribeTopic :: "string \<Rightarrow> string \<Rightarrow> bool \<Rightarrow> Bus \<Rightarrow> sub_err option \<times> Bus" where
  "SubscribeTopic name pattern has_handler b =
     (if glob_match pattern ''probe'' = None then (Some BadPattern, b)
      else subscribe name (ByTopic pattern) has_handler b)"

section \<open>Dispatch\<close>

datatype pub_result = PubOk | PubBlocked | PubNoKey | PubDuplicate string | PubPersist store_err | PubStopped

definition matched :: "Bus \<Rightarrow> Event \<Rightarrow> nat list" where
  "matched b e = filter (\<lambda>i. matches (sb_matcher (bs_subs b ! i)) e) [0 ..< length (bs_subs b)]"

definition has_room :: "Bus \<Rightarrow> nat \<Rightarrow> bool" where
  "has_room b i \<longleftrightarrow> length (sb_queue (bs_subs b ! i)) < bs_bufSize b"

definition push :: "item \<Rightarrow> nat \<Rightarrow> Bus \<Rightarrow> Bus" where
  "push it i b = b\<lparr> bs_subs := (bs_subs b)[i := (bs_subs b ! i)\<lparr>
     sb_queue := sb_queue (bs_subs b ! i) @ [it], sb_enqueued := sb_enqueued (bs_subs b ! i) + 1 \<rparr>] \<rparr>"

definition finalize :: "faults \<Rightarrow> string \<Rightarrow> DispatchState \<Rightarrow> World \<Rightarrow> World" where
  "finalize f eid st w = snd (Events_SetDispatchState f eid st w)"

definition dispatch :: "faults \<Rightarrow> Event \<Rightarrow> BusSys \<Rightarrow> pub_result \<times> BusSys" where
  "dispatch f e s =
     (case s of (b, w) \<Rightarrow>
      if bs_stopped b then (PubStopped, s)
      else if matched b e = [] then (PubOk, (b, finalize f (ev_ID e) DispatchDone w))
      else (let it = (e, length (bs_trackers b));
                full = filter (\<lambda>i. \<not> has_room b i) (matched b e);
                b1 = b\<lparr> bs_trackers := bs_trackers b @ [\<lparr> tk_eventID = ev_ID e,
                          tk_remaining = int (length (matched b e)), tk_anyFailed = False \<rparr>] \<rparr>;
                b2 = fold (push it) (filter (has_room b) (matched b e)) b1
            in if full = [] then (PubOk, (b2, w))
               else (PubBlocked, (b2\<lparr> bs_flight := bs_flight b2 @ [\<lparr> fl_item = it, fl_full = full \<rparr>] \<rparr>, w))))"

text \<open>\<^verbatim>\<open>Publish\<close>; the identifier and the clock are arguments.\<close>

definition defaulted :: "string \<Rightarrow> string \<Rightarrow> string" where
  "defaulted s d = (if s = '''' then d else s)"

definition published_row :: "Event \<Rightarrow> string \<Rightarrow> string \<Rightarrow> Event" where
  "published_row e newid now = e\<lparr> ev_ID := defaulted (ev_ID e) newid, ev_OccurredAt := defaulted (ev_OccurredAt e) now,
     ev_CreatedAt := defaulted (ev_CreatedAt e) now, ev_DispatchState := DispatchPending \<rparr>"

definition Publish :: "faults \<Rightarrow> string \<Rightarrow> string \<Rightarrow> Event \<Rightarrow> BusSys \<Rightarrow> pub_result \<times> BusSys" where
  "Publish f newid now e0 s =
     (if ev_DedupeKey e0 = '''' then (PubNoKey, s)
      else (case s of (b, w) \<Rightarrow>
        let e = published_row e0 newid now in
        case Events_Insert f e w of
          (Inl ErrUnique, w') \<Rightarrow> (PubDuplicate (ev_DedupeKey e), (b, w'))
        | (Inl err, w') \<Rightarrow> (PubPersist err, (b, w'))
        | (Inr _, w') \<Rightarrow> dispatch f e (b, w')))"

definition SourceInternal :: string where "SourceInternal = ''internal''"

text \<open>\<^verbatim>\<open>Emit\<close>; \<^verbatim>\<open>cause\<close> is the run the context carries (\<^verbatim>\<open>bus/context.go\<close>).\<close>

definition Emit :: "faults \<Rightarrow> string \<Rightarrow> string \<Rightarrow> string option \<Rightarrow> Event \<Rightarrow> BusSys \<Rightarrow> pub_result \<times> BusSys" where
  "Emit f newid now cause e s =
     (let eid = defaulted (ev_ID e) newid in
      Publish f newid now (e\<lparr> ev_ID := eid, ev_Source := defaulted (ev_Source e) SourceInternal,
        ev_DedupeKey := defaulted (ev_DedupeKey e) (SourceInternal @ '':'' @ eid),
        ev_CauseRunID := (case ev_CauseRunID e of None \<Rightarrow> cause | Some r \<Rightarrow> Some r) \<rparr>) s)"

text \<open>
  A blocked publisher: it serves its full queues in order. It gives up when its context ends or the bus
  stops; a recovery that was waiting for it ends with it.
\<close>

definition drop_at :: "nat \<Rightarrow> 'a list \<Rightarrow> 'a list" where
  "drop_at n xs = take n xs @ drop (Suc n) xs"

definition unblock :: "nat \<Rightarrow> Bus \<Rightarrow> Bus" where
  "unblock n b =
     (if n < length (bs_flight b)
      then (case fl_full (bs_flight b ! n) of
              [] \<Rightarrow> b
            | i # rest \<Rightarrow>
                if has_room b i
                then (let b' = push (fl_item (bs_flight b ! n)) i b in
                      if rest = [] then b'\<lparr> bs_flight := drop_at n (bs_flight b) \<rparr>
                      else b'\<lparr> bs_flight := (bs_flight b)[n := (bs_flight b ! n)\<lparr> fl_full := rest \<rparr>] \<rparr>)
                else b)
      else b)"

definition give_up :: "nat \<Rightarrow> Bus \<Rightarrow> Bus" where
  "give_up n b =
     (if n < length (bs_flight b)
      then (let waited = (bs_waits b = Some (snd (fl_item (bs_flight b ! n)))) in
            b\<lparr> bs_flight := drop_at n (bs_flight b),
               bs_recover := (if waited then [] else bs_recover b) \<rparr>)
      else b)"

section \<open>Consumers\<close>

definition take_item :: "nat \<Rightarrow> Bus \<Rightarrow> Bus" where
  "take_item i b =
     (if i < length (bs_subs b)
      then (case (sb_current (bs_subs b ! i), sb_queue (bs_subs b ! i)) of
              (None, it # rest) \<Rightarrow> b\<lparr> bs_subs := (bs_subs b)[i := (bs_subs b ! i)\<lparr>
                  sb_queue := rest, sb_current := Some it \<rparr>] \<rparr>
            | _ \<Rightarrow> b)
      else b)"

text \<open>\<^verbatim>\<open>tracker.report\<close>: the subscriber that reports last writes the row.\<close>

definition report_tracker :: "faults \<Rightarrow> nat \<Rightarrow> bool \<Rightarrow> BusSys \<Rightarrow> BusSys" where
  "report_tracker f t ok s =
     (case s of (b, w) \<Rightarrow>
      let tr0 = bs_trackers b ! t;
          tr = tr0\<lparr> tk_anyFailed := (tk_anyFailed tr0 \<or> \<not> ok), tk_remaining := tk_remaining tr0 - 1 \<rparr>
      in (b\<lparr> bs_trackers := (bs_trackers b)[t := tr] \<rparr>,
          if tk_remaining tr \<noteq> 0 then w
          else finalize f (tk_eventID tr) (if tk_anyFailed tr then DispatchFailed else DispatchDone) w))"

definition consume :: "faults \<Rightarrow> nat \<Rightarrow> bool \<Rightarrow> BusSys \<Rightarrow> BusSys" where
  "consume f i ok s =
     (case s of (b, w) \<Rightarrow>
      if i < length (bs_subs b)
      then (case sb_current (bs_subs b ! i) of
              None \<Rightarrow> s
            | Some (e, t) \<Rightarrow>
                report_tracker f t ok
                  (b\<lparr> bs_subs := (bs_subs b)[i := (bs_subs b ! i)\<lparr> sb_current := None,
                         sb_failed := sb_failed (bs_subs b ! i) + (if ok then 0 else 1),
                         sb_processed := sb_processed (bs_subs b ! i) + 1 \<rparr>],
                      bs_calls := bs_calls b @ [(t, i, ok)] \<rparr>, w))
      else s)"

section \<open>Boot recovery and stop\<close>

definition Start :: "faults \<Rightarrow> BusSys \<Rightarrow> BusSys" where
  "Start f s =
     (case s of (b, w) \<Rightarrow>
      if bs_started b then s
      else (case Events_ListPending f w of
              Inl _ \<Rightarrow> (b\<lparr> bs_started := True \<rparr>, w)
            | Inr es \<Rightarrow> (b\<lparr> bs_started := True,
                bs_recover := filter (\<lambda>e. ev_CreatedAt e < bs_bootedAt b) es \<rparr>, w)))"

text \<open>One turn of the recovery loop, which waits for a dispatch that blocks and ends at an error.\<close>

definition recover_one :: "faults \<Rightarrow> BusSys \<Rightarrow> BusSys" where
  "recover_one f s =
     (case s of (b, w) \<Rightarrow>
      if list_ex (\<lambda>fl. bs_waits b = Some (snd (fl_item fl))) (bs_flight b) then s
      else (case bs_recover b of
              [] \<Rightarrow> s
            | e # es \<Rightarrow>
                (case dispatch f e (b\<lparr> bs_recover := es, bs_waits := Some (length (bs_trackers b)) \<rparr>, w) of
                   (PubStopped, (b', w')) \<Rightarrow> (b'\<lparr> bs_recover := [] \<rparr>, w')
                 | (_, s') \<Rightarrow> s')))"

definition StopBus :: "Bus \<Rightarrow> Bus" where
  "StopBus b = b\<lparr> bs_stopped := True \<rparr>"

datatype bus_op =
    OpPublish string string Event
  | OpUnblock nat
  | OpGiveUp nat
  | OpTake nat
  | OpConsume nat bool
  | OpStart
  | OpRecover
  | OpStop

fun bus_do :: "faults \<Rightarrow> bus_op \<Rightarrow> BusSys \<Rightarrow> BusSys" where
  "bus_do f (OpPublish newid now e) s = snd (Publish f newid now e s)"
| "bus_do f (OpUnblock n) s = (unblock n (fst s), snd s)"
| "bus_do f (OpGiveUp n) s = (give_up n (fst s), snd s)"
| "bus_do f (OpTake i) s = (take_item i (fst s), snd s)"
| "bus_do f (OpConsume i ok) s = consume f i ok s"
| "bus_do f OpStart s = Start f s"
| "bus_do f OpRecover s = recover_one f s"
| "bus_do f OpStop s = (StopBus (fst s), snd s)"

definition bus_run :: "faults \<Rightarrow> bus_op list \<Rightarrow> BusSys \<Rightarrow> BusSys" where
  "bus_run f ops s = fold (bus_do f) ops s"

section \<open>Stats\<close>

definition lag :: "Subscription \<Rightarrow> int" where
  "lag s = sb_enqueued s - sb_processed s"

record SubscriberStats =
  ss_Name :: string
  ss_Match :: string
  ss_Lag :: int
  ss_Processed :: int
  ss_Failed :: int

definition Stats :: "Bus \<Rightarrow> SubscriberStats list" where
  "Stats b = map (\<lambda>s. \<lparr> ss_Name = sb_name s, ss_Match = match_text (sb_matcher s), ss_Lag = lag s,
     ss_Processed = sb_processed s, ss_Failed = sb_failed s \<rparr>) (bs_subs b)"

definition Lag :: "Bus \<Rightarrow> int" where
  "Lag b = sum_list (map ss_Lag (Stats b))"

end
