(* ===== verification/RunStates.thy ===== *)
theory RunStates
  imports StoreRuns Samples
begin

text \<open>
  The run state machine of \<^verbatim>\<open>internal/kernel/sched/states.go\<close>: the table of legal edges, the
  one function through which \<^verbatim>\<open>runs.state\<close> changes, and the seam the MCP server drives.

  \<^verbatim>\<open>transition\<close> reads the row, decides, and writes with a compare-and-set; between the read and
  the write any other goroutine may move the run. That interference is a list of world changes,
  one per attempt: the loop goes round once for every race it loses, and an empty list is an
  attempt nobody interferes with, which cannot lose.
\<close>

definition legalTransitions :: "RunState \<Rightarrow> RunState list" where
  "legalTransitions s = (case s of
     RunQueued \<Rightarrow> [RunProvisioning, RunCanceled, RunFailed]
   | RunProvisioning \<Rightarrow> [RunRunning, RunFailed, RunCanceled]
   | RunRunning \<Rightarrow> [RunNeedsInput, RunAwaitingApproval, RunCompleted, RunFailed, RunTimedOut, RunCanceled]
   | RunNeedsInput \<Rightarrow> [RunRunning, RunCompleted, RunFailed, RunTimedOut, RunCanceled]
   | RunAwaitingApproval \<Rightarrow> [RunRunning, RunCompleted, RunFailed, RunTimedOut, RunCanceled]
   | _ \<Rightarrow> [])"

definition transitionLegal :: "RunState \<Rightarrow> RunState \<Rightarrow> bool" where
  "transitionLegal s t \<longleftrightarrow> list_ex (\<lambda>x. x = t) (legalTransitions s)"

lemma transitionLegal_iff [simp]: "transitionLegal s t \<longleftrightarrow> t \<in> set (legalTransitions s)"
  by (auto simp: transitionLegal_def list_ex_iff)

lemma legal_from_terminal: "Terminal s \<longleftrightarrow> legalTransitions s = []"
  by (cases s) (simp_all add: legalTransitions_def)

lemma loop_stopped_unreachable: "RunLoopStopped \<notin> set (legalTransitions s)"
  by (cases s) (simp_all add: legalTransitions_def)

lemma queued_unreachable: "RunQueued \<notin> set (legalTransitions s)"
  by (cases s) (simp_all add: legalTransitions_def)

section \<open>One state change\<close>

text \<open>
  What a scheduler operation takes from outside: the driver's refusals, the clock and the UTC day
  it reads, and the interference on each run.
\<close>

record Env =
  e_faults :: faults
  e_now :: string
  e_day :: string
  e_races :: "string \<Rightarrow> (World \<Rightarrow> World) list"

text \<open>
  The three ways \<^verbatim>\<open>transition\<close> returns: the run as it is now, the run as it was read with the
  illegal edge, or a store error (with a zero \<^verbatim>\<open>Run\<close>).
\<close>

datatype trans_result = TOk Run | TIllegal Run RunState | TErr store_err

fun trans_ok :: "trans_result \<Rightarrow> bool" where
  "trans_ok (TOk r) = True"
| "trans_ok _ = False"

fun trans_run :: "trans_result \<Rightarrow> Run option" where
  "trans_run (TOk r) = Some r"
| "trans_run (TIllegal r t) = Some r"
| "trans_run (TErr e) = None"

definition stamp_end :: "string \<Rightarrow> RunState \<Rightarrow> RunStateUpdate \<Rightarrow> RunStateUpdate" where
  "stamp_end now to u =
     (if Terminal to \<and> su_EndedAt u = None then u\<lparr> su_EndedAt := Some now \<rparr> else u)"

definition audit_write :: "faults \<Rightarrow> AuditEntry \<Rightarrow> World \<Rightarrow> unit res \<times> World" where
  "audit_write f e w = exec f ''audit.Write'' (au_TargetID e) () (w_audit_update (\<lambda>t. t @ [e])) w"

definition emit_frame :: "Frame \<Rightarrow> World \<Rightarrow> World" where
  "emit_frame fr w = w_frames_update (\<lambda>t. t @ [fr]) w"

definition emitRunState :: "Run \<Rightarrow> World \<Rightarrow> World" where
  "emitRunState r w = emit_frame (RunStateFrame r) w"

definition state_audit :: "Run \<Rightarrow> Run \<Rightarrow> RunState \<Rightarrow> AuditEntry" where
  "state_audit before after to = \<lparr>
     au_Action = ''run.state'', au_Kind = ''run'', au_TargetID = run_ID before,
     au_ProjectID = run_ProjectID before, au_Note = run_StateReason after,
     au_Before = [(''state'', RunState_str (run_State before))],
     au_After = [(''state'', RunState_str to), (''state_reason'', run_StateReason after),
                 (''error_message'', run_ErrorMessage after)] \<rparr>"

text \<open>
  What follows a won compare-and-set: re-read the row (a failed re-read falls back on the run as
  first read, in the new state), audit the edge, publish it. Neither failure undoes the change.
\<close>

definition transition_done :: "Env \<Rightarrow> Run \<Rightarrow> RunState \<Rightarrow> World \<Rightarrow> trans_result \<times> World" where
  "transition_done env run to w =
     (let after = (case query_row (e_faults env) ''transition.reread'' (run_ID run) (run_of w (run_ID run)) of
                     Inl _ \<Rightarrow> run\<lparr> run_State := to \<rparr> | Inr r \<Rightarrow> r);
          w1 = snd (audit_write (e_faults env) (state_audit run after to) w)
      in (TOk after, emitRunState after w1))"

text \<open>One turn of the loop; \<^verbatim>\<open>None\<close> is the lost race (\<^verbatim>\<open>continue\<close>), with the world it leaves.\<close>

definition transition_try ::
  "Env \<Rightarrow> (World \<Rightarrow> World) \<Rightarrow> string \<Rightarrow> RunState \<Rightarrow> RunStateUpdate \<Rightarrow> World \<Rightarrow> trans_result option \<times> World" where
  "transition_try env race i to u w =
     (case Runs_ByID (e_faults env) i w of
        Inl e \<Rightarrow> (Some (TErr e), w)
      | Inr run \<Rightarrow>
          if run_State run = to then (Some (TOk run), w)
          else if \<not> transitionLegal (run_State run) to then (Some (TIllegal run to), w)
          else (case Runs_SetState (e_faults env) i [run_State run] to (stamp_end (e_now env) to u) (race w) of
                  (Inl e, w1) \<Rightarrow> (Some (TErr e), w1)
                | (Inr ok, w1) \<Rightarrow>
                    if \<not> ok then (None, w1)
                    else (case transition_done env run to w1 of (r, w2) \<Rightarrow> (Some r, w2))))"

fun transition_loop ::
  "Env \<Rightarrow> (World \<Rightarrow> World) list \<Rightarrow> string \<Rightarrow> RunState \<Rightarrow> RunStateUpdate \<Rightarrow> World \<Rightarrow> trans_result \<times> World" where
  "transition_loop env [] i to u w =
     (case transition_try env id i to u w of (Some r, w') \<Rightarrow> (r, w') | (None, w') \<Rightarrow> (TErr DriverErr, w'))"
| "transition_loop env (y # ys) i to u w =
     (case transition_try env y i to u w of
        (Some r, w') \<Rightarrow> (r, w') | (None, w') \<Rightarrow> transition_loop env ys i to u w')"

definition transition ::
  "Env \<Rightarrow> string \<Rightarrow> RunState \<Rightarrow> RunStateUpdate \<Rightarrow> World \<Rightarrow> trans_result \<times> World" where
  "transition env i to u w = transition_loop env (e_races env i) i to u w"

text \<open>The seam of the MCP server: only parking and resuming are reachable through it.\<close>

datatype seam_result = SeamOk | SeamUnreachable | SeamFailed trans_result

definition SetRunState :: "Env \<Rightarrow> string \<Rightarrow> RunState \<Rightarrow> string \<Rightarrow> World \<Rightarrow> seam_result \<times> World" where
  "SetRunState env i state reason w =
     (if state \<in> {RunNeedsInput, RunAwaitingApproval, RunRunning} then
        (case transition env i state (empty_update\<lparr> su_StateReason := Some reason \<rparr>) w of
           (TOk r, w') \<Rightarrow> (SeamOk, w')
         | (r, w') \<Rightarrow> (SeamFailed r, w'))
      else (SeamUnreachable, w))"

section \<open>Moves along the state machine\<close>

text \<open>
  \<^verbatim>\<open>moves w w'\<close> is the abstract specification of every operation on runs: whatever happened
  between the two worlds, no run disappeared, and each run's state got from the one to the other
  along legal edges.
\<close>

definition edge_path :: "RunState \<Rightarrow> RunState \<Rightarrow> bool" where
  "edge_path = (\<lambda>s t. t \<in> set (legalTransitions s))\<^sup>*\<^sup>*"

definition moves :: "World \<Rightarrow> World \<Rightarrow> bool" where
  "moves w w' \<longleftrightarrow> (\<forall>k s. state_of w k = Some s \<longrightarrow> (\<exists>t. state_of w' k = Some t \<and> edge_path s t))"

definition lawful :: "(World \<Rightarrow> World) \<Rightarrow> bool" where
  "lawful y \<longleftrightarrow> (\<forall>w. runs_wf w \<longrightarrow> runs_wf (y w) \<and> moves w (y w))"

lemma edge_path_refl [simp]: "edge_path s s"
  by (simp add: edge_path_def)

lemma edge_path_edge: "t \<in> set (legalTransitions s) \<Longrightarrow> edge_path s t"
  by (simp add: edge_path_def r_into_rtranclp)

lemma edge_path_trans: "edge_path s t \<Longrightarrow> edge_path t u \<Longrightarrow> edge_path s u"
  unfolding edge_path_def by (rule rtranclp_trans)

lemma edge_path_terminal: "edge_path s t \<Longrightarrow> Terminal s \<Longrightarrow> t = s"
  unfolding edge_path_def
  by (induction rule: converse_rtranclp_induct) (auto simp: legal_from_terminal)

lemma moves_refl [simp]: "moves w w"
  by (simp add: moves_def)

lemma moves_trans: "moves w w' \<Longrightarrow> moves w' w'' \<Longrightarrow> moves w w''"
  unfolding moves_def by (meson edge_path_trans)

lemma moves_terminal: "moves w w' \<Longrightarrow> state_of w k = Some s \<Longrightarrow> Terminal s \<Longrightarrow> state_of w' k = Some s"
  unfolding moves_def using edge_path_terminal by blast

lemma lawful_id [simp]: "lawful id"
  by (simp add: lawful_def)

text \<open>Operations that leave the runs table alone are trivially moves.\<close>

lemma state_of_cong: "w_runs w' = w_runs w \<Longrightarrow> state_of w' k = state_of w k"
  by (simp add: state_of_def run_of_def)

lemma moves_cong:
  assumes "w_runs w' = w_runs w"
  shows "moves v w' = moves v w"
  unfolding moves_def state_of_cong [OF assms] ..

lemma runs_wf_cong: "w_runs w' = w_runs w \<Longrightarrow> runs_wf w' = runs_wf w"
  by (simp add: runs_wf_def)

lemma audit_write_runs [simp, frame_simps]: "w_runs (snd (audit_write f e w)) = w_runs w"
  by (simp add: audit_write_def exec_def split: option.splits)

lemma emitRunState_runs [simp, frame_simps]: "w_runs (emitRunState r w) = w_runs w"
  by (simp add: emitRunState_def emit_frame_def)

lemma transition_done_runs:
  "transition_done env run to w = (r, w') \<Longrightarrow> w_runs w' = w_runs w"
  by (auto simp: transition_done_def Let_def)

text \<open>A failed or lost \<^verbatim>\<open>SetState\<close> changes nothing, a won one takes exactly the edge it guards.\<close>

lemma SetState_fail:
  "Runs_SetState f i ss to u w = (Inl e, w') \<Longrightarrow> w' = w"
  by (auto simp: Runs_SetState_def exec_def Let_def split: option.splits)

lemma SetState_moves:
  assumes "runs_wf w" and "Runs_SetState f i [s] to u w = (x, w')" and "to \<in> set (legalTransitions s)"
  shows "runs_wf w' \<and> moves w w'"
proof (cases x)
  case (Inl e)
  then have "w' = w" using SetState_fail assms(2) by simp
  then show ?thesis using assms(1) by simp
next
  case (Inr ok)
  note cas = SetState_cas [OF assms(1) assms(2) [unfolded Inr]]
  have "moves w w'"
    unfolding moves_def
  proof (intro allI impI)
    fix k t
    assume t: "state_of w k = Some t"
    show "\<exists>t'. state_of w' k = Some t' \<and> edge_path t t'"
    proof (cases "k = i \<and> ok")
      case True
      then have "t = s" using cas(1) t by (auto simp: state_of_def)
      then show ?thesis using True cas(2) edge_path_edge [OF assms(3)] by auto
    next
      case False
      then have "run_of w' k = run_of w k" using cas(3) cas(4) [of k] by blast
      then have "state_of w' k = Some t" using t by (simp only: state_of_def)
      then show ?thesis using edge_path_refl by blast
    qed
  qed
  then show ?thesis using cas(5) by simp
qed

text \<open>The six ways one turn of the loop can go.\<close>

lemma transition_try_cases [consumes 1, case_names read_err same illegal write_err lost won]:
  assumes "transition_try env y i to u w = (x, w')"
  obtains e where "x = Some (TErr e)" "w' = w" "e_faults env ''Runs.ByID'' i = Some e \<or> run_of w i = None"
  | run where "run_of w i = Some run" "run_State run = to" "x = Some (TOk run)" "w' = w"
  | run where "run_of w i = Some run" "run_State run \<noteq> to" "to \<notin> set (legalTransitions (run_State run))"
      "x = Some (TIllegal run to)" "w' = w"
  | run e where "run_of w i = Some run" "run_State run \<noteq> to" "to \<in> set (legalTransitions (run_State run))"
      "Runs_SetState (e_faults env) i [run_State run] to (stamp_end (e_now env) to u) (y w) = (Inl e, w')"
      "x = Some (TErr e)"
  | run where "run_of w i = Some run" "run_State run \<noteq> to" "to \<in> set (legalTransitions (run_State run))"
      "Runs_SetState (e_faults env) i [run_State run] to (stamp_end (e_now env) to u) (y w) = (Inr False, w')"
      "x = None"
  | run w1 r where "run_of w i = Some run" "run_State run \<noteq> to" "to \<in> set (legalTransitions (run_State run))"
      "Runs_SetState (e_faults env) i [run_State run] to (stamp_end (e_now env) to u) (y w) = (Inr True, w1)"
      "transition_done env run to w1 = (r, w')" "x = Some r"
proof (cases "Runs_ByID (e_faults env) i w")
  case (Inl e)
  then have "x = Some (TErr e) \<and> w' = w" using assms by (simp add: transition_try_def)
  moreover have "e_faults env ''Runs.ByID'' i = Some e \<or> run_of w i = None"
    using Inl by (auto simp: Runs_ByID_def query_row_def run_of_def split: option.splits)
  ultimately show ?thesis using that(1) by blast
next
  case (Inr run)
  then have run: "run_of w i = Some run" by simp
  obtain y1 w1 where s: "Runs_SetState (e_faults env) i [run_State run] to (stamp_end (e_now env) to u) (y w) = (y1, w1)"
    by (meson surj_pair)
  obtain r2 w2 where d: "transition_done env run to w1 = (r2, w2)" by (meson surj_pair)
  have t: "(x, w') = (if run_State run = to then (Some (TOk run), w)
      else if to \<notin> set (legalTransitions (run_State run)) then (Some (TIllegal run to), w)
      else (case y1 of Inl e \<Rightarrow> (Some (TErr e), w1) | Inr ok \<Rightarrow> if \<not> ok then (None, w1) else (Some r2, w2)))"
    unfolding assms [symmetric] transition_try_def Inr by (simp add: s d split: sum.split)
  show ?thesis
  proof (cases "run_State run = to")
    case True
    with t run show ?thesis by (intro that(2)) simp_all
  next
    case ne: False
    show ?thesis
    proof (cases "to \<in> set (legalTransitions (run_State run))")
      case False
      with t run ne show ?thesis by (intro that(3)) simp_all
    next
      case True
      show ?thesis
      proof (cases y1)
        case (Inl e)
        with t run ne True s show ?thesis by (intro that(4)) simp_all
      next
        case (Inr ok)
        with t run ne True s d show ?thesis
          by (cases ok) (auto intro: that(5) that(6))
      qed
    qed
  qed
qed

lemma transition_try_moves:
  assumes "runs_wf w" and "lawful y" and "transition_try env y i to u w = (r, w')"
  shows "runs_wf w' \<and> moves w w'"
proof -
  have y: "runs_wf (y w)" "moves w (y w)" using assms(1,2) by (auto simp: lawful_def)
  have step: "runs_wf w1 \<and> moves w w1"
    if "Runs_SetState f i [s] to v (y w) = (z, w1)" "to \<in> set (legalTransitions s)" for f s v z w1
    using SetState_moves [OF y(1) that] moves_trans [OF y(2)] by blast
  show ?thesis
    using assms(3)
  proof (cases rule: transition_try_cases)
    case (won run w1 r1)
    have "w_runs w' = w_runs w1" by (rule transition_done_runs [OF won(5)])
    then show ?thesis
      using step [OF won(4,3)] moves_cong [of w' w1 w] runs_wf_cong [of w' w1] by blast
  next
    case (write_err run e)
    then show ?thesis using step by blast
  next
    case (lost run)
    then show ?thesis using step by blast
  qed (use assms(1) in simp_all)
qed

lemma transition_loop_moves:
  assumes "runs_wf w" and "\<forall>y \<in> set races. lawful y" and "transition_loop env races i to u w = (r, w')"
  shows "runs_wf w' \<and> moves w w'"
  using assms
proof (induction races arbitrary: w)
  case Nil
  then show ?case
    using transition_try_moves [OF Nil.prems(1) lawful_id, of env i to u]
    by (auto split: prod.splits option.splits)
next
  case (Cons y ys)
  obtain x w1 where t: "transition_try env y i to u w = (x, w1)" by (meson surj_pair)
  have w1: "runs_wf w1 \<and> moves w w1"
    using transition_try_moves [OF Cons.prems(1) _ t] Cons.prems(2) by simp
  show ?case
  proof (cases x)
    case None
    then have "transition_loop env ys i to u w1 = (r, w')" using Cons.prems(3) t by simp
    then show ?thesis using Cons.IH [of w1] Cons.prems(2) w1 moves_trans by auto
  next
    case (Some r1)
    then show ?thesis using Cons.prems(3) t w1 by simp
  qed
qed

lemma transition_moves:
  assumes "runs_wf w" and "\<forall>y \<in> set (e_races env i). lawful y" and "transition env i to u w = (r, w')"
  shows "runs_wf w' \<and> moves w w'"
  using transition_loop_moves [OF assms(1,2)] assms(3) by (simp add: transition_def)

text \<open>Success is success: the row is in the target state, and so is the run handed back.\<close>

lemma transition_try_ok:
  assumes "runs_wf w" and "lawful y" and "transition_try env y i to u w = (Some (TOk r), w')"
  shows "state_of w' i = Some to \<and> run_State r = to"
  using assms(3)
proof (cases rule: transition_try_cases)
  case (won run w1 r1)
  have "runs_wf (y w)" using assms(1,2) by (auto simp: lawful_def)
  then have st: "state_of w1 i = Some to" using SetState_cas(2) won(4) by blast
  then have "state_of w' i = Some to"
    unfolding state_of_cong [OF transition_done_runs [OF won(5)]] .
  moreover have "run_ID run = i" using won(1) by (rule run_of_ID)
  then have "run_State r = to"
    using won(5,6) st by (auto simp: transition_done_def Let_def state_of_def query_row_def split: option.splits)
  ultimately show ?thesis by simp
qed (auto simp: state_of_def)

lemma transition_loop_ok:
  assumes "runs_wf w" and "\<forall>y \<in> set races. lawful y" and "transition_loop env races i to u w = (TOk r, w')"
  shows "state_of w' i = Some to \<and> run_State r = to"
  using assms
proof (induction races arbitrary: w)
  case Nil
  then show ?case
    using transition_try_ok [OF Nil.prems(1) lawful_id, of env i to u r w']
    by (auto split: prod.splits option.splits)
next
  case (Cons y ys)
  obtain x w1 where t: "transition_try env y i to u w = (x, w1)" by (meson surj_pair)
  have w1: "runs_wf w1"
    using transition_try_moves [OF Cons.prems(1) _ t] Cons.prems(2) by simp
  show ?case
    using Cons.prems(2,3) t w1 Cons.IH [of w1] transition_try_ok [OF Cons.prems(1), of y env i to u r w1]
    by (cases x) auto
qed

lemma transition_ok:
  assumes "runs_wf w" and "\<forall>y \<in> set (e_races env i). lawful y" and "transition env i to u w = (TOk r, w')"
  shows "state_of w' i = Some to \<and> run_State r = to"
  using transition_loop_ok [OF assms(1,2)] assms(3) by (simp add: transition_def)

section \<open>An uncontended attempt cannot lose\<close>

lemma transition_try_id:
  assumes "runs_wf w" and "transition_try env id i to u w = (x, w')"
  shows "x \<noteq> None"
  using assms(2)
proof (cases rule: transition_try_cases)
  case (lost run)
  then show ?thesis using SetState_cas(1) [OF assms(1)] by force
qed auto

text \<open>
  So with finitely many races the loop returns, and without driver faults it returns a verdict on
  the edge: the run as it is in the target state, or the illegal edge it refused.
\<close>

lemma transition_loop_verdict:
  assumes "runs_wf w" and "\<forall>y \<in> set races. lawful y" and "\<And>s k. e_faults env s k = None"
    and "run_of w i \<noteq> None"
  shows "trans_run (fst (transition_loop env races i to u w)) \<noteq> None"
  using assms(1,2,4)
proof (induction races arbitrary: w)
  case Nil
  obtain x w' where t: "transition_try env id i to u w = (x, w')" by (meson surj_pair)
  obtain r where "x = Some r" using transition_try_id [OF Nil.prems(1) t] by blast
  moreover have "\<And>e. r \<noteq> TErr e"
    using t Nil.prems(3) \<open>x = Some r\<close>
    by (cases rule: transition_try_cases)
       (auto simp: assms(3) Runs_SetState_def exec_def Let_def transition_done_def)
  ultimately show ?case using t by (cases r) auto
next
  case (Cons y ys)
  obtain x w1 where t: "transition_try env y i to u w = (x, w1)" by (meson surj_pair)
  have w1: "runs_wf w1 \<and> moves w w1"
    using transition_try_moves [OF Cons.prems(1) _ t] Cons.prems(2) by simp
  show ?case
  proof (cases x)
    case None
    have "run_of w1 i \<noteq> None"
      using w1 Cons.prems(3) by (fastforce simp: moves_def state_of_def)
    then show ?thesis using Cons.IH [of w1] Cons.prems(2) w1 t None by auto
  next
    case (Some r)
    moreover have "\<And>e. r \<noteq> TErr e"
      using t Cons.prems(3) Some
      by (cases rule: transition_try_cases)
         (auto simp: assms(3) Runs_SetState_def exec_def Let_def transition_done_def)
    ultimately show ?thesis using t by (cases r) auto
  qed
qed

section \<open>Without interference\<close>

text \<open>
  What one uncontended transition touches: the runs table, the audit log, the bus. \<^verbatim>\<open>core\<close>
  blanks these three, so \<^verbatim>\<open>core w' = core w\<close> says that everything else is as it was.
\<close>

definition core :: "World \<Rightarrow> World" where
  "core w = w\<lparr> w_runs := [], w_audit := [], w_frames := [] \<rparr>"

lemma core_updates [simp]:
  "core (w_runs_update g w) = core w" "core (w_audit_update h w) = core w"
  "core (w_frames_update k w) = core w"
  by (simp_all add: core_def)

lemma core_fields:
  assumes "core w' = core w"
  shows "w_tickets w' = w_tickets w" "w_columns w' = w_columns w" "w_projects w' = w_projects w"
    "w_agents w' = w_agents w" "w_workspace w' = w_workspace w" "w_messages w' = w_messages w"
    "w_elicitations w' = w_elicitations w" "w_outputs w' = w_outputs w" "w_budget w' = w_budget w"
    "w_events w' = w_events w" "w_triggers w' = w_triggers w" "w_firings w' = w_firings w"
    "w_triage w' = w_triage w" "w_started w' = w_started w"
    "w_activities w' = w_activities w" "w_context w' = w_context w" "w_stream w' = w_stream w"
    "w_directives w' = w_directives w" "w_effects w' = w_effects w"
proof -
  show "w_tickets w' = w_tickets w" using arg_cong [OF assms, of w_tickets] by (simp add: core_def)
  show "w_columns w' = w_columns w" using arg_cong [OF assms, of w_columns] by (simp add: core_def)
  show "w_projects w' = w_projects w" using arg_cong [OF assms, of w_projects] by (simp add: core_def)
  show "w_agents w' = w_agents w" using arg_cong [OF assms, of w_agents] by (simp add: core_def)
  show "w_workspace w' = w_workspace w" using arg_cong [OF assms, of w_workspace] by (simp add: core_def)
  show "w_messages w' = w_messages w" using arg_cong [OF assms, of w_messages] by (simp add: core_def)
  show "w_elicitations w' = w_elicitations w" using arg_cong [OF assms, of w_elicitations] by (simp add: core_def)
  show "w_outputs w' = w_outputs w" using arg_cong [OF assms, of w_outputs] by (simp add: core_def)
  show "w_budget w' = w_budget w" using arg_cong [OF assms, of w_budget] by (simp add: core_def)
  show "w_events w' = w_events w" using arg_cong [OF assms, of w_events] by (simp add: core_def)
  show "w_triggers w' = w_triggers w" using arg_cong [OF assms, of w_triggers] by (simp add: core_def)
  show "w_firings w' = w_firings w" using arg_cong [OF assms, of w_firings] by (simp add: core_def)
  show "w_triage w' = w_triage w" using arg_cong [OF assms, of w_triage] by (simp add: core_def)
  show "w_started w' = w_started w" using arg_cong [OF assms, of w_started] by (simp add: core_def)
  show "w_activities w' = w_activities w" using arg_cong [OF assms, of w_activities] by (simp add: core_def)
  show "w_context w' = w_context w" using arg_cong [OF assms, of w_context] by (simp add: core_def)
  show "w_effects w' = w_effects w" using arg_cong [OF assms, of w_effects] by (simp add: core_def)
  show "w_stream w' = w_stream w" using arg_cong [OF assms, of w_stream] by (simp add: core_def)
  show "w_directives w' = w_directives w" using arg_cong [OF assms, of w_directives] by (simp add: core_def)
qed

lemma exec_core:
  "(\<And>v. core (upd v) = core v) \<Longrightarrow> core (snd (exec f s k x upd w)) = core w"
  by (simp add: exec_def split: option.splits)

lemma audit_write_core [simp]: "core (snd (audit_write f e w)) = core w"
  by (simp add: audit_write_def exec_core)

lemma emitRunState_core [simp]: "core (emitRunState r w) = core w"
  by (simp add: emitRunState_def emit_frame_def)

lemma SetState_core [simp]: "core (snd (Runs_SetState f i ss to u w)) = core w"
  by (simp add: Runs_SetState_def Let_def exec_core)

lemma transition_done_core [simp]: "core (snd (transition_done env run to w)) = core w"
  by (simp add: transition_done_def Let_def)

lemma transition_core:
  assumes "e_races env i = []" and "transition env i to u w = (r, w')"
  shows "core w' = core w"
proof -
  obtain x w1 where t: "transition_try env id i to u w = (x, w1)" by (meson surj_pair)
  have "core w1 = core w"
    using t
  proof (cases rule: transition_try_cases)
    case (write_err run e)
    then show ?thesis using SetState_fail [OF write_err(4)] by simp
  next
    case (lost run)
    then show ?thesis using SetState_core by (metis id_apply snd_conv)
  next
    case (won run w2 r)
    have "core w2 = core w" using won(4) SetState_core by (metis id_apply snd_conv)
    moreover have "core w1 = core w2" using won(5) transition_done_core by (metis snd_conv)
    ultimately show ?thesis by simp
  qed simp_all
  then show ?thesis using t assms by (auto simp: transition_def split: option.splits)
qed

text \<open>And what it does, exactly, when nothing fails.\<close>

lemma transition_quiet:
  assumes "runs_wf w" and "e_races env i = []" and "\<And>s k. e_faults env s k = None"
    and "run_of w i = Some run" and "run_State run \<noteq> to" and "to \<in> set (legalTransitions (run_State run))"
  shows "\<exists>w'. transition env i to u w = (TOk (apply_state to (stamp_end (e_now env) to u) run), w') \<and>
    run_of w' i = Some (apply_state to (stamp_end (e_now env) to u) run) \<and>
    (\<forall>k. k \<noteq> i \<longrightarrow> run_of w' k = run_of w k) \<and> runs_wf w'"
proof -
  let ?r = "apply_state to (stamp_end (e_now env) to u) run"
  let ?w1 = "w_runs_update (update_where (\<lambda>r. run_ID r = i \<and> run_State r = run_State run)
      (apply_state to (stamp_end (e_now env) to u))) w"
  have at: "run_of ?w1 k = (if k = i then Some ?r else run_of w k)" for k
    by (subst run_of_update_where) (simp_all add: assms(4))
  have id: "run_ID run = i" using assms(4) by (rule run_of_ID)
  have pos: "0 < rows_affected (\<lambda>r. run_ID r = i \<and> run_State r = run_State run) (w_runs w)"
    using rows_affected_run_of [OF assms(1)] assms(4) by simp
  have s: "Runs_SetState (e_faults env) i [run_State run] to (stamp_end (e_now env) to u) w = (Inr True, ?w1)"
    using pos by (simp add: Runs_SetState_def exec_def Let_def assms(3))
  obtain w2 where w2: "transition_done env run to ?w1 = (TOk ?r, w2)"
    by (simp add: transition_done_def Let_def query_row_def assms(3) id at)
  have runs: "w_runs w2 = w_runs ?w1" using transition_done_runs [OF w2] .
  have byid: "Runs_ByID (e_faults env) i w = Inr run" using assms(3,4) by simp
  have "transition env i to u w = (TOk ?r, w2)"
    by (simp add: transition_def assms(2) transition_try_def byid assms(5,6) s w2 del: Runs_ByID_Inr)
  moreover have "run_of w2 k = run_of ?w1 k" for k using runs by (simp add: run_of_def)
  moreover have "runs_wf w2"
    unfolding runs_wf_cong [OF runs] by (rule runs_wf_update_where [OF assms(1)]) simp_all
  ultimately show ?thesis using at by auto
qed

section \<open>Correctness of a state change\<close>

text \<open>
  The only way a run's state changes is along the edges of the state machine: with any finite
  sequence of interfering changes that themselves follow the edges, a transition loses no run, moves
  every run along legal edges only, leaves a terminal run in its state for good, and reports success
  only with the run in the requested state.
\<close>

theorem transition_safe:
  assumes "runs_wf w" and "\<forall>y \<in> set (e_races env i). lawful y" and "transition env i to u w = (r, w')"
  shows "runs_wf w' \<and> moves w w' \<and>
    (\<forall>k s. state_of w k = Some s \<and> Terminal s \<longrightarrow> state_of w' k = Some s) \<and>
    (trans_ok r \<longrightarrow> state_of w' i = Some to)"
proof -
  have m: "runs_wf w' \<and> moves w w'" by (rule transition_moves [OF assms])
  moreover have "state_of w' i = Some to" if "trans_ok r"
    using that transition_ok [OF assms(1,2), of to u _ w'] assms(3) by (cases r) auto
  ultimately show ?thesis using moves_terminal by blast
qed

text \<open>The interference of the witness: another goroutine cancels the running run in between.\<close>

definition cancel_race :: "World \<Rightarrow> World" where
  "cancel_race w = snd (Runs_SetState no_faults ''r'' [RunRunning] RunCanceled empty_update w)"

lemma cancel_race_lawful: "lawful cancel_race"
  unfolding lawful_def cancel_race_def
  using SetState_moves [OF _ surjective_pairing, where f = no_faults and i = "''r''" and s = RunRunning
      and to = RunCanceled and u = empty_update]
  by (simp add: legalTransitions_def)

definition race_env :: Env where
  "race_env = \<lparr> e_faults = no_faults, e_now = ''t'', e_day = ''d'', e_races = (\<lambda>_. [cancel_race]) \<rparr>"

definition race_world :: World where
  "race_world = blank_World\<lparr> w_runs := [blank_Run\<lparr> run_ID := ''r'', run_State := RunRunning \<rparr>] \<rparr>"

theorem transition_safe_witness:
  "let (r, w') = transition race_env ''r'' RunCompleted empty_update race_world
   in \<not> trans_ok r \<and> state_of w' ''r'' = Some RunCanceled \<and> moves race_world w'"
proof -
  have wf: "runs_wf race_world" by (simp add: runs_wf_def race_world_def)
  have races: "\<forall>y \<in> set (e_races race_env ''r''). lawful y"
    using cancel_race_lawful by (simp add: race_env_def)
  have st: "state_of (snd (transition race_env ''r'' RunCompleted empty_update race_world)) ''r'' = Some RunCanceled"
    by code_simp
  from transition_safe [OF wf races surjective_pairing, of RunCompleted empty_update] st
  show ?thesis by (auto simp: case_prod_beta)
qed

lemma transition_try_illegal:
  "transition_try env y i to u w = (Some (TIllegal run x), w') \<Longrightarrow>
    x = to \<and> to \<notin> set (legalTransitions (run_State run))"
  by (erule transition_try_cases) (auto simp: transition_done_def Let_def)

lemma transition_loop_illegal:
  "transition_loop env races i to u w = (TIllegal run x, w') \<Longrightarrow>
    x = to \<and> to \<notin> set (legalTransitions (run_State run))"
proof (induction races arbitrary: w)
  case Nil
  then show ?case
    using transition_try_illegal [of env id i to u w run x w'] by (auto split: prod.splits option.splits)
next
  case (Cons y ys)
  then show ?case
    using transition_try_illegal [of env y i to u w run x w'] by (auto split: prod.splits option.splits)
qed

text \<open>
  A transition always returns: it goes round once per race it loses, so with finitely many
  interfering changes and no store error it ends in a verdict on the edge, the run in the target
  state or the illegal edge refused, never in an error and never in an endless retry.
\<close>

theorem transition_verdict:
  assumes "runs_wf w" and "\<forall>y \<in> set (e_races env i). lawful y" and "\<And>s k. e_faults env s k = None"
    and "run_of w i \<noteq> None"
  shows "\<exists>run w'. transition env i to u w = (TOk run, w') \<or>
    (transition env i to u w = (TIllegal run to, w') \<and> \<not> transitionLegal (run_State run) to)"
proof -
  obtain r w' where t: "transition env i to u w = (r, w')" by (meson surj_pair)
  have "trans_run r \<noteq> None"
    using transition_loop_verdict [OF assms, of to u] t by (simp add: transition_def)
  moreover have "\<not> transitionLegal (run_State run) to" if "r = TIllegal run x" for run x
    using transition_loop_illegal t that by (simp add: transition_def)
  moreover have "x = to" if "r = TIllegal run x" for run x
    using transition_loop_illegal t that by (simp add: transition_def)
  ultimately show ?thesis using t by (cases r) auto
qed

theorem transition_verdict_witness:
  "\<exists>run w'. transition race_env ''r'' RunCompleted empty_update race_world = (TIllegal run RunCompleted, w')"
proof -
  have wf: "runs_wf race_world" by (simp add: runs_wf_def race_world_def)
  have races: "\<forall>y \<in> set (e_races race_env ''r''). lawful y"
    using cancel_race_lawful by (simp add: race_env_def)
  have "run_of race_world ''r'' \<noteq> None" by (simp add: race_world_def run_of_def find_row_Cons)
  from transition_verdict [OF wf races _ this, of RunCompleted empty_update]
  have v: "\<exists>run w'. transition race_env ''r'' RunCompleted empty_update race_world = (TOk run, w') \<or>
      transition race_env ''r'' RunCompleted empty_update race_world = (TIllegal run RunCompleted, w')"
    by (auto simp: race_env_def)
  have "\<not> trans_ok (fst (transition race_env ''r'' RunCompleted empty_update race_world))" by code_simp
  with v show ?thesis by auto
qed

end
