(* ===== verification/StoreBoard.thy ===== *)
theory StoreBoard
  imports StoreRuns Samples
begin

text \<open>
  The repositories of the board: projects, columns, tickets, triage items, agents and the
  workspace row (\<^verbatim>\<open>internal/kernel/store\<close>: \<^verbatim>\<open>projects.go\<close>, \<^verbatim>\<open>columns.go\<close>,
  \<^verbatim>\<open>tickets.go\<close>, \<^verbatim>\<open>triage.go\<close>, \<^verbatim>\<open>agents.go\<close>, \<^verbatim>\<open>workspace.go\<close>), one
  definition per query or statement. Board positions are \<^verbatim>\<open>float64\<close> columns; they are exact
  rationals here, so no rounding happens in the model.
\<close>

section \<open>Workspace and projects\<close>

definition Workspace_Get :: "faults \<Rightarrow> World \<Rightarrow> WorkspaceSettings res" where
  "Workspace_Get f w = query f ''Workspace.Get'' '''' (w_workspace w)"

definition Workspace_Update :: "faults \<Rightarrow> WorkspaceSettings \<Rightarrow> World \<Rightarrow> unit res \<times> World" where
  "Workspace_Update f ws w = exec f ''Workspace.Update'' '''' () (w_workspace_update (\<lambda>_. ws)) w"

definition Projects_ByID :: "faults \<Rightarrow> string \<Rightarrow> World \<Rightarrow> Project res" where
  "Projects_ByID f i w = query_row f ''Projects.ByID'' i (find_row prj_ID i (w_projects w))"

definition Projects_ByKey :: "faults \<Rightarrow> string \<Rightarrow> World \<Rightarrow> Project res" where
  "Projects_ByKey f k w = query_row f ''Projects.ByKey'' k (find_row prj_Key k (w_projects w))"

definition Projects_Create :: "faults \<Rightarrow> Project \<Rightarrow> World \<Rightarrow> unit res \<times> World" where
  "Projects_Create f p w =
     (if list_ex (\<lambda>x. prj_ID x = prj_ID p \<or> prj_Key x = prj_Key p) (w_projects w) then (Inl ErrUnique, w)
      else exec f ''Projects.Create'' (prj_ID p) () (w_projects_update (\<lambda>t. t @ [p])) w)"

definition Projects_List :: "faults \<Rightarrow> World \<Rightarrow> Project list res" where
  "Projects_List f w = query f ''Projects.List'' ''''
     (sort_key (\<lambda>p. (prj_CreatedAt p, prj_ID p)) (w_projects w))"

definition Projects_Update :: "faults \<Rightarrow> Project \<Rightarrow> World \<Rightarrow> unit res \<times> World" where
  "Projects_Update f p w = exec_one f ''Projects.Update'' (prj_ID p)
     (rows_affected (\<lambda>x. prj_ID x = prj_ID p) (w_projects w))
     (w_projects_update (update_where (\<lambda>x. prj_ID x = prj_ID p)
        (\<lambda>x. p\<lparr> prj_Key := prj_Key x, prj_TicketSeq := prj_TicketSeq x, prj_CreatedAt := prj_CreatedAt x \<rparr>))) w"

definition Projects_AllocateTicketSeq :: "faults \<Rightarrow> string \<Rightarrow> World \<Rightarrow> int res \<times> World" where
  "Projects_AllocateTicketSeq f i w =
     (case find_row prj_ID i (w_projects w) of
        None \<Rightarrow> (Inl ErrNotFound, w)
      | Some p \<Rightarrow> exec f ''Projects.AllocateTicketSeq'' i (prj_TicketSeq p + 1)
          (w_projects_update (update_where (\<lambda>x. prj_ID x = i)
             (\<lambda>x. x\<lparr> prj_TicketSeq := prj_TicketSeq x + 1 \<rparr>))) w)"

section \<open>Columns\<close>

definition board_order :: "Column \<Rightarrow> int \<times> string" where
  "board_order c = (col_Position c, col_ID c)"

definition Columns_Create :: "faults \<Rightarrow> Column \<Rightarrow> World \<Rightarrow> unit res \<times> World" where
  "Columns_Create f c w =
     (if list_ex (\<lambda>x. col_ID x = col_ID c) (w_columns w) then (Inl ErrUnique, w)
      else exec f ''Columns.Create'' (col_ID c) () (w_columns_update (\<lambda>t. t @ [c])) w)"

definition Columns_ByID :: "faults \<Rightarrow> string \<Rightarrow> World \<Rightarrow> Column res" where
  "Columns_ByID f i w = query_row f ''Columns.ByID'' i (find_row col_ID i (w_columns w))"

definition Columns_ForProject :: "faults \<Rightarrow> string \<Rightarrow> World \<Rightarrow> Column list res" where
  "Columns_ForProject f pid w = query f ''Columns.ForProject'' pid
     (sort_key board_order (filter (\<lambda>c. col_ProjectID c = pid) (w_columns w)))"

definition Columns_ByCategory :: "faults \<Rightarrow> string \<Rightarrow> ColumnCategory \<Rightarrow> World \<Rightarrow> Column list res" where
  "Columns_ByCategory f pid cat w = query f ''Columns.ByCategory'' pid
     (sort_key board_order (filter (\<lambda>c. col_ProjectID c = pid \<and> col_Category c = cat) (w_columns w)))"

definition Columns_Update :: "faults \<Rightarrow> Column \<Rightarrow> World \<Rightarrow> unit res \<times> World" where
  "Columns_Update f c w = exec_one f ''Columns.Update'' (col_ID c)
     (rows_affected (\<lambda>x. col_ID x = col_ID c) (w_columns w))
     (w_columns_update (update_where (\<lambda>x. col_ID x = col_ID c)
        (\<lambda>x. c\<lparr> col_ProjectID := col_ProjectID x, col_CreatedAt := col_CreatedAt x \<rparr>))) w"

text \<open>A column some ticket is still in cannot go: deletes are RESTRICT.\<close>

definition Columns_Delete :: "faults \<Rightarrow> string \<Rightarrow> World \<Rightarrow> unit res \<times> World" where
  "Columns_Delete f i w =
     (if list_ex (\<lambda>t. tk_ColumnID t = i) (w_tickets w) then (Inl ErrForeignKey, w)
      else exec_one f ''Columns.Delete'' i (rows_affected (\<lambda>x. col_ID x = i) (w_columns w))
             (w_columns_update (filter (\<lambda>x. col_ID x \<noteq> i))) w)"

definition Columns_TicketCounts :: "faults \<Rightarrow> string \<Rightarrow> World \<Rightarrow> (string \<Rightarrow> int option) res" where
  "Columns_TicketCounts f pid w = query f ''Columns.TicketCounts'' pid
     (\<lambda>cid. let n = count_if (\<lambda>t. tk_ProjectID t = pid \<and> tk_ColumnID t = cid) (w_tickets w) in
        if n = 0 then None else Some n)"

section \<open>Tickets\<close>

definition ticket_order :: "Ticket \<Rightarrow> rat \<times> string" where
  "ticket_order t = (tk_Position t, tk_ID t)"

definition Tickets_Create :: "faults \<Rightarrow> Ticket \<Rightarrow> World \<Rightarrow> unit res \<times> World" where
  "Tickets_Create f t w =
     (if list_ex (\<lambda>x. tk_ID x = tk_ID t \<or> tk_ProjectID x = tk_ProjectID t \<and> tk_Seq x = tk_Seq t)
           (w_tickets w) then (Inl ErrUnique, w)
      else exec f ''Tickets.Create'' (tk_ID t) () (w_tickets_update (\<lambda>ts. ts @ [t])) w)"

definition Tickets_ByID :: "faults \<Rightarrow> string \<Rightarrow> World \<Rightarrow> Ticket res" where
  "Tickets_ByID f i w = query_row f ''Tickets.ByID'' i (find_row tk_ID i (w_tickets w))"

definition Tickets_ByKey :: "faults \<Rightarrow> string \<Rightarrow> World \<Rightarrow> Ticket res" where
  "Tickets_ByKey f k w = query_row f ''Tickets.ByKey'' k (find_row tk_Key k (w_tickets w))"

text \<open>\<^verbatim>\<open>NOT EXISTS\<close> an unresolved triage item: the gate between triage and the board.\<close>

definition on_board :: "World \<Rightarrow> Ticket \<Rightarrow> bool" where
  "on_board w t \<longleftrightarrow> tk_ArchivedAt t = None \<and>
     \<not> list_ex (\<lambda>ti. ti_TicketID ti = tk_ID t \<and> ti_State ti \<in> {TriagePending, TriageSnoozed}) (w_triage w)"

definition Tickets_ForProject :: "faults \<Rightarrow> string \<Rightarrow> World \<Rightarrow> Ticket list res" where
  "Tickets_ForProject f pid w = query f ''Tickets.ForProject'' pid
     (sort_key (\<lambda>t. (tk_ColumnID t, ticket_order t))
        (filter (\<lambda>t. tk_ProjectID t = pid \<and> on_board w t) (w_tickets w)))"

definition Tickets_ForProjectIncludingArchived :: "faults \<Rightarrow> string \<Rightarrow> World \<Rightarrow> Ticket list res" where
  "Tickets_ForProjectIncludingArchived f pid w = query f ''Tickets.ForProjectIncludingArchived'' pid
     (sort_key (\<lambda>t. (tk_ColumnID t, ticket_order t)) (filter (\<lambda>t. tk_ProjectID t = pid) (w_tickets w)))"

definition Tickets_ForColumn :: "faults \<Rightarrow> string \<Rightarrow> World \<Rightarrow> Ticket list res" where
  "Tickets_ForColumn f cid w = query f ''Tickets.ForColumn'' cid
     (sort_key ticket_order (filter (\<lambda>t. tk_ColumnID t = cid \<and> tk_ArchivedAt t = None) (w_tickets w)))"

definition Tickets_Move :: "faults \<Rightarrow> string \<Rightarrow> string \<Rightarrow> rat \<Rightarrow> string \<Rightarrow> World \<Rightarrow> unit res \<times> World" where
  "Tickets_Move f i cid pos now w = exec_one f ''Tickets.Move'' i
     (rows_affected (\<lambda>t. tk_ID t = i) (w_tickets w))
     (w_tickets_update (update_where (\<lambda>t. tk_ID t = i)
        (\<lambda>t. t\<lparr> tk_ColumnID := cid, tk_Position := pos, tk_UpdatedAt := now \<rparr>))) w"

definition Tickets_SetPosition :: "faults \<Rightarrow> string \<Rightarrow> rat \<Rightarrow> string \<Rightarrow> World \<Rightarrow> unit res \<times> World" where
  "Tickets_SetPosition f i pos now w = exec_one f ''Tickets.SetPosition'' i
     (rows_affected (\<lambda>t. tk_ID t = i) (w_tickets w))
     (w_tickets_update (update_where (\<lambda>t. tk_ID t = i)
        (\<lambda>t. t\<lparr> tk_Position := pos, tk_UpdatedAt := now \<rparr>))) w"

definition Tickets_Update :: "faults \<Rightarrow> Ticket \<Rightarrow> World \<Rightarrow> unit res \<times> World" where
  "Tickets_Update f tk w = exec_one f ''Tickets.Update'' (tk_ID tk)
     (rows_affected (\<lambda>t. tk_ID t = tk_ID tk) (w_tickets w))
     (w_tickets_update (update_where (\<lambda>t. tk_ID t = tk_ID tk)
        (\<lambda>t. tk\<lparr> tk_ProjectID := tk_ProjectID t, tk_Seq := tk_Seq t, tk_Key := tk_Key t,
                tk_Origin := tk_Origin t, tk_CreatedByUserID := tk_CreatedByUserID t,
                tk_CreatedByAgentID := tk_CreatedByAgentID t, tk_CreatedAt := tk_CreatedAt t \<rparr>))) w"

definition Tickets_Children :: "faults \<Rightarrow> string \<Rightarrow> World \<Rightarrow> Ticket list res" where
  "Tickets_Children f p w = query f ''Tickets.Children'' p
     (sort_key (\<lambda>t. (tk_CreatedAt t, tk_ID t))
        (filter (\<lambda>t. tk_ParentID t = Some p \<and> tk_ArchivedAt t = None) (w_tickets w)))"

definition Tickets_CountChildren :: "faults \<Rightarrow> string \<Rightarrow> World \<Rightarrow> int res" where
  "Tickets_CountChildren f p w = query f ''Tickets.CountChildren'' p
     (count_if (\<lambda>t. tk_ParentID t = Some p) (w_tickets w))"

text \<open>
  \<^verbatim>\<open>MoveAllToColumn\<close>: three statements (the two aggregates and the update), each of which the
  driver may refuse. An empty destination has \<^verbatim>\<open>MAX\<close> NULL, read as 0.
\<close>

definition positions_in :: "string \<Rightarrow> World \<Rightarrow> rat list" where
  "positions_in cid w = map tk_Position (filter (\<lambda>t. tk_ColumnID t = cid) (w_tickets w))"

definition Tickets_MoveAllToColumn ::
  "faults \<Rightarrow> string \<Rightarrow> string \<Rightarrow> string \<Rightarrow> World \<Rightarrow> int res \<times> World" where
  "Tickets_MoveAllToColumn f src dst now w =
     (case query f ''Tickets.MoveAll.min'' src (positions_in src w) of
        Inl e \<Rightarrow> (Inl e, w)
      | Inr [] \<Rightarrow> (Inr 0, w)
      | Inr (p # ps) \<Rightarrow>
          (case query f ''Tickets.MoveAll.max'' dst (positions_in dst w) of
             Inl e \<Rightarrow> (Inl e, w)
           | Inr qs \<Rightarrow>
               (let maxTo = (case qs of [] \<Rightarrow> 0 | q # qs' \<Rightarrow> fold max qs' q);
                    off = maxTo + 1 - fold min ps p
                in exec f ''Tickets.MoveAllToColumn'' src
                     (count_if (\<lambda>t. tk_ColumnID t = src) (w_tickets w))
                     (w_tickets_update (update_where (\<lambda>t. tk_ColumnID t = src)
                        (\<lambda>t. t\<lparr> tk_ColumnID := dst, tk_Position := tk_Position t + off,
                               tk_UpdatedAt := now \<rparr>))) w)))"

section \<open>Triage items\<close>

definition Triage_Create :: "faults \<Rightarrow> TriageItem \<Rightarrow> World \<Rightarrow> unit res \<times> World" where
  "Triage_Create f it w =
     (if list_ex (\<lambda>x. ti_ID x = ti_ID it \<or> ti_TicketID x = ti_TicketID it) (w_triage w)
      then (Inl ErrUnique, w)
      else exec f ''Triage.Create'' (ti_ID it) () (w_triage_update (\<lambda>t. t @ [it])) w)"

definition Triage_ByTicket :: "faults \<Rightarrow> string \<Rightarrow> World \<Rightarrow> TriageItem res" where
  "Triage_ByTicket f tid w = query_row f ''Triage.ByTicket'' tid (find_row ti_TicketID tid (w_triage w))"

definition Triage_ByID :: "faults \<Rightarrow> string \<Rightarrow> World \<Rightarrow> TriageItem res" where
  "Triage_ByID f i w = query_row f ''Triage.ByID'' i (find_row ti_ID i (w_triage w))"

text \<open>An update touches the mutable columns only: provenance and sources are history.\<close>

definition Triage_Update :: "faults \<Rightarrow> TriageItem \<Rightarrow> World \<Rightarrow> unit res \<times> World" where
  "Triage_Update f it w = exec_one f ''Triage.Update'' (ti_ID it)
     (rows_affected (\<lambda>x. ti_ID x = ti_ID it) (w_triage w))
     (w_triage_update (update_where (\<lambda>x. ti_ID x = ti_ID it)
        (\<lambda>x. x\<lparr> ti_State := ti_State it, ti_DuplicateOf := ti_DuplicateOf it, ti_Reason := ti_Reason it,
               ti_SnoozeUntil := ti_SnoozeUntil it, ti_ResolvedBy := ti_ResolvedBy it,
               ti_ResolvedAt := ti_ResolvedAt it \<rparr>))) w"

text \<open>\<^verbatim>\<open>JOIN tickets\<close>: the item's ticket, unarchived and of the project where one is given.\<close>

definition triage_live :: "World \<Rightarrow> string option \<Rightarrow> TriageItem \<Rightarrow> bool" where
  "triage_live w pid it \<longleftrightarrow>
     list_ex (\<lambda>t. tk_ID t = ti_TicketID it \<and> tk_ArchivedAt t = None \<and>
                 (case pid of None \<Rightarrow> True | Some p \<Rightarrow> tk_ProjectID t = p)) (w_tickets w)"

definition Triage_UnresolvedForProject :: "faults \<Rightarrow> string \<Rightarrow> World \<Rightarrow> TriageItem list res" where
  "Triage_UnresolvedForProject f pid w = query f ''Triage.UnresolvedForProject'' pid
     (sort_key (\<lambda>it. (if ti_State it = TriagePending then 0 else 1 :: int, ti_CreatedAt it, ti_ID it))
        (filter (\<lambda>it. triage_live w (Some pid) it \<and> ti_State it \<in> {TriagePending, TriageSnoozed}) (w_triage w)))"

definition Triage_CountPending :: "faults \<Rightarrow> string \<Rightarrow> World \<Rightarrow> int res" where
  "Triage_CountPending f pid w = query f ''Triage.CountPending'' pid
     (count_if (\<lambda>it. triage_live w (Some pid) it \<and> ti_State it = TriagePending) (w_triage w))"

definition Triage_SnoozedDue :: "faults \<Rightarrow> string \<Rightarrow> World \<Rightarrow> TriageItem list res" where
  "Triage_SnoozedDue f now w = query f ''Triage.SnoozedDue'' now
     (sort_key (\<lambda>it. (case ti_SnoozeUntil it of None \<Rightarrow> '''' | Some s \<Rightarrow> s, ti_ID it))
        (filter (\<lambda>it. triage_live w None it \<and> ti_State it = TriageSnoozed \<and>
            (case ti_SnoozeUntil it of None \<Rightarrow> False | Some s \<Rightarrow> s \<le> now)) (w_triage w)))"

definition Triage_SnoozedUntilActivity :: "faults \<Rightarrow> string \<Rightarrow> World \<Rightarrow> TriageItem list res" where
  "Triage_SnoozedUntilActivity f pid w = query f ''Triage.SnoozedUntilActivity'' pid
     (sort_key (\<lambda>it. (ti_CreatedAt it, ti_ID it))
        (filter (\<lambda>it. triage_live w (Some pid) it \<and> ti_State it = TriageSnoozed \<and>
                      ti_SnoozeUntil it = None) (w_triage w)))"

section \<open>Agents\<close>

definition Agents_Create :: "faults \<Rightarrow> Agent \<Rightarrow> World \<Rightarrow> unit res \<times> World" where
  "Agents_Create f a w =
     (if list_ex (\<lambda>x. ag_ID x = ag_ID a \<or> ag_ProjectID x = ag_ProjectID a \<and> ag_Name x = ag_Name a)
           (w_agents w) then (Inl ErrUnique, w)
      else exec f ''Agents.Create'' (ag_ID a) () (w_agents_update (\<lambda>t. t @ [a])) w)"

definition Agents_ByID :: "faults \<Rightarrow> string \<Rightarrow> World \<Rightarrow> Agent res" where
  "Agents_ByID f i w = query_row f ''Agents.ByID'' i (find_row ag_ID i (w_agents w))"

definition Agents_ForProject :: "faults \<Rightarrow> string \<Rightarrow> World \<Rightarrow> Agent list res" where
  "Agents_ForProject f pid w = query f ''Agents.ForProject'' pid
     (sort_key (\<lambda>a. (ag_CreatedAt a, ag_ID a)) (filter (\<lambda>a. ag_ProjectID a = pid) (w_agents w)))"

definition Agents_Update :: "faults \<Rightarrow> Agent \<Rightarrow> World \<Rightarrow> unit res \<times> World" where
  "Agents_Update f a w =
     (if list_ex (\<lambda>x. ag_ID x \<noteq> ag_ID a \<and> ag_Name x = ag_Name a \<and>
            list_ex (\<lambda>y. ag_ID y = ag_ID a \<and> ag_ProjectID y = ag_ProjectID x) (w_agents w)) (w_agents w)
      then (Inl ErrUnique, w)
      else exec_one f ''Agents.Update'' (ag_ID a)
        (rows_affected (\<lambda>x. ag_ID x = ag_ID a) (w_agents w))
        (w_agents_update (update_where (\<lambda>x. ag_ID x = ag_ID a)
           (\<lambda>x. a\<lparr> ag_ProjectID := ag_ProjectID x, ag_CreatedAt := ag_CreatedAt x \<rparr>))) w)"

section \<open>Directives and the ticket stream\<close>

definition Directives_Create :: "faults \<Rightarrow> AgentDirective \<Rightarrow> World \<Rightarrow> unit res \<times> World" where
  "Directives_Create f d w =
     (if list_ex (\<lambda>x. ad_ID x = ad_ID d \<or> ad_AgentID x = ad_AgentID d \<and> ad_Version x = ad_Version d)
           (w_directives w) then (Inl ErrUnique, w)
      else exec f ''Directives.Create'' (ad_ID d) () (w_directives_update (\<lambda>t. t @ [d])) w)"

definition Directives_ByID :: "faults \<Rightarrow> string \<Rightarrow> World \<Rightarrow> AgentDirective res" where
  "Directives_ByID f i w = query_row f ''Directives.ByID'' i (find_row ad_ID i (w_directives w))"

definition Directives_ByAgentVersion :: "faults \<Rightarrow> string \<Rightarrow> int \<Rightarrow> World \<Rightarrow> AgentDirective res" where
  "Directives_ByAgentVersion f a v w = query_row f ''Directives.ByAgentVersion'' a
     (find (\<lambda>d. ad_AgentID d = a \<and> ad_Version d = v) (w_directives w))"

definition Directives_ForAgent :: "faults \<Rightarrow> string \<Rightarrow> World \<Rightarrow> AgentDirective list res" where
  "Directives_ForAgent f a w = query f ''Directives.ForAgent'' a
     (rev (sort_key ad_Version (filter (\<lambda>d. ad_AgentID d = a) (w_directives w))))"

definition TicketStream_Append :: "faults \<Rightarrow> StreamEntry \<Rightarrow> World \<Rightarrow> unit res \<times> World" where
  "TicketStream_Append f e w =
     (if list_ex (\<lambda>x. se_ID x = se_ID e) (w_stream w) then (Inl ErrUnique, w)
      else exec f ''TicketStream.Append'' (se_TicketID e) () (w_stream_update
        (\<lambda>t. t @ [e\<lparr> se_Payload := (case se_Payload e of RawEmpty \<Rightarrow> Raw (JObj []) | p \<Rightarrow> p) \<rparr>])) w)"

definition TicketStream_ByID :: "faults \<Rightarrow> string \<Rightarrow> World \<Rightarrow> StreamEntry res" where
  "TicketStream_ByID f i w = query_row f ''TicketStream.ByID'' i (find_row se_ID i (w_stream w))"

definition TicketStream_ForTicket :: "faults \<Rightarrow> string \<Rightarrow> World \<Rightarrow> StreamEntry list res" where
  "TicketStream_ForTicket f t w = query f ''TicketStream.ForTicket'' t
     (sort_key (\<lambda>e. (se_CreatedAt e, se_ID e)) (filter (\<lambda>e. se_TicketID e = t) (w_stream w)))"

interpretation tickets_table: keyed_table tk_ID .
interpretation columns_table: keyed_table col_ID .
interpretation triage_table: keyed_table ti_ID .

section \<open>What the board's queries guarantee\<close>

text \<open>
  Emptying a column: every ticket of the source lands in the destination behind every ticket
  already there, all shifted by one and the same amount (so their order among themselves is kept),
  the source holds no ticket afterwards and can be deleted, no other ticket changes, and the number
  reported is the number moved.
\<close>

theorem move_all_keeps_order:
  assumes "Tickets_MoveAllToColumn f src dst now w = (Inr n, w')" and "src \<noteq> dst"
  shows "n = count_if (\<lambda>t. tk_ColumnID t = src) (w_tickets w) \<and> positions_in src w' = [] \<and>
    (\<exists>off. w_tickets w' = map (\<lambda>t. if tk_ColumnID t = src
          then t\<lparr> tk_ColumnID := dst, tk_Position := tk_Position t + off, tk_UpdatedAt := now \<rparr> else t) (w_tickets w) \<and>
      (\<forall>a \<in> set (w_tickets w). \<forall>b \<in> set (w_tickets w).
         tk_ColumnID a = src \<longrightarrow> tk_ColumnID b = dst \<longrightarrow> tk_Position b < tk_Position a + off))"
proof (cases "positions_in src w")
  case Nil
  then have none: "\<forall>t \<in> set (w_tickets w). tk_ColumnID t \<noteq> src"
    by (simp add: positions_in_def filter_empty_conv)
  moreover have "n = 0 \<and> w' = w"
    using assms(1) Nil by (auto simp: Tickets_MoveAllToColumn_def query_def split: option.splits)
  moreover have "count_if (\<lambda>t. tk_ColumnID t = src) (w_tickets w) = 0"
    using none by (simp add: count_if_def filter_empty_conv)
  moreover have "w_tickets w = map (\<lambda>t. if tk_ColumnID t = src
      then t\<lparr> tk_ColumnID := dst, tk_Position := tk_Position t + 0, tk_UpdatedAt := now \<rparr> else t) (w_tickets w)"
    using none by (simp add: map_idI)
  ultimately show ?thesis using Nil none by (intro conjI exI [of _ 0]) simp_all
next
  case (Cons p ps)
  let ?qs = "positions_in dst w"
  let ?max = "case ?qs of [] \<Rightarrow> 0 | q # qs' \<Rightarrow> fold max qs' q"
  let ?off = "?max + 1 - fold min ps p"
  let ?g = "\<lambda>t. t\<lparr> tk_ColumnID := dst, tk_Position := tk_Position t + ?off, tk_UpdatedAt := now \<rparr>"
  have n: "n = count_if (\<lambda>t. tk_ColumnID t = src) (w_tickets w)"
    and w': "w' = w_tickets_update (update_where (\<lambda>t. tk_ColumnID t = src) ?g) w"
    using assms(1) Cons
    by (auto simp: Tickets_MoveAllToColumn_def query_def exec_def Let_def split: option.splits)
  have max: "x \<le> ?max" if "x \<in> set ?qs" for x
    using that
    by (cases ?qs) (metis (no_types) empty_iff list.set(1),
      metis List.finite_set Max.set_eq_fold Max_ge list.simps(5))
  have min: "fold min ps p \<le> x" if "x \<in> set (positions_in src w)" for x
    using that unfolding Cons by (metis List.finite_set Min.set_eq_fold Min_le)
  have "tk_Position b < tk_Position a + ?off"
    if "a \<in> set (w_tickets w)" "b \<in> set (w_tickets w)" "tk_ColumnID a = src" "tk_ColumnID b = dst" for a b
  proof -
    have "tk_Position b \<le> ?max" using max [of "tk_Position b"] that by (simp add: positions_in_def)
    moreover have "fold min ps p \<le> tk_Position a" using min [of "tk_Position a"] that by (simp add: positions_in_def)
    ultimately show ?thesis by linarith
  qed
  moreover have "w_tickets w' = map (\<lambda>t. if tk_ColumnID t = src then ?g t else t) (w_tickets w)"
    by (simp add: w' update_where_def)
  moreover from this have "positions_in src w' = []"
    using assms(2) by (auto simp: positions_in_def filter_empty_conv)
  ultimately show ?thesis using n by blast
qed

theorem move_all_keeps_order_witness:
  "let tk = (\<lambda>i c p. blank_Ticket\<lparr> tk_ID := i, tk_ColumnID := c, tk_Position := p \<rparr>);
       w = blank_World\<lparr> w_tickets := [tk ''1'' ''a'' 7, tk ''2'' ''b'' 3] \<rparr>
   in \<exists>w'. Tickets_MoveAllToColumn no_faults ''a'' ''b'' ''t'' w = (Inr 1, w') \<and> positions_in ''a'' w' = []"
proof -
  let ?tk = "\<lambda>i c p. blank_Ticket\<lparr> tk_ID := i, tk_ColumnID := c, tk_Position := p \<rparr>"
  let ?w = "blank_World\<lparr> w_tickets := [?tk ''1'' ''a'' 7, ?tk ''2'' ''b'' 3] \<rparr>"
  obtain w' where m: "Tickets_MoveAllToColumn no_faults ''a'' ''b'' ''t'' ?w = (Inr 1, w')"
    by (simp add: Tickets_MoveAllToColumn_def query_def positions_in_def count_if_def)
  from move_all_keeps_order [OF this] m show ?thesis by (simp add: Let_def)
qed

text \<open>
  The board shows exactly the unarchived tickets of the project that have no unresolved triage
  item, in the order of the board: the query's SQL predicate agrees with
  \<^verbatim>\<open>TriageItem.Unresolved\<close> of the domain model.
\<close>

theorem board_hides_triage:
  assumes "Tickets_ForProject f pid w = Inr ts"
  shows "set ts = {t \<in> set (w_tickets w). tk_ProjectID t = pid \<and> tk_ArchivedAt t = None \<and>
      \<not> (\<exists>it \<in> set (w_triage w). ti_TicketID it = tk_ID t \<and> Unresolved it)} \<and>
    sorted (map (\<lambda>t. (tk_ColumnID t, tk_Position t, tk_ID t)) ts)"
proof -
  have ts: "ts = sort_key (\<lambda>t. (tk_ColumnID t, tk_Position t, tk_ID t))
      (filter (\<lambda>t. tk_ProjectID t = pid \<and> on_board w t) (w_tickets w))"
    using assms by (simp add: Tickets_ForProject_def ticket_order_def)
  have "on_board w t \<longleftrightarrow> tk_ArchivedAt t = None \<and>
      \<not> (\<exists>it \<in> set (w_triage w). ti_TicketID it = tk_ID t \<and> Unresolved it)" for t
    by (auto simp: on_board_def list_ex_iff Unresolved_def)
  then show ?thesis by (auto simp: ts)
qed

theorem board_hides_triage_witness:
  "let tk = (\<lambda>i. blank_Ticket\<lparr> tk_ID := i, tk_ProjectID := ''p'' \<rparr>);
       w = blank_World\<lparr> w_tickets := [tk ''1'', tk ''2''],
             w_triage := [blank_TriageItem\<lparr> ti_TicketID := ''1'', ti_State := TriageSnoozed \<rparr>] \<rparr>
   in \<exists>ts. Tickets_ForProject no_faults ''p'' w = Inr ts \<and> tk ''1'' \<notin> set ts \<and> tk ''2'' \<in> set ts"
proof -
  let ?tk = "\<lambda>i. blank_Ticket\<lparr> tk_ID := i, tk_ProjectID := ''p'' \<rparr>"
  let ?w = "blank_World\<lparr> w_tickets := [?tk ''1'', ?tk ''2''],
             w_triage := [blank_TriageItem\<lparr> ti_TicketID := ''1'', ti_State := TriageSnoozed \<rparr>] \<rparr>"
  obtain ts where ts: "Tickets_ForProject no_faults ''p'' ?w = Inr ts"
    by (simp add: Tickets_ForProject_def)
  have "?tk ''1'' \<notin> set ts \<and> ?tk ''2'' \<in> set ts"
    using board_hides_triage [OF ts] by (simp add: Unresolved_def blank_Ticket_def)
  with ts show ?thesis by (simp add: Let_def)
qed

end
