(* ===== verification/Admission.thy ===== *)
theory Admission
  imports RunStates StoreBoard StoreFlow
begin

text \<open>
  Admission control (\<^verbatim>\<open>internal/kernel/sched/admission.go\<close>): one pass looks at every queued
  run, oldest first, and holds it, fails it or admits it after four checks: the agent's concurrency
  cap, the WIP limit of the running column, the workspace's container cap and the daily budgets.
  The pass keeps its own counters of occupied capacity, so that runs admitted by it count at once.
\<close>

section \<open>Counters and copy\<close>

record AdmitCounters =
  ac_byAgent :: "string \<Rightarrow> int"
  ac_global :: int
  ac_columnTicket :: "string \<Rightarrow> int option"

definition cents :: "int \<Rightarrow> string" where
  "cents c = ''$'' @ fmt_int (go_div c 100) @ ''.'' @ fmt_int2 (go_mod c 100)"

section \<open>Holding and failing\<close>

definition hold :: "Env \<Rightarrow> Run \<Rightarrow> string \<Rightarrow> World \<Rightarrow> World" where
  "hold env run reason w =
     (if run_HoldReason run = reason then w
      else (case Runs_SetHoldReason (e_faults env) (run_ID run) reason w of
              (Inl _, w') \<Rightarrow> w'
            | (Inr _, w') \<Rightarrow> emitRunState (run\<lparr> run_HoldReason := reason \<rparr>) w'))"

definition failQueued :: "Env \<Rightarrow> Run \<Rightarrow> string \<Rightarrow> string \<Rightarrow> World \<Rightarrow> World" where
  "failQueued env run reason message w =
     (let w1 = snd (transition env (run_ID run) RunFailed
                 (empty_update\<lparr> su_StateReason := Some reason, su_ErrorMessage := Some message \<rparr>) w)
      in snd (RunMessages_DropQueued (e_faults env) (run_ID run) w1))"

section \<open>The WIP check\<close>

datatype wip_result = WipErr store_err | WipHold string | WipClear "Column option"

text \<open>The count of a column is read once per pass and then kept by the pass.\<close>

definition wip_limited :: "Env \<Rightarrow> Column \<Rightarrow> AdmitCounters \<Rightarrow> World \<Rightarrow> int \<Rightarrow> wip_result \<times> AdmitCounters" where
  "wip_limited env dest c w limit =
     (case (case ac_columnTicket c (col_ID dest) of
              Some n \<Rightarrow> Inr (n, c)
            | None \<Rightarrow>
                (case Tickets_ForColumn (e_faults env) (col_ID dest) w of
                   Inl e \<Rightarrow> Inl e
                 | Inr ts \<Rightarrow> Inr (int (length ts),
                     c\<lparr> ac_columnTicket := (ac_columnTicket c)(col_ID dest \<mapsto> int (length ts)) \<rparr>))) of
        Inl e \<Rightarrow> (WipErr e, c)
      | Inr (n, c') \<Rightarrow>
          if limit \<le> n
          then (WipHold (''waiting: '' @ col_Name dest @ '' is at '' @ fmt_int n @ ''/'' @ fmt_int limit), c')
          else (WipClear (Some dest), c'))"

definition wipCheck :: "Env \<Rightarrow> Run \<Rightarrow> string \<Rightarrow> AdmitCounters \<Rightarrow> World \<Rightarrow> wip_result \<times> AdmitCounters" where
  "wipCheck env run tid c w =
     (case Tickets_ByID (e_faults env) tid w of
        Inl e \<Rightarrow> (WipErr e, c)
      | Inr ticket \<Rightarrow>
     (case Columns_ByID (e_faults env) (tk_ColumnID ticket) w of
        Inl e \<Rightarrow> (WipErr e, c)
      | Inr current \<Rightarrow>
     (case (if col_Category current = CategoryRunning then Inr (Some current)
            else (case Columns_ByCategory (e_faults env) (run_ProjectID run) CategoryRunning w of
                    Inl e \<Rightarrow> Inl e
                  | Inr [] \<Rightarrow> Inr None
                  | Inr (col # _) \<Rightarrow> Inr (Some col))) of
        Inl e \<Rightarrow> (WipErr e, c)
      | Inr None \<Rightarrow> (WipClear None, c)
      | Inr (Some dest) \<Rightarrow>
          (case col_WIPLimit dest of
             None \<Rightarrow> (WipClear (Some dest), c)
           | Some limit \<Rightarrow>
               if limit \<le> 0 \<or> col_ID dest = col_ID current then (WipClear (Some dest), c)
               else wip_limited env dest c w limit))))"

section \<open>The budget check\<close>

text \<open>What a daily limit says to a run: go on, wait for a readable ledger, or fail for good.\<close>

datatype budget_result = BudgetOk | BudgetUnread store_err | BudgetExceeded string

definition over_budget :: "int res \<Rightarrow> int \<Rightarrow> string \<Rightarrow> string \<Rightarrow> budget_result" where
  "over_budget spent limit who what =
     (case spent of
        Inl e \<Rightarrow> BudgetUnread e
      | Inr s \<Rightarrow>
          if limit \<le> s
          then BudgetExceeded (''Budget exceeded: '' @ who @ '' has spent '' @ cents s @ '' of its '' @
                 cents limit @ '' daily '' @ what @ ''.'')
          else BudgetOk)"

text \<open>The project's own daily budget where its row can be read and has one, else the workspace default.\<close>

definition effective_budget :: "Env \<Rightarrow> Run \<Rightarrow> WorkspaceSettings \<Rightarrow> World \<Rightarrow> int" where
  "effective_budget env run ws w =
     (case Projects_ByID (e_faults env) (run_ProjectID run) w of
        Inl _ \<Rightarrow> ws_DefaultDailyBudgetCents ws
      | Inr p \<Rightarrow> (case prj_DailyBudgetCents p of None \<Rightarrow> ws_DefaultDailyBudgetCents ws | Some b \<Rightarrow> b))"

definition budget_check :: "Env \<Rightarrow> Run \<Rightarrow> Agent \<Rightarrow> WorkspaceSettings \<Rightarrow> World \<Rightarrow> budget_result" where
  "budget_check env run agent ws w =
     (let name = (case Projects_ByID (e_faults env) (run_ProjectID run) w of Inl _ \<Rightarrow> '''' | Inr p \<Rightarrow> prj_Name p);
          budget = effective_budget env run ws w;
          r1 = (if 0 < budget
                then over_budget (Budget_ProjectDay (e_faults env) (e_day env) (run_ProjectID run) w) budget name ''budget''
                else BudgetOk)
      in case r1 of
           BudgetOk \<Rightarrow>
             (case ag_DailyCapCents agent of
                None \<Rightarrow> BudgetOk
              | Some cap \<Rightarrow>
                  if 0 < cap
                  then over_budget (Budget_AgentDay (e_faults env) (e_day env) (ag_ID agent) w) cap (ag_Name agent) ''cap''
                  else BudgetOk)
         | r \<Rightarrow> r)"

section \<open>One run, one pass\<close>

definition startSupervisor :: "Run \<Rightarrow> World \<Rightarrow> World" where
  "startSupervisor run w = w_started_update (\<lambda>l. l @ [run_ID run]) w"

definition occupy :: "Agent \<Rightarrow> Column option \<Rightarrow> AdmitCounters \<Rightarrow> AdmitCounters" where
  "occupy agent dest c =
     (let c1 = c\<lparr> ac_byAgent := (ac_byAgent c)(ag_ID agent := ac_byAgent c (ag_ID agent) + 1),
                  ac_global := ac_global c + 1 \<rparr>
      in case dest of
           None \<Rightarrow> c1
         | Some col \<Rightarrow>
             c1\<lparr> ac_columnTicket := (ac_columnTicket c1)(col_ID col \<mapsto>
                   (case ac_columnTicket c1 (col_ID col) of None \<Rightarrow> 0 | Some n \<Rightarrow> n) + 1) \<rparr>)"

text \<open>Checks 3 and 4 and the admission itself, once the run's destination column is known.\<close>

definition admit_checked ::
  "Env \<Rightarrow> Run \<Rightarrow> Agent \<Rightarrow> Column option \<Rightarrow> WorkspaceSettings \<Rightarrow> AdmitCounters \<Rightarrow> World \<Rightarrow> AdmitCounters \<times> World" where
  "admit_checked env run agent dest ws c w =
     (if 0 < ws_MaxConcurrentContainers ws \<and> ws_MaxConcurrentContainers ws \<le> ac_global c
      then (c, hold env run (''waiting: the workspace is at its '' @
                 fmt_int (ws_MaxConcurrentContainers ws) @ ''-container limit'') w)
      else (case budget_check env run agent ws w of
              BudgetUnread _ \<Rightarrow> (c, w)
            | BudgetExceeded msg \<Rightarrow> (c, failQueued env run ''budget exceeded'' msg w)
            | BudgetOk \<Rightarrow>
                (case transition env (run_ID run) RunProvisioning (empty_update\<lparr> su_HoldReason := Some '''' \<rparr>) w of
                   (TOk after, w') \<Rightarrow> (occupy agent dest c, startSupervisor after w')
                 | (_, w') \<Rightarrow> (c, w'))))"

definition admitOne :: "Env \<Rightarrow> WorkspaceSettings \<Rightarrow> Run \<Rightarrow> AdmitCounters \<times> World \<Rightarrow> AdmitCounters \<times> World" where
  "admitOne env ws run s =
     (case s of (c, w) \<Rightarrow>
     (case Agents_ByID (e_faults env) (run_AgentID run) w of
        Inl _ \<Rightarrow> (c, failQueued env run ''agent missing'' (''The run'' @ [CHR 0x27] @ ''s agent no longer exists.'') w)
      | Inr agent \<Rightarrow>
          if 0 < ag_ConcurrencyCap agent \<and> ag_ConcurrencyCap agent \<le> ac_byAgent c (ag_ID agent)
          then (c, hold env run (''waiting: '' @ ag_Name agent @ '' is at its '' @
                     fmt_int (ag_ConcurrencyCap agent) @ ''-run limit'') w)
          else (case run_TicketID run of
                  None \<Rightarrow> admit_checked env run agent None ws c w
                | Some tid \<Rightarrow>
                    (case wipCheck env run tid c w of
                       (WipErr _, c') \<Rightarrow> (c', w)
                     | (WipHold reason, c') \<Rightarrow> (c', hold env run reason w)
                     | (WipClear dest, c') \<Rightarrow> admit_checked env run agent dest ws c' w))))"

text \<open>\<^verbatim>\<open>stop\<close> says at which run the pass finds its context cancelled.\<close>

fun admit_loop ::
  "Env \<Rightarrow> (string \<Rightarrow> bool) \<Rightarrow> WorkspaceSettings \<Rightarrow> Run list \<Rightarrow> AdmitCounters \<times> World \<Rightarrow> AdmitCounters \<times> World" where
  "admit_loop env stop ws [] s = s"
| "admit_loop env stop ws (run # runs) s =
     (if stop (run_ID run) then s else admit_loop env stop ws runs (admitOne env ws run s))"

definition admitPass :: "Env \<Rightarrow> (string \<Rightarrow> bool) \<Rightarrow> World \<Rightarrow> World" where
  "admitPass env stop w =
     (case Runs_ByStates (e_faults env) [RunQueued] w of
        Inl _ \<Rightarrow> w
      | Inr [] \<Rightarrow> w
      | Inr queued \<Rightarrow>
     (case Workspace_Get (e_faults env) w of
        Inl _ \<Rightarrow> w
      | Inr ws \<Rightarrow>
     (case Runs_ActiveCountByAgent (e_faults env) w of
        Inl _ \<Rightarrow> w
      | Inr byAgent \<Rightarrow>
     (case Runs_ActiveCount (e_faults env) w of
        Inl _ \<Rightarrow> w
      | Inr global \<Rightarrow>
          snd (admit_loop env stop ws queued
                 (\<lparr> ac_byAgent = byAgent, ac_global = global, ac_columnTicket = Map.empty \<rparr>, w))))))"

section \<open>What the steps leave alone\<close>

definition uncontended :: "Env \<Rightarrow> bool" where
  "uncontended env \<longleftrightarrow> (\<forall>i. e_races env i = [])"

lemma transition_writes:
  assumes "e_races env i = []" and "transition env i to u w = (r, w')"
  shows "w_runs w' = w_runs w \<or>
    (\<exists>s. to \<in> set (legalTransitions s) \<and>
       w_runs w' = update_where (\<lambda>r. run_ID r = i \<and> run_State r = s)
         (apply_state to (stamp_end (e_now env) to u)) (w_runs w))"
proof -
  obtain x w1 where t: "transition_try env id i to u w = (x, w1)" by (meson surj_pair)
  have w': "w' = w1" using t assms by (auto simp: transition_def split: option.splits)
  have "w_runs w1 = w_runs w \<or>
    (\<exists>s. to \<in> set (legalTransitions s) \<and>
       w_runs w1 = update_where (\<lambda>r. run_ID r = i \<and> run_State r = s)
         (apply_state to (stamp_end (e_now env) to u)) (w_runs w))"
    using t
  proof (cases rule: transition_try_cases)
    case (write_err run e)
    then show ?thesis using SetState_fail [OF write_err(4)] by simp
  next
    case (lost run)
    from lost(4) have "w_runs w1 = update_where (\<lambda>r. run_ID r = i \<and> run_State r = run_State run)
        (apply_state to (stamp_end (e_now env) to u)) (w_runs w)"
      by (auto simp: Runs_SetState_def exec_def Let_def split: option.splits)
    with lost(3) show ?thesis by blast
  next
    case (won run w2 r2)
    from won(4) have "w_runs w2 = update_where (\<lambda>r. run_ID r = i \<and> run_State r = run_State run)
        (apply_state to (stamp_end (e_now env) to u)) (w_runs w)"
      by (auto simp: Runs_SetState_def exec_def Let_def split: option.splits)
    moreover have "w_runs w1 = w_runs w2" by (rule transition_done_runs [OF won(5)])
    ultimately have "w_runs w1 = update_where (\<lambda>r. run_ID r = i \<and> run_State r = run_State run)
        (apply_state to (stamp_end (e_now env) to u)) (w_runs w)" by (rule trans [rotated])
    with won(3) show ?thesis by blast
  qed simp_all
  then show ?thesis by (simp only: w')
qed

lemma transition_runs:
  assumes "e_races env i = []" and "transition env i to u w = (r, w')"
  shows "w_runs w' = w_runs w \<or>
    (\<exists>s v. to \<in> set (legalTransitions s) \<and>
       w_runs w' = update_where (\<lambda>r. run_ID r = i \<and> run_State r = s) (apply_state to v) (w_runs w))"
  using transition_writes [OF assms] by blast

lemma transition_other:
  assumes "e_races env i = []" and "transition env i to u w = (r, w')" and "k \<noteq> i"
  shows "run_of w' k = run_of w k"
proof -
  have "run_of w' k = run_of (w_runs_update (\<lambda>_. w_runs w') w) k" by (simp add: run_of_def)
  moreover have "run_of (w_runs_update (\<lambda>_. update_where (\<lambda>r. run_ID r = i \<and> run_State r = s) (apply_state to v) (w_runs w)) w) k
      = run_of w k" for s v
    using run_of_update_where [of "apply_state to v" i "\<lambda>r. run_State r = s" w k] assms(3) by (simp add: run_of_def)
  ultimately show ?thesis using transition_runs [OF assms(1,2)] by (auto simp: run_of_def)
qed

text \<open>A run is ended exactly when its end is stamped; every write of the scheduler keeps that.\<close>

definition ended_ok :: "World \<Rightarrow> bool" where
  "ended_ok w \<longleftrightarrow> (\<forall>r \<in> set (w_runs w). Terminal (run_State r) \<longleftrightarrow> run_EndedAt r \<noteq> None)"

lemma ended_ok_cong: "w_runs w' = w_runs w \<Longrightarrow> ended_ok w' = ended_ok w"
  by (simp add: ended_ok_def)

lemma apply_state_ended_ok:
  "run_EndedAt (apply_state to v x) = (case su_EndedAt v of None \<Rightarrow> run_EndedAt x | Some t \<Rightarrow> Some t)"
  "run_State (apply_state to v x) = to"
  by (cases "su_EndedAt v"; cases "su_StartedAt v"; cases "su_ErrorMessage v"; cases "su_HoldReason v";
      cases "su_StateReason v"; simp add: apply_state_def)+

lemma transition_ended:
  assumes "ended_ok w" and "e_races env i = []" and "transition env i to u w = (r, w')" and "su_EndedAt u = None"
  shows "ended_ok w'"
proof -
  have "Terminal (run_State (apply_state to (stamp_end (e_now env) to u) x)) \<longleftrightarrow>
      run_EndedAt (apply_state to (stamp_end (e_now env) to u) x) \<noteq> None"
    if "run_State x = s" "to \<in> set (legalTransitions s)" "Terminal (run_State x) \<longleftrightarrow> run_EndedAt x \<noteq> None" for x s
  proof -
    have "\<not> Terminal (run_State x)" using that legal_from_terminal [of s] by auto
    then show ?thesis using that assms(4) by (simp add: apply_state_ended_ok stamp_end_def)
  qed
  then show ?thesis
    using transition_writes [OF assms(2,3)] assms(1)
    by (auto simp: ended_ok_def set_update_where split: if_splits)
qed

lemma hold_core [simp]: "core (hold env run reason w) = core w"
proof -
  have "core (snd (Runs_SetHoldReason f i reason w)) = core w" for f i
    by (simp add: Runs_SetHoldReason_def exec_core)
  then show ?thesis
    unfolding hold_def
    by (auto split: prod.splits sum.splits) (metis snd_conv)+
qed

lemma DropQueued_runs [simp]: "w_runs (snd (RunMessages_DropQueued f i w)) = w_runs w"
  by (simp add: RunMessages_DropQueued_def exec_def split: option.splits)

lemma DropQueued_started [simp]: "w_started (snd (RunMessages_DropQueued f i w)) = w_started w"
  by (simp add: RunMessages_DropQueued_def exec_def split: option.splits)

lemma DropQueued_agents [simp]: "w_agents (snd (RunMessages_DropQueued f i w)) = w_agents w"
  by (simp add: RunMessages_DropQueued_def exec_def split: option.splits)

section \<open>Counting occupied capacity\<close>

definition occupied :: "(Run \<Rightarrow> bool) \<Rightarrow> Run list \<Rightarrow> int" where
  "occupied p t = count_if (\<lambda>r. active_state (run_State r) \<and> p r) t"

lemma count_if_Cons [simp]: "count_if p (x # xs) = (if p x then 1 else 0) + count_if p xs"
  by (simp add: count_if_def)

lemma count_if_Nil [simp]: "count_if p [] = 0"
  by (simp add: count_if_def)

lemma count_if_update_le:
  "count_if p (update_where q g t) \<le> count_if p t + int (rows_affected q t)"
  by (induction t) (auto simp: update_where_Cons)

lemma count_if_update_mono:
  "(\<And>r. r \<in> set t \<Longrightarrow> q r \<Longrightarrow> p (g r) \<Longrightarrow> p r) \<Longrightarrow> count_if p (update_where q g t) \<le> count_if p t"
  by (induction t) (auto simp: update_where_Cons)

lemma rows_affected_key:
  "distinct (map key t) \<Longrightarrow> rows_affected (\<lambda>r. key r = k \<and> p r) t \<le> 1"
proof (induction t)
  case (Cons x t)
  show ?case
  proof (cases "key x = k")
    case True
    then have "\<forall>y \<in> set t. \<not> (key y = k \<and> p y)"
      using Cons.prems by (metis distinct.simps(2) image_eqI list.set_map list.simps(9))
    then have "rows_affected (\<lambda>r. key r = k \<and> p r) t = 0" by (simp add: rows_affected_zero)
    then show ?thesis by simp
  qed (use Cons in simp)
qed simp

text \<open>A run that fails frees capacity; one that is provisioned takes at most one slot.\<close>

lemma transition_occupied:
  assumes "runs_wf w" and "uncontended env" and "transition env i to u w = (r, w')"
    and "\<And>r to v. p (apply_state to v r) = p r"
  shows "occupied p (w_runs w') \<le> occupied p (w_runs w) + (if active_state to then 1 else 0)"
proof -
  have races: "e_races env i = []" using assms(2) by (simp add: uncontended_def)
  let ?q = "\<lambda>s r. run_ID r = i \<and> run_State r = s"
  have "occupied p (update_where (?q s) (apply_state to v) (w_runs w))
      \<le> occupied p (w_runs w) + (if active_state to then 1 else 0)" for s v
  proof (cases "active_state to")
    case True
    have "distinct (map run_ID (w_runs w))" using assms(1) by (simp add: runs_wf_def)
    then have "rows_affected (?q s) (w_runs w) \<le> 1" by (rule rows_affected_key)
    with count_if_update_le [of "\<lambda>r. active_state (run_State r) \<and> p r" "?q s" "apply_state to v" "w_runs w"] True
    show ?thesis by (simp add: occupied_def)
  next
    case False
    then show ?thesis
      using count_if_update_mono [of "w_runs w" "?q s" "\<lambda>r. active_state (run_State r) \<and> p r" "apply_state to v"]
      by (simp add: occupied_def)
  qed
  moreover have "0 \<le> (if active_state to then 1 else 0 :: int)" by simp
  ultimately show ?thesis
    using transition_runs [OF races assms(3)] by auto
qed

lemma hold_runs:
  assumes "\<And>r x. p (run_HoldReason_update x r) = p r"
  shows "occupied p (w_runs (hold env run reason w)) \<le> occupied p (w_runs w)"
proof -
  have "count_if (\<lambda>r. active_state (run_State r) \<and> p r)
      (update_where q (run_HoldReason_update x) (w_runs w))
    \<le> count_if (\<lambda>r. active_state (run_State r) \<and> p r) (w_runs w)" for q x
    by (rule count_if_update_mono) (simp add: assms)
  then show ?thesis
    by (auto simp: hold_def Runs_SetHoldReason_def exec_def occupied_def split: option.splits)
qed

lemma hold_wf: "runs_wf w \<Longrightarrow> runs_wf (hold env run reason w)"
proof -
  assume wf: "runs_wf w"
  have "runs_wf (w_runs_update (update_where q (run_HoldReason_update x)) w)" for q x
    by (rule runs_wf_update_where [OF wf]) simp_all
  then show ?thesis using wf
    by (auto simp: hold_def Runs_SetHoldReason_def exec_def runs_wf_def split: option.splits)
qed


section \<open>Admission keeps the caps\<close>

text \<open>The pass's counters are never below the capacity that is really occupied.\<close>

definition counted :: "AdmitCounters \<times> World \<Rightarrow> bool" where
  "counted s \<longleftrightarrow> runs_wf (snd s) \<and>
     occupied (\<lambda>_. True) (w_runs (snd s)) \<le> ac_global (fst s) \<and>
     (\<forall>a. occupied (\<lambda>r. run_AgentID r = a) (w_runs (snd s)) \<le> ac_byAgent (fst s) a)"

lemma transition_counted:
  assumes "counted (c, w)" and "uncontended env" and "transition env i to u w = (r, w')"
    and "\<not> active_state to"
  shows "counted (c, w')"
proof -
  have wf: "runs_wf w" using assms(1) by (simp add: counted_def)
  have "\<forall>y \<in> set (e_races env i). lawful y" using assms(2) by (simp add: uncontended_def)
  then have "runs_wf w'" using transition_moves [OF wf _ assms(3)] by blast
  moreover have "occupied (\<lambda>_. True) (w_runs w') \<le> occupied (\<lambda>_. True) (w_runs w)"
    using transition_occupied [OF wf assms(2,3), of "\<lambda>_. True"] assms(4) by simp
  moreover have "occupied (\<lambda>r. run_AgentID r = a) (w_runs w') \<le> occupied (\<lambda>r. run_AgentID r = a) (w_runs w)" for a
    using transition_occupied [OF wf assms(2,3), of "\<lambda>r. run_AgentID r = a"] assms(4) by simp
  ultimately show ?thesis using assms(1) by (simp add: counted_def) (meson order_trans)
qed

lemma failQueued_counted:
  assumes "counted (c, w)" and "uncontended env"
  shows "counted (c, failQueued env run reason message w)"
proof -
  obtain r w1 where t: "transition env (run_ID run) RunFailed
       (empty_update\<lparr> su_StateReason := Some reason, su_ErrorMessage := Some message \<rparr>) w = (r, w1)"
    by (meson surj_pair)
  have "counted (c, w1)" by (rule transition_counted [OF assms t]) simp
  then show ?thesis by (simp add: failQueued_def t counted_def runs_wf_def)
qed

lemma hold_counted:
  assumes "counted (c, w)"
  shows "counted (c, hold env run reason w)"
proof -
  have "occupied (\<lambda>_. True) (w_runs (hold env run reason w)) \<le> occupied (\<lambda>_. True) (w_runs w)"
    by (rule hold_runs) simp
  moreover have "occupied (\<lambda>r. run_AgentID r = a) (w_runs (hold env run reason w))
      \<le> occupied (\<lambda>r. run_AgentID r = a) (w_runs w)" for a
    by (rule hold_runs) simp
  ultimately show ?thesis using assms by (simp add: counted_def hold_wf) (meson order_trans)
qed

lemma occupy_fields [simp]:
  "ac_global (occupy agent dest c) = ac_global c + 1"
  "ac_byAgent (occupy agent dest c) = (ac_byAgent c)(ag_ID agent := ac_byAgent c (ag_ID agent) + 1)"
  by (simp_all add: occupy_def Let_def split: option.split)

definition agent_cap :: "World \<Rightarrow> string \<Rightarrow> int" where
  "agent_cap w a = (case find_row ag_ID a (w_agents w) of None \<Rightarrow> 0 | Some ag \<Rightarrow> ag_ConcurrencyCap ag)"

text \<open>Which agent each run belongs to never changes.\<close>

definition owners :: "World \<Rightarrow> (string \<times> string) list" where
  "owners w = map (\<lambda>r. (run_ID r, run_AgentID r)) (w_runs w)"

lemma owners_update:
  assumes "\<And>r. run_ID (g r) = run_ID r" and "\<And>r. run_AgentID (g r) = run_AgentID r"
  shows "map (\<lambda>r. (run_ID r, run_AgentID r)) (update_where q g t) = map (\<lambda>r. (run_ID r, run_AgentID r)) t"
  by (induction t) (simp_all add: update_where_Cons assms)

lemma transition_owners:
  assumes "e_races env i = []" and "transition env i to u w = (r, w')"
  shows "owners w' = owners w"
  using transition_runs [OF assms] by (auto simp: owners_def owners_update)

lemma hold_owners: "owners (hold env run reason w) = owners w"
  by (auto simp: hold_def Runs_SetHoldReason_def exec_def owners_def owners_update split: option.splits)

text \<open>What one step may do to the counters: nothing, or take one slot under every cap it has.\<close>

definition step_ok :: "WorkspaceSettings \<Rightarrow> AdmitCounters \<times> World \<Rightarrow> AdmitCounters \<times> World \<Rightarrow> bool" where
  "step_ok ws s s' \<longleftrightarrow> counted s' \<and> w_agents (snd s') = w_agents (snd s) \<and>
     owners (snd s') = owners (snd s) \<and>
     (0 < ws_MaxConcurrentContainers ws \<longrightarrow>
        ac_global (fst s') \<le> max (ac_global (fst s)) (ws_MaxConcurrentContainers ws)) \<and>
     (\<forall>a. 0 < agent_cap (snd s) a \<longrightarrow>
        ac_byAgent (fst s') a \<le> max (ac_byAgent (fst s) a) (agent_cap (snd s) a))"

lemma step_ok_same:
  "counted (c', w') \<Longrightarrow> w_agents w' = w_agents w \<Longrightarrow> owners w' = owners w \<Longrightarrow> ac_global c' = ac_global c \<Longrightarrow>
    ac_byAgent c' = ac_byAgent c \<Longrightarrow> step_ok ws (c, w) (c', w')"
  by (simp add: step_ok_def)

lemma failQueued_agents:
  assumes "uncontended env"
  shows "w_agents (failQueued env run reason message w) = w_agents w"
proof -
  obtain r w1 where t: "transition env (run_ID run) RunFailed
       (empty_update\<lparr> su_StateReason := Some reason, su_ErrorMessage := Some message \<rparr>) w = (r, w1)"
    by (meson surj_pair)
  have "core w1 = core w" by (rule transition_core [OF _ t]) (use assms in \<open>simp add: uncontended_def\<close>)
  then have "w_agents w1 = w_agents w" by (rule core_fields)
  then show ?thesis by (simp add: failQueued_def t)
qed

lemma failQueued_owners:
  assumes "uncontended env"
  shows "owners (failQueued env run reason message w) = owners w"
proof -
  obtain r w1 where t: "transition env (run_ID run) RunFailed
       (empty_update\<lparr> su_StateReason := Some reason, su_ErrorMessage := Some message \<rparr>) w = (r, w1)"
    by (meson surj_pair)
  have "owners w1 = owners w" by (rule transition_owners [OF _ t]) (use assms in \<open>simp add: uncontended_def\<close>)
  then show ?thesis by (simp add: failQueued_def t owners_def)
qed

lemma hold_agents: "w_agents (hold env run reason w) = w_agents w"
  by (rule core_fields) simp

lemma transition_refused_runs:
  assumes "runs_wf w" and "e_races env i = []" and "transition env i to u w = (r, w')" and "\<not> trans_ok r"
  shows "w_runs w' = w_runs w"
proof -
  obtain x w1 where t: "transition_try env id i to u w = (x, w1)" by (meson surj_pair)
  have "x \<noteq> None" by (rule transition_try_id [OF assms(1) t])
  then have x: "x = Some r \<and> w' = w1" using t assms(2,3) by (auto simp: transition_def)
  have "w_runs w1 = w_runs w"
    using t
  proof (cases rule: transition_try_cases)
    case (write_err run e)
    then show ?thesis using SetState_fail [OF write_err(4)] by simp
  next
    case (won run w2 r2)
    then have "trans_ok r2" by (auto simp: transition_done_def Let_def)
    then show ?thesis using x assms(4) won(6) by simp
  qed (use x in simp_all)
  with x show ?thesis by simp
qed

lemma admit_checked_step:
  assumes c: "counted (c, w)" and u: "uncontended env"
    and agent: "find_row ag_ID (run_AgentID run) (w_agents w) = Some agent"
    and own: "\<And>a'. (run_ID run, a') \<in> set (owners w) \<Longrightarrow> a' = run_AgentID run"
    and cap: "\<not> (0 < ag_ConcurrencyCap agent \<and> ag_ConcurrencyCap agent \<le> ac_byAgent c (ag_ID agent))"
  shows "step_ok ws (c, w) (admit_checked env run agent dest ws c w)"
proof (cases "0 < ws_MaxConcurrentContainers ws \<and> ws_MaxConcurrentContainers ws \<le> ac_global c")
  case True
  then show ?thesis
    using step_ok_same [OF hold_counted [OF c] hold_agents hold_owners] by (simp add: admit_checked_def)
next
  case glob: False
  show ?thesis
  proof (cases "budget_check env run agent ws w")
    case BudgetOk
    let ?u = "empty_update\<lparr> su_HoldReason := Some '''' \<rparr>"
    obtain r w1 where t: "transition env (run_ID run) RunProvisioning ?u w = (r, w1)"
      by (meson surj_pair)
    have wf: "runs_wf w" using c by (simp add: counted_def)
    have noraces: "e_races env (run_ID run) = []" using u by (simp add: uncontended_def)
    then have races: "\<forall>y \<in> set (e_races env (run_ID run)). lawful y" by simp
    have wf1: "runs_wf w1" using transition_moves [OF wf races t] by blast
    have ag: "w_agents w1 = w_agents w" by (rule core_fields [OF transition_core [OF noraces t]])
    have own': "run_AgentID r = run_AgentID run" if "r \<in> set (w_runs w)" "run_ID r = run_ID run" for r
      by (rule own) (use that imageI [OF that(1), of "\<lambda>r. (run_ID r, run_AgentID r)"] in \<open>simp add: owners_def\<close>)
    have ow: "owners w1 = owners w" by (rule transition_owners [OF noraces t])
    show ?thesis
    proof (cases "trans_ok r")
      case True
      then obtain after where r: "r = TOk after" by (cases r) simp_all
      have occ: "occupied (\<lambda>_. True) (w_runs w1) \<le> occupied (\<lambda>_. True) (w_runs w) + 1"
        using transition_occupied [OF wf u t, of "\<lambda>_. True"] by simp
      have id: "ag_ID agent = run_AgentID run" using find_row_Some [OF agent] by simp
      have occa: "occupied (\<lambda>r. run_AgentID r = a) (w_runs w1)
          \<le> occupied (\<lambda>r. run_AgentID r = a) (w_runs w) + (if a = ag_ID agent then 1 else 0)" for a
      proof (cases "a = ag_ID agent")
        case True
        then show ?thesis using transition_occupied [OF wf u t, of "\<lambda>r. run_AgentID r = a"] by simp
      next
        case False
        have "occupied (\<lambda>r. run_AgentID r = a)
            (update_where (\<lambda>r. run_ID r = run_ID run \<and> run_State r = s) (apply_state RunProvisioning v) (w_runs w))
          \<le> occupied (\<lambda>r. run_AgentID r = a) (w_runs w)" for s v
          unfolding occupied_def
          by (rule count_if_update_mono) (use own' False id in auto)
        then show ?thesis using transition_runs [OF noraces t] False by auto
      qed
      have "counted (occupy agent dest c, startSupervisor after w1)"
        unfolding counted_def
      proof (intro conjI allI)
        show "runs_wf (snd (occupy agent dest c, startSupervisor after w1))"
          using wf1 by (simp add: startSupervisor_def runs_wf_def)
        show "occupied (\<lambda>_. True) (w_runs (snd (occupy agent dest c, startSupervisor after w1)))
            \<le> ac_global (fst (occupy agent dest c, startSupervisor after w1))"
          using c occ by (simp add: counted_def startSupervisor_def)
        fix a
        have "occupied (\<lambda>r. run_AgentID r = a) (w_runs w) \<le> ac_byAgent c a" using c by (simp add: counted_def)
        with occa [of a] show "occupied (\<lambda>r. run_AgentID r = a)
            (w_runs (snd (occupy agent dest c, startSupervisor after w1)))
            \<le> ac_byAgent (fst (occupy agent dest c, startSupervisor after w1)) a"
          by (simp add: startSupervisor_def split: if_splits)
      qed
      then show ?thesis
        using glob cap agent ag ow id
        by (auto simp: admit_checked_def BudgetOk t r step_ok_def startSupervisor_def agent_cap_def owners_def)
    next
      case False
      have "w_runs w1 = w_runs w" by (rule transition_refused_runs [OF wf noraces t False])
      then have "counted (c, w1)" using c by (simp add: counted_def runs_wf_def)
      then have "step_ok ws (c, w) (c, w1)" by (rule step_ok_same [OF _ ag ow refl refl])
      then show ?thesis using glob t BudgetOk False by (cases r) (auto simp: admit_checked_def)
    qed
  next
    case (BudgetUnread e)
    then show ?thesis using step_ok_same [OF c refl refl refl refl] glob by (auto simp: admit_checked_def)
  next
    case (BudgetExceeded m)
    then show ?thesis
      using step_ok_same [OF failQueued_counted [OF c u] failQueued_agents [OF u] failQueued_owners [OF u]] glob
      by (auto simp: admit_checked_def)
  qed
qed

lemma wipCheck_caps:
  "wipCheck env run tid c w = (x, c') \<Longrightarrow> ac_global c' = ac_global c \<and> ac_byAgent c' = ac_byAgent c"
  by (auto simp: wipCheck_def wip_limited_def split: sum.splits list.splits option.splits if_splits)

lemma step_ok_counters:
  assumes "step_ok ws (c', w) s" and "ac_global c' = ac_global c" and "ac_byAgent c' = ac_byAgent c"
  shows "step_ok ws (c, w) s"
  using assms by (simp add: step_ok_def)

lemma counted_counters:
  "counted (c, w) \<Longrightarrow> ac_global c' = ac_global c \<Longrightarrow> ac_byAgent c' = ac_byAgent c \<Longrightarrow> counted (c', w)"
  by (simp add: counted_def)

lemma admitOne_step:
  assumes c: "counted (c, w)" and u: "uncontended env"
    and own: "\<And>a'. (run_ID run, a') \<in> set (owners w) \<Longrightarrow> a' = run_AgentID run"
  shows "step_ok ws (c, w) (admitOne env ws run (c, w))"
proof (cases "Agents_ByID (e_faults env) (run_AgentID run) w")
  case (Inl e)
  then show ?thesis
    using step_ok_same [OF failQueued_counted [OF c u] failQueued_agents [OF u] failQueued_owners [OF u]]
    by (simp add: admitOne_def)
next
  case (Inr agent)
  then have agent: "find_row ag_ID (run_AgentID run) (w_agents w) = Some agent"
    by (simp add: Agents_ByID_def)
  note hold = step_ok_same [OF hold_counted hold_agents hold_owners]
  show ?thesis
  proof (cases "0 < ag_ConcurrencyCap agent \<and> ag_ConcurrencyCap agent \<le> ac_byAgent c (ag_ID agent)")
    case True
    then show ?thesis using hold [OF c] by (simp add: admitOne_def Inr)
  next
    case cap: False
    show ?thesis
    proof (cases "run_TicketID run")
      case None
      then show ?thesis using admit_checked_step [OF c u agent own cap] cap by (auto simp: admitOne_def Inr)
    next
      case (Some tid)
      obtain x c' where wip: "wipCheck env run tid c w = (x, c')" by (meson surj_pair)
      have same: "ac_global c' = ac_global c" "ac_byAgent c' = ac_byAgent c"
        using wipCheck_caps [OF wip] by auto
      have c': "counted (c', w)" by (rule counted_counters [OF c same])
      have cap': "\<not> (0 < ag_ConcurrencyCap agent \<and> ag_ConcurrencyCap agent \<le> ac_byAgent c' (ag_ID agent))"
        using cap same by simp
      show ?thesis
      proof (cases x)
        case (WipErr e)
        then show ?thesis
          using step_ok_counters [OF step_ok_same [OF c' refl refl refl refl] same] cap Some wip
          by (auto simp: admitOne_def Inr)
      next
        case (WipHold reason)
        then show ?thesis
          using step_ok_counters [OF hold [OF c' refl refl] same] cap Some wip
          by (auto simp: admitOne_def Inr)
      next
        case (WipClear dest)
        then show ?thesis
          using step_ok_counters [OF admit_checked_step [OF c' u agent own cap'] same] cap Some wip
          by (auto simp: admitOne_def Inr)
      qed
    qed
  qed
qed

lemma max_chain: "(x :: int) \<le> max y k \<Longrightarrow> y \<le> max z k \<Longrightarrow> x \<le> max z k"
  by (simp add: max_def split: if_splits)

lemma step_ok_trans:
  assumes "step_ok ws s s1" and "step_ok ws s1 s2"
  shows "step_ok ws s s2"
proof -
  have "agent_cap (snd s1) a = agent_cap (snd s) a" for a
    using assms(1) by (simp add: step_ok_def agent_cap_def)
  then show ?thesis using assms unfolding step_ok_def by (metis max_chain)
qed

lemma admit_loop_step:
  assumes "counted s" and "uncontended env"
    and "\<And>run a'. run \<in> set runs \<Longrightarrow> (run_ID run, a') \<in> set (owners (snd s)) \<Longrightarrow> a' = run_AgentID run"
  shows "step_ok ws s (admit_loop env stop ws runs s)"
  using assms(1,3)
proof (induction runs arbitrary: s)
  case Nil
  then show ?case using step_ok_same [of "fst s" "snd s" "snd s" "fst s" ws] by simp
next
  case (Cons run runs)
  have 1: "step_ok ws s (admitOne env ws run s)"
    using admitOne_step [of "fst s" "snd s", OF _ assms(2), of run ws] Cons.prems by simp
  have "step_ok ws (admitOne env ws run s) (admit_loop env stop ws runs (admitOne env ws run s))"
    by (rule Cons.IH) (use 1 Cons.prems(2) in \<open>auto simp: step_ok_def\<close>)
  with 1 have "step_ok ws s (admit_loop env stop ws runs (admitOne env ws run s))" by (rule step_ok_trans)
  then show ?case
    using step_ok_same [of "fst s" "snd s" "snd s" "fst s" ws] Cons.prems(1) by simp
qed

text \<open>
  C11. A pass never oversubscribes: whatever the driver refuses and wherever the pass is cut short,
  the number of runs that hold a container slot afterwards is at most the workspace's container cap,
  and each agent's at most its concurrency cap, unless it was above the cap already, and then it did
  not grow.
\<close>

theorem admission_respects_caps:
  assumes "runs_wf w" and "uncontended env"
  shows "(0 < ws_MaxConcurrentContainers (w_workspace w) \<longrightarrow>
      occupied (\<lambda>_. True) (w_runs (admitPass env stop w)) \<le>
        max (occupied (\<lambda>_. True) (w_runs w)) (ws_MaxConcurrentContainers (w_workspace w))) \<and>
    (\<forall>a. 0 < agent_cap w a \<longrightarrow>
      occupied (\<lambda>r. run_AgentID r = a) (w_runs (admitPass env stop w)) \<le>
        max (occupied (\<lambda>r. run_AgentID r = a) (w_runs w)) (agent_cap w a))"
proof (cases "\<exists>queued ws byAgent global. queued \<noteq> [] \<and>
    Runs_ByStates (e_faults env) [RunQueued] w = Inr queued \<and> Workspace_Get (e_faults env) w = Inr ws \<and>
    Runs_ActiveCountByAgent (e_faults env) w = Inr byAgent \<and> Runs_ActiveCount (e_faults env) w = Inr global")
  case True
  then obtain queued ws byAgent global where q: "queued \<noteq> []"
    "Runs_ByStates (e_faults env) [RunQueued] w = Inr queued" "Workspace_Get (e_faults env) w = Inr ws"
    "Runs_ActiveCountByAgent (e_faults env) w = Inr byAgent" "Runs_ActiveCount (e_faults env) w = Inr global"
    by blast
  let ?c = "\<lparr> ac_byAgent = byAgent, ac_global = global, ac_columnTicket = Map.empty \<rparr>"
  have pass: "admitPass env stop w = snd (admit_loop env stop ws queued (?c, w))"
    using q by (cases queued) (simp_all add: admitPass_def)
  have global: "global = occupied (\<lambda>_. True) (w_runs w)"
    and byAgent: "byAgent a = occupied (\<lambda>r. run_AgentID r = a) (w_runs w)" for a
    using q(4,5) by (auto simp: Runs_ActiveCount_def Runs_ActiveCountByAgent_def occupied_def)
  have c: "counted (?c, w)" using assms(1) by (simp add: counted_def global byAgent)
  have mem: "run \<in> set (w_runs w)" if "run \<in> set queued" for run
    using q(2) that by (auto simp: Runs_ByStates_def)
  have own: "a' = run_AgentID run" if q: "run \<in> set queued" and o: "(run_ID run, a') \<in> set (owners w)" for run a'
  proof -
    obtain r where r: "r \<in> set (w_runs w)" "run_ID r = run_ID run" "run_AgentID r = a'"
      using o by (auto simp: owners_def)
    have "run_of w (run_ID run) = Some r" using mem_run_of [OF assms(1) r(1)] r(2) by simp
    moreover have "run_of w (run_ID run) = Some run" using mem_run_of [OF assms(1) mem [OF q]] .
    ultimately show ?thesis using r(3) by simp
  qed
  have ws: "ws = w_workspace w" using q(3) by (simp add: Workspace_Get_def)
  have "step_ok ws (?c, w) (admit_loop env stop ws queued (?c, w))"
    by (rule admit_loop_step [OF c assms(2)]) (use own in simp)
  then show ?thesis
    unfolding pass ws
    by (simp add: step_ok_def counted_def global byAgent) (meson order_trans)
next
  case False
  then have "admitPass env stop w = w"
    by (auto simp: admitPass_def split: sum.splits list.splits)
  then show ?thesis by simp
qed

text \<open>A concrete queue: two runs of one agent whose cap is 1, in a workspace of at most 6.\<close>

definition demo_env :: Env where
  "demo_env = \<lparr> e_faults = no_faults, e_now = ''t'', e_day = ''d'', e_races = (\<lambda>_. []) \<rparr>"

definition demo_run :: "string \<Rightarrow> int \<Rightarrow> string option \<Rightarrow> Run" where
  "demo_run i n tk = blank_Run\<lparr> run_ID := i, run_Seq := n, run_AgentID := ''a'', run_ProjectID := ''p'',
     run_TicketID := tk, run_State := RunQueued, run_QueuedAt := ''q'' \<rparr>"

definition demo_world :: World where
  "demo_world = blank_World\<lparr>
     w_runs := [demo_run ''r1'' 1 None, demo_run ''r2'' 2 None],
     w_agents := [blank_Agent\<lparr> ag_ID := ''a'', ag_Name := ''dev'', ag_ConcurrencyCap := 1 \<rparr>],
     w_workspace := blank_WorkspaceSettings\<lparr> ws_MaxConcurrentContainers := 6 \<rparr> \<rparr>"

lemma demo_uncontended: "uncontended demo_env"
  by (simp add: uncontended_def demo_env_def)

theorem admission_respects_caps_witness:
  "let w' = admitPass demo_env (\<lambda>_. False) demo_world
   in occupied (\<lambda>r. run_AgentID r = ''a'') (w_runs w') \<le> 1 \<and>
      state_of w' ''r1'' = Some RunProvisioning \<and> state_of w' ''r2'' = Some RunQueued"
proof -
  have wf: "runs_wf demo_world" by (simp add: runs_wf_def demo_world_def demo_run_def)
  have cap: "agent_cap demo_world ''a'' = 1"
    by (simp add: agent_cap_def demo_world_def find_row_Cons)
  have "occupied (\<lambda>r. run_AgentID r = ''a'') (w_runs demo_world) = 0"
    by (simp add: occupied_def demo_world_def demo_run_def)
  with admission_respects_caps [OF wf demo_uncontended, of "\<lambda>_. False", THEN conjunct2, THEN spec, of "''a''"] cap
  have 1: "occupied (\<lambda>r. run_AgentID r = ''a'') (w_runs (admitPass demo_env (\<lambda>_. False) demo_world)) \<le> 1"
    by simp
  have "state_of (admitPass demo_env (\<lambda>_. False) demo_world) ''r1'' = Some RunProvisioning"
    "state_of (admitPass demo_env (\<lambda>_. False) demo_world) ''r2'' = Some RunQueued"
    by code_simp+
  with 1 show ?thesis by (simp add: Let_def)
qed

section \<open>Who gets in\<close>

lemma failQueued_started:
  assumes "uncontended env"
  shows "w_started (failQueued env run reason message w) = w_started w"
proof -
  obtain r w1 where t: "transition env (run_ID run) RunFailed
       (empty_update\<lparr> su_StateReason := Some reason, su_ErrorMessage := Some message \<rparr>) w = (r, w1)"
    by (meson surj_pair)
  have "core w1 = core w" by (rule transition_core [OF _ t]) (use assms in \<open>simp add: uncontended_def\<close>)
  then have "w_started w1 = w_started w" by (rule core_fields)
  then show ?thesis by (simp add: failQueued_def t)
qed

lemma hold_started: "w_started (hold env run reason w) = w_started w"
  by (rule core_fields) simp

lemma transition_ok_ID:
  assumes "e_races env i = []" and "transition env i to u w = (TOk r, w')"
  shows "run_ID r = i"
proof -
  obtain x w1 where t: "transition_try env id i to u w = (x, w1)" by (meson surj_pair)
  then have x: "x = Some (TOk r)" using assms by (auto simp: transition_def split: option.splits)
  show ?thesis
    using t
  proof (cases rule: transition_try_cases)
    case (same run)
    then show ?thesis using x run_of_ID by simp
  next
    case (won run w2 r2)
    have "run_ID run = i" using won(1) by (rule run_of_ID)
    then have "r2 = TOk r \<Longrightarrow> run_ID r = i"
      using won(5) run_of_ID by (auto simp: transition_done_def Let_def query_row_def split: option.splits)
    then show ?thesis using x won(6) by simp
  qed (use x in simp_all)
qed

lemma over_budget_ok: "over_budget spent limit who what = BudgetOk \<longleftrightarrow> (\<exists>s. spent = Inr s \<and> s < limit)"
  by (auto simp: over_budget_def split: sum.splits)

definition within_budget :: "Env \<Rightarrow> Run \<Rightarrow> Agent \<Rightarrow> WorkspaceSettings \<Rightarrow> World \<Rightarrow> bool" where
  "within_budget env run agent ws w \<longleftrightarrow>
     (0 < effective_budget env run ws w \<longrightarrow>
        sum_cents (\<lambda>l. lr_Day l = e_day env \<and> lr_ProjectID l = run_ProjectID run) (w_budget w)
          < effective_budget env run ws w) \<and>
     (\<forall>cap. ag_DailyCapCents agent = Some cap \<longrightarrow> 0 < cap \<longrightarrow>
        sum_cents (\<lambda>l. lr_Day l = e_day env \<and> lr_AgentID l = Some (ag_ID agent)) (w_budget w) < cap)"

lemma budget_check_within: "budget_check env run agent ws w = BudgetOk \<Longrightarrow> within_budget env run agent ws w"
  unfolding within_budget_def budget_check_def
  by (auto simp: over_budget_ok Budget_ProjectDay_def Budget_AgentDay_def Let_def
      split: budget_result.splits if_splits option.splits)

text \<open>
  A supervisor is started only for a run that passed every check: its agent exists and is below
  its concurrency cap, the WIP check of its ticket is clear, the workspace is below its container
  cap and neither daily budget is spent; and then exactly this run is started, in the state
  \<^verbatim>\<open>provisioning\<close>.
\<close>

theorem admitted_only_if_checked:
  assumes "uncontended env" and "runs_wf w" and "admitOne env ws run (c, w) = (c', w')"
    and "w_started w' \<noteq> w_started w"
  shows "\<exists>agent. Agents_ByID (e_faults env) (run_AgentID run) w = Inr agent \<and>
    (0 < ag_ConcurrencyCap agent \<longrightarrow> ac_byAgent c (ag_ID agent) < ag_ConcurrencyCap agent) \<and>
    (0 < ws_MaxConcurrentContainers ws \<longrightarrow> ac_global c < ws_MaxConcurrentContainers ws) \<and>
    (\<forall>tid. run_TicketID run = Some tid \<longrightarrow> (\<exists>dest. fst (wipCheck env run tid c w) = WipClear dest)) \<and>
    within_budget env run agent ws w \<and>
    w_started w' = w_started w @ [run_ID run] \<and> state_of w' (run_ID run) = Some RunProvisioning"
proof (cases "Agents_ByID (e_faults env) (run_AgentID run) w")
  case (Inl e)
  then show ?thesis using assms(3,4) failQueued_started [OF assms(1)] by (auto simp: admitOne_def)
next
  case (Inr agent)
  have noraces: "e_races env (run_ID run) = []" using assms(1) by (simp add: uncontended_def)
  have checked: "(0 < ws_MaxConcurrentContainers ws \<longrightarrow> ac_global d < ws_MaxConcurrentContainers ws) \<and>
      within_budget env run agent ws w \<and> w_started w' = w_started w @ [run_ID run] \<and>
      state_of w' (run_ID run) = Some RunProvisioning"
    if ac: "admit_checked env run agent dest ws d w = (c', w')" for dest d
  proof -
    let ?u = "empty_update\<lparr> su_HoldReason := Some '''' \<rparr>"
    obtain r w1 where t: "transition env (run_ID run) RunProvisioning ?u w = (r, w1)" by (meson surj_pair)
    have st: "w_started w1 = w_started w" by (rule core_fields [OF transition_core [OF noraces t]])
    have glob: "\<not> (0 < ws_MaxConcurrentContainers ws \<and> ws_MaxConcurrentContainers ws \<le> ac_global d)"
      using ac assms(4) hold_started by (auto simp: admit_checked_def)
    have b: "budget_check env run agent ws w = BudgetOk"
      using ac assms(4) glob failQueued_started [OF assms(1)]
      by (auto simp: admit_checked_def split: budget_result.splits)
    obtain after where r: "r = TOk after"
      using ac assms(4) glob b t st by (cases r) (auto simp: admit_checked_def)
    have w': "w' = startSupervisor after w1"
      using ac glob b t r by (auto simp: admit_checked_def)
    have races: "\<forall>y \<in> set (e_races env (run_ID run)). lawful y" using noraces by simp
    have ok: "state_of w1 (run_ID run) = Some RunProvisioning"
      using transition_ok [OF assms(2) races t [unfolded r]] by blast
    have "state_of w' (run_ID run) = Some RunProvisioning"
      using ok by (simp add: w' startSupervisor_def state_of_def run_of_def)
    moreover have "run_ID after = run_ID run" by (rule transition_ok_ID [OF noraces t [unfolded r]])
    ultimately show ?thesis
      using glob budget_check_within [OF b] st by (auto simp: w' startSupervisor_def)
  qed
  show ?thesis
    using assms(3,4) Inr checked hold_started
    by (auto simp: admitOne_def split: if_splits option.splits prod.splits wip_result.splits)
      (metis wipCheck_caps)+
qed

theorem admitted_only_if_checked_witness:
  "within_budget demo_env (demo_run ''r1'' 1 None)
     (blank_Agent\<lparr> ag_ID := ''a'', ag_Name := ''dev'', ag_ConcurrencyCap := 1 \<rparr>) (w_workspace demo_world) demo_world"
proof -
  let ?c = "\<lparr> ac_byAgent = (\<lambda>_. 0), ac_global = 0, ac_columnTicket = Map.empty \<rparr>"
  let ?r = "admitOne demo_env (w_workspace demo_world) (demo_run ''r1'' 1 None) (?c, demo_world)"
  have wf: "runs_wf demo_world" by (simp add: runs_wf_def demo_world_def demo_run_def)
  have "w_started (snd ?r) \<noteq> w_started demo_world" by code_simp
  from admitted_only_if_checked [OF demo_uncontended wf surjective_pairing this]
  obtain agent where a: "Agents_ByID (e_faults demo_env) (run_AgentID (demo_run ''r1'' 1 None)) demo_world = Inr agent"
    and b: "within_budget demo_env (demo_run ''r1'' 1 None) agent (w_workspace demo_world) demo_world" by blast
  have "agent = blank_Agent\<lparr> ag_ID := ''a'', ag_Name := ''dev'', ag_ConcurrencyCap := 1 \<rparr>"
    using a by (simp add: Agents_ByID_def demo_world_def demo_run_def find_row_Cons)
  with b show ?thesis by simp
qed

text \<open>
  The WIP check lets a ticket into a limited running column it is not in yet only while the
  count the pass keeps for that column is below the limit; the first look at a column counts its
  unarchived tickets.
\<close>

theorem wip_clear_means_room:
  assumes "wipCheck env run tid c w = (WipClear (Some dest), c')"
    and "find_row tk_ID tid (w_tickets w) = Some ticket" and "tk_ColumnID ticket \<noteq> col_ID dest"
    and "col_WIPLimit dest = Some limit" and "0 < limit"
  shows "\<exists>n. ac_columnTicket c' (col_ID dest) = Some n \<and> n < limit \<and> col_Category dest = CategoryRunning \<and>
    n = (case ac_columnTicket c (col_ID dest) of Some m \<Rightarrow> m
         | None \<Rightarrow> count_if (\<lambda>t. tk_ColumnID t = col_ID dest \<and> tk_ArchivedAt t = None) (w_tickets w))"
proof -
  have "Tickets_ByID (e_faults env) tid w = Inr ticket"
    using assms(1,2) by (auto simp: wipCheck_def Tickets_ByID_def query_row_def split: option.splits)
  moreover obtain current where cur: "Columns_ByID (e_faults env) (tk_ColumnID ticket) w = Inr current"
    using assms(1) calculation by (auto simp: wipCheck_def split: sum.splits)
  moreover have id: "col_ID current = tk_ColumnID ticket"
    using cur by (auto simp: Columns_ByID_def dest: find_row_Some)
  ultimately have lim: "wip_limited env dest c w limit = (WipClear (Some dest), c')"
    and cat: "col_Category dest = CategoryRunning"
    using assms(1,3,4,5)
    by (auto simp: wipCheck_def Columns_ByCategory_def wip_limited_def split: sum.splits option.splits list.splits if_splits
        dest!: arg_cong [of _ _ set])
  show ?thesis
    using lim cat
    by (auto simp: wip_limited_def Tickets_ForColumn_def count_if_def split: option.splits sum.splits if_splits)
qed

text \<open>
  A board with one running column, limit 2, that is full (A and B), and a ticket C in another
  column; \<^verbatim>\<open>wip_world rs\<close> has the queued runs \<^verbatim>\<open>rs\<close>.
\<close>

definition wip_world :: "Run list \<Rightarrow> World" where
  "wip_world rs = blank_World\<lparr>
     w_runs := rs,
     w_agents := [blank_Agent\<lparr> ag_ID := ''a'', ag_Name := ''dev'' \<rparr>],
     w_columns := [blank_Column\<lparr> col_ID := ''ready'', col_ProjectID := ''p'', col_Category := CategoryReady \<rparr>,
       blank_Column\<lparr> col_ID := ''run'', col_ProjectID := ''p'', col_Name := ''Doing'',
         col_Category := CategoryRunning, col_WIPLimit := Some 2 \<rparr>],
     w_tickets := [blank_Ticket\<lparr> tk_ID := ''A'', tk_ColumnID := ''run'' \<rparr>,
       blank_Ticket\<lparr> tk_ID := ''B'', tk_ColumnID := ''run'' \<rparr>,
       blank_Ticket\<lparr> tk_ID := ''C'', tk_ColumnID := ''ready'' \<rparr>] \<rparr>"

theorem wip_clear_means_room_witness:
  "let w = (wip_world [])\<lparr> w_tickets := [blank_Ticket\<lparr> tk_ID := ''C'', tk_ColumnID := ''ready'' \<rparr>] \<rparr>
   in \<exists>n. n < 2 \<and> n = count_if (\<lambda>t. tk_ColumnID t = ''run'' \<and> tk_ArchivedAt t = None) (w_tickets w)"
proof -
  let ?w = "(wip_world [])\<lparr> w_tickets := [blank_Ticket\<lparr> tk_ID := ''C'', tk_ColumnID := ''ready'' \<rparr>] \<rparr>"
  let ?c = "\<lparr> ac_byAgent = (\<lambda>_. 0), ac_global = 0, ac_columnTicket = Map.empty \<rparr>"
  let ?dest = "blank_Column\<lparr> col_ID := ''run'', col_ProjectID := ''p'', col_Name := ''Doing'',
         col_Category := CategoryRunning, col_WIPLimit := Some 2 \<rparr>"
  obtain c' where c: "wipCheck demo_env (demo_run ''r'' 1 (Some ''C'')) ''C'' ?c ?w = (WipClear (Some ?dest), c')"
    by (simp add: wipCheck_def wip_limited_def Tickets_ByID_def Columns_ByID_def Columns_ByCategory_def
        Tickets_ForColumn_def demo_env_def wip_world_def demo_run_def find_row_Cons query_row_def
        blank_Column_def blank_Ticket_def)
  have tk: "find_row tk_ID ''C'' (w_tickets ?w) = Some (blank_Ticket\<lparr> tk_ID := ''C'', tk_ColumnID := ''ready'' \<rparr>)"
    by (simp add: find_row_Cons)
  show ?thesis
    using wip_clear_means_room [OF c tk] by (auto simp: Let_def)
qed


end
