(* ===== verification/Supervisor.thy ===== *)
theory Supervisor
  imports RunStates StoreFlow
begin

text \<open>
  One run's supervisor (\<^verbatim>\<open>internal/kernel/sched/supervisor.go\<close>): the stop request and what it
  means for the outcome, the wall clock that stands still while the run is parked on a human, and
  the loop that waits for the session to end. Times are nanoseconds on the process's clock.
\<close>

section \<open>Stop requests\<close>

record Sup =
  sup_stop :: "(RunState \<times> string) option"
  sup_handle :: bool
  sup_cancelled :: bool
  sup_signals :: "string list"
  sup_parked :: bool
  sup_parkedSince :: "int option"
  sup_parkedTotal :: int

definition new_sup :: Sup where
  "new_sup = \<lparr> sup_stop = None, sup_handle = False, sup_cancelled = False, sup_signals = [],
     sup_parked = False, sup_parkedSince = None, sup_parkedTotal = 0 \<rparr>"

text \<open>The first request decides; \<^verbatim>\<open>sup_signals\<close> records what the agent process was told.\<close>

definition requestStop :: "RunState \<Rightarrow> string \<Rightarrow> Sup \<Rightarrow> Sup" where
  "requestStop kind why sv =
     (if sup_stop sv \<noteq> None then sv
      else sv\<lparr> sup_stop := Some (kind, why),
                sup_signals := (if sup_handle sv then sup_signals sv @ [why] else sup_signals sv) \<rparr>)"

text \<open>\<^verbatim>\<open>setHandle\<close> and the stop it delivers when one was requested before the launch.\<close>

definition setHandle :: "Sup \<Rightarrow> Sup" where
  "setHandle sv =
     sv\<lparr> sup_handle := True,
          sup_signals := (case sup_stop sv of None \<Rightarrow> sup_signals sv | Some (k, why) \<Rightarrow> sup_signals sv @ [why]) \<rparr>"

section \<open>Outcomes\<close>

datatype waitOutcome = WaitErr string | WaitResult bool int string

definition outcomeOf :: "Sup \<Rightarrow> waitOutcome \<Rightarrow> RunState \<times> string \<times> string" where
  "outcomeOf sv out =
     (case sup_stop sv of
        Some (kind, why) \<Rightarrow> (kind, why, why)
      | None \<Rightarrow>
          (case out of
             WaitErr e \<Rightarrow> (RunFailed, ''runtime error'', e)
           | WaitResult isErr code text \<Rightarrow>
               if isErr \<or> code \<noteq> 0
               then (RunFailed, ''agent failed'',
                     if text = [] then ''the agent process exited '' @ fmt_int code else text)
               else (RunCompleted, '''', text)))"

section \<open>The wall clock\<close>

definition second :: int where
  "second = 1000000000"

definition parkedTimerHorizon :: int where
  "parkedTimerHorizon = 100 * 365 * 24 * 3600 * second"

text \<open>\<^verbatim>\<open>started\<close> is the run's started_at where it is set and parses.\<close>

definition wallDeadline :: "int \<Rightarrow> int option \<Rightarrow> Agent \<Rightarrow> int" where
  "wallDeadline now started agent =
     (let limit = (if ag_MaxWallClockSeconds agent * second \<le> 0 then 3600 * second
                   else ag_MaxWallClockSeconds agent * second)
      in (case started of None \<Rightarrow> now | Some t \<Rightarrow> t) + limit)"

definition wallRemaining :: "int \<Rightarrow> int \<Rightarrow> Sup \<Rightarrow> int" where
  "wallRemaining now deadline sv =
     (if sup_parked sv then parkedTimerHorizon else deadline + sup_parkedTotal sv - now)"

definition setParked :: "bool \<Rightarrow> int \<Rightarrow> Sup \<Rightarrow> Sup" where
  "setParked parked now sv =
     (if parked = sup_parked sv then sv
      else if parked then sv\<lparr> sup_parked := True, sup_parkedSince := Some now \<rparr>
      else (case sup_parkedSince sv of
              None \<Rightarrow> sv\<lparr> sup_parked := False \<rparr>
            | Some t \<Rightarrow> sv\<lparr> sup_parked := False, sup_parkedTotal := sup_parkedTotal sv + (now - t),
                             sup_parkedSince := None \<rparr>))"

type_synonym Sups = "string \<Rightarrow> Sup option"

definition notePark :: "string \<Rightarrow> RunState \<Rightarrow> int \<Rightarrow> Sups \<Rightarrow> Sups" where
  "notePark i state now sups =
     (case sups i of
        None \<Rightarrow> sups
      | Some sv \<Rightarrow> sups(i \<mapsto> setParked (state = RunNeedsInput \<or> state = RunAwaitingApproval) now sv))"

text \<open>
  A supervisor that starts over a run already parked backdates the park to the oldest pending
  elicitation; \<^verbatim>\<open>asked\<close> are their creation times that parse.
\<close>

definition seedParked :: "RunState \<Rightarrow> int \<Rightarrow> int list \<Rightarrow> Sup \<Rightarrow> Sup" where
  "seedParked state now asked sv =
     (if state \<noteq> RunNeedsInput \<and> state \<noteq> RunAwaitingApproval then sv
      else setParked True (foldl (\<lambda>since t. if t < since then t else since) now asked) sv)"

section \<open>The supervise loop\<close>

text \<open>
  What can happen to a supervisor once the session is launched: the cases of its \<^verbatim>\<open>select\<close>, with
  the session's result where the case waits for it and whether the scheduler is shutting down, and
  the two calls from outside (a stop request, a park or resume).
\<close>

datatype SupEvent =
    EvDone bool waitOutcome
  | EvSteer
  | EvPark
  | EvTimer
  | EvWait bool waitOutcome
  | EvStopRequest RunState string
  | EvSetParked bool int

datatype SupEnd = Abandoned | Finished RunState string string

definition timeout_reason :: "Agent \<Rightarrow> string" where
  "timeout_reason agent =
     ''wall clock limit of '' @ fmt_seconds (ag_MaxWallClockSeconds agent) @ '' reached''"

definition sup_finish :: "Sup \<Rightarrow> waitOutcome \<Rightarrow> SupEnd" where
  "sup_finish sv out = (case outcomeOf sv out of (kind, why, msg) \<Rightarrow> Finished kind why msg)"

fun sup_step :: "string \<Rightarrow> SupEvent \<Rightarrow> Sup \<Rightarrow> SupEnd option \<times> Sup" where
  "sup_step why (EvDone stopping out) sv =
     ((if stopping then Some Abandoned else Some (sup_finish sv out)), sv)"
| "sup_step why EvSteer sv = (None, sv)"
| "sup_step why EvPark sv = (None, sv)"
| "sup_step why EvTimer sv = (None, if sup_parked sv then sv else requestStop RunTimedOut why sv)"
| "sup_step why (EvWait stopping out) sv =
     ((if stopping then Some Abandoned else Some (sup_finish sv out)), sv)"
| "sup_step why (EvStopRequest kind reason) sv = (None, requestStop kind reason sv)"
| "sup_step why (EvSetParked b now) sv = (None, setParked b now sv)"

fun sup_loop :: "string \<Rightarrow> SupEvent list \<Rightarrow> Sup \<Rightarrow> SupEnd option \<times> Sup" where
  "sup_loop why [] sv = (None, sv)"
| "sup_loop why (e # es) sv =
     (case sup_step why e sv of (Some r, sv') \<Rightarrow> (Some r, sv') | (None, sv') \<Rightarrow> sup_loop why es sv')"

section \<open>What the loop guarantees\<close>

lemma requestStop_first: "sup_stop sv = Some k \<Longrightarrow> requestStop kind why sv = sv"
  by (simp add: requestStop_def)

lemma requestStop_parked [simp]: "sup_parked (requestStop kind why sv) = sup_parked sv"
  by (simp add: requestStop_def)

lemma setParked_stop [simp]: "sup_stop (setParked b now sv) = sup_stop sv"
  by (simp add: setParked_def split: option.split)

lemma sup_step_stop: "sup_stop sv = Some k \<Longrightarrow> sup_stop (snd (sup_step why e sv)) = Some k"
  by (cases e) (auto simp: requestStop_def)



section \<open>The wall clock bounds work\<close>

text \<open>The reference: time since \<^verbatim>\<open>t\<close> outside the parked intervals.\<close>

fun worked :: "int \<Rightarrow> bool \<Rightarrow> (bool \<times> int) list \<Rightarrow> int \<Rightarrow> int" where
  "worked t parked [] now = (if parked then 0 else now - t)"
| "worked t parked ((b, t') # evs) now = (if parked then 0 else t' - t) + worked t' b evs now"

definition park_events :: "(bool \<times> int) list \<Rightarrow> Sup \<Rightarrow> Sup" where
  "park_events evs sv = fold (\<lambda>(b, t). setParked b t) evs sv"

lemma park_events_simps [simp]:
  "park_events [] sv = sv"
  "park_events ((b, t) # evs) sv = park_events evs (setParked b t sv)"
  by (simp_all add: park_events_def)

lemma park_events_total:
  assumes "sup_parked sv \<Longrightarrow> sup_parkedSince sv = Some t"
    and "\<not> sup_parked (park_events evs sv)"
  shows "sup_parkedTotal (park_events evs sv) =
    sup_parkedTotal sv + ((now - t) - worked t (sup_parked sv) evs now)"
proof -
  text \<open>A repeated event changes nothing, so the interval it splits is counted whole.\<close>
  have "\<lbrakk>sup_parked sv \<Longrightarrow> sup_parkedSince sv = Some t0; \<not> sup_parked (park_events evs sv)\<rbrakk>
      \<Longrightarrow> sup_parkedTotal (park_events evs sv) =
        sup_parkedTotal sv + (if sup_parked sv then t - t0 else 0) + ((now - t) - worked t (sup_parked sv) evs now)"
    for t0
  proof (induction evs arbitrary: sv t t0)
    case (Cons e evs)
    obtain b t' where e: "e = (b, t')" by fastforce
    show ?case
    proof (cases "b = sup_parked sv")
      case True
      then have "setParked b t' sv = sv" by (simp add: setParked_def)
      then show ?thesis
        using Cons.IH [of sv t0 t'] Cons.prems True
        by (cases "sup_parked sv") (simp_all add: e algebra_simps)
    next
      case False
      show ?thesis
      proof (cases b)
        case True
        then show ?thesis
          using False Cons.IH [of "setParked b t' sv" t' t'] Cons.prems
          by (simp add: e setParked_def algebra_simps)
      next
        case nb: False
        then show ?thesis
          using False Cons.IH [of "setParked b t' sv" t' t'] Cons.prems
          by (simp add: e setParked_def algebra_simps)
      qed
    qed
  qed simp
  from this [of t] assms show ?thesis by simp
qed

lemma wall_remaining_work:
  assumes "ag_MaxWallClockSeconds agent > 0"
  shows "wallRemaining now (wallDeadline t (Some t) agent) (park_events evs new_sup) =
    (if sup_parked (park_events evs new_sup) then parkedTimerHorizon
     else ag_MaxWallClockSeconds agent * second - worked t False evs now)"
proof (cases "sup_parked (park_events evs new_sup)")
  case False
  have "sup_parkedTotal (park_events evs new_sup) = (now - t) - worked t False evs now"
    using park_events_total [of new_sup t evs now] False by (simp add: new_sup_def)
  moreover have "\<not> ag_MaxWallClockSeconds agent * second \<le> 0" using assms by (simp add: second_def)
  ultimately show ?thesis using False by (simp add: wallRemaining_def wallDeadline_def)
qed (simp add: wallRemaining_def)

text \<open>
  The wall clock bounds work, not waiting: for any history of parks and resumes since the
  session's supervisor started, the time left to a run that is working is its limit minus the time
  it has worked, the parked intervals excluded, and a parked run has the horizon no run reaches.
\<close>

theorem wall_clock_counts_work:
  assumes "ag_MaxWallClockSeconds agent > 0"
  shows "wallRemaining now (wallDeadline t (Some t) agent) (park_events evs new_sup) =
    (if sup_parked (park_events evs new_sup) then parkedTimerHorizon
     else ag_MaxWallClockSeconds agent * second - worked t False evs now)"
  using assms by (rule wall_remaining_work)

theorem wall_clock_counts_work_witness:
  "wallRemaining 100 (wallDeadline 0 (Some 0) (blank_Agent\<lparr> ag_MaxWallClockSeconds := 1 \<rparr>))
     (park_events [(True, 10), (False, 60)] new_sup) = second - 50"
  using wall_clock_counts_work [of "blank_Agent\<lparr> ag_MaxWallClockSeconds := 1 \<rparr>" 100 0 "[(True, 10), (False, 60)]"]
  by (simp add: setParked_def new_sup_def)

text \<open>
  C15. A restart forgets the parked time of before: the supervisor that takes over a working run has
  credited nothing, so what is left is the limit minus everything since started_at, and a wait that
  was over before the restart is charged to the run in full.
\<close>

theorem restart_charges_waiting:
  assumes "ag_MaxWallClockSeconds agent > 0" and "\<not> sup_parked (park_events evs new_sup)"
  shows "wallRemaining now (wallDeadline now (Some t) agent) (seedParked RunRunning now asked new_sup) =
    wallRemaining now (wallDeadline t (Some t) agent) (park_events evs new_sup)
      - ((now - t) - worked t False evs now)"
proof -
  have "\<not> ag_MaxWallClockSeconds agent * second \<le> 0" using assms(1) by (simp add: second_def)
  moreover have "seedParked RunRunning now asked new_sup = new_sup" by (simp add: seedParked_def)
  ultimately show ?thesis
    using wall_remaining_work [OF assms(1), of now t evs] assms(2)
    by (simp add: wallRemaining_def wallDeadline_def new_sup_def)
qed

theorem restart_charges_waiting_witness:
  "let agent = blank_Agent\<lparr> ag_MaxWallClockSeconds := 1 \<rparr>
   in wallRemaining 100 (wallDeadline 100 (Some 0) agent) (seedParked RunRunning 100 [] new_sup) =
      wallRemaining 100 (wallDeadline 0 (Some 0) agent) (park_events [(True, 10), (False, 60)] new_sup) - 50"
  using restart_charges_waiting [of "blank_Agent\<lparr> ag_MaxWallClockSeconds := 1 \<rparr>" "[(True, 10), (False, 60)]" 100 0 "[]"]
  by (simp add: setParked_def new_sup_def)

end
