(* ===== verification/RunEnd.thy ===== *)
theory RunEnd
  imports Admission Supervisor
begin

text \<open>
  How runs end (\<^verbatim>\<open>internal/kernel/sched\<close>: the terminal path and
  the stop paths of \<^verbatim>\<open>supervisor.go\<close>, the restart reconciler of \<^verbatim>\<open>reconcile.go\<close>). What the container push did (\<^verbatim>\<open>preserve.go\<close>), the ticket
  mover, the pull-request opener and the sandbox are ports: their results are arguments.
\<close>

section \<open>Ports\<close>

record preserveOutcome =
  po_attempted :: bool
  po_branch :: string
  po_committed :: bool
  po_pushed :: bool
  po_nothing :: bool
  po_failure :: string

text \<open>
  \<^verbatim>\<open>p_mover\<close> is \<^verbatim>\<open>TicketMover.MoveTicketToCategory\<close> (its error is only logged, so its
  effect on the world is all there is), \<^verbatim>\<open>p_openPR\<close> is \<^verbatim>\<open>PROpener.OpenForRun\<close> with
  the text of its error; a port that is not wired is \<^verbatim>\<open>None\<close> (or \<^verbatim>\<open>False\<close>).
\<close>

record Ports =
  p_mover :: "(string \<Rightarrow> ColumnCategory \<Rightarrow> string \<Rightarrow> World \<Rightarrow> World) option"
  p_openPR :: "(Run \<Rightarrow> World \<Rightarrow> (string + bool) \<times> World) option"
  p_tokens :: bool
  p_proxy :: bool

definition add_effect :: "Effect \<Rightarrow> World \<Rightarrow> World" where
  "add_effect e w = w_effects_update (\<lambda>l. l @ [e]) w"

definition Wake :: "World \<Rightarrow> World" where
  "Wake w = add_effect WakeAdmission w"

definition moveTicket :: "Ports \<Rightarrow> string \<Rightarrow> ColumnCategory \<Rightarrow> string \<Rightarrow> World \<Rightarrow> World" where
  "moveTicket ports tid cat note w =
     (case p_mover ports of None \<Rightarrow> w | Some f \<Rightarrow> f tid cat note w)"

section \<open>Closing a run's open ends\<close>

fun cancel_all :: "Env \<Rightarrow> Elicitation list \<Rightarrow> World \<Rightarrow> World" where
  "cancel_all env [] w = w"
| "cancel_all env (el # els) w =
     cancel_all env els
       (snd (Elicitations_Respond (e_faults env) (el_ID el) ElicitationCanceled RawEmpty None (e_now env) w))"

definition cancelPendingElicitations :: "Env \<Rightarrow> string \<Rightarrow> World \<Rightarrow> World" where
  "cancelPendingElicitations env i w =
     (case Elicitations_PendingForRun (e_faults env) i w of
        Inl _ \<Rightarrow> w
      | Inr els \<Rightarrow> cancel_all env els w)"

definition system_activity :: "string \<Rightarrow> int \<Rightarrow> string \<Rightarrow> raw_json \<Rightarrow> string \<Rightarrow> Activity" where
  "system_activity i level title payload now = blank_Activity\<lparr>
     act_RunID := i, act_Type := ActivitySystem, act_Level := level, act_GroupKey := ''system'',
     act_Title := title, act_Payload := payload, act_Attempt := 1, act_CreatedAt := now \<rparr>"

definition appendSystemActivity :: "Env \<Rightarrow> string \<Rightarrow> string \<Rightarrow> World \<Rightarrow> World" where
  "appendSystemActivity env i title w =
     snd (Activities_AppendNext (e_faults env)
       (system_activity i 2 (truncate_runes title 200) (Raw (JObj [(''text'', JStr title)])) (e_now env)) w)"

section \<open>The terminal path\<close>

definition tick :: "string \<Rightarrow> string" where
  "tick s = ''`'' @ s @ ''`''"

definition terminalMessage :: "RunState \<Rightarrow> Run \<Rightarrow> string \<Rightarrow> preserveOutcome \<Rightarrow> string" where
  "terminalMessage kind run message p =
     (if kind = RunCompleted
      then trim_space (message @
        (if po_attempted p \<and> po_failure p \<noteq> []
         then '' The branch could not be pushed: '' @ trim_suffix (po_failure p) ''.'' @ ''.'' else ''''))
      else
        (case kind of
           RunFailed \<Rightarrow> ''Failed after '' @ fmt_int (run_StepCount run) @ '' steps.''
         | RunTimedOut \<Rightarrow> ''Timed out after '' @ fmt_int (run_StepCount run) @ '' steps.''
         | RunCanceled \<Rightarrow> ''Canceled.''
         | _ \<Rightarrow> '''') @
        (if message \<noteq> [] then '' '' @ trim_suffix message ''.'' @ ''.'' else '''') @
        (if \<not> po_attempted p then ''''
         else if po_pushed p then '' Partial work pushed to '' @ tick (po_branch p) @ ''.''
         else if po_failure p \<noteq> [] \<and> po_committed p
           then '' Partial work was committed on '' @ tick (po_branch p) @ '' but could not be pushed: '' @
                trim_suffix (po_failure p) ''.'' @ ''.''
         else if po_failure p \<noteq> []
           then '' Partial work could not be preserved: '' @ trim_suffix (po_failure p) ''.'' @ ''.''
         else if po_nothing p
           then '' There was nothing to preserve: the workspace held no changes.''
         else ''''))"

definition recordPartialWork :: "Env \<Rightarrow> string \<Rightarrow> string \<Rightarrow> string \<Rightarrow> World \<Rightarrow> World" where
  "recordPartialWork env newid i branch w =
     snd (RunOutputs_Append (e_faults env)
       \<lparr> ro_ID = newid, ro_RunID = i, ro_Kind = OutputPartialWork, ro_Ref = branch, ro_URL = '''',
         ro_Summary = ''Partial work pushed to '' @ tick branch @ ''.'', ro_CreatedAt = e_now env \<rparr> w)"

text \<open>Teardown: revoke the MCP token, unregister the proxy, destroy the container if there is one.\<close>

definition teardown :: "Ports \<Rightarrow> string \<Rightarrow> bool \<Rightarrow> World \<Rightarrow> World" where
  "teardown ports i has_inst w =
     (let w1 = (if p_tokens ports then add_effect (RevokeToken i) w else w);
          w2 = (if p_proxy ports then add_effect (UnregisterProxy i) w1 else w1)
      in if has_inst then add_effect (DestroyInstance i) w2 else w2)"

definition open_pr :: "Env \<Rightarrow> Ports \<Rightarrow> string \<Rightarrow> Run \<Rightarrow> World \<Rightarrow> World" where
  "open_pr env ports i after w =
     (case p_openPR ports of
        None \<Rightarrow> w
      | Some f \<Rightarrow>
          (case f after w of
             (Inl err, w') \<Rightarrow> appendSystemActivity env i (''could not open a pull request: '' @ err) w'
           | (Inr _, w') \<Rightarrow> w'))"

definition review_move :: "Env \<Rightarrow> Ports \<Rightarrow> Run \<Rightarrow> Run \<Rightarrow> World \<Rightarrow> World" where
  "review_move env ports run after w =
     (case run_TicketID after of
        None \<Rightarrow> w
      | Some tid \<Rightarrow>
          (case RunOutputs_ForRun (e_faults env) (run_ID run) w of
             Inl _ \<Rightarrow> w
           | Inr outs \<Rightarrow>
               if list_ex (\<lambda>x. ro_Kind x = OutputPullRequest) outs
               then moveTicket ports tid CategoryReview
                      (''run #'' @ fmt_int (run_Seq run) @ '' opened a pull request'') w
               else w))"

text \<open>The database half of the terminal path: open ends closed, then the terminal state.\<close>

definition settle :: "Env \<Rightarrow> string \<Rightarrow> RunState \<Rightarrow> string \<Rightarrow> string \<Rightarrow> World \<Rightarrow> trans_result \<times> World" where
  "settle env i kind reason message w =
     (let w1 = cancelPendingElicitations env i w;
          w2 = snd (RunMessages_DropQueued (e_faults env) i w1)
      in transition env i kind
           (empty_update\<lparr> su_StateReason := Some reason, su_ErrorMessage := Some message \<rparr>) w2)"

definition finish ::
  "Env \<Rightarrow> Ports \<Rightarrow> string \<Rightarrow> Run \<Rightarrow> bool \<Rightarrow> preserveOutcome \<Rightarrow> RunState \<Rightarrow> string \<Rightarrow> string \<Rightarrow> World \<Rightarrow> World" where
  "finish env ports newid run0 has_inst p kind reason message w0 =
     (let w1 = (if po_pushed p \<and> kind \<noteq> RunCompleted
                then recordPartialWork env newid (run_ID run0) (po_branch p) w0 else w0);
          run = (case Runs_ByID (e_faults env) (run_ID run0) w1 of Inl _ \<Rightarrow> run0 | Inr r \<Rightarrow> r);
          final = terminalMessage kind run message p;
          w2 = teardown ports (run_ID run) has_inst w1
      in case settle env (run_ID run) kind reason final w2 of
           (r, w3) \<Rightarrow>
             (let after = (case trans_run r of Some x \<Rightarrow> x | None \<Rightarrow> blank_Run);
                  w4 = (if kind = RunCompleted then open_pr env ports (run_ID run) after w3 else w3);
                  w5 = (if kind = RunCompleted then review_move env ports run after w4 else w4)
              in Wake w5))"

section \<open>Stopping from outside\<close>

datatype stop_result = StopOk | StopReadErr store_err | StopRefused trans_result

definition StopRun :: "Env \<Rightarrow> Ports \<Rightarrow> string \<Rightarrow> string \<Rightarrow> Sups \<Rightarrow> World \<Rightarrow> stop_result \<times> Sups \<times> World" where
  "StopRun env ports i reason sups w =
     (case Runs_ByID (e_faults env) i w of
        Inl e \<Rightarrow> (StopReadErr e, sups, w)
      | Inr run \<Rightarrow>
          if Terminal (run_State run) then (StopOk, sups, w)
          else (case sups i of
                  Some sv \<Rightarrow>
                    (let sv1 = requestStop RunCanceled reason sv;
                         sv2 = (if sup_handle sv1 then sv1 else sv1\<lparr> sup_cancelled := True \<rparr>)
                     in (StopOk, sups(i \<mapsto> sv2), w))
                | None \<Rightarrow>
                    (case transition env i RunCanceled (empty_update\<lparr> su_StateReason := Some reason \<rparr>) w of
                       (TOk r, w1) \<Rightarrow>
                         (let w2 = cancelPendingElicitations env i w1;
                              w3 = snd (RunMessages_DropQueued (e_faults env) i w2);
                              w4 = (if p_tokens ports then add_effect (RevokeToken i) w3 else w3)
                          in (StopOk, sups, Wake w4))
                     | (r, w1) \<Rightarrow> (StopRefused r, sups, w1))))"

definition TakeoverRun :: "Env \<Rightarrow> Ports \<Rightarrow> string \<Rightarrow> string \<Rightarrow> Sups \<Rightarrow> World \<Rightarrow> stop_result \<times> Sups \<times> World" where
  "TakeoverRun env ports i note sups w =
     (case Runs_ByID (e_faults env) i w of
        Inl e \<Rightarrow> (StopReadErr e, sups, w)
      | Inr run \<Rightarrow>
          if Terminal (run_State run) then (StopOk, sups, w)
          else (case Runs_SetTakeoverNote (e_faults env) i note w of
                  (Inl e, w1) \<Rightarrow> (StopReadErr e, sups, w1)
                | (Inr _, w1) \<Rightarrow> StopRun env ports i ''takeover'' sups w1))"

fun stop_each :: "Env \<Rightarrow> Ports \<Rightarrow> string \<Rightarrow> Run list \<Rightarrow> int \<Rightarrow> Sups \<Rightarrow> World \<Rightarrow> int \<times> Sups \<times> World" where
  "stop_each env ports reason [] n sups w = (n, sups, w)"
| "stop_each env ports reason (run # runs) n sups w =
     (case StopRun env ports (run_ID run) reason sups w of
        (StopOk, sups', w') \<Rightarrow> stop_each env ports reason runs (n + 1) sups' w'
      | (_, sups', w') \<Rightarrow> stop_each env ports reason runs n sups' w')"

definition CancelTicketRuns ::
  "Env \<Rightarrow> Ports \<Rightarrow> string \<Rightarrow> string \<Rightarrow> Sups \<Rightarrow> World \<Rightarrow> (store_err + int) \<times> Sups \<times> World" where
  "CancelTicketRuns env ports tid reason sups w =
     (case Runs_ActiveForTicket (e_faults env) tid w of
        Inl e \<Rightarrow> (Inl e, sups, w)
      | Inr runs \<Rightarrow> (case stop_each env ports reason runs 0 sups w of (n, sups', w') \<Rightarrow> (Inr n, sups', w')))"

section \<open>Crash recovery\<close>

text \<open>
  \<^verbatim>\<open>alive\<close> says whether the sandbox reattaches a run's container; \<^verbatim>\<open>superviseFrom\<close> is
  the hand-over to a supervisor. Token and proxy re-registration have no effect on the world.
\<close>

definition recover_dead :: "Env \<Rightarrow> (string \<Rightarrow> string) \<Rightarrow> Run \<Rightarrow> World \<Rightarrow> World" where
  "recover_dead env newid run w =
     (let gone = ''The orchestrator restarted and the run'' @ [CHR 0x27] @ ''s container was gone.'';
          branch = (case run_Branch run of None \<Rightarrow> '''' | Some b \<Rightarrow> b);
          message = (if branch = [] then gone
                     else gone @ '' Work pushed before the restart is on '' @ tick branch @ ''.'');
          w1 = (if branch = [] then w
                else snd (RunOutputs_Append (e_faults env)
                       \<lparr> ro_ID = newid (run_ID run), ro_RunID = run_ID run, ro_Kind = OutputPartialWork,
                         ro_Ref = branch, ro_URL = '''',
                         ro_Summary = ''Work pushed before the orchestrator restart.'',
                         ro_CreatedAt = e_now env \<rparr> w));
          w2 = snd (transition env (run_ID run) RunFailed
                 (empty_update\<lparr> su_StateReason := Some ''orchestrator restarted'',
                                su_ErrorMessage := Some message \<rparr>) w1);
          w3 = cancelPendingElicitations env (run_ID run) w2
      in snd (RunMessages_DropQueued (e_faults env) (run_ID run) w3))"

definition reconcileOne :: "Env \<Rightarrow> (Run \<Rightarrow> bool) \<Rightarrow> (string \<Rightarrow> string) \<Rightarrow> Run \<Rightarrow> World \<Rightarrow> World" where
  "reconcileOne env alive newid run w =
     (let parked = (run_State run = RunNeedsInput \<or> run_State run = RunAwaitingApproval) in
      if \<not> alive run then (if parked then w else recover_dead env newid run w)
      else
        (let s = (if run_State run = RunProvisioning
                  then (case transition env (run_ID run) RunRunning
                               (empty_update\<lparr> su_StartedAt := Some (e_now env) \<rparr>) w of
                          (TOk after, w') \<Rightarrow> (after, w') | (_, w') \<Rightarrow> (run, w'))
                  else (run, w))
         in startSupervisor (fst s) (snd s)))"

definition reconcile :: "Env \<Rightarrow> (Run \<Rightarrow> bool) \<Rightarrow> (string \<Rightarrow> string) \<Rightarrow> World \<Rightarrow> unit res \<times> World" where
  "reconcile env alive newid w =
     (case Runs_ByStates (e_faults env) [RunProvisioning, RunRunning, RunNeedsInput, RunAwaitingApproval] w of
        Inl e \<Rightarrow> (Inl e, w)
      | Inr runs \<Rightarrow> (Inr (), fold (reconcileOne env alive newid) runs w))"

section \<open>What the terminal path guarantees\<close>

definition cancelled_el :: "string \<Rightarrow> Elicitation \<Rightarrow> Elicitation" where
  "cancelled_el now e = e\<lparr> el_State := ElicitationCanceled, el_Response := RawEmpty,
     el_RespondedBy := None, el_RespondedAt := Some now \<rparr>"

lemma Respond_frame [simp]:
  "w_runs (snd (Elicitations_Respond f i st resp u ts w)) = w_runs w"
  "w_messages (snd (Elicitations_Respond f i st resp u ts w)) = w_messages w"
  by (simp_all add: Elicitations_Respond_def exec_one_def split: option.split)

lemma cancel_all_frame [simp]:
  "w_runs (cancel_all env els w) = w_runs w" "w_messages (cancel_all env els w) = w_messages w"
  by (induction els arbitrary: w) simp_all

lemma cancelPending_frame [simp]:
  "w_runs (cancelPendingElicitations env i w) = w_runs w"
  "w_messages (cancelPendingElicitations env i w) = w_messages w"
  by (simp_all add: cancelPendingElicitations_def split: sum.split)

lemma DropQueued_elicitations [simp]:
  "w_elicitations (snd (RunMessages_DropQueued f i w)) = w_elicitations w"
  by (simp add: RunMessages_DropQueued_def exec_def split: option.split)

lemma update_where_twice:
  assumes "\<And>e. q (g e) = False"
  shows "update_where q g (update_where p g t) = update_where (\<lambda>e. p e \<or> q e) g t"
  by (induction t) (simp_all add: update_where_Cons assms)

lemma cancel_all_rows:
  assumes "\<And>s k. e_faults env s k = None"
  shows "w_elicitations (cancel_all env els w) =
    update_where (\<lambda>e. el_ID e \<in> el_ID ` set els \<and> el_State e = ElicitationPending)
      (cancelled_el (e_now env)) (w_elicitations w)"
proof (induction els arbitrary: w)
  case Nil
  then show ?case by (simp add: update_where_noop)
next
  case (Cons el els)
  have step: "w_elicitations (snd (Elicitations_Respond (e_faults env) (el_ID el) ElicitationCanceled RawEmpty None (e_now env) w)) =
      update_where (\<lambda>e. el_ID e = el_ID el \<and> el_State e = ElicitationPending) (cancelled_el (e_now env)) (w_elicitations w)"
    by (simp add: Elicitations_Respond_def exec_one_def assms cancelled_el_def [abs_def])
  show ?case
    unfolding cancel_all.simps Cons.IH step
    by (subst update_where_twice) (auto simp: cancelled_el_def intro!: arg_cong [where f = "\<lambda>p. update_where p g t" for g t])
qed

definition open_ends :: "string \<Rightarrow> World \<Rightarrow> bool" where
  "open_ends i w \<longleftrightarrow>
     list_ex (\<lambda>e. el_RunID e = i \<and> el_State e = ElicitationPending) (w_elicitations w) \<or>
     list_ex (\<lambda>m. rm_RunID m = i \<and> rm_State m = MessageQueued) (w_messages w)"

lemma closed_ends:
  assumes "\<And>s k. e_faults env s k = None"
  shows "\<not> open_ends i (snd (RunMessages_DropQueued (e_faults env) i (cancelPendingElicitations env i w)))"
proof -
  let ?w1 = "cancelPendingElicitations env i w"
  let ?pend = "\<lambda>e. el_RunID e = i \<and> el_State e = ElicitationPending"
  have els: "w_elicitations ?w1 = update_where
      (\<lambda>e. el_ID e \<in> el_ID ` {e \<in> set (w_elicitations w). ?pend e} \<and> el_State e = ElicitationPending)
      (cancelled_el (e_now env)) (w_elicitations w)"
    by (simp add: cancelPendingElicitations_def Elicitations_PendingForRun_def query_def assms cancel_all_rows)
  have pend: "\<not> ?pend e" if "e \<in> set (w_elicitations ?w1)" for e
    using that unfolding els set_update_where by (auto simp: cancelled_el_def split: if_splits)
  let ?q = "\<lambda>m. rm_RunID m = i \<and> rm_State m = MessageQueued"
  have msgs: "w_messages (snd (RunMessages_DropQueued (e_faults env) i w')) =
      update_where ?q (rm_State_update (\<lambda>_. MessageDropped)) (w_messages w')" for w'
    by (simp add: RunMessages_DropQueued_def exec_def assms)
  have drop: "\<forall>m \<in> set (w_messages (snd (RunMessages_DropQueued (e_faults env) i ?w1))). \<not> ?q m"
    unfolding msgs by (rule update_where_consumes) simp
  show ?thesis
    unfolding open_ends_def DropQueued_elicitations list_ex_iff using pend drop by blast
qed

lemma open_ends_cong:
  "w_elicitations w' = w_elicitations w \<Longrightarrow> w_messages w' = w_messages w \<Longrightarrow> open_ends i w' = open_ends i w"
  by (simp add: open_ends_def)

text \<open>The three tables a terminal run is judged by, as one value.\<close>

definition run_tables :: "World \<Rightarrow> Run list \<times> Elicitation list \<times> RunMessage list" where
  "run_tables w = (w_runs w, w_elicitations w, w_messages w)"

lemma run_tables_iff:
  "run_tables w' = run_tables w \<longleftrightarrow>
     w_runs w' = w_runs w \<and> w_elicitations w' = w_elicitations w \<and> w_messages w' = w_messages w"
  by (simp add: run_tables_def)

text \<open>The ports write tickets, columns, outputs and events, never these three.\<close>

definition ports_quiet :: "Ports \<Rightarrow> bool" where
  "ports_quiet ports \<longleftrightarrow>
     (\<forall>f tid cat note w. p_mover ports = Some f \<longrightarrow> run_tables (f tid cat note w) = run_tables w) \<and>
     (\<forall>f r w. p_openPR ports = Some f \<longrightarrow> run_tables (snd (f r w)) = run_tables w)"

lemma run_tables_effect [simp]: "run_tables (add_effect e w) = run_tables w"
  by (simp add: run_tables_def add_effect_def)

lemma run_tables_AppendNext [simp]:
  "run_tables (snd (Activities_AppendNext f a w)) = run_tables w"
  by (simp add: run_tables_def Activities_AppendNext_def Let_def exec_def split: option.split)

lemma run_tables_Output [simp]: "run_tables (snd (RunOutputs_Append f out w)) = run_tables w"
  by (simp add: run_tables_def RunOutputs_Append_def exec_def split: option.split)

lemma run_tables_teardown [simp]: "run_tables (teardown ports i b w) = run_tables w"
  by (simp add: teardown_def Let_def)

lemma run_tables_open_pr:
  "ports_quiet ports \<Longrightarrow> run_tables (open_pr env ports i after w) = run_tables w"
  unfolding open_pr_def ports_quiet_def appendSystemActivity_def
  by (auto split: option.split prod.split sum.split) (metis snd_conv)+

lemma run_tables_review_move:
  "ports_quiet ports \<Longrightarrow> run_tables (review_move env ports run after w) = run_tables w"
  unfolding review_move_def ports_quiet_def moveTicket_def
  by (auto split: option.split sum.split)

lemma settle_quiet:
  assumes "runs_wf w" and "uncontended env" and "\<And>s k. e_faults env s k = None"
    and "run_of w i = Some run" and "kind \<in> set (legalTransitions (run_State run))" and "Terminal kind"
  shows "\<exists>r w'. settle env i kind reason message w = (TOk r, w') \<and> run_of w' i = Some r \<and>
    run_State r = kind \<and> run_EndedAt r = Some (e_now env) \<and> run_StateReason r = reason \<and>
    run_ErrorMessage r = message \<and> \<not> open_ends i w' \<and> runs_wf w' \<and>
    (\<forall>k. k \<noteq> i \<longrightarrow> run_of w' k = run_of w k)"
proof -
  let ?w2 = "snd (RunMessages_DropQueued (e_faults env) i (cancelPendingElicitations env i w))"
  let ?u = "empty_update\<lparr> su_StateReason := Some reason, su_ErrorMessage := Some message \<rparr>"
  have runs: "w_runs ?w2 = w_runs w" by simp
  have of_eq: "run_of ?w2 k = run_of w k" for k using runs by (simp add: run_of_def)
  have ne: "run_State run \<noteq> kind"
    using assms(5,6) legal_from_terminal [of "run_State run"] by auto
  have races: "e_races env i = []" using assms(2) by (simp add: uncontended_def)
  have wf: "runs_wf ?w2" using runs_wf_cong [OF runs] assms(1) by simp
  have "run_of ?w2 i = Some run" using of_eq assms(4) by simp
  from transition_quiet [OF wf races assms(3) this ne assms(5), of ?u]
  obtain w' where t: "transition env i kind ?u ?w2 =
        (TOk (apply_state kind (stamp_end (e_now env) kind ?u) run), w')"
    and r: "run_of w' i = Some (apply_state kind (stamp_end (e_now env) kind ?u) run)"
    and others: "\<forall>k. k \<noteq> i \<longrightarrow> run_of w' k = run_of ?w2 k" and wf': "runs_wf w'" by blast
  have "core w' = core ?w2" by (rule transition_core [OF races t])
  note fields = core_fields [OF this]
  have "\<not> open_ends i w'"
    unfolding open_ends_cong [OF fields(7) fields(6)] by (rule closed_ends [OF assms(3)])
  moreover have "settle env i kind reason message w =
      (TOk (apply_state kind (stamp_end (e_now env) kind ?u) run), w')"
    by (simp add: settle_def Let_def t)
  ultimately show ?thesis
    using r others of_eq wf' assms(6)
    by (simp add: apply_state_def stamp_end_def empty_update_def)
qed

lemma run_tables_of: "run_tables w' = run_tables w \<Longrightarrow> run_of w' k = run_of w k"
  by (simp add: run_tables_def run_of_def)

lemma run_tables_open: "run_tables w' = run_tables w \<Longrightarrow> open_ends i w' = open_ends i w"
  by (simp add: run_tables_def open_ends_def)

lemma run_tables_wf: "run_tables w' = run_tables w \<Longrightarrow> runs_wf w' = runs_wf w"
  by (simp add: run_tables_def runs_wf_def)

text \<open>
  C10. The terminal path closes a run for good: from any state the edge to the outcome leaves, with
  an uncontended store, the run ends in that outcome with its end stamped, the reason and the
  terminal message recorded, no elicitation of it still pending and no message still queued, and no
  other run is touched, whatever the sandbox, the pull-request opener and the ticket mover did.
\<close>

theorem finish_closes:
  assumes "runs_wf w" and "uncontended env" and "\<And>s k. e_faults env s k = None" and "ports_quiet ports"
    and "run_of w (run_ID run0) = Some run" and "kind \<in> set (legalTransitions (run_State run))" and "Terminal kind"
  shows "let w' = finish env ports newid run0 inst p kind reason message w in
    (\<exists>r. run_of w' (run_ID run0) = Some r \<and> run_State r = kind \<and> run_EndedAt r = Some (e_now env) \<and>
       run_StateReason r = reason \<and> run_ErrorMessage r = terminalMessage kind run message p) \<and>
    \<not> open_ends (run_ID run0) w' \<and> (\<forall>k. k \<noteq> run_ID run0 \<longrightarrow> run_of w' k = run_of w k)"
proof -
  let ?i = "run_ID run0"
  define w1 where "w1 = (if po_pushed p \<and> kind \<noteq> RunCompleted
    then recordPartialWork env newid ?i (po_branch p) w else w)"
  define w2 where "w2 = teardown ports ?i inst w1"
  have id: "run_ID run = ?i" using run_of_ID [OF assms(5)] .
  have t1: "run_tables w1 = run_tables w" by (simp add: w1_def recordPartialWork_def)
  have t2: "run_tables w2 = run_tables w" by (simp add: w2_def t1)
  have of1: "run_of w1 ?i = Some run" using run_tables_of [OF t1] assms(5) by simp
  have of2: "run_of w2 ?i = Some run" using run_tables_of [OF t2] assms(5) by simp
  have wf2: "runs_wf w2" using run_tables_wf [OF t2] assms(1) by simp
  have byid: "Runs_ByID (e_faults env) ?i w1 = Inr run" using of1 assms(3) by simp
  obtain r w3 where s: "settle env ?i kind reason (terminalMessage kind run message p) w2 = (TOk r, w3)"
    and r: "run_of w3 ?i = Some r" "run_State r = kind" "run_EndedAt r = Some (e_now env)"
      "run_StateReason r = reason" "run_ErrorMessage r = terminalMessage kind run message p"
    and c: "\<not> open_ends ?i w3" "\<forall>k. k \<noteq> ?i \<longrightarrow> run_of w3 k = run_of w2 k"
    using settle_quiet [OF wf2 assms(2,3) of2 assms(6,7)] by blast
  define w' where "w' = finish env ports newid run0 inst p kind reason message w"
  have "run_tables w' = run_tables w3"
    unfolding w'_def finish_def w1_def [symmetric] Let_def byid sum.case id w2_def [symmetric] s prod.case trans_run.simps
    by (simp add: Wake_def run_tables_open_pr [OF assms(4)] run_tables_review_move [OF assms(4)])
  then have "run_of w' k = run_of w3 k" "open_ends k w' = open_ends k w3" for k
    by (rule run_tables_of, rule run_tables_open)
  then show ?thesis
    unfolding Let_def w'_def [symmetric] using r c run_tables_of [OF t2] by simp
qed

definition calm_env :: Env where
  "calm_env = \<lparr> e_faults = no_faults, e_now = ''t9'', e_day = ''d'', e_races = (\<lambda>_. []) \<rparr>"

lemma calm_env_simps [simp]:
  "uncontended calm_env" "e_faults calm_env = no_faults" "e_now calm_env = ''t9''" "e_races calm_env i = []"
  by (simp_all add: calm_env_def uncontended_def)

definition idle_ports :: Ports where
  "idle_ports = \<lparr> p_mover = None, p_openPR = None, p_tokens = True, p_proxy = True \<rparr>"

definition asking_world :: World where
  "asking_world = blank_World\<lparr>
     w_runs := [blank_Run\<lparr> run_ID := ''r'', run_State := RunNeedsInput, run_StepCount := 7 \<rparr>],
     w_elicitations := [blank_Elicitation\<lparr> el_ID := ''e'', el_RunID := ''r'' \<rparr>],
     w_messages := [blank_RunMessage\<lparr> rm_ID := ''m'', rm_RunID := ''r'' \<rparr>] \<rparr>"

definition no_preserve :: preserveOutcome where
  "no_preserve = \<lparr> po_attempted = True, po_branch = ''b'', po_committed = True, po_pushed = True,
     po_nothing = False, po_failure = '''' \<rparr>"

theorem finish_closes_witness:
  "open_ends ''r'' asking_world \<and>
   (let w' = finish calm_env idle_ports ''o'' (blank_Run\<lparr> run_ID := ''r'' \<rparr>) True no_preserve RunFailed ''why'' ''boom'' asking_world
    in \<not> open_ends ''r'' w' \<and> map_option run_ErrorMessage (run_of w' ''r'') =
         Some ''Failed after 7 steps. boom. Partial work pushed to `b`.'')"
proof -
  let ?run = "blank_Run\<lparr> run_ID := ''r'', run_State := RunNeedsInput, run_StepCount := 7 \<rparr>"
  have wf: "runs_wf asking_world" by (simp add: runs_wf_def asking_world_def)
  have quiet: "ports_quiet idle_ports" by (simp add: ports_quiet_def idle_ports_def)
  have row: "run_of asking_world (run_ID (blank_Run\<lparr> run_ID := ''r'' \<rparr>)) = Some ?run"
    by (simp add: asking_world_def run_of_def find_row_Cons)
  have legal: "RunFailed \<in> set (legalTransitions (run_State ?run))" by (simp add: legalTransitions_def)
  have msg: "terminalMessage RunFailed ?run ''boom'' no_preserve = ''Failed after 7 steps. boom. Partial work pushed to `b`.''"
    by code_simp
  have "open_ends ''r'' asking_world" by code_simp
  then show ?thesis
    using finish_closes [OF wf _ _ quiet row legal, of calm_env "''o''" True no_preserve "''why''" "''boom''"] msg
    by (auto simp: Let_def)
qed

section \<open>Stopping\<close>

text \<open>
  Stopping is idempotent on finished work and immediate on unstarted work: a terminal run is
  left alone and the request succeeds; a run that can still be cancelled and has no supervisor is
  canceled on the spot with its open ends closed; and a run with a supervisor is only signalled,
  the first reason winning, while its row waits for the terminal path.
\<close>

theorem stop_run_cases:
  assumes "runs_wf w" and "uncontended env" and "\<And>s k. e_faults env s k = None" and "run_of w i = Some run"
  shows "(case StopRun env ports i reason sups w of (res, sups', w') \<Rightarrow>
    res = StopOk \<and>
    (if Terminal (run_State run) then sups' = sups \<and> w' = w
     else case sups i of
       None \<Rightarrow> sups' = sups \<and> state_of w' i = Some RunCanceled \<and> \<not> open_ends i w' \<and>
               (\<forall>k. k \<noteq> i \<longrightarrow> run_of w' k = run_of w k)
     | Some sv \<Rightarrow> w' = w \<and> (\<forall>k. k \<noteq> i \<longrightarrow> sups' k = sups k) \<and>
         (\<exists>sv'. sups' i = Some sv' \<and>
            sup_stop sv' = (if sup_stop sv = None then Some (RunCanceled, reason) else sup_stop sv) \<and>
            (sup_handle sv \<or> sup_cancelled sv'))))"
proof -
  have byid: "Runs_ByID (e_faults env) i w = Inr run" using assms(3,4) by simp
  show ?thesis
  proof (cases "Terminal (run_State run)")
    case True
    then show ?thesis by (simp add: StopRun_def byid)
  next
    case live: False
    show ?thesis
    proof (cases "sups i")
      case (Some sv)
      then show ?thesis using live by (auto simp: StopRun_def byid Let_def requestStop_def)
    next
      case None
      let ?u = "empty_update\<lparr> su_StateReason := Some reason \<rparr>"
      have races: "e_races env i = []" using assms(2) by (simp add: uncontended_def)
      have edge: "RunCanceled \<in> set (legalTransitions (run_State run))" and ne: "run_State run \<noteq> RunCanceled"
        using live by (cases "run_State run"; simp add: legalTransitions_def)+
      from transition_quiet [OF assms(1) races assms(3,4) ne edge, of ?u]
      obtain r w1 where t: "transition env i RunCanceled ?u w = (TOk r, w1)"
        and r: "run_of w1 i = Some r" "run_State r = RunCanceled" and oth: "\<forall>k. k \<noteq> i \<longrightarrow> run_of w1 k = run_of w k"
        by force
      define w3 where "w3 = snd (RunMessages_DropQueued (e_faults env) i (cancelPendingElicitations env i w1))"
      have runs3: "w_runs w3 = w_runs w1" by (simp add: w3_def)
      have ends3: "\<not> open_ends i w3" unfolding w3_def by (rule closed_ends [OF assms(3)])
      define w' where "w' = Wake (if p_tokens ports then add_effect (RevokeToken i) w3 else w3)"
      have same: "run_tables w' = run_tables w3" by (simp add: w'_def Wake_def)
      have "StopRun env ports i reason sups w = (StopOk, sups, w')"
        using live None by (simp add: StopRun_def byid t Let_def w3_def w'_def)
      moreover have "run_of w' k = run_of w1 k" for k
        using run_tables_of [OF same] runs3 by (simp add: run_of_def)
      moreover have "\<not> open_ends i w'" using run_tables_open [OF same] ends3 by simp
      ultimately show ?thesis using live None r oth by (simp add: state_of_def)
    qed
  qed
qed

theorem stop_run_cases_witness:
  "let (res, sups', w') = StopRun calm_env idle_ports ''r'' ''takeover'' Map.empty asking_world
   in res = StopOk \<and> state_of w' ''r'' = Some RunCanceled \<and> \<not> open_ends ''r'' w'"
proof -
  let ?run = "blank_Run\<lparr> run_ID := ''r'', run_State := RunNeedsInput, run_StepCount := 7 \<rparr>"
  have wf: "runs_wf asking_world" by (simp add: runs_wf_def asking_world_def)
  have row: "run_of asking_world ''r'' = Some ?run"
    by (simp add: asking_world_def run_of_def find_row_Cons)
  show ?thesis
    using stop_run_cases [where env = calm_env and ports = idle_ports and reason = "''takeover''"
        and sups = Map.empty, OF wf _ _ row]
    by (auto split: prod.splits)
qed

section \<open>Crash recovery\<close>

lemma started_frame [simp]: "w_runs (startSupervisor r w) = w_runs w"
  by (simp add: startSupervisor_def)

text \<open>One run's recovery touches no other run, and moves its own along the state machine.\<close>

lemma reconcileOne_moves:
  assumes "runs_wf w" and "uncontended env"
  shows "runs_wf (reconcileOne env alive newid run w) \<and> moves w (reconcileOne env alive newid run w)"
proof -
  have races: "\<forall>y \<in> set (e_races env i). lawful y" for i using assms(2) by (simp add: uncontended_def)
  have step: "runs_wf w' \<and> moves w w'"
    if "w_runs w1 = w_runs w" and "w_runs w' = w_runs (snd (transition env (run_ID run) to u w1))" for w1 w' to u
  proof -
    have wf1: "runs_wf w1" using runs_wf_cong [OF that(1)] assms(1) by simp
    have "runs_wf (snd (transition env (run_ID run) to u w1)) \<and> moves w1 (snd (transition env (run_ID run) to u w1))"
      by (rule transition_moves [OF wf1 races surjective_pairing])
    moreover have "state_of w1 k = state_of w k" for k by (rule state_of_cong [OF that(1)])
    then have "moves w1 v = moves w v" for v by (simp add: moves_def)
    ultimately show ?thesis using moves_cong [OF that(2)] runs_wf_cong [OF that(2)] by simp
  qed
  have out: "w_runs (snd (RunOutputs_Append f x w)) = w_runs w" for f x
    by (simp add: RunOutputs_Append_def exec_def split: option.split)
  show ?thesis
  proof (cases "alive run")
    case True
    show ?thesis
    proof (cases "run_State run = RunProvisioning")
      case prov: True
      obtain t w' where t: "transition env (run_ID run) RunRunning (empty_update\<lparr> su_StartedAt := Some (e_now env) \<rparr>) w = (t, w')"
        by (meson surj_pair)
      have "w_runs (reconcileOne env alive newid run w) = w_runs w'"
        using True prov by (cases t) (simp_all add: reconcileOne_def t)
      then show ?thesis using step [of w "reconcileOne env alive newid run w" RunRunning] t by (metis snd_conv)
    next
      case False
      then have "w_runs (reconcileOne env alive newid run w) = w_runs w" using True by (simp add: reconcileOne_def)
      then show ?thesis using assms(1) moves_cong runs_wf_cong moves_refl by metis
    qed
  next
    case dead: False
    show ?thesis
    proof (cases "run_State run = RunNeedsInput \<or> run_State run = RunAwaitingApproval")
      case True
      then have "reconcileOne env alive newid run w = w" using dead by (auto simp: reconcileOne_def)
      then show ?thesis using assms(1) by simp
    next
      case False
      show ?thesis
        using dead False by (intro step) (auto simp: reconcileOne_def recover_dead_def Let_def out)
    qed
  qed
qed

lemma open_ends_mono:
  assumes "\<And>e. e \<in> set (w_elicitations w') \<Longrightarrow> el_State e = ElicitationPending \<Longrightarrow> e \<in> set (w_elicitations w)"
    and "\<And>m. m \<in> set (w_messages w') \<Longrightarrow> rm_State m = MessageQueued \<Longrightarrow> m \<in> set (w_messages w)"
  shows "open_ends k w' \<Longrightarrow> open_ends k w"
  using assms unfolding open_ends_def list_ex_iff by blast

lemma cancel_all_pending:
  "e \<in> set (w_elicitations (cancel_all env els w)) \<Longrightarrow> el_State e = ElicitationPending \<Longrightarrow>
    e \<in> set (w_elicitations w)"
proof (induction els arbitrary: w)
  case (Cons el els)
  let ?w1 = "snd (Elicitations_Respond (e_faults env) (el_ID el) ElicitationCanceled RawEmpty None (e_now env) w)"
  have "e \<in> set (w_elicitations ?w1)" using Cons by simp
  then show ?case using Cons.prems(2)
    by (auto simp: Elicitations_Respond_def exec_one_def set_update_where split: option.splits if_splits)
qed simp

lemma closing_mono:
  "open_ends k (snd (RunMessages_DropQueued f i (cancelPendingElicitations env j w))) \<Longrightarrow> open_ends k w"
proof (erule open_ends_mono [rotated 2])
  show "e \<in> set (w_elicitations (snd (RunMessages_DropQueued f i (cancelPendingElicitations env j w)))) \<Longrightarrow>
      el_State e = ElicitationPending \<Longrightarrow> e \<in> set (w_elicitations w)" for e
    by (auto simp: cancelPendingElicitations_def cancel_all_pending split: sum.splits)
  have "m \<in> set (w_messages (snd (RunMessages_DropQueued f i w'))) \<Longrightarrow> rm_State m = MessageQueued \<Longrightarrow>
      m \<in> set (w_messages w')" for m w'
    unfolding RunMessages_DropQueued_def exec_def
    by (cases "f ''RunMessages.DropQueued'' i") (auto simp: set_update_where split: if_splits)
  then show "m \<in> set (w_messages (snd (RunMessages_DropQueued f i (cancelPendingElicitations env j w)))) \<Longrightarrow>
      rm_State m = MessageQueued \<Longrightarrow> m \<in> set (w_messages w)" for m
    by (metis cancelPending_frame(2))
qed

definition recovering :: "RunState list" where
  "recovering = [RunProvisioning, RunRunning, RunNeedsInput, RunAwaitingApproval]"

text \<open>What recovery owes one run.\<close>

definition recovered :: "(Run \<Rightarrow> bool) \<Rightarrow> Run \<Rightarrow> World \<Rightarrow> bool" where
  "recovered alive run w \<longleftrightarrow>
     (if alive run
      then state_of w (run_ID run) = Some (if run_State run = RunProvisioning then RunRunning else run_State run) \<and>
           run_ID run \<in> set (w_started w)
      else if run_State run = RunNeedsInput \<or> run_State run = RunAwaitingApproval
      then run_of w (run_ID run) = Some run
      else state_of w (run_ID run) = Some RunFailed \<and> \<not> open_ends (run_ID run) w)"

lemma recovered_stable:
  assumes "recovered alive run w" and "run_of w' (run_ID run) = run_of w (run_ID run)"
    and "set (w_started w) \<subseteq> set (w_started w')" and "open_ends (run_ID run) w' \<Longrightarrow> open_ends (run_ID run) w"
  shows "recovered alive run w'"
  using assms by (auto simp: recovered_def state_of_def split: if_splits)

lemma cancel_all_started [simp]: "w_started (cancel_all env els w) = w_started w"
proof (induction els arbitrary: w)
  case (Cons el els)
  then show ?case by (simp add: Elicitations_Respond_def exec_one_def split: option.split)
qed simp

lemma cancelPending_started [simp]: "w_started (cancelPendingElicitations env i w) = w_started w"
  by (simp add: cancelPendingElicitations_def split: sum.split)

lemma recover_dead_effect:
  assumes wf: "runs_wf w" and env: "uncontended env" and nof: "\<And>s k. e_faults env s k = None"
    and row: "run_of w (run_ID run) = Some run"
    and edge: "RunFailed \<in> set (legalTransitions (run_State run))" "run_State run \<noteq> RunFailed"
    and w': "w' = recover_dead env newid run w"
  shows "state_of w' (run_ID run) = Some RunFailed \<and> \<not> open_ends (run_ID run) w' \<and>
    (\<forall>k. k \<noteq> run_ID run \<longrightarrow> run_of w' k = run_of w k) \<and> w_started w' = w_started w \<and>
    (\<forall>k. open_ends k w' \<longrightarrow> open_ends k w)"
proof -
  let ?i = "run_ID run"
  have out: "run_tables (snd (RunOutputs_Append f x w)) = run_tables w \<and>
      w_started (snd (RunOutputs_Append f x w)) = w_started w" for f x
    by (simp add: RunOutputs_Append_def exec_def run_tables_def split: option.split)
  obtain w1 u where t1: "run_tables w1 = run_tables w" "w_started w1 = w_started w"
    and w'2: "w' = snd (RunMessages_DropQueued (e_faults env) ?i (cancelPendingElicitations env ?i
        (snd (transition env ?i RunFailed u w1))))"
  proof (cases "(case run_Branch run of None \<Rightarrow> '''' | Some b \<Rightarrow> b) = []")
    case True
    show ?thesis by (rule that [OF refl refl]) (simp add: w' recover_dead_def Let_def True)
  next
    case False
    show ?thesis by (rule that [OF conjunct1 [OF out] conjunct2 [OF out]]) (simp add: w' recover_dead_def Let_def False)
  qed
  have races: "e_races env ?i = []" using env by (simp add: uncontended_def)
  have wf1: "runs_wf w1" using run_tables_wf [OF t1(1)] wf by simp
  have row1: "run_of w1 ?i = Some run" using run_tables_of [OF t1(1)] row by simp
  from transition_quiet [OF wf1 races nof row1 edge(2,1), of u]
  obtain r w2 where t: "transition env ?i RunFailed u w1 = (TOk r, w2)"
    and r: "run_of w2 ?i = Some r" "run_State r = RunFailed"
    and oth: "\<forall>k. k \<noteq> ?i \<longrightarrow> run_of w2 k = run_of w1 k" by force
  note c = core_fields [OF transition_core [OF races t]]
  have w'3: "w' = snd (RunMessages_DropQueued (e_faults env) ?i (cancelPendingElicitations env ?i w2))"
    by (simp add: w'2 t)
  have runs: "run_of w' k = run_of w2 k" for k by (simp add: w'3 run_of_def)
  have "w_started w' = w_started w" using c(14) t1(2) by (simp add: w'3)
  moreover have "open_ends k w2 = open_ends k w" for k
    using open_ends_cong [OF c(7) c(6)] run_tables_open [OF t1(1)] by simp
  then have "\<forall>k. open_ends k w' \<longrightarrow> open_ends k w" unfolding w'3 using closing_mono by blast
  moreover have "\<not> open_ends ?i w'" unfolding w'3 by (rule closed_ends [OF nof])
  moreover have "run_of w1 k = run_of w k" for k by (rule run_tables_of [OF t1(1)])
  ultimately show ?thesis using r oth runs by (simp add: state_of_def)
qed

lemma reconcileOne_effect:
  assumes wf: "runs_wf w" and env: "uncontended env" and nof: "\<And>s k. e_faults env s k = None"
    and row: "run_of w (run_ID run) = Some run" and st: "run_State run \<in> set recovering"
    and w': "w' = reconcileOne env alive newid run w"
  shows "recovered alive run w' \<and> (\<forall>k. k \<noteq> run_ID run \<longrightarrow> run_of w' k = run_of w k) \<and>
    set (w_started w) \<subseteq> set (w_started w') \<and> (\<forall>k. open_ends k w' \<longrightarrow> open_ends k w)"
proof -
  have races: "e_races env i = []" for i using env by (simp add: uncontended_def)
  show ?thesis
  proof (cases "alive run")
    case True
    show ?thesis
    proof (cases "run_State run = RunProvisioning")
      case prov: True
      let ?u = "empty_update\<lparr> su_StartedAt := Some (e_now env) \<rparr>"
      have edge: "RunRunning \<in> set (legalTransitions (run_State run))" "run_State run \<noteq> RunRunning"
        by (simp_all add: prov legalTransitions_def)
      obtain r w1 where t: "transition env (run_ID run) RunRunning ?u w = (TOk r, w1)"
        and r: "run_of w1 (run_ID run) = Some r" "run_State r = RunRunning" "run_ID r = run_ID run"
        and oth: "\<forall>k. k \<noteq> run_ID run \<longrightarrow> run_of w1 k = run_of w k"
        using transition_quiet [OF wf races nof row edge(2,1), of ?u] by force
      note c = core_fields [OF transition_core [OF races t]]
      have w'': "w' = startSupervisor r w1" using True prov t by (simp add: w' reconcileOne_def)
      show ?thesis
        using r oth True prov by (auto simp: w'' recovered_def startSupervisor_def state_of_def run_of_def open_ends_def c)
    next
      case False
      then have "w' = startSupervisor run w" using True by (simp add: w' reconcileOne_def)
      then show ?thesis
        using row True False by (auto simp: recovered_def startSupervisor_def state_of_def run_of_def open_ends_def)
    qed
  next
    case dead: False
    show ?thesis
    proof (cases "run_State run = RunNeedsInput \<or> run_State run = RunAwaitingApproval")
      case True
      then have "w' = w" using dead by (auto simp: w' reconcileOne_def)
      then show ?thesis using dead True row by (simp add: recovered_def)
    next
      case False
      then have edge: "RunFailed \<in> set (legalTransitions (run_State run))" "run_State run \<noteq> RunFailed"
        using st by (auto simp: recovering_def legalTransitions_def)
      have "w' = recover_dead env newid run w" using dead False by (simp add: w' reconcileOne_def Let_def)
      then show ?thesis
        using recover_dead_effect [OF wf env nof row edge, of w' newid] dead False by (simp add: recovered_def)
    qed
  qed
qed

text \<open>Recovery runs over the rows one by one; what it did for one is not undone by the next.\<close>

lemma reconcile_fold:
  assumes "uncontended env" and "\<And>s k. e_faults env s k = None"
  shows "\<lbrakk>runs_wf w; distinct (map run_ID rs);
      \<forall>r \<in> set rs. run_of w (run_ID r) = Some r \<and> run_State r \<in> set recovering\<rbrakk> \<Longrightarrow>
    (let w' = fold (reconcileOne env alive newid) rs w in
     (\<forall>r \<in> set rs. recovered alive r w') \<and> (\<forall>k. k \<notin> run_ID ` set rs \<longrightarrow> run_of w' k = run_of w k) \<and>
     set (w_started w) \<subseteq> set (w_started w') \<and> (\<forall>k. open_ends k w' \<longrightarrow> open_ends k w))"
proof (induction rs arbitrary: w)
  case (Cons r rs)
  define w1 where "w1 = reconcileOne env alive newid r w"
  have row: "run_of w (run_ID r) = Some r" and st: "run_State r \<in> set recovering" using Cons.prems(3) by auto
  note e = reconcileOne_effect [OF Cons.prems(1) assms row st w1_def]
  have wf1: "runs_wf w1" unfolding w1_def using reconcileOne_moves [OF Cons.prems(1) assms(1)] by blast
  have ne: "\<forall>x \<in> set rs. run_ID x \<noteq> run_ID r"
    using Cons.prems(2) by (metis distinct.simps(2) image_eqI list.set_map list.simps(9))
  have rest: "\<forall>x \<in> set rs. run_of w1 (run_ID x) = Some x \<and> run_State x \<in> set recovering"
    using Cons.prems(3) e ne by auto
  define w' where "w' = fold (reconcileOne env alive newid) rs w1"
  have ih: "(\<forall>x \<in> set rs. recovered alive x w') \<and> (\<forall>k. k \<notin> run_ID ` set rs \<longrightarrow> run_of w' k = run_of w1 k) \<and>
      set (w_started w1) \<subseteq> set (w_started w') \<and> (\<forall>k. open_ends k w' \<longrightarrow> open_ends k w1)"
    using Cons.IH [OF wf1 _ rest] Cons.prems(2) by (simp add: Let_def w'_def)
  have notin: "run_ID r \<notin> run_ID ` set rs" using ne by force
  have "recovered alive r w'"
    by (rule recovered_stable [OF conjunct1 [OF e]]) (use ih notin in auto)
  then have all: "(\<forall>x \<in> set (r # rs). recovered alive x w') \<and> (\<forall>k. k \<notin> run_ID ` set (r # rs) \<longrightarrow> run_of w' k = run_of w k) \<and>
      set (w_started w) \<subseteq> set (w_started w') \<and> (\<forall>k. open_ends k w' \<longrightarrow> open_ends k w)"
    using ih e by auto
  have "fold (reconcileOne env alive newid) (r # rs) w = w'" by (simp add: w'_def w1_def)
  then show ?case unfolding Let_def using all by simp
qed simp

lemma distinct_map_sort_filter:
  "distinct (map k t) \<Longrightarrow> distinct (map k (sort_key s (filter p t)))"
  by (metis distinct_map distinct_filter distinct_sort filter_is_subset inj_on_subset set_sort)

text \<open>
  Crash recovery accounts for every run: a run whose container is alive is supervised again (a
  provisioning one becomes running), a working run whose container is gone fails with its open ends
  closed, a run parked on a human whose container is gone stays exactly as it was, and queued and
  finished runs are not touched.
\<close>

theorem reconcile_recovers:
  assumes "runs_wf w" and "uncontended env" and "\<And>s k. e_faults env s k = None"
    and "reconcile env alive newid w = (x, w')" and "run_of w k = Some run"
  shows "x = Inr () \<and> (if run_State run \<in> set recovering then recovered alive run w' else run_of w' k = Some run)"
proof -
  let ?rs = "sort_key queue_key (filter (\<lambda>r. run_State r \<in> set recovering) (w_runs w))"
  have d: "distinct (map run_ID ?rs)"
    by (rule distinct_map_sort_filter) (use assms(1) in \<open>simp add: runs_wf_def\<close>)
  have rows: "\<forall>r \<in> set ?rs. run_of w (run_ID r) = Some r \<and> run_State r \<in> set recovering"
    using mem_run_of [OF assms(1)] by simp
  have "Runs_ByStates (e_faults env) recovering w = Inr ?rs"
    unfolding Runs_ByStates_def query_def assms(3) option.case by (simp add: recovering_def)
  then have w': "x = Inr ()" "w' = fold (reconcileOne env alive newid) ?rs w"
    using assms(4) unfolding reconcile_def recovering_def by simp_all
  note f = reconcile_fold [OF assms(2,3,1) d rows, of alive newid, folded w'(2), unfolded Let_def]
  have run: "run \<in> set (w_runs w)" "run_ID run = k" using assms(5) run_of_mem run_of_ID by auto
  show ?thesis
  proof (cases "run_State run \<in> set recovering")
    case True
    then have "run \<in> set ?rs" using run(1) by simp
    then have "recovered alive run w'" using f by blast
    then show ?thesis using True w'(1) by simp
  next
    case False
    have "k \<notin> run_ID ` set ?rs"
    proof
      assume "k \<in> run_ID ` set ?rs"
      then obtain r where "r \<in> set ?rs" and k: "k = run_ID r" by blast
      with rows have "run_of w k = Some r" and "run_State r \<in> set recovering" by blast+
      with assms(5) False show False by simp
    qed
    then have "run_of w' k = run_of w k" using f by blast
    then have "run_of w' k = Some run" using assms(5) by simp
    then show ?thesis using False w'(1) by simp
  qed
qed

theorem reconcile_recovers_witness:
  "let w = blank_World\<lparr> w_runs := [blank_Run\<lparr> run_ID := ''p'', run_Seq := 7, run_State := RunNeedsInput \<rparr>,
               blank_Run\<lparr> run_ID := ''q'', run_Seq := 1, run_State := RunRunning \<rparr>,
               blank_Run\<lparr> run_ID := ''s'', run_Seq := 2, run_State := RunProvisioning \<rparr>] \<rparr>;
       w' = snd (reconcile calm_env (\<lambda>r. run_ID r = ''s'') id w)
   in run_of w' ''p'' = run_of w ''p'' \<and> state_of w' ''q'' = Some RunFailed \<and>
      state_of w' ''s'' = Some RunRunning"
proof -
  let ?p = "blank_Run\<lparr> run_ID := ''p'', run_Seq := 7, run_State := RunNeedsInput \<rparr>"
  let ?q = "blank_Run\<lparr> run_ID := ''q'', run_Seq := 1, run_State := RunRunning \<rparr>"
  let ?s = "blank_Run\<lparr> run_ID := ''s'', run_Seq := 2, run_State := RunProvisioning \<rparr>"
  let ?w = "blank_World\<lparr> w_runs := [?p, ?q, ?s] \<rparr>"
  have wf: "runs_wf ?w" by (simp add: runs_wf_def)
  have rows: "run_of ?w ''p'' = Some ?p" "run_of ?w ''q'' = Some ?q" "run_of ?w ''s'' = Some ?s"
    by (simp_all add: run_of_def find_row_Cons)
  note rec = reconcile_recovers [where env = calm_env and alive = "\<lambda>r. run_ID r = ''s''" and newid = id,
      OF wf _ _ surjective_pairing]
  show ?thesis
    using rec [OF _ _ rows(1)] rec [OF _ _ rows(2)] rec [OF _ _ rows(3)] rows
    by (simp add: Let_def recovering_def recovered_def)
qed

end
