(* ===== verification/RunSafety.thy ===== *)
theory RunSafety
  imports RunEnd
begin

text \<open>
  The contract every operation of the scheduler keeps on the runs table: keys stay unique, a run has
  its end stamped exactly when it is terminal, no run disappears and every state change follows the
  legal edges. One lemma per operation of the terminal, stop, admission and recovery paths.
\<close>

named_theorems safe_intros \<open>the operations that keep the contract\<close>

definition safe :: "World \<Rightarrow> World \<Rightarrow> bool" where
  "safe w w' \<longleftrightarrow> (runs_wf w \<and> ended_ok w \<longrightarrow> runs_wf w' \<and> ended_ok w' \<and> moves w w')"

lemma safe_refl [simp, intro]: "safe w w"
  by (simp add: safe_def)

lemma safe_trans [trans]: "safe w w' \<Longrightarrow> safe w' w'' \<Longrightarrow> safe w w''"
  unfolding safe_def using moves_trans by blast

lemma safe_runs: "w_runs w' = w_runs w \<Longrightarrow> safe w w'"
  unfolding safe_def using runs_wf_cong ended_ok_cong moves_cong moves_refl by metis

lemma safe_cong: "w_runs w' = w_runs w'' \<Longrightarrow> safe w w' = safe w w''"
  unfolding safe_def using runs_wf_cong ended_ok_cong moves_cong by metis

lemma safe_cong_left: "w_runs v = w_runs w \<Longrightarrow> safe v w' = safe w w'"
  using safe_runs safe_trans by metis

lemma safe_transition:
  assumes "e_races env i = []" and "su_EndedAt u = None"
  shows "safe w (snd (transition env i to u w))"
  unfolding safe_def
proof (intro impI)
  assume w: "runs_wf w \<and> ended_ok w"
  obtain r w' where t: "transition env i to u w = (r, w')" by (meson surj_pair)
  have "\<forall>y \<in> set (e_races env i). lawful y" by (simp add: assms(1))
  with transition_moves [OF conjunct1 [OF w] this t] transition_ended [OF conjunct2 [OF w] assms(1) t assms(2)] t
  show "runs_wf (snd (transition env i to u w)) \<and> ended_ok (snd (transition env i to u w)) \<and>
      moves w (snd (transition env i to u w))" by simp
qed

lemma uncontended_races: "uncontended env \<Longrightarrow> e_races env i = []"
  by (simp add: uncontended_def)

lemma safe_update:
  assumes "\<And>r. run_ID (g r) = run_ID r" and "\<And>r. run_ProjectID (g r) = run_ProjectID r"
    and "\<And>r. run_Seq (g r) = run_Seq r" and "\<And>r. run_State (g r) = run_State r"
    and "\<And>r. run_EndedAt (g r) = run_EndedAt r"
  shows "safe w (w_runs_update (update_where p g) w)"
  unfolding safe_def
proof (intro impI conjI)
  assume w: "runs_wf w \<and> ended_ok w"
  show "runs_wf (w_runs_update (update_where p g) w)"
    by (rule runs_wf_update_where [OF conjunct1 [OF w]]) (simp_all add: assms)
  show "ended_ok (w_runs_update (update_where p g) w)"
    using w by (auto simp: ended_ok_def set_update_where assms)
  have "find_row run_ID k (update_where p g t) = map_option (\<lambda>r. if p r then g r else r) (find_row run_ID k t)" for k t
    by (induction t) (auto simp: update_where_Cons find_row_Cons assms)
  then have "state_of (w_runs_update (update_where p g) w) k = state_of w k" for k
    by (cases "find_row run_ID k (w_runs w)") (auto simp: state_of_def run_of_def assms)
  then show "moves w (w_runs_update (update_where p g) w)" by (simp add: moves_def)
qed

section \<open>The operations\<close>

lemma safe_hold [safe_intros]: "safe w (hold env run reason w)"
proof -
  have "safe w (snd (Runs_SetHoldReason f i x w))" for f i x
    by (auto simp: Runs_SetHoldReason_def exec_def intro!: safe_update split: option.split)
  moreover have "w_runs (emitRunState r w') = w_runs w'" for r w' by simp
  ultimately show ?thesis
    unfolding hold_def by (auto split: prod.split sum.split) (metis snd_conv safe_cong emitRunState_runs)+
qed

lemma safe_failQueued [safe_intros]: "uncontended env \<Longrightarrow> safe w (failQueued env run reason message w)"
  unfolding failQueued_def Let_def
  by (subst safe_cong [OF DropQueued_runs]) (rule safe_transition, simp_all add: uncontended_races empty_update_def)

lemma safe_startSupervisor [safe_intros]: "safe w (startSupervisor r w)"
  by (rule safe_runs) simp

lemma safe_admit_checked [safe_intros]:
  assumes "uncontended env"
  shows "safe w (snd (admit_checked env run agent dest ws c w))"
proof -
  have "safe w (snd (transition env (run_ID run) RunProvisioning (empty_update\<lparr> su_HoldReason := Some '''' \<rparr>) w))"
    by (rule safe_transition) (simp_all add: uncontended_races [OF assms] empty_update_def)
  then show ?thesis
    unfolding admit_checked_def
    by (auto intro: safe_hold safe_failQueued [OF assms] safe_trans [OF _ safe_startSupervisor]
        split: budget_result.split prod.split trans_result.split)
qed

lemma safe_admitOne [safe_intros]:
  assumes "uncontended env"
  shows "safe (snd s) (snd (admitOne env ws run s))"
proof (cases s)
  case (Pair c w)
  show ?thesis
    unfolding Pair admitOne_def prod.case
    by (auto intro: safe_hold safe_failQueued [OF assms] safe_admit_checked [OF assms]
        split: sum.split option.split prod.split wip_result.split)
qed

lemma safe_admit_loop: "uncontended env \<Longrightarrow> safe (snd s) (snd (admit_loop env stop ws runs s))"
proof (induction runs arbitrary: s)
  case (Cons run runs)
  then show ?case
    using safe_trans [OF safe_admitOne [OF Cons.prems, of s ws run] Cons.IH [OF Cons.prems]] by simp
qed simp

lemma safe_admitPass [safe_intros]: "uncontended env \<Longrightarrow> safe w (admitPass env stop w)"
  unfolding admitPass_def
  by (auto split: sum.split list.split simp del: admit_loop.simps
      intro: safe_admit_loop [where s = "(c, w)" for c, simplified snd_conv])

lemma safe_add_effect [simp]: "w_runs (add_effect e w) = w_runs w"
  by (simp add: add_effect_def)

lemma safe_StopRun [safe_intros]:
  assumes "uncontended env"
  shows "safe w (snd (snd (StopRun env ports i reason sups w)))"
proof -
  obtain r w1 where t: "transition env i RunCanceled (empty_update\<lparr> su_StateReason := Some reason \<rparr>) w = (r, w1)"
    by (meson surj_pair)
  have "safe w (snd (transition env i RunCanceled (empty_update\<lparr> su_StateReason := Some reason \<rparr>) w))"
    by (rule safe_transition) (simp_all add: uncontended_races [OF assms] empty_update_def)
  then have s: "safe w w1" by (simp add: t)
  have "safe w1 (Wake (if p_tokens ports then add_effect e (snd (RunMessages_DropQueued f i (cancelPendingElicitations env i w1)))
      else snd (RunMessages_DropQueued f i (cancelPendingElicitations env i w1))))" for e f
    by (rule safe_runs) (simp add: Wake_def)
  with s have "safe w (Wake (if p_tokens ports then add_effect e (snd (RunMessages_DropQueued f i (cancelPendingElicitations env i w1)))
      else snd (RunMessages_DropQueued f i (cancelPendingElicitations env i w1))))" for e f
    by (rule safe_trans)
  then show ?thesis
    using s by (simp add: StopRun_def Let_def t split: sum.split option.split trans_result.split)
qed

lemma StopRun_other:
  assumes "uncontended env" and "k \<noteq> i"
  shows "run_of (snd (snd (StopRun env ports i reason sups w))) k = run_of w k"
proof -
  obtain r w1 where t: "transition env i RunCanceled (empty_update\<lparr> su_StateReason := Some reason \<rparr>) w = (r, w1)"
    by (meson surj_pair)
  have "run_of w1 k = run_of w k" by (rule transition_other [OF uncontended_races [OF assms(1)] t assms(2)])
  then show ?thesis
    by (auto simp: StopRun_def Let_def t run_of_def Wake_def split: sum.split option.split trans_result.split)
qed

lemma safe_TakeoverRun [safe_intros]:
  assumes "uncontended env"
  shows "safe w (snd (snd (TakeoverRun env ports i note sups w)))"
proof -
  have "safe w (snd (Runs_SetTakeoverNote (e_faults env) i note w))"
    by (auto simp: Runs_SetTakeoverNote_def exec_one_def intro!: safe_update split: option.split)
  then show ?thesis
    unfolding TakeoverRun_def
    by (auto intro: safe_trans [OF _ safe_StopRun [OF assms]] split: sum.split prod.split)
qed

lemma safe_stop_each: "uncontended env \<Longrightarrow> safe w (snd (snd (stop_each env ports reason runs n sups w)))"
proof (induction runs arbitrary: n sups w)
  case (Cons run runs)
  obtain r s' w' where st: "StopRun env ports (run_ID run) reason sups w = (r, s', w')" by (metis prod_cases3)
  have "safe w w'" using safe_StopRun [OF Cons.prems, of w ports "run_ID run" reason sups] by (simp add: st)
  then show ?case using Cons st by (cases r) (auto intro: safe_trans)
qed simp

lemma safe_CancelTicketRuns [safe_intros]:
  "uncontended env \<Longrightarrow> safe w (snd (snd (CancelTicketRuns env ports tid reason sups w)))"
  unfolding CancelTicketRuns_def
  by (auto split: sum.split prod.split dest: safe_stop_each) (metis safe_stop_each snd_conv)

lemma safe_settle:
  assumes "uncontended env"
  shows "safe w (snd (settle env i kind reason message w))"
  unfolding settle_def Let_def
  by (subst safe_cong_left [where w = w, symmetric, OF refl])
     (rule safe_trans [OF safe_runs safe_transition], simp_all add: uncontended_races [OF assms] empty_update_def)

text \<open>The terminal path, with ports that do not write runs.\<close>

lemma safe_finish [safe_intros]:
  assumes "uncontended env" and "ports_quiet ports"
  shows "safe w (finish env ports newid run0 inst p kind reason message w)"
proof -
  have runs: "w_runs (open_pr env ports i after w') = w_runs w'" "w_runs (review_move env ports run after w') = w_runs w'" for i after run w'
    using run_tables_open_pr [OF assms(2)] run_tables_review_move [OF assms(2)] by (auto simp: run_tables_iff)
  define w1 where "w1 = (if po_pushed p \<and> kind \<noteq> RunCompleted
    then recordPartialWork env newid (run_ID run0) (po_branch p) w else w)"
  have w1: "w_runs w1 = w_runs w"
    by (simp add: w1_def recordPartialWork_def RunOutputs_Append_def exec_def split: option.split)
  define run where "run = (case Runs_ByID (e_faults env) (run_ID run0) w1 of Inl _ \<Rightarrow> run0 | Inr r \<Rightarrow> r)"
  have w2: "w_runs (teardown ports (run_ID run) inst w1) = w_runs w"
    using w1 by (simp add: teardown_def Let_def)
  obtain r w3 where s: "settle env (run_ID run) kind reason (terminalMessage kind run message p)
      (teardown ports (run_ID run) inst w1) = (r, w3)" by (meson surj_pair)
  have "safe (teardown ports (run_ID run) inst w1) w3" using safe_settle [OF assms(1)] s by (metis snd_conv)
  then have "safe w w3" by (simp add: safe_cong_left [OF w2])
  moreover have "w_runs (finish env ports newid run0 inst p kind reason message w) = w_runs w3"
    unfolding finish_def Let_def w1_def [symmetric] run_def [symmetric] s prod.case by (simp add: Wake_def runs)
  then have "safe w3 (finish env ports newid run0 inst p kind reason message w)" by (rule safe_runs)
  ultimately show ?thesis by (rule safe_trans)
qed

lemma safe_reconcileOne:
  assumes "uncontended env"
  shows "safe w (reconcileOne env alive newid run w)"
proof -
  have t: "safe v (snd (transition env i to u v))" if "su_EndedAt u = None" for v i to u
    by (rule safe_transition [OF uncontended_races [OF assms] that])
  have dead: "safe w (recover_dead env newid run w)"
  proof -
    have out: "w_runs (snd (RunOutputs_Append f x w)) = w_runs w" for f x
      by (simp add: RunOutputs_Append_def exec_def split: option.split)
    show ?thesis
      unfolding recover_dead_def Let_def
      by (rule safe_trans [OF safe_runs safe_trans [OF t safe_runs]]) (simp_all add: out empty_update_def)
  qed
  show ?thesis
  proof (cases "alive run \<and> run_State run = RunProvisioning")
    case True
    obtain r w' where s: "transition env (run_ID run) RunRunning (empty_update\<lparr> su_StartedAt := Some (e_now env) \<rparr>) w = (r, w')"
      by (meson surj_pair)
    have "safe w w'" using t [of "empty_update\<lparr> su_StartedAt := Some (e_now env) \<rparr>" w] s
      by (metis empty_update_def snd_conv RunStateUpdate.select_convs(5) RunStateUpdate.update_convs(4))
    then show ?thesis using True s by (cases r) (simp_all add: reconcileOne_def Let_def safe_cong [OF started_frame])
  next
    case False
    then show ?thesis using dead by (auto simp: reconcileOne_def Let_def intro: safe_startSupervisor)
  qed
qed

lemma safe_reconcile [safe_intros]:
  assumes "uncontended env"
  shows "safe w (snd (reconcile env alive newid w))"
proof -
  have "safe w (fold (reconcileOne env alive newid) rs w)" for rs
    by (induction rs arbitrary: w) (auto intro: safe_trans [OF safe_reconcileOne [OF assms]])
  then show ?thesis by (simp add: reconcile_def split: sum.split)
qed

lemma safe_SetRunState [safe_intros]:
  assumes "uncontended env"
  shows "safe w (snd (SetRunState env i state reason w))"
proof -
  obtain r w' where t: "transition env i state (empty_update\<lparr> su_StateReason := Some reason \<rparr>) w = (r, w')"
    by (meson surj_pair)
  have "safe w (snd (transition env i state (empty_update\<lparr> su_StateReason := Some reason \<rparr>) w))"
    by (rule safe_transition) (simp_all add: uncontended_races [OF assms] empty_update_def)
  then have "safe w w'" by (simp add: t)
  then show ?thesis by (simp add: SetRunState_def t split: trans_result.split)
qed

end
