(* ===== verification/Enqueue.thy ===== *)
theory Enqueue
  imports RunSafety
begin

text \<open>
  How runs begin (\<^verbatim>\<open>internal/kernel/sched\<close>: \<^verbatim>\<open>scheduler.go\<close>'s \<^verbatim>\<open>Enqueue\<close> and
  \<^verbatim>\<open>EnqueueLoopStopped\<close>, the prompt assembly of \<^verbatim>\<open>prompt.go\<close>, the request of
  \<^verbatim>\<open>sched.go\<close>, the transaction of \<^verbatim>\<open>store/tx.go\<close>). The context providers are
  plug-ins: each is a record with the function it answers requests by. Fresh identifiers
  (\<^verbatim>\<open>domain.NewID\<close>) come from a supply \<^verbatim>\<open>ids\<close>.
\<close>

section \<open>Requests and providers\<close>

record RunRequest =
  rq_ProjectID :: string
  rq_AgentID :: string
  rq_TicketID :: string
  rq_Reason :: string
  rq_PromptOverride :: string
  rq_RequestedByUserID :: string
  rq_TriggerID :: string
  rq_CauseEventID :: string
  rq_ParentRunID :: string
  rq_ChangedPaths :: "string list"
  rq_SubjectKey :: string
  rq_Depth :: int
  rq_SupersededRunID :: string

record ContextRequest =
  cq_ProjectID :: string
  cq_AgentID :: string
  cq_TicketID :: string
  cq_CauseEventID :: string
  cq_TaskSummary :: string
  cq_ChangedPaths :: "string list"
  cq_Dry :: bool
  cq_CausingEvent :: "Event option"

record ContextItem =
  ci_SourceKind :: string
  ci_SourceRef :: string
  ci_Title :: string
  ci_Reason :: string
  ci_Body :: string
  ci_Tokens :: int
  ci_Injected :: bool

record ContextProvider =
  cp_ID :: string
  cp_Priority :: int
  cp_Resolve :: "ContextRequest \<Rightarrow> string + ContextItem list"

datatype enq_err =
    ReqIncomplete | NoAgent store_err | AgentElsewhere | AgentDisabled string
  | NoTicket store_err | TicketElsewhere | TicketIsArchived string
  | DirectiveErr store_err | ProviderErr string string | TakeoverErr store_err
  | TxErr store_err | AuditErr store_err

section \<open>Resolving the context\<close>

definition providersInOrder :: "ContextProvider list \<Rightarrow> ContextProvider list" where
  "providersInOrder ps = sort_key (\<lambda>p. (cp_Priority p, cp_ID p)) ps"

fun resolve_all :: "ContextRequest \<Rightarrow> ContextProvider list \<Rightarrow> enq_err + (ContextItem \<times> string) list" where
  "resolve_all rq [] = Inr []"
| "resolve_all rq (p # ps) =
     (case cp_Resolve p rq of
        Inl e \<Rightarrow> Inl (ProviderErr (cp_ID p) e)
      | Inr its \<Rightarrow>
          (case resolve_all rq ps of
             Inl e \<Rightarrow> Inl e
           | Inr rest \<Rightarrow> Inr (map (\<lambda>it. (it, cp_ID p)) its @ rest)))"

definition resolveContext :: "ContextProvider list \<Rightarrow> ContextRequest \<Rightarrow> enq_err + (ContextItem \<times> string) list" where
  "resolveContext ps rq = resolve_all rq (providersInOrder ps)"

definition toRunContextItems :: "(ContextItem \<times> string) list \<Rightarrow> RunContextItem list" where
  "toRunContextItems res = map (\<lambda>(i, it, prov).
     \<lparr> rc_ID = '''', rc_RunID = '''', rc_Provider = prov, rc_SourceKind = ci_SourceKind it,
       rc_SourceRef = ci_SourceRef it, rc_Title = ci_Title it, rc_Reason = ci_Reason it,
       rc_Tokens = ci_Tokens it, rc_Position = int i + 1, rc_Injected = ci_Injected it \<rparr>)
     (enumerate 0 res)"

definition PreviewContext :: "ContextProvider list \<Rightarrow> string \<Rightarrow> string \<Rightarrow> enq_err + RunContextItem list" where
  "PreviewContext ps pid aid =
     map_sum id toRunContextItems (resolveContext ps
       \<lparr> cq_ProjectID = pid, cq_AgentID = aid, cq_TicketID = '''', cq_CauseEventID = '''',
         cq_TaskSummary = '''', cq_ChangedPaths = [], cq_Dry = True, cq_CausingEvent = None \<rparr>)"

section \<open>The prompt\<close>

definition nl :: string where
  "nl = [CHR 0x0A]"

definition add_section :: "string \<Rightarrow> string \<Rightarrow> string" where
  "add_section b sec = b @ (if b = [] then [] else nl) @ sec"

definition item_section :: "ContextItem \<Rightarrow> string" where
  "item_section it = ''# '' @ ci_Title it @ nl @ nl @ trim_space (ci_Body it) @ nl"

fun add_items :: "(ContextItem \<times> string) list \<Rightarrow> string \<Rightarrow> string" where
  "add_items [] b = b"
| "add_items ((it, prov) # rest) b =
     (if \<not> ci_Injected it \<or> trim_space (ci_Body it) = [] then add_items rest b
      else add_items rest (add_section b (item_section it)))"

definition deliverySection :: "Agent \<Rightarrow> string" where
  "deliverySection agent =
     (if \<not> perm_PushBranches (ag_Permissions agent) then ''''
      else ''# How your work is delivered'' @ nl @ nl @
        ''Commit your work locally, on the branch this workspace is already on. '' @
        ''Do not push: this container holds no credential for the repository, so `git push` '' @
        ''will fail. '' @
        (if perm_OpenPRs (ag_Permissions agent)
         then ''Lexicode pushes your branch once you have exited, and opens the pull '' @
              ''request from it.'' @ nl
         else ''Lexicode pushes your branch once you have exited.'' @ nl) @
        nl @ ''Committing is the only way your work leaves this container. If you end '' @
        ''with uncommitted changes, Lexicode commits them for you as a single `wip:` commit '' @
        ''so nothing is lost '' @ [CHR 0xE2, CHR 0x80, CHR 0x94] @
        '' but your own commits, with your own messages, are what a '' @
        ''reviewer reads.'' @ nl)"

definition task_summary :: "Ticket option \<Rightarrow> string \<Rightarrow> string" where
  "task_summary ticket reason =
     (let t = (case ticket of None \<Rightarrow> '''' | Some tk \<Rightarrow> tk_Title tk)
      in if reason = [] then t
         else if t = [] then reason
         else t @ '' '' @ [CHR 0xE2, CHR 0x80, CHR 0x94] @ '' '' @ reason)"

definition context_request :: "faults \<Rightarrow> Agent \<Rightarrow> Ticket option \<Rightarrow> RunRequest \<Rightarrow> World \<Rightarrow> ContextRequest" where
  "context_request f agent ticket req w =
     \<lparr> cq_ProjectID = rq_ProjectID req, cq_AgentID = ag_ID agent, cq_TicketID = rq_TicketID req,
       cq_CauseEventID = rq_CauseEventID req, cq_TaskSummary = task_summary ticket (rq_Reason req),
       cq_ChangedPaths = rq_ChangedPaths req, cq_Dry = False,
       cq_CausingEvent =
         (if rq_CauseEventID req = [] then None
          else (case Events_ByID f (rq_CauseEventID req) w of Inl _ \<Rightarrow> None | Inr ev \<Rightarrow> Some ev)) \<rparr>"

definition takeover_section :: "string \<Rightarrow> int \<Rightarrow> string" where
  "takeover_section note n =
     ''# Human takeover'' @ nl @ nl @ ''A human took over run #'' @ fmt_int n @
     '' on this ticket and worked on its branch directly. Their note:'' @ nl @ nl @
     trim_space note @ nl"

definition assemblePrompt ::
  "faults \<Rightarrow> ContextProvider list \<Rightarrow> Agent \<Rightarrow> Ticket option \<Rightarrow> string \<Rightarrow> RunRequest \<Rightarrow> World \<Rightarrow>
   enq_err + string \<times> RunContextItem list" where
  "assemblePrompt f ps agent ticket directive req w =
     (let b0 = (if trim_space directive \<noteq> []
                then ''# Agent directive'' @ nl @ nl @ trim_space directive @ nl else '''')
      in case resolveContext ps (context_request f agent ticket req w) of
           Inl e \<Rightarrow> Inl e
         | Inr res \<Rightarrow>
             (let b1 = add_items res b0
              in case (case ticket of
                         None \<Rightarrow> Inr b1
                       | Some tk \<Rightarrow>
                           (case Runs_LatestTakeoverNote f (tk_ID tk) w of
                              Inl e \<Rightarrow> Inl (TakeoverErr e)
                            | Inr (note, n) \<Rightarrow>
                                Inr (if trim_space note \<noteq> [] then add_section b1 (takeover_section note n) else b1))) of
                   Inl e \<Rightarrow> Inl e
                 | Inr b2 \<Rightarrow>
                     (let b3 = (if deliverySection agent \<noteq> [] then add_section b2 (deliverySection agent) else b2);
                          b4 = (if trim_space (rq_PromptOverride req) \<noteq> []
                                then add_section b3 (''# Task'' @ nl @ nl @ trim_space (rq_PromptOverride req) @ nl)
                                else b3)
                      in Inr (b4, toRunContextItems res))))"

definition EstimateTokens :: "string \<Rightarrow> int" where
  "EstimateTokens text = (int (length text) + 3) div 4"

section \<open>The context budget\<close>

definition contextThreshold :: "faults \<Rightarrow> string \<Rightarrow> World \<Rightarrow> int res" where
  "contextThreshold f pid w =
     (case Projects_ByID f pid w of
        Inl e \<Rightarrow> Inl e
      | Inr p \<Rightarrow>
          (case prj_ContextThresholdTokens p of
             Some n \<Rightarrow> Inr n
           | None \<Rightarrow> (case Workspace_Get f w of Inl e \<Rightarrow> Inl e | Inr ws \<Rightarrow> Inr (ws_DefaultContextThresholdTokens ws))))"

definition warnContextBudget :: "Env \<Rightarrow> Run \<Rightarrow> RunContextItem list \<Rightarrow> World \<Rightarrow> World" where
  "warnContextBudget env run items w =
     (let always = sum_list (map rc_Tokens (filter (\<lambda>it. rc_Reason it = ''always'') items))
      in if always = 0 then w
         else (case contextThreshold (e_faults env) (run_ProjectID run) w of
                 Inl _ \<Rightarrow> w
               | Inr threshold \<Rightarrow>
                   if threshold \<le> 0 \<or> always \<le> threshold then w
                   else snd (Activities_AppendNext (e_faults env)
                     (blank_Activity\<lparr> act_RunID := run_ID run, act_Type := ActivitySystem, act_Level := 1,
                        act_GroupKey := ''system'',
                        act_Title := ''Context budget exceeded: always-on pages total ~'' @ fmt_int always @
                          '' tokens (threshold '' @ fmt_int threshold @ '')'',
                        act_Payload := Raw (JObj [(''always_tokens'', JNum (of_int always)),
                          (''threshold_tokens'', JNum (of_int threshold)), (''warning'', JStr ''context_budget_exceeded'')]),
                        act_Attempt := 1, act_CreatedAt := e_now env \<rparr>) w)))"

section \<open>The request's rows\<close>

definition loadRequestRows :: "faults \<Rightarrow> RunRequest \<Rightarrow> World \<Rightarrow> enq_err + Agent \<times> Ticket option" where
  "loadRequestRows f req w =
     (if rq_ProjectID req = [] \<or> rq_AgentID req = [] then Inl ReqIncomplete
      else (case Agents_ByID f (rq_AgentID req) w of
              Inl e \<Rightarrow> Inl (NoAgent e)
            | Inr agent \<Rightarrow>
                if ag_ProjectID agent \<noteq> rq_ProjectID req then Inl AgentElsewhere
                else if \<not> ag_Enabled agent \<or> ag_ArchivedAt agent \<noteq> None then Inl (AgentDisabled (ag_Name agent))
                else if rq_TicketID req = [] then Inr (agent, None)
                else (case Tickets_ByID f (rq_TicketID req) w of
                        Inl e \<Rightarrow> Inl (NoTicket e)
                      | Inr tk \<Rightarrow>
                          if tk_ProjectID tk \<noteq> rq_ProjectID req then Inl TicketElsewhere
                          else if tk_ArchivedAt tk \<noteq> None then Inl (TicketIsArchived (tk_Key tk))
                          else Inr (agent, Some tk))))"

definition subjectKey :: "Ticket option \<Rightarrow> string" where
  "subjectKey ticket = (case ticket of Some tk \<Rightarrow> ''ticket:'' @ tk_Key tk | None \<Rightarrow> ''repo'')"

definition new_run :: "Env \<Rightarrow> string \<Rightarrow> string \<Rightarrow> Agent \<Rightarrow> Ticket option \<Rightarrow> string \<Rightarrow> RunRequest \<Rightarrow> Run" where
  "new_run env i sandbox agent ticket prompt req = blank_Run\<lparr>
     run_ID := i, run_ProjectID := rq_ProjectID req, run_AgentID := ag_ID agent,
     run_State := RunQueued, run_Autonomy := ag_Autonomy agent,
     run_DirectiveVersionID := ag_DirectiveVersionID agent, run_Model := ag_Model agent,
     run_Effort := ag_Effort agent, run_Prompt := prompt, run_RuntimeID := ag_RuntimeID agent,
     run_SandboxID := sandbox, run_StateReason := rq_Reason req,
     run_SubjectKey := (if rq_SubjectKey req \<noteq> [] then rq_SubjectKey req else subjectKey ticket),
     run_Depth := rq_Depth req, run_QueuedAt := e_now env,
     run_TicketID := null_if_empty (rq_TicketID req), run_TriggerID := null_if_empty (rq_TriggerID req),
     run_CauseEventID := null_if_empty (rq_CauseEventID req),
     run_ParentRunID := null_if_empty (rq_ParentRunID req),
     run_RequestedByUserID := null_if_empty (rq_RequestedByUserID req) \<rparr>"

section \<open>Transactions\<close>

text \<open>
  \<^verbatim>\<open>Store.Tx\<close>: a failed begin, body or commit leaves the database as it was before.
\<close>

definition Tx :: "faults \<Rightarrow> (World \<Rightarrow> 'a res \<times> World) \<Rightarrow> World \<Rightarrow> 'a res \<times> World" where
  "Tx f body w =
     (case f ''Tx.Begin'' '''' of
        Some e \<Rightarrow> (Inl e, w)
      | None \<Rightarrow>
          (case body w of
             (Inl e, _) \<Rightarrow> (Inl e, w)
           | (Inr x, w') \<Rightarrow> (case f ''Tx.Commit'' '''' of Some e \<Rightarrow> (Inl e, w) | None \<Rightarrow> (Inr x, w'))))"

fun create_items :: "faults \<Rightarrow> string \<Rightarrow> (nat \<Rightarrow> string) \<Rightarrow> nat \<Rightarrow> RunContextItem list \<Rightarrow> World \<Rightarrow> unit res \<times> World" where
  "create_items f rid ids n [] w = (Inr (), w)"
| "create_items f rid ids n (it # its) w =
     (case RunContextItems_Create f (it\<lparr> rc_RunID := rid, rc_Position := int n,
             rc_ID := (if rc_ID it = [] then ids n else rc_ID it) \<rparr>) w of
        (Inl e, w') \<Rightarrow> (Inl e, w')
      | (Inr _, w') \<Rightarrow> create_items f rid ids (Suc n) its w')"

definition enqueue_tx ::
  "Env \<Rightarrow> (nat \<Rightarrow> string) \<Rightarrow> Agent \<Rightarrow> Ticket option \<Rightarrow> RunContextItem list \<Rightarrow> string \<Rightarrow> Run \<Rightarrow> World \<Rightarrow> Run res \<times> World" where
  "enqueue_tx env ids agent ticket items reason run w =
     (case Runs_NextSeq (e_faults env) (run_ProjectID run) w of
        Inl e \<Rightarrow> (Inl e, w)
      | Inr n \<Rightarrow>
          (let run' = run\<lparr> run_Seq := n \<rparr>
           in case Runs_Create (e_faults env) run' w of
                (Inl e, w1) \<Rightarrow> (Inl e, w1)
              | (Inr _, w1) \<Rightarrow>
                  (case create_items (e_faults env) (run_ID run) ids 1 items w1 of
                     (Inl e, w2) \<Rightarrow> (Inl e, w2)
                   | (Inr _, w2) \<Rightarrow>
                       (case ticket of
                          None \<Rightarrow> (Inr run', w2)
                        | Some tk \<Rightarrow>
                            (case TicketStream_Append (e_faults env)
                               \<lparr> se_ID = ids (length items + 1), se_TicketID = tk_ID tk, se_Kind = StreamRun,
                                 se_ActorKind = ActorAgent, se_ActorID = Some (ag_ID agent), se_Body = '''',
                                 se_Payload = Raw (JObj [(''reason'', JStr reason), (''run_seq'', JNum (of_int n))]),
                                 se_RunID = Some (run_ID run), se_EditedAt = None,
                                 se_CreatedAt = e_now env \<rparr> w2 of
                               (Inl e, w3) \<Rightarrow> (Inl e, w3)
                             | (Inr _, w3) \<Rightarrow> (Inr run', w3))))))"

section \<open>Enqueue\<close>

definition enqueue_audit :: "Run \<Rightarrow> RunRequest \<Rightarrow> AuditEntry" where
  "enqueue_audit run req = \<lparr>
     au_Action = ''run.enqueue'', au_Kind = ''run'', au_TargetID = run_ID run,
     au_ProjectID = run_ProjectID run, au_Note = rq_Reason req, au_Before = [],
     au_After = [(''seq'', fmt_int (run_Seq run)), (''agent_id'', run_AgentID run),
                 (''ticket_id'', rq_TicketID req), (''state'', RunState_str (run_State run))] \<rparr>"

definition superseded_reason :: "Run \<Rightarrow> string" where
  "superseded_reason run = ''superseded by run #'' @ fmt_int (run_Seq run)"

definition supersede :: "Env \<Rightarrow> Ports \<Rightarrow> RunRequest \<Rightarrow> Run \<Rightarrow> Sups \<Rightarrow> World \<Rightarrow> Sups \<times> World" where
  "supersede env ports req run sups w =
     (if rq_SupersededRunID req = [] then (sups, w)
      else (let reason = superseded_reason run
            in case StopRun env ports (rq_SupersededRunID req) reason sups w of
                 (_, sups', w1) \<Rightarrow>
                   (sups', if rq_TriggerID req = [] then w1
                           else snd (Firings_Supersede (e_faults env) (rq_TriggerID req)
                                  (rq_SupersededRunID req) (run_ID run) reason w1))))"

definition Enqueue ::
  "Env \<Rightarrow> Ports \<Rightarrow> ContextProvider list \<Rightarrow> string \<Rightarrow> (nat \<Rightarrow> string) \<Rightarrow> RunRequest \<Rightarrow> Sups \<Rightarrow> World \<Rightarrow>
   (enq_err + Run) \<times> Sups \<times> World" where
  "Enqueue env ports ps sandbox ids req sups w =
     (case loadRequestRows (e_faults env) req w of
        Inl e \<Rightarrow> (Inl e, sups, w)
      | Inr (agent, ticket) \<Rightarrow>
     (case (case ag_DirectiveVersionID agent of
              None \<Rightarrow> Inr ''''
            | Some d \<Rightarrow> map_sum DirectiveErr ad_Body (Directives_ByID (e_faults env) d w)) of
        Inl e \<Rightarrow> (Inl e, sups, w)
      | Inr directive \<Rightarrow>
     (case assemblePrompt (e_faults env) ps agent ticket directive req w of
        Inl e \<Rightarrow> (Inl e, sups, w)
      | Inr (prompt, items) \<Rightarrow>
     (case Tx (e_faults env) (enqueue_tx env ids agent ticket items (rq_Reason req)
             (new_run env (ids 0) sandbox agent ticket prompt req)) w of
        (Inl e, w1) \<Rightarrow> (Inl (TxErr e), sups, w1)
      | (Inr run, w1) \<Rightarrow>
     (case audit_write (e_faults env) (enqueue_audit run req) w1 of
        (Inl e, w2) \<Rightarrow> (Inl (AuditErr e), sups, w2)
      | (Inr _, w2) \<Rightarrow>
          (case supersede env ports req run sups (warnContextBudget env run items w2) of
             (sups', w3) \<Rightarrow> (Inr run, sups', Wake (emitRunState run w3))))))))"

definition RequestRun ::
  "Env \<Rightarrow> Ports \<Rightarrow> ContextProvider list \<Rightarrow> string \<Rightarrow> (nat \<Rightarrow> string) \<Rightarrow> RunRequest \<Rightarrow> Sups \<Rightarrow> World \<Rightarrow>
   (enq_err + string) \<times> Sups \<times> World" where
  "RequestRun env ports ps sandbox ids req sups w =
     (case Enqueue env ports ps sandbox ids req sups w of (r, s', w') \<Rightarrow> (map_sum id run_ID r, s', w'))"

section \<open>Loop-stopped runs\<close>

record LoopStoppedRun =
  ls_ProjectID :: string
  ls_AgentID :: string
  ls_TriggerID :: string
  ls_CauseEventID :: string
  ls_SubjectKey :: string
  ls_Depth :: int
  ls_Reason :: string

definition loop_stopped_run :: "Env \<Rightarrow> string \<Rightarrow> string \<Rightarrow> Agent \<Rightarrow> LoopStoppedRun \<Rightarrow> Run" where
  "loop_stopped_run env sandbox i agent req = blank_Run\<lparr> run_ID := i, run_ProjectID := ls_ProjectID req,
     run_AgentID := ag_ID agent, run_State := RunLoopStopped, run_StateReason := ls_Reason req,
     run_Autonomy := ag_Autonomy agent, run_DirectiveVersionID := ag_DirectiveVersionID agent,
     run_Model := ag_Model agent, run_Effort := ag_Effort agent,
     run_RuntimeID := ag_RuntimeID agent, run_SandboxID := sandbox,
     run_SubjectKey := ls_SubjectKey req, run_Depth := ls_Depth req,
     run_QueuedAt := e_now env, run_EndedAt := Some (e_now env),
     run_TriggerID := null_if_empty (ls_TriggerID req),
     run_CauseEventID := null_if_empty (ls_CauseEventID req) \<rparr>"

definition loop_stopped_tx :: "Env \<Rightarrow> Run \<Rightarrow> World \<Rightarrow> Run res \<times> World" where
  "loop_stopped_tx env run w =
     (case Runs_NextSeq (e_faults env) (run_ProjectID run) w of
        Inl e \<Rightarrow> (Inl e, w)
      | Inr n \<Rightarrow>
          (case Runs_Create (e_faults env) (run\<lparr> run_Seq := n \<rparr>) w of
             (Inl e, w1) \<Rightarrow> (Inl e, w1)
           | (Inr _, w1) \<Rightarrow> (Inr (run\<lparr> run_Seq := n \<rparr>), w1)))"

definition loop_stopped_audit :: "Run \<Rightarrow> LoopStoppedRun \<Rightarrow> AuditEntry" where
  "loop_stopped_audit r req =
     \<lparr> au_Action = ''run.loop_stopped'', au_Kind = ''run'', au_TargetID = run_ID r,
       au_ProjectID = run_ProjectID r, au_Note = ls_Reason req, au_Before = [],
       au_After = [(''seq'', fmt_int (run_Seq r)), (''agent_id'', run_AgentID r),
         (''trigger_id'', ls_TriggerID req), (''depth'', fmt_int (ls_Depth req)),
         (''subject_key'', ls_SubjectKey req)] \<rparr>"

definition EnqueueLoopStopped ::
  "Env \<Rightarrow> string \<Rightarrow> string \<Rightarrow> LoopStoppedRun \<Rightarrow> World \<Rightarrow> (enq_err + Run) \<times> World" where
  "EnqueueLoopStopped env sandbox newid req w =
     (if ls_ProjectID req = [] \<or> ls_AgentID req = [] then (Inl ReqIncomplete, w)
      else (case Agents_ByID (e_faults env) (ls_AgentID req) w of
              Inl e \<Rightarrow> (Inl (NoAgent e), w)
            | Inr agent \<Rightarrow>
                (case Tx (e_faults env) (loop_stopped_tx env (loop_stopped_run env sandbox newid agent req)) w of
                   (Inl e, w1) \<Rightarrow> (Inl (TxErr e), w1)
                 | (Inr r, w1) \<Rightarrow>
                     (case audit_write (e_faults env) (loop_stopped_audit r req) w1 of
                        (Inl e, w2) \<Rightarrow> (Inl (AuditErr e), w2)
                      | (Inr _, w2) \<Rightarrow> (Inr r, emitRunState r w2)))))"

section \<open>The prompt as a list of sections\<close>

text \<open>The reference: what the documentation lists, in its order; blank sections are left out.\<close>

definition prompt_sections ::
  "string \<Rightarrow> (ContextItem \<times> string) list \<Rightarrow> (string \<times> int) option \<Rightarrow> Agent \<Rightarrow> string \<Rightarrow> string list" where
  "prompt_sections directive res takeover agent task =
     (if trim_space directive = [] then [] else [''# Agent directive'' @ nl @ nl @ trim_space directive @ nl]) @
     map (\<lambda>(it, _). item_section it) (filter (\<lambda>(it, _). ci_Injected it \<and> trim_space (ci_Body it) \<noteq> []) res) @
     (case takeover of None \<Rightarrow> [] | Some (note, n) \<Rightarrow>
        if trim_space note = [] then [] else [takeover_section note n]) @
     (if deliverySection agent = [] then [] else [deliverySection agent]) @
     (if trim_space task = [] then [] else [''# Task'' @ nl @ nl @ trim_space task @ nl])"

lemma join_snoc: "ss \<noteq> [] \<Longrightarrow> join sep (ss @ [s]) = join sep ss @ sep @ s"
proof (induction ss)
  case (Cons a ss)
  then show ?case by (cases ss) simp_all
qed simp

lemma join_Nil_iff: "\<forall>s \<in> set ss. s \<noteq> [] \<Longrightarrow> join sep ss = [] \<longleftrightarrow> ss = []"
proof (induction ss)
  case (Cons a ss)
  then show ?case by (cases ss) simp_all
qed simp

lemma add_section_join:
  assumes "\<forall>s \<in> set ss. s \<noteq> []"
  shows "add_section (join nl ss) sec = join nl (ss @ [sec])"
  using join_Nil_iff [OF assms, of nl] join_snoc [of ss nl sec]
  by (cases "ss = []") (simp_all add: add_section_def)

lemma item_section_nonempty [simp]: "item_section it \<noteq> []" "[] \<noteq> item_section it"
  by (simp_all add: item_section_def)

lemma add_items_join:
  "\<forall>s \<in> set ss. s \<noteq> [] \<Longrightarrow> add_items res (join nl ss) = join nl (ss @
     map (\<lambda>(it, _). item_section it) (filter (\<lambda>(it, _). ci_Injected it \<and> trim_space (ci_Body it) \<noteq> []) res))"
proof (induction res arbitrary: ss)
  case (Cons a res)
  obtain it prov where a: "a = (it, prov)" by fastforce
  have "\<forall>s \<in> set (ss @ [item_section it]). s \<noteq> []" using Cons.prems by auto
  from Cons.IH [OF this] Cons.IH [OF Cons.prems] show ?case
    by (simp add: a add_section_join [OF Cons.prems])
qed simp

text \<open>
  The prompt of a run is exactly its documented sections in their documented order, separated by
  one blank line: the agent's directive, the injected context items in provider priority order, the
  human's takeover note on a ticket, the delivery paragraph and the task; the recorded context rows
  are all resolved items, injected or not, in the same order with positions counted from 1.
\<close>

theorem prompt_is_sections:
  assumes "assemblePrompt f ps agent ticket directive req w = Inr (prompt, items)"
  shows "\<exists>res takeover. resolveContext ps (context_request f agent ticket req w) = Inr res \<and>
    (takeover = (case ticket of None \<Rightarrow> None | Some tk \<Rightarrow>
       (case Runs_LatestTakeoverNote f (tk_ID tk) w of Inl _ \<Rightarrow> None | Inr x \<Rightarrow> Some x))) \<and>
    prompt = join nl (prompt_sections directive res takeover agent (rq_PromptOverride req)) \<and>
    map rc_Position items = map (\<lambda>i. int i + 1) [0 ..< length res] \<and>
    map rc_Title items = map (ci_Title \<circ> fst) res"
proof -
  obtain res where res: "resolveContext ps (context_request f agent ticket req w) = Inr res"
    using assms by (auto simp: assemblePrompt_def Let_def split: sum.splits)
  define s1 where "s1 = (if trim_space directive = [] then [] else [''# Agent directive'' @ nl @ nl @ trim_space directive @ nl])"
  define s2 where "s2 = map (\<lambda>(it, _). item_section it) (filter (\<lambda>(it, _). ci_Injected it \<and> trim_space (ci_Body it) \<noteq> []) res)"
  define tk where "tk = (case ticket of None \<Rightarrow> None | Some t \<Rightarrow>
       (case Runs_LatestTakeoverNote f (tk_ID t) w of Inl _ \<Rightarrow> None | Inr x \<Rightarrow> Some x))"
  define s3 where "s3 = (case tk of None \<Rightarrow> [] | Some (note, n) \<Rightarrow>
       if trim_space note = [] then [] else [takeover_section note n])"
  define s4 where "s4 = (if deliverySection agent = [] then [] else [deliverySection agent])"
  have ne: "\<forall>s \<in> set (s1 @ s2). s \<noteq> []" "\<forall>s \<in> set (s1 @ s2 @ s3). s \<noteq> []" "\<forall>s \<in> set (s1 @ s2 @ s3 @ s4). s \<noteq> []"
    by (auto simp: s1_def s2_def s3_def s4_def takeover_section_def split: option.splits if_splits)
  have b0: "(if trim_space directive \<noteq> [] then ''# Agent directive'' @ nl @ nl @ trim_space directive @ nl else '''') = join nl s1"
    by (simp add: s1_def)
  have b1: "add_items res (join nl s1) = join nl (s1 @ s2)"
    unfolding s2_def by (rule add_items_join) (simp add: s1_def)
  define b2 where "b2 = (case ticket of None \<Rightarrow> Inr (join nl (s1 @ s2)) | Some t \<Rightarrow>
      (case Runs_LatestTakeoverNote f (tk_ID t) w of Inl e \<Rightarrow> Inl (TakeoverErr e)
       | Inr (note, n) \<Rightarrow> Inr (if trim_space note \<noteq> [] then add_section (join nl (s1 @ s2)) (takeover_section note n)
           else join nl (s1 @ s2))))"
  have b2': "b2 = Inr x \<Longrightarrow> x = join nl (s1 @ s2 @ s3)" for x
    using add_section_join [OF ne(1)]
    by (auto simp: b2_def s3_def tk_def split: option.splits sum.splits if_splits)
  obtain x where x: "b2 = Inr x" and
    p: "prompt = (if trim_space (rq_PromptOverride req) \<noteq> []
        then add_section (if deliverySection agent \<noteq> [] then add_section x (deliverySection agent) else x)
               (''# Task'' @ nl @ nl @ trim_space (rq_PromptOverride req) @ nl)
        else (if deliverySection agent \<noteq> [] then add_section x (deliverySection agent) else x))"
    and it: "items = toRunContextItems res"
    using assms unfolding assemblePrompt_def Let_def res sum.case b0 b1 b2_def [symmetric]
    by (auto split: sum.splits)
  have b3: "(if deliverySection agent \<noteq> [] then add_section x (deliverySection agent) else x) = join nl (s1 @ s2 @ s3 @ s4)"
    using b2' [OF x] add_section_join [OF ne(2)] by (simp add: s4_def)
  have "prompt = join nl (prompt_sections directive res tk agent (rq_PromptOverride req))"
    unfolding p b3 using add_section_join [OF ne(3)]
    by (simp add: prompt_sections_def s1_def [symmetric] s2_def [symmetric] s3_def [symmetric] s4_def [symmetric])
  moreover have "map rc_Position items = map (\<lambda>i. int i + 1) [0 ..< length res]"
    by (rule nth_equalityI) (simp_all add: it toRunContextItems_def case_prod_beta nth_enumerate_eq)
  moreover have "map rc_Title items = map (ci_Title \<circ> fst) res"
    by (rule nth_equalityI) (simp_all add: it toRunContextItems_def case_prod_beta nth_enumerate_eq)
  ultimately show ?thesis using res tk_def by blast
qed

definition blank_RunRequest :: RunRequest where
  "blank_RunRequest = \<lparr> rq_ProjectID = '''', rq_AgentID = '''', rq_TicketID = '''', rq_Reason = '''',
     rq_PromptOverride = '''', rq_RequestedByUserID = '''', rq_TriggerID = '''', rq_CauseEventID = '''',
     rq_ParentRunID = '''', rq_ChangedPaths = [], rq_SubjectKey = '''', rq_Depth = 0, rq_SupersededRunID = '''' \<rparr>"

definition demo_item :: "string \<Rightarrow> string \<Rightarrow> bool \<Rightarrow> ContextItem" where
  "demo_item title body injected = \<lparr> ci_SourceKind = ''wiki'', ci_SourceRef = '''', ci_Title = title,
     ci_Reason = ''always'', ci_Body = body, ci_Tokens = 1, ci_Injected = injected \<rparr>"

definition demo_providers :: "ContextProvider list" where
  "demo_providers =
     [\<lparr> cp_ID = ''repofiles'', cp_Priority = 40, cp_Resolve = (\<lambda>_. Inr [demo_item ''README'' '''' False]) \<rparr>,
      \<lparr> cp_ID = ''wiki'', cp_Priority = 20, cp_Resolve = (\<lambda>_. Inr [demo_item ''Style'' ''tabs '' True]) \<rparr>]"

theorem prompt_is_sections_witness:
  "\<exists>prompt items. assemblePrompt no_faults demo_providers blank_Agent None ''Be kind.''
       (blank_RunRequest\<lparr> rq_PromptOverride := ''Fix it'' \<rparr>) blank_World = Inr (prompt, items) \<and>
     map rc_Title items = [''Style'', ''README''] \<and>
     prompt = ''# Agent directive'' @ nl @ nl @ ''Be kind.'' @ nl @ nl @ ''# Style'' @ nl @ nl @ ''tabs'' @ nl @ nl @
       ''# Task'' @ nl @ nl @ ''Fix it'' @ nl"
proof -
  let ?req = "blank_RunRequest\<lparr> rq_PromptOverride := ''Fix it'' \<rparr>"
  have "is_ok (assemblePrompt no_faults demo_providers blank_Agent None ''Be kind.'' ?req blank_World)" by code_simp
  then obtain prompt items where a:
    "assemblePrompt no_faults demo_providers blank_Agent None ''Be kind.'' ?req blank_World = Inr (prompt, items)"
    by (auto simp: is_ok_iff)
  have res: "map_sum id (map (\<lambda>(it, p). (ci_Title it, ci_Body it, ci_Injected it)))
      (resolveContext demo_providers (context_request no_faults blank_Agent None ?req blank_World)) =
      Inr [(''Style'', ''tabs '', True), (''README'', '''', False)]" by code_simp
  from prompt_is_sections [OF a] obtain rs where
    r: "resolveContext demo_providers (context_request no_faults blank_Agent None ?req blank_World) = Inr rs"
    and p: "prompt = join nl (prompt_sections ''Be kind.'' rs None blank_Agent ''Fix it'')"
    and t: "map rc_Title items = map (ci_Title \<circ> fst) rs" by auto
  from res r have "map (\<lambda>(it, p). (ci_Title it, ci_Body it, ci_Injected it)) rs =
      [(''Style'', ''tabs '', True), (''README'', '''', False)]" by simp
  then obtain x y p q where rs: "rs = [(x, p), (y, q)]" "ci_Title x = ''Style''" "ci_Body x = ''tabs ''"
      "ci_Injected x" "ci_Title y = ''README''" "\<not> ci_Injected y" by (auto simp: map_eq_Cons_conv)
  have trims: "trim_space ''tabs '' = ''tabs''" "trim_space ''Be kind.'' = ''Be kind.''" "trim_space ''Fix it'' = ''Fix it''"
    by code_simp+
  have no: "deliverySection blank_Agent = ''''" by code_simp
  show ?thesis
    using a p t by (simp add: rs prompt_sections_def item_section_def trims no)
qed

section \<open>What an enqueue guarantees\<close>

lemma Tx_fail: "Tx f body w = (Inl e, w') \<Longrightarrow> w' = w"
  by (auto simp: Tx_def split: option.splits prod.splits sum.splits)

lemma Tx_ok: "Tx f body w = (Inr x, w') \<Longrightarrow> body w = (Inr x, w')"
  by (auto simp: Tx_def split: option.splits prod.splits sum.splits)

lemma create_items_runs: "create_items f rid ids n its w = (r, w') \<Longrightarrow> w_runs w' = w_runs w"
proof (induction its arbitrary: n w)
  case (Cons it its)
  have "RunContextItems_Create f x w = (y, v) \<Longrightarrow> w_runs v = w_runs w" for x y v
    by (auto simp: RunContextItems_Create_def exec_def split: if_splits option.splits)
  with Cons show ?case by (fastforce split: prod.splits sum.splits)
qed simp

lemma create_items_ok:
  "create_items f rid ids n its w = (Inr (), w') \<Longrightarrow>
    w_context w' = w_context w @ map (\<lambda>(i, it). it\<lparr> rc_RunID := rid, rc_Position := int i,
      rc_ID := (if rc_ID it = [] then ids i else rc_ID it) \<rparr>) (enumerate n its)"
proof (induction its arbitrary: n w)
  case (Cons it its)
  let ?it = "it\<lparr> rc_RunID := rid, rc_Position := int n, rc_ID := (if rc_ID it = [] then ids n else rc_ID it) \<rparr>"
  obtain w1 where c: "RunContextItems_Create f ?it w = (Inr (), w1)"
    and rest: "create_items f rid ids (Suc n) its w1 = (Inr (), w')"
    using Cons.prems by (auto split: prod.splits sum.splits)
  have "w_context w1 = w_context w @ [?it]"
    using c by (auto simp: RunContextItems_Create_def exec_def split: if_splits option.splits)
  then show ?case using Cons.IH [OF rest] by simp
qed simp

lemma Runs_Create_runs:
  "Runs_Create f r w = (Inr (), w') \<Longrightarrow> w_runs w' = w_runs w @ [r] \<and> run_of w (run_ID r) = None"
  by (auto simp: Runs_Create_def exec_def run_of_def find_row_None list_ex_iff split: if_splits option.splits)

lemma enqueue_tx_ok:
  assumes "enqueue_tx env ids agent ticket items reason run w = (Inr r, w')"
  shows "\<exists>n. Runs_NextSeq (e_faults env) (run_ProjectID run) w = Inr n \<and> r = run\<lparr> run_Seq := n \<rparr> \<and>
    w_runs w' = w_runs w @ [r] \<and> run_of w (run_ID run) = None \<and>
    (\<exists>w1. Runs_Create (e_faults env) r w = (Inr (), w1) \<and> w_runs w' = w_runs w1)"
proof -
  obtain n w1 w2 where n: "Runs_NextSeq (e_faults env) (run_ProjectID run) w = Inr n"
    and c: "Runs_Create (e_faults env) (run\<lparr> run_Seq := n \<rparr>) w = (Inr (), w1)"
    and i: "create_items (e_faults env) (run_ID run) ids 1 items w1 = (Inr (), w2)"
    and r: "r = run\<lparr> run_Seq := n \<rparr>" and w': "w_runs w' = w_runs w2"
    using assms
    by (auto simp: enqueue_tx_def Let_def TicketStream_Append_def exec_def
        split: sum.splits prod.splits option.splits if_splits)
  show ?thesis
    using n r w' Runs_Create_runs [OF c] create_items_runs [OF i] c by auto
qed

text \<open>A new run joins a table without its key and number, with its end stamped if it is born terminal.\<close>

lemma safe_Create:
  assumes "Runs_Create f r w = (Inr (), w')" and "Terminal (run_State r) \<longleftrightarrow> run_EndedAt r \<noteq> None"
  shows "safe w w'"
  unfolding safe_def
proof (intro impI conjI)
  assume w: "runs_wf w \<and> ended_ok w"
  have runs: "w_runs w' = w_runs w @ [r]" using Runs_Create_runs [OF assms(1)] by blast
  show "runs_wf w'" using Runs_Create_wf [OF conjunct1 [OF w] assms(1)] .
  show "ended_ok w'" using w assms(2) by (auto simp: ended_ok_def runs)
  have "state_of w' k = Some s" if "state_of w k = Some s" for k s
    using that by (auto simp: state_of_def run_of_def runs find_row_append split: option.splits)
  then show "moves w w'" by (auto simp: moves_def intro: edge_path_refl)
qed

lemma safe_supersede:
  assumes "uncontended env"
  shows "safe w (snd (supersede env ports req run sups w))"
proof -
  have f: "w_runs (snd (Firings_Supersede g a b c d w')) = w_runs w'" for g a b c d w'
    by (simp add: Firings_Supersede_def exec_def split: option.split)
  obtain r s' w1 where st: "StopRun env ports (rq_SupersededRunID req) (superseded_reason run) sups w = (r, s', w1)"
    by (metis prod_cases3)
  have "safe w w1" using safe_StopRun [OF assms] st by (metis snd_conv)
  then show ?thesis
    by (auto simp: supersede_def Let_def st intro: safe_trans [OF _ safe_runs [OF f]])
qed

lemma supersede_other:
  assumes "uncontended env" and "k \<noteq> rq_SupersededRunID req"
  shows "run_of (snd (supersede env ports req run sups w)) k = run_of w k"
proof -
  have f: "run_of (snd (Firings_Supersede g a b c d w')) k = run_of w' k" for g a b c d w'
    by (simp add: run_of_def Firings_Supersede_def exec_def split: option.split)
  obtain r s' w1 where st: "StopRun env ports (rq_SupersededRunID req) (superseded_reason run) sups w = (r, s', w1)"
    by (metis prod_cases3)
  have "run_of w1 k = run_of w k" using StopRun_other [OF assms] st by (metis snd_conv)
  then show ?thesis by (auto simp: supersede_def Let_def st f)
qed

lemma warnContextBudget_runs [simp]: "w_runs (warnContextBudget env run items w) = w_runs w"
  by (simp add: warnContextBudget_def Let_def Activities_AppendNext_def exec_def split: sum.split option.split)

lemma new_run_fields [simp]:
  "run_ID (new_run env i sandbox agent ticket prompt req) = i"
  "run_State (new_run env i sandbox agent ticket prompt req) = RunQueued"
  "run_ProjectID (new_run env i sandbox agent ticket prompt req) = rq_ProjectID req"
  "run_EndedAt (new_run env i sandbox agent ticket prompt req) = None"
  "run_Prompt (new_run env i sandbox agent ticket prompt req) = prompt"
  by (simp_all add: new_run_def blank_Run_def)

lemma load_not_audit: "loadRequestRows f req w = Inl e \<Longrightarrow> e \<noteq> AuditErr x"
  by (auto simp: loadRequestRows_def split: if_splits sum.splits)

lemma resolve_not_audit: "resolve_all rq ps = Inl e \<Longrightarrow> e \<noteq> AuditErr x"
  by (induction ps) (auto split: sum.splits)

lemma directive_not_audit [simp]: "map_sum DirectiveErr g y \<noteq> Inl (AuditErr x)"
  by (cases y) simp_all

lemma assemble_not_audit: "assemblePrompt f ps agent ticket d req w = Inl e \<Longrightarrow> e \<noteq> AuditErr x"
  by (auto simp: assemblePrompt_def Let_def resolveContext_def dest: resolve_not_audit
      split: sum.splits option.splits if_splits)

text \<open>The ways an enqueue ends: refused with nothing written, unaudited, or done.\<close>

lemma Enqueue_cases [consumes 1, case_names refused unaudited finished]:
  assumes "Enqueue env ports ps sandbox ids req sups w = (r, sups', w')"
  obtains e where "r = Inl e" "\<forall>x. e \<noteq> AuditErr x" "sups' = sups" "w' = w"
  | run w1 agent ticket prompt e where
      "w_runs w' = w_runs w1" "r = Inl (AuditErr e)" "sups' = sups"
      "run = (new_run env (ids 0) sandbox agent ticket prompt req)\<lparr> run_Seq := run_Seq run \<rparr>"
      "Runs_NextSeq (e_faults env) (rq_ProjectID req) w = Inr (run_Seq run)"
      "Runs_Create (e_faults env) run w = (Inr (), w1)"
  | run w1 w2 agent ticket prompt where
      "w_runs w' = w_runs (snd (supersede env ports req run sups w2))" "w_runs w2 = w_runs w1" "r = Inr run"
      "run = (new_run env (ids 0) sandbox agent ticket prompt req)\<lparr> run_Seq := run_Seq run \<rparr>"
      "Runs_NextSeq (e_faults env) (rq_ProjectID req) w = Inr (run_Seq run)"
      "Runs_Create (e_faults env) run w = (Inr (), w1)"
proof -
  note exits = assms [unfolded Enqueue_def]
  show ?thesis
  proof (cases "\<exists>e. r = Inl e \<and> (\<forall>x. e \<noteq> AuditErr x)")
    case True
    then have "sups' = sups \<and> w' = w"
      using exits Tx_fail by (auto split: sum.splits prod.splits)
    with True show ?thesis using that(1) by blast
  next
    case False
    obtain agent ticket where l: "loadRequestRows (e_faults env) req w = Inr (agent, ticket)"
      using exits False load_not_audit by (cases "loadRequestRows (e_faults env) req w") auto
    obtain directive where d: "(case ag_DirectiveVersionID agent of None \<Rightarrow> Inr ''''
            | Some d \<Rightarrow> map_sum DirectiveErr ad_Body (Directives_ByID (e_faults env) d w)) = Inr directive"
      using exits False by (auto simp: l split: option.splits sum.splits prod.splits)
    obtain prompt items where p: "assemblePrompt (e_faults env) ps agent ticket directive req w = Inr (prompt, items)"
      using exits False assemble_not_audit
      by (cases "assemblePrompt (e_faults env) ps agent ticket directive req w") (auto simp: l d)
    let ?new = "new_run env (ids 0) sandbox agent ticket prompt req"
    let ?tx = "Tx (e_faults env) (enqueue_tx env ids agent ticket items (rq_Reason req) ?new) w"
    obtain run w1 where t: "?tx = (Inr run, w1)"
      using exits False by (cases ?tx; cases "fst ?tx") (auto simp: l d p)
    from enqueue_tx_ok [OF Tx_ok [OF t]]
    obtain w0 where n: "Runs_NextSeq (e_faults env) (rq_ProjectID req) w = Inr (run_Seq run)"
      and run: "run = ?new\<lparr> run_Seq := run_Seq run \<rparr>"
      and c: "Runs_Create (e_faults env) run w = (Inr (), w0)" and w1: "w_runs w1 = w_runs w0"
      by fastforce
    obtain y w2 where a: "audit_write (e_faults env) (enqueue_audit run req) w1 = (y, w2)" by (meson surj_pair)
    have w2: "w_runs w2 = w_runs w0" using audit_write_runs a w1 by (metis snd_conv)
    show ?thesis
    proof (cases y)
      case (Inl e)
      then have "r = Inl (AuditErr e) \<and> sups' = sups \<and> w' = w2" using exits by (simp add: l d p t a)
      then show ?thesis using that(2) [of w0 e run agent ticket prompt] w2 run n c by blast
    next
      case (Inr u)
      let ?wb = "warnContextBudget env run items w2"
      have "r = Inr run \<and> w_runs w' = w_runs (snd (supersede env ports req run sups ?wb))"
        using exits Inr by (auto simp: l d p t a Wake_def split: prod.splits)
      then show ?thesis using that(3) [of run ?wb w0 agent ticket prompt] w2 run n c by simp
    qed
  qed
qed

lemma safe_Enqueue:
  assumes "uncontended env"
  shows "safe w (snd (snd (Enqueue env ports ps sandbox ids req sups w)))"
proof -
  obtain r s' w' where e: "Enqueue env ports ps sandbox ids req sups w = (r, s', w')" by (metis prod_cases3)
  from e have "safe w w'"
  proof (cases rule: Enqueue_cases)
    case (unaudited run w1 agent ticket prompt e)
    have "Terminal (run_State run) \<longleftrightarrow> run_EndedAt run \<noteq> None" by (subst (1 2) unaudited(4)) simp
    from safe_trans [OF safe_Create [OF unaudited(6) this] safe_runs [OF unaudited(1)]] show ?thesis .
  next
    case (finished run w1 w2 agent ticket prompt)
    have "Terminal (run_State run) \<longleftrightarrow> run_EndedAt run \<noteq> None" by (subst (1 2) finished(4)) simp
    from safe_trans [OF safe_Create [OF finished(6) this] safe_runs [OF finished(2)]]
    have "safe w w2" .
    from safe_trans [OF safe_trans [OF this safe_supersede [OF assms]] safe_runs [OF finished(1)]] show ?thesis .
  qed simp_all
  then show ?thesis by (simp add: e)
qed


definition demo_req :: RunRequest where
  "demo_req = blank_RunRequest\<lparr> rq_ProjectID := ''p'', rq_AgentID := ''a'', rq_SupersededRunID := ''old'' \<rparr>"

definition queue_world :: World where
  "queue_world = blank_World\<lparr>
     w_agents := [blank_Agent\<lparr> ag_ID := ''a'', ag_ProjectID := ''p'', ag_Enabled := True \<rparr>],
     w_runs := [blank_Run\<lparr> run_ID := ''old'', run_ProjectID := ''p'', run_Seq := 4, run_State := RunQueued \<rparr>] \<rparr>"


section \<open>Loop-stopped runs\<close>

lemma EnqueueLoopStopped_cases:
  assumes "EnqueueLoopStopped env sandbox i req w = (r, w')"
  shows "(w' = w \<and> (\<exists>e. r = Inl e)) \<or>
    (\<exists>run w1. Runs_NextSeq (e_faults env) (ls_ProjectID req) w = Inr (run_Seq run) \<and>
       Runs_Create (e_faults env) run w = (Inr (), w1) \<and> w_runs w' = w_runs w1 \<and>
       run_ID run = i \<and> run_ProjectID run = ls_ProjectID req \<and> run_State run = RunLoopStopped \<and>
       run_EndedAt run = Some (e_now env) \<and> run_StateReason run = ls_Reason req \<and> run_Depth run = ls_Depth req \<and>
       run_Prompt run = '''' \<and> run_ContainerID run = None \<and> run_CostCents run = 0 \<and>
       (r = Inr run \<or> (\<exists>e. r = Inl (AuditErr e))))"
proof (cases "(ls_ProjectID req = [] \<or> ls_AgentID req = []) \<or> \<not> is_ok (Agents_ByID (e_faults env) (ls_AgentID req) w)")
  case True
  then show ?thesis using assms by (auto simp: EnqueueLoopStopped_def is_ok_iff split: sum.splits if_splits)
next
  case False
  then obtain agent where a: "Agents_ByID (e_faults env) (ls_AgentID req) w = Inr agent" by (auto simp: is_ok_iff)
  let ?run = "loop_stopped_run env sandbox i agent req"
  have f: "run_ID ?run = i" "run_ProjectID ?run = ls_ProjectID req" "run_State ?run = RunLoopStopped"
      "run_EndedAt ?run = Some (e_now env)" "run_StateReason ?run = ls_Reason req" "run_Depth ?run = ls_Depth req"
      "run_Prompt ?run = ''''" "run_ContainerID ?run = None" "run_CostCents ?run = 0"
    by (simp_all add: loop_stopped_run_def blank_Run_def)
  obtain y w1 where t: "Tx (e_faults env) (loop_stopped_tx env ?run) w = (y, w1)" by (meson surj_pair)
  show ?thesis
  proof (cases y)
    case (Inl e)
    then have "w1 = w" using Tx_fail t by blast
    then show ?thesis using assms False Inl by (auto simp: EnqueueLoopStopped_def a t)
  next
    case (Inr run)
    from Tx_ok [OF t [unfolded Inr]]
    obtain n where n: "Runs_NextSeq (e_faults env) (ls_ProjectID req) w = Inr n"
      and c: "Runs_Create (e_faults env) (?run\<lparr> run_Seq := n \<rparr>) w = (Inr (), w1)" and run: "run = ?run\<lparr> run_Seq := n \<rparr>"
      by (auto simp: loop_stopped_tx_def f split: sum.splits prod.splits)
    obtain z w2 where au: "audit_write (e_faults env) (loop_stopped_audit run req) w1 = (z, w2)" by (meson surj_pair)
    have "w_runs w2 = w_runs w1" using audit_write_runs au by (metis snd_conv)
    then have w': "w_runs w' = w_runs w1" "r = Inr run \<or> (\<exists>e. r = Inl (AuditErr e))"
      using assms False by (cases z; auto simp: EnqueueLoopStopped_def a t Inr au)+
    have "run_Seq run = n" "run_ID run = i" "run_ProjectID run = ls_ProjectID req" "run_State run = RunLoopStopped"
      "run_EndedAt run = Some (e_now env)" "run_StateReason run = ls_Reason req" "run_Depth run = ls_Depth req"
      "run_Prompt run = ''''" "run_ContainerID run = None" "run_CostCents run = 0"
      using f by (simp_all add: run)
    with n c w' run show ?thesis by metis
  qed
qed

lemma safe_EnqueueLoopStopped: "safe w (snd (EnqueueLoopStopped env sandbox i req w))"
proof -
  obtain r w' where e: "EnqueueLoopStopped env sandbox i req w = (r, w')" by (meson surj_pair)
  from EnqueueLoopStopped_cases [OF e] have "safe w w'"
    using safe_trans [OF safe_Create safe_runs] by fastforce
  then show ?thesis by (simp add: e)
qed

text \<open>
  A causal chain cut by the loop guard leaves a visible, settled record: a successful call adds one
  run born in the terminal state with its end stamped, the guard's reason and depth, no prompt, no
  container and no cost, numbered after every run of the project; every other run is untouched.
\<close>

theorem loop_stopped_recorded:
  assumes "EnqueueLoopStopped env sandbox i req w = (Inr run, w')"
  shows "run_of w i = None \<and> run_of w' i = Some run \<and> run_State run = RunLoopStopped \<and> Terminal (run_State run) \<and>
    run_EndedAt run = Some (e_now env) \<and> run_StateReason run = ls_Reason req \<and> run_Depth run = ls_Depth req \<and>
    run_Prompt run = '''' \<and> run_ContainerID run = None \<and> run_CostCents run = 0 \<and>
    (\<forall>x \<in> set (w_runs w). run_ProjectID x = ls_ProjectID req \<longrightarrow> run_Seq x < run_Seq run) \<and>
    (\<forall>k. k \<noteq> i \<longrightarrow> run_of w' k = run_of w k)"
proof -
  from EnqueueLoopStopped_cases [OF assms] obtain w1 where
    n: "Runs_NextSeq (e_faults env) (ls_ProjectID req) w = Inr (run_Seq run)"
    and c: "Runs_Create (e_faults env) run w = (Inr (), w1)" and w1: "w_runs w' = w_runs w1"
    and f: "run_ID run = i" "run_State run = RunLoopStopped" "run_EndedAt run = Some (e_now env)"
      "run_StateReason run = ls_Reason req" "run_Depth run = ls_Depth req" "run_Prompt run = ''''"
      "run_ContainerID run = None" "run_CostCents run = 0" by auto
  have runs: "w_runs w' = w_runs w @ [run]" "run_of w i = None" using Runs_Create_runs [OF c] w1 f(1) by simp_all
  then have "run_of w' i = Some run" "k \<noteq> i \<Longrightarrow> run_of w' k = run_of w k" for k
    using f(1) by (auto simp: run_of_def find_row_append find_row_Cons split: option.split)
  then show ?thesis using f runs(2) NextSeq_fresh [OF n] by simp
qed

theorem loop_stopped_recorded_witness:
  "\<exists>run. fst (EnqueueLoopStopped calm_env ''docker'' ''new''
      \<lparr> ls_ProjectID = ''p'', ls_AgentID = ''a'', ls_TriggerID = ''t'', ls_CauseEventID = '''', ls_SubjectKey = ''pr:1'',
        ls_Depth = 4, ls_Reason = ''depth'' \<rparr> queue_world) = Inr run \<and> run_Depth run = 4 \<and> Terminal (run_State run)"
proof -
  let ?req = "\<lparr> ls_ProjectID = ''p'', ls_AgentID = ''a'', ls_TriggerID = ''t'', ls_CauseEventID = '''', ls_SubjectKey = ''pr:1'',
        ls_Depth = 4, ls_Reason = ''depth'' \<rparr>"
  obtain r w' where e: "EnqueueLoopStopped calm_env ''docker'' ''new'' ?req queue_world = (r, w')" by (meson surj_pair)
  have "is_ok (fst (EnqueueLoopStopped calm_env ''docker'' ''new'' ?req queue_world))" by code_simp
  then obtain run where r: "r = Inr run" by (auto simp: e is_ok_iff)
  show ?thesis using loop_stopped_recorded [OF e [unfolded r]] by (simp add: e r)
qed

end
