(* ===== verification/Timestamps.thy ===== *)
theory Timestamps
  imports GoStd
begin

text \<open>
  Timestamps (\<^verbatim>\<open>internal/domain/time.go\<close>). An instant is the number of nanoseconds since
  1970-01-01T00:00:00Z, as the process's clock gives it; \<^verbatim>\<open>FormatTime\<close> renders it in UTC with
  millisecond precision in the one shape the database holds, \<^verbatim>\<open>Day\<close> as the ledger's day key.
  The calendar is the proleptic Gregorian one of Go's \<^verbatim>\<open>time\<close> package, for the years 0 to 9999
  that four digits can hold.
\<close>

section \<open>The calendar\<close>

definition leap :: "int \<Rightarrow> bool" where
  "leap y \<longleftrightarrow> y mod 4 = 0 \<and> (y mod 100 \<noteq> 0 \<or> y mod 400 = 0)"

text \<open>Days from 0000-01-01 to the first of January of a year.\<close>

definition year_start :: "int \<Rightarrow> int" where
  "year_start y = 365 * y + (y + 3) div 4 - (y + 99) div 100 + (y + 399) div 400"

definition year_of :: "int \<Rightarrow> int" where
  "year_of z = (let y = (400 * z) div 146097 in
     if z < year_start y then y - 1 else if year_start (y + 1) \<le> z then y + 1 else y)"

definition cum_days :: "bool \<Rightarrow> int list" where
  "cum_days l = (let k = (if l then 1 else 0) in
     [0, 31, 59 + k, 90 + k, 120 + k, 151 + k, 181 + k, 212 + k, 243 + k, 273 + k, 304 + k, 334 + k])"

fun month_day :: "int list \<Rightarrow> int \<Rightarrow> int \<Rightarrow> int \<times> int" where
  "month_day [] m doy = (m, doy)"
| "month_day [c] m doy = (m, doy - c + 1)"
| "month_day (c # c' # cs) m doy = (if doy < c' then (m, doy - c + 1) else month_day (c' # cs) (m + 1) doy)"

definition civil :: "int \<Rightarrow> int \<times> int \<times> int" where
  "civil z = (let y = year_of z in (y, month_day (cum_days (leap y)) 1 (z - year_start y)))"

definition days_of_civil :: "int \<times> int \<times> int \<Rightarrow> int" where
  "days_of_civil c = (case c of (y, m, d) \<Rightarrow> year_start y + cum_days (leap y) ! nat (m - 1) + d - 1)"

text \<open>Days from 0000-01-01 to 1970-01-01.\<close>

definition epoch :: int where
  "epoch = 719528"

section \<open>FormatTime and Day\<close>

fun pad :: "nat \<Rightarrow> int \<Rightarrow> string" where
  "pad 0 n = []"
| "pad (Suc k) n = pad k (n div 10) @ [digit_char (nat (n mod 10))]"

definition ms_per_day :: int where
  "ms_per_day = 86400000"

definition ms_of :: "int \<Rightarrow> int" where
  "ms_of t = t div 1000000"

definition date_str :: "int \<Rightarrow> string" where
  "date_str z = (case civil z of (y, m, d) \<Rightarrow> pad 4 y @ ''-'' @ pad 2 m @ ''-'' @ pad 2 d)"

definition clock_str :: "int \<Rightarrow> string" where
  "clock_str ms = pad 2 (ms div 3600000) @ '':'' @ pad 2 (ms div 60000 mod 60) @ '':'' @
     pad 2 (ms div 1000 mod 60) @ ''.'' @ pad 3 (ms mod 1000) @ ''Z''"

definition stamp :: "int \<Rightarrow> string" where
  "stamp ms = date_str (ms div ms_per_day + epoch) @ ''T'' @ clock_str (ms mod ms_per_day)"

definition FormatTime :: "int \<Rightarrow> string" where
  "FormatTime t = stamp (ms_of t)"

definition Day :: "int \<Rightarrow> string" where
  "Day t = date_str (ms_of t div ms_per_day + epoch)"

text \<open>
  \<^verbatim>\<open>ParseTime\<close> on the shape \<^verbatim>\<open>FormatTime\<close> writes: 24 bytes, four-digit year, milliseconds,
  \<^verbatim>\<open>Z\<close>. The other forms RFC 3339 allows (another fraction, a numeric offset) are not modelled.
\<close>

definition add_digit :: "int option \<Rightarrow> char \<Rightarrow> int option" where
  "add_digit n c = (case n of None \<Rightarrow> None | Some x \<Rightarrow>
     if CHR ''0'' \<le> c \<and> c \<le> CHR ''9'' then Some (10 * x + (of_char c - 48)) else None)"

definition digits :: "string \<Rightarrow> int option" where
  "digits cs = foldl add_digit (Some 0) cs"

definition days_in :: "int \<Rightarrow> int \<Rightarrow> int" where
  "days_in y m = (if m = 2 then (if leap y then 29 else 28)
     else if m = 4 \<or> m = 6 \<or> m = 9 \<or> m = 11 then 30 else 31)"

definition parse_stamp :: "string \<Rightarrow> int option" where
  "parse_stamp s =
     (if length s = 24 \<and> s ! 4 = CHR ''-'' \<and> s ! 7 = CHR ''-'' \<and> s ! 10 = CHR ''T'' \<and> s ! 13 = CHR '':'' \<and>
         s ! 16 = CHR '':'' \<and> s ! 19 = CHR ''.'' \<and> s ! 23 = CHR ''Z''
      then (case (digits (take 4 s), digits (take 2 (drop 5 s)), digits (take 2 (drop 8 s)),
                  digits (take 2 (drop 11 s)), digits (take 2 (drop 14 s)), digits (take 2 (drop 17 s)),
                  digits (take 3 (drop 20 s))) of
              (Some y, Some m, Some d, Some hh, Some mi, Some ss, Some f) \<Rightarrow>
                if 1 \<le> m \<and> m \<le> 12 \<and> 1 \<le> d \<and> d \<le> days_in y m \<and> hh \<le> 23 \<and> mi \<le> 59 \<and> ss \<le> 59
                then Some ((days_of_civil (y, m, d) - epoch) * ms_per_day + hh * 3600000 + mi * 60000 + ss * 1000 + f)
                else None
            | _ \<Rightarrow> None)
      else None)"

section \<open>The calendar is right\<close>

lemma div_bounds:
  fixes x k :: int
  assumes "0 < k"
  shows "k * (x div k) \<le> x" and "x < k * (x div k) + k"
  using mult_div_mod_eq [of k x] pos_mod_bound [OF assms, of x] pos_mod_sign [OF assms, of x] by linarith+

lemma year_start_bounds:
  shows "146097 * y \<le> 400 * year_start y + 800" and "400 * year_start y \<le> 146097 * y + 800"
  using div_bounds [of 4 "y + 3"] div_bounds [of 100 "y + 99"] div_bounds [of 400 "y + 399"]
  unfolding year_start_def by simp_all

lemma year_of_bounds: "year_start (year_of z) \<le> z \<and> z < year_start (year_of z + 1)"
proof -
  define y where "y = (400 * z) div 146097"
  have y: "146097 * y \<le> 400 * z" "400 * z < 146097 * y + 146097"
    using div_bounds [of 146097 "400 * z"] by (simp_all add: y_def)
  have "400 * year_start (y - 1) \<le> 146097 * y - 145297" using year_start_bounds(2) [of "y - 1"] by simp
  then have "year_start (y - 1) \<le> z" using y by linarith
  moreover have "146097 * y + 291394 \<le> 400 * year_start (y + 2)" using year_start_bounds(1) [of "y + 2"] by simp
  then have "z < year_start (y + 2)" using y by linarith
  ultimately show ?thesis
    by (auto simp: year_of_def Let_def y_def [symmetric] add.commute)
qed

lemma div_step:
  fixes y k :: int
  assumes k: "0 < k"
  shows "(y + k) div k = (y + (k - 1)) div k + (if y mod k = 0 then 1 else 0)"
proof -
  define q r where "q = y div k" and "r = y mod k"
  have y: "y = q * k + r" "0 \<le> r" "r < k" using k by (simp_all add: q_def r_def)
  have 1: "(y + k) div k = q + 1" using k by (simp add: q_def)
  have 2: "(y + (k - 1)) div k = q + (r + (k - 1)) div k"
    using k unfolding y(1) add.assoc by (simp only: div_mult_self3 add.commute)
  show ?thesis
  proof (cases "r = 0")
    case True
    then have "(r + (k - 1)) div k = 0" using k by (simp add: div_pos_pos_trivial)
    then show ?thesis using 1 2 True by (simp add: r_def)
  next
    case False
    then have "(r - 1) div k = 0" using y k by (simp add: div_pos_pos_trivial)
    moreover have "r + (k - 1) = (r - 1) + k" by simp
    ultimately have "(r + (k - 1)) div k = 1" using k by (simp only: div_add_self2)
    then show ?thesis using 1 2 False by (simp add: r_def)
  qed
qed

lemma year_length: "year_start (y + 1) - year_start y = (if leap y then 366 else 365)"
proof -
  have m: "y mod 100 = 0 \<Longrightarrow> y mod 4 = 0" "y mod 400 = 0 \<Longrightarrow> y mod 100 = 0" by presburger+
  have e: "y + 1 + 3 = y + 4" "y + 1 + 99 = y + 100" "y + 1 + 399 = y + 400" by simp_all
  have s: "(4 :: int) - 1 = 3" "(100 :: int) - 1 = 99" "(400 :: int) - 1 = 399" by simp_all
  have d: "(y + 4) div 4 = (y + 3) div 4 + (if y mod 4 = 0 then 1 else 0)"
    "(y + 100) div 100 = (y + 99) div 100 + (if y mod 100 = 0 then 1 else 0)"
    "(y + 400) div 400 = (y + 399) div 400 + (if y mod 400 = 0 then 1 else 0)"
    by (rule div_step [of 4 y, unfolded s] div_step [of 100 y, unfolded s] div_step [of 400 y, unfolded s], simp)+
  define A B C where "A = (y + 3) div 4" and "B = (y + 99) div 100" and "C = (y + 399) div 400"
  define a b c where "a \<longleftrightarrow> y mod 4 = 0" and "b \<longleftrightarrow> y mod 100 = 0" and "c \<longleftrightarrow> y mod 400 = 0"
  have imp: "b \<Longrightarrow> a" "c \<Longrightarrow> b" using m by (simp_all add: a_def b_def c_def)
  show ?thesis
    unfolding year_start_def leap_def e d A_def [symmetric] B_def [symmetric] C_def [symmetric]
      a_def [symmetric] b_def [symmetric] c_def [symmetric]
    using imp by (cases a; cases b; cases c) simp_all
qed

text \<open>Month and day of a day of the year, and back.\<close>

lemma month_day_cases:
  assumes "0 \<le> doy" and "doy < (if l then 366 else 365)" and "month_day (cum_days l) 1 doy = (m, d)"
  shows "1 \<le> m \<and> m \<le> 12 \<and> 1 \<le> d \<and> cum_days l ! nat (m - 1) + d - 1 = doy \<and>
    d \<le> (if m = 2 then (if l then 29 else 28) else if m = 4 \<or> m = 6 \<or> m = 9 \<or> m = 11 then 30 else 31)"
  using assms
  by (cases l) (auto simp: cum_days_def Let_def split: if_splits)

lemma civil_valid:
  assumes "civil z = (y, m, d)"
  shows "1 \<le> m \<and> m \<le> 12 \<and> 1 \<le> d \<and> d \<le> days_in y m \<and> days_of_civil (y, m, d) = z"
proof -
  have y: "y = year_of z" and md: "month_day (cum_days (leap y)) 1 (z - year_start y) = (m, d)"
    using assms by (auto simp: civil_def Let_def)
  have "0 \<le> z - year_start y" and "z - year_start y < (if leap y then 366 else 365)"
    using year_of_bounds [of z] year_length [of y] by (auto simp: y)
  from month_day_cases [OF this md] show ?thesis by (simp add: days_in_def days_of_civil_def)
qed

section \<open>Text order is time order\<close>

lemma year_start_mono: "x \<le> y \<Longrightarrow> year_start x \<le> year_start y"
proof (induction y rule: int_ge_induct)
  case (step y)
  then show ?case using year_length [of y] by (simp split: if_splits)
qed simp

lemma year_of_mono: "z \<le> z' \<Longrightarrow> year_of z \<le> year_of z'"
proof (rule ccontr)
  assume z: "z \<le> z'" and "\<not> year_of z \<le> year_of z'"
  then have "year_start (year_of z' + 1) \<le> year_start (year_of z)" by (intro year_start_mono) simp
  then show False using z year_of_bounds [of z] year_of_bounds [of z'] by linarith
qed

lemma month_day_mono:
  assumes "0 \<le> a" and "a < b" and "b < (if l then 366 else 365)"
  shows "month_day (cum_days l) 1 a < month_day (cum_days l) 1 b"
  using assms by (cases l) (auto simp: cum_days_def Let_def)

lemma civil_strict_mono: "z < z' \<Longrightarrow> civil z < civil z'"
proof (cases "year_of z = year_of z'")
  case True
  assume z: "z < z'"
  have "0 \<le> z - year_start (year_of z)" using year_of_bounds [of z] by linarith
  moreover have "z' - year_start (year_of z) < (if leap (year_of z) then 366 else 365)"
    using year_of_bounds [of z'] year_length [of "year_of z'"] True by (simp split: if_splits)
  ultimately show ?thesis using month_day_mono z True by (simp add: civil_def Let_def)
next
  case False
  assume "z < z'"
  then show ?thesis using False year_of_mono [of z z'] by (simp add: civil_def Let_def)
qed

lemma append_less_iff:
  fixes xs :: "'a::linorder list"
  shows "length xs = length ys \<Longrightarrow> xs @ us < ys @ vs \<longleftrightarrow> xs < ys \<or> xs = ys \<and> us < vs"
proof (induction xs ys rule: list_induct2)
  case (Cons x xs y ys)
  then show ?case by auto
qed simp

lemma length_pad [simp]: "length (pad k n) = k"
  by (induction k arbitrary: n) simp_all

lemma digit_char_less: "0 \<le> a \<Longrightarrow> a < b \<Longrightarrow> b \<le> 9 \<Longrightarrow> digit_char (nat a) < digit_char (nat b)"
  by (simp add: digit_char_def less_char_def)

lemma pad_less:
  "0 \<le> a \<Longrightarrow> a < b \<Longrightarrow> b < 10 ^ k \<Longrightarrow> pad k a < pad k b"
proof (induction k arbitrary: a b)
  case (Suc k)
  show ?case
  proof (cases "a div 10 = b div 10")
    case True
    then have "a mod 10 < b mod 10"
      using Suc.prems div_mult_mod_eq [of a 10] div_mult_mod_eq [of b 10] by linarith
    then show ?thesis using True by (simp add: append_less_iff digit_char_less)
  next
    case False
    then have lt: "a div 10 < b div 10" using Suc.prems zdiv_mono1 [of a b 10] by simp
    have "0 \<le> a div 10" "b div 10 < 10 ^ k" using Suc.prems by (simp_all add: pos_imp_zdiv_nonneg_iff div_less_iff_less_mult)
    from Suc.IH [OF this(1) lt this(2)] show ?thesis by (simp add: append_less_iff)
  qed
qed simp

text \<open>Fixed-width fields with separators compare like the lists of their numbers.\<close>

fun render :: "(nat \<times> string) list \<Rightarrow> int list \<Rightarrow> string" where
  "render ((k, sep) # fs) (n # ns) = pad k n @ sep @ render fs ns"
| "render _ _ = []"

fun fits :: "(nat \<times> string) list \<Rightarrow> int list \<Rightarrow> bool" where
  "fits ((k, sep) # fs) (n # ns) \<longleftrightarrow> 0 \<le> n \<and> n < 10 ^ k \<and> fits fs ns"
| "fits [] [] = True"
| "fits _ _ = False"

lemma render_less: "fits fs ns \<Longrightarrow> fits fs ms \<Longrightarrow> ns < ms \<Longrightarrow> render fs ns < render fs ms"
proof (induction fs ns arbitrary: ms rule: fits.induct)
  case (1 k sep fs n ns)
  obtain m ms' where ms: "ms = m # ms'" using 1(3) by (cases ms) auto
  show ?case
  proof (cases "n = m")
    case True
    then have "render fs ns < render fs ms'" using 1 ms by auto
    then show ?thesis by (simp add: ms True append_less_iff)
  next
    case False
    then have "n < m" using 1(4) ms by auto
    then show ?thesis using 1 ms pad_less [of n m k] by (simp add: append_less_iff)
  qed
next
  case 2
  then show ?case by (cases ms) auto
qed auto

definition stamp_fields :: "(nat \<times> string) list" where
  "stamp_fields = [(4, ''-''), (2, ''-''), (2, ''T''), (2, '':''), (2, '':''), (2, ''.''), (3, ''Z'')]"

definition stamp_nums :: "int \<Rightarrow> int list" where
  "stamp_nums ms = (case civil (ms div ms_per_day + epoch) of (y, m, d) \<Rightarrow>
     let r = ms mod ms_per_day in [y, m, d, r div 3600000, r div 60000 mod 60, r div 1000 mod 60, r mod 1000])"

lemma stamp_render: "stamp ms = render stamp_fields (stamp_nums ms)"
  by (simp add: stamp_def date_str_def clock_str_def stamp_fields_def stamp_nums_def Let_def split: prod.split)

definition in_years :: "int \<Rightarrow> bool" where
  "in_years ms \<longleftrightarrow> (let y = year_of (ms div ms_per_day + epoch) in 0 \<le> y \<and> y \<le> 9999)"

lemma stamp_fits: "in_years ms \<Longrightarrow> fits stamp_fields (stamp_nums ms)"
proof -
  assume y: "in_years ms"
  obtain yy m d where c: "civil (ms div ms_per_day + epoch) = (yy, m, d)" by (metis prod_cases3)
  have yy: "yy = year_of (ms div ms_per_day + epoch)" using c by (simp add: civil_def Let_def)
  have "d \<le> 31" using civil_valid [OF c] by (simp add: days_in_def split: if_splits)
  moreover have "0 \<le> ms mod ms_per_day" "ms mod ms_per_day < ms_per_day" by (simp_all add: ms_per_day_def)
  moreover have "ms mod ms_per_day div 3600000 < 24" using calculation by (simp add: ms_per_day_def div_less_iff_less_mult)
  ultimately show ?thesis
    using y civil_valid [OF c] yy
    by (simp add: stamp_fields_def stamp_nums_def c Let_def in_years_def pos_imp_zdiv_nonneg_iff
        order.strict_trans [OF pos_mod_bound])
qed

lemma mixed_radix:
  fixes a b c d :: int
  assumes "3600000 * a + 60000 * b + 1000 * c + d < 3600000 * a' + 60000 * b' + 1000 * c' + d'"
    and "b < 60" "c < 60" "d < 1000" "0 \<le> b'" "0 \<le> c'" "0 \<le> d'" "0 \<le> b" "0 \<le> c" "0 \<le> d" "b' < 60" "c' < 60" "d' < 1000"
  shows "[a, b, c, d] < [a', b', c', d']"
proof -
  have "a < a' \<or> a = a' \<and> (b < b' \<or> b = b' \<and> (c < c' \<or> c = c' \<and> d < d'))"
    using assms by linarith
  then show ?thesis by auto
qed

lemma clock_split:
  fixes x :: int
  shows "3600000 * (x div 3600000) + 60000 * (x div 60000 mod 60) + 1000 * (x div 1000 mod 60) + x mod 1000 = x"
proof -
  have "x = 1000 * (x div 1000) + x mod 1000" by simp
  moreover have "x div 1000 = 60 * (x div 60000) + x div 1000 mod 60"
    using mult_div_mod_eq [of 60 "x div 1000"] by (simp add: zdiv_zmult2_eq [symmetric])
  moreover have "x div 60000 = 60 * (x div 3600000) + x div 60000 mod 60"
    using mult_div_mod_eq [of 60 "x div 60000"] by (simp add: zdiv_zmult2_eq [symmetric])
  ultimately show ?thesis by linarith
qed

lemma clock_less:
  fixes r r' :: int
  assumes "0 \<le> r" and "r < r'"
  shows "[r div 3600000, r div 60000 mod 60, r div 1000 mod 60, r mod 1000] <
    [r' div 3600000, r' div 60000 mod 60, r' div 1000 mod 60, r' mod 1000]"
proof -
  have "3600000 * (r div 3600000) + 60000 * (r div 60000 mod 60) + 1000 * (r div 1000 mod 60) + r mod 1000 <
      3600000 * (r' div 3600000) + 60000 * (r' div 60000 mod 60) + 1000 * (r' div 1000 mod 60) + r' mod 1000"
    using assms(2) unfolding clock_split .
  then show ?thesis by (rule mixed_radix) simp_all
qed

definition clock_nums :: "int \<Rightarrow> int list" where
  "clock_nums r = [r div 3600000, r div 60000 mod 60, r div 1000 mod 60, r mod 1000]"

lemma stamp_nums_clock: "stamp_nums ms =
    (case civil (ms div ms_per_day + epoch) of (y, m, d) \<Rightarrow> [y, m, d] @ clock_nums (ms mod ms_per_day))"
  by (simp add: stamp_nums_def clock_nums_def Let_def split: prod.split)

lemma civil_mono_cases: "z < z' \<Longrightarrow> civil z = (y, m, d) \<Longrightarrow> civil z' = (y', m', d') \<Longrightarrow>
    y < y' \<or> y = y' \<and> (m < m' \<or> m = m' \<and> d < d')"
  using civil_strict_mono [of z z'] by auto

lemma stamp_nums_less: "ms < ms' \<Longrightarrow> stamp_nums ms < stamp_nums ms'"
proof -
  assume lt: "ms < ms'"
  obtain y m d where c: "civil (ms div ms_per_day + epoch) = (y, m, d)" by (metis prod_cases3)
  obtain y' m' d' where c': "civil (ms' div ms_per_day + epoch) = (y', m', d')" by (metis prod_cases3)
  show ?thesis
  proof (cases "ms div ms_per_day = ms' div ms_per_day")
    case True
    then have "ms mod ms_per_day < ms' mod ms_per_day"
    proof -
      have "ms div ms_per_day * ms_per_day + ms mod ms_per_day < ms' div ms_per_day * ms_per_day + ms' mod ms_per_day"
        using lt by (simp only: div_mult_mod_eq)
      from this [unfolded True] show ?thesis by (simp only: add_less_cancel_left)
    qed
    moreover have "0 \<le> ms mod ms_per_day" by (simp add: ms_per_day_def)
    ultimately have "[y, m, d] @ clock_nums (ms mod ms_per_day) < [y', m', d'] @ clock_nums (ms' mod ms_per_day)"
      using c c' True clock_less [of "ms mod ms_per_day" "ms' mod ms_per_day"] by (simp add: clock_nums_def)
    then show ?thesis by (simp only: stamp_nums_clock c c' prod.case)
  next
    case False
    then have "ms div ms_per_day < ms' div ms_per_day"
      using lt zdiv_mono1 [of ms ms' ms_per_day] by (simp add: ms_per_day_def)
    then show ?thesis
      using civil_mono_cases [OF _ c c'] by (auto simp: stamp_nums_clock c c')
  qed
qed

lemma stamp_less: "in_years ms \<Longrightarrow> in_years ms' \<Longrightarrow> ms < ms' \<Longrightarrow> stamp ms < stamp ms'"
  unfolding stamp_render by (rule render_less [OF stamp_fits stamp_fits stamp_nums_less])

lemma stamp_le_iff: "in_years ms \<Longrightarrow> in_years ms' \<Longrightarrow> stamp ms \<le> stamp ms' \<longleftrightarrow> ms \<le> ms'"
  using stamp_less [of ms ms'] stamp_less [of ms' ms] by (cases ms ms' rule: linorder_cases) auto

text \<open>
  The database may compare timestamps as text: for instants in the years 0 to 9999 the order of
  the stored strings is the order of the instants to the millisecond.
\<close>

theorem format_time_order:
  assumes "in_years (ms_of t)" and "in_years (ms_of t')"
  shows "FormatTime t \<le> FormatTime t' \<longleftrightarrow> ms_of t \<le> ms_of t'"
  using stamp_le_iff [OF assms] by (simp add: FormatTime_def)

theorem format_time_order_witness:
  "FormatTime 1767225599999000000 \<le> FormatTime 1767225600000000000"
proof -
  have "in_years (ms_of 1767225599999000000)" "in_years (ms_of 1767225600000000000)"
    by code_simp+
  from format_time_order [OF this] show ?thesis by (simp add: ms_of_def)
qed

section \<open>The round trip\<close>

lemma of_digit_char:
  assumes "0 \<le> r" and "r < 10"
  shows "(of_char (digit_char (nat r)) :: int) = 48 + r"
proof -
  have "(of_char (digit_char (nat r)) :: nat) = 48 + nat r" using assms by (simp add: digit_char_def)
  from arg_cong [OF this, of int] have "int (of_char (digit_char (nat r))) = 48 + r" using assms by simp
  then show ?thesis by (simp only: of_nat_of_char)
qed

lemma add_digit_char: "0 \<le> r \<Longrightarrow> r < 10 \<Longrightarrow> add_digit (Some x) (digit_char (nat r)) = Some (10 * x + r)"
  by (simp add: add_digit_def of_digit_char less_eq_char_def) (simp add: digit_char_def)

lemma digits_pad: "0 \<le> n \<Longrightarrow> n < 10 ^ k \<Longrightarrow> digits (pad k n) = Some n"
proof (induction k arbitrary: n)
  case 0
  then show ?case by (simp add: digits_def)
next
  case (Suc k)
  have "0 \<le> n div 10" "n div 10 < 10 ^ k"
    using Suc.prems by (simp_all add: pos_imp_zdiv_nonneg_iff div_less_iff_less_mult)
  from Suc.IH [OF this] have "digits (pad k (n div 10)) = Some (n div 10)" .
  then show ?case by (simp add: digits_def add_digit_char)
qed

lemma parse_fields:
  assumes "0 \<le> y" "y < 10000" "1 \<le> m" "m \<le> 12" "1 \<le> d" "d \<le> days_in y m"
    and "0 \<le> hh" "hh \<le> 23" "0 \<le> mi" "mi \<le> 59" "0 \<le> ss" "ss \<le> 59" "0 \<le> f" "f < 1000"
  shows "parse_stamp (render stamp_fields [y, m, d, hh, mi, ss, f]) =
    Some ((days_of_civil (y, m, d) - epoch) * ms_per_day + hh * 3600000 + mi * 60000 + ss * 1000 + f)"
proof -
  have d: "d < 100" using assms(6) by (auto simp: days_in_def split: if_splits)
  have pads: "digits (pad 4 y) = Some y" "digits (pad 2 m) = Some m" "digits (pad 2 d) = Some d"
    "digits (pad 2 hh) = Some hh" "digits (pad 2 mi) = Some mi" "digits (pad 2 ss) = Some ss" "digits (pad 3 f) = Some f"
    using assms d by (simp_all add: digits_pad del: pad.simps)
  have shape: "length (render stamp_fields [y, m, d, hh, mi, ss, f]) = 24"
    by (simp add: stamp_fields_def del: pad.simps)
  show ?thesis
    unfolding parse_stamp_def using assms(3-12) shape
    by (simp add: stamp_fields_def pads nth_append del: pad.simps)
qed

lemma clock_ranges:
  fixes r :: int
  assumes "0 \<le> r" and "r < 86400000"
  shows "0 \<le> r div 3600000" and "r div 3600000 \<le> 23" and "0 \<le> r div 60000 mod 60" and "r div 60000 mod 60 \<le> 59"
    and "0 \<le> r div 1000 mod 60" and "r div 1000 mod 60 \<le> 59" and "0 \<le> r mod 1000" and "r mod 1000 < 1000"
  using assms pos_mod_bound [of 60 "r div 60000"] pos_mod_bound [of 60 "r div 1000"] div_bounds [of 3600000 r]
  by simp_all

lemma parse_stamp_FormatTime:
  assumes "in_years (ms_of t)"
  shows "parse_stamp (FormatTime t) = Some (ms_of t) \<and> take 10 (FormatTime t) = Day t"
proof -
  define q r where "q = ms_of t div ms_per_day + epoch" and "r = ms_of t mod ms_per_day"
  obtain y m d where c: "civil q = (y, m, d)" by (metis prod_cases3)
  have y: "0 \<le> y" "y < 10000" using assms c by (auto simp: in_years_def civil_def Let_def q_def)
  have v: "1 \<le> m" "m \<le> 12" "1 \<le> d" "d \<le> days_in y m" "days_of_civil (y, m, d) = q"
    using civil_valid [OF c] by blast+
  have r: "0 \<le> r" "r < 86400000" by (simp_all add: r_def ms_per_day_def)
  have ms: "(q - epoch) * ms_per_day + r = ms_of t" by (simp add: q_def r_def)
  have stamp: "stamp (ms_of t) =
    render stamp_fields [y, m, d, r div 3600000, r div 60000 mod 60, r div 1000 mod 60, r mod 1000]"
    by (simp only: stamp_render stamp_nums_def q_def [symmetric] r_def [symmetric] c prod.case Let_def)
  have "parse_stamp (stamp (ms_of t)) = Some ((q - epoch) * ms_per_day +
    r div 3600000 * 3600000 + r div 60000 mod 60 * 60000 + r div 1000 mod 60 * 1000 + r mod 1000)"
    unfolding stamp v(5) [symmetric] by (rule parse_fields [OF y v(1-4) clock_ranges [OF r]])
  also have "\<dots> = Some (ms_of t)"
    using clock_split [of r] ms by (simp only: option.inject)
  finally show ?thesis
    by (simp add: FormatTime_def stamp_def Day_def date_str_def c q_def [symmetric] del: pad.simps)
qed

text \<open>
  C9. Storing an instant and reading it back loses nothing below the stored precision: for instants in
  the years 0 to 9999, parsing what \<^verbatim>\<open>FormatTime\<close> wrote gives the instant floored to the
  millisecond, and the day key is the date part of the same string.
\<close>

theorem format_parse_roundtrip:
  assumes "in_years (ms_of t)"
  shows "parse_stamp (FormatTime t) = Some (ms_of t) \<and> take 10 (FormatTime t) = Day t"
  by (rule parse_stamp_FormatTime [OF assms])

theorem format_parse_roundtrip_witness:
  "parse_stamp (FormatTime 951782400123456789) = Some 951782400123 \<and> Day 951782400123456789 = ''2000-02-29''"
proof -
  have "in_years (ms_of 951782400123456789)" and d: "Day 951782400123456789 = ''2000-02-29''" by code_simp+
  from format_parse_roundtrip [OF this(1)] show ?thesis by (simp add: ms_of_def d)
qed

end
