(* ===== verification/Conditions.thy ===== *)
theory Conditions
  imports Domain
begin

text \<open>
  Stages 1 and 2 of the trigger pipeline and the template renderer
  (\<^verbatim>\<open>internal/service/triggers/match.go\<close>, \<^verbatim>\<open>conditions.go\<close>, \<^verbatim>\<open>interp.go\<close>): what a stored
  rule's JSON decodes to, whether an event matches it, the condition tree over the normalized payload,
  and \<^verbatim>\<open>{{path}}\<close> interpolation. A payload is the list of members of a decoded object; an
  absent value is \<^verbatim>\<open>JNull\<close>, as Go's \<^verbatim>\<open>nil\<close>. When an object repeats a member of a rule the
  last one counts.
\<close>

section \<open>Payload paths\<close>

type_synonym payload = "(string \<times> json) list"

fun walk_path :: "json \<Rightarrow> string list \<Rightarrow> json" where
  "walk_path cur [] = cur"
| "walk_path cur (seg # segs) =
     (case cur of JObj kvs \<Rightarrow> (case obj_get kvs seg of Some v \<Rightarrow> walk_path v segs | None \<Rightarrow> JNull) | _ \<Rightarrow> JNull)"

definition lookupPath :: "payload \<Rightarrow> string \<Rightarrow> json" where
  "lookupPath p path = (if path = '''' then JNull else walk_path (JObj p) (split_on CHR ''.'' path))"

definition parsePayload :: "raw_json \<Rightarrow> payload" where
  "parsePayload raw = (case raw of Raw (JObj kvs) \<Rightarrow> kvs | _ \<Rightarrow> [])"

section \<open>The condition tree\<close>

datatype condNode = CondNode
  (cn_All: "condNode list option") (cn_Any: "condNode list option")
  (cn_Field: string) (cn_Op: string) (cn_Value: raw_json)

definition empty_node :: condNode where
  "empty_node = CondNode None None '''' '''' RawEmpty"

fun set_all :: "condNode list option \<Rightarrow> condNode \<Rightarrow> condNode" where
  "set_all x (CondNode a b f p v) = CondNode x b f p v"

fun set_any :: "condNode list option \<Rightarrow> condNode \<Rightarrow> condNode" where
  "set_any x (CondNode a b f p v) = CondNode a x f p v"

fun set_field :: "string \<Rightarrow> condNode \<Rightarrow> condNode" where
  "set_field x (CondNode a b f p v) = CondNode a b x p v"

fun set_op :: "string \<Rightarrow> condNode \<Rightarrow> condNode" where
  "set_op x (CondNode a b f p v) = CondNode a b f x v"

fun set_value :: "raw_json \<Rightarrow> condNode \<Rightarrow> condNode" where
  "set_value x (CondNode a b f p v) = CondNode a b f p x"

definition set_string :: "json \<Rightarrow> (string \<Rightarrow> 'c \<Rightarrow> 'c) \<Rightarrow> 'c \<Rightarrow> 'c option" where
  "set_string v g c = (case v of JNull \<Rightarrow> Some c | JStr s \<Rightarrow> Some (g s c) | _ \<Rightarrow> None)"

fun json_weight :: "json \<Rightarrow> nat" where
  "json_weight (JArr js) = Suc (sum_list (map (\<lambda>j. Suc (json_weight j)) js))"
| "json_weight (JObj kvs) = Suc (sum_list (map (\<lambda>kv. Suc (json_weight (snd kv))) kvs))"
| "json_weight _ = 1"

text \<open>\<^verbatim>\<open>json.Unmarshal\<close> into a \<^verbatim>\<open>condNode\<close>; any type error refuses the whole tree.\<close>

function (sequential) dec_node :: "json \<Rightarrow> condNode option"
  and dec_members :: "(string \<times> json) list \<Rightarrow> condNode \<Rightarrow> condNode option"
  and dec_nodes :: "json list \<Rightarrow> condNode list option" where
  "dec_node (JObj kvs) = dec_members kvs empty_node"
| "dec_node JNull = Some empty_node"
| "dec_node _ = None"
| "dec_members [] n = Some n"
| "dec_members ((k, v) # kvs) n =
     (let n' =
        (if field_is k ''all'' then
           (case v of JNull \<Rightarrow> Some (set_all None n)
            | JArr js \<Rightarrow> map_option (\<lambda>cs. set_all (Some cs) n) (dec_nodes js) | _ \<Rightarrow> None)
         else if field_is k ''any'' then
           (case v of JNull \<Rightarrow> Some (set_any None n)
            | JArr js \<Rightarrow> map_option (\<lambda>cs. set_any (Some cs) n) (dec_nodes js) | _ \<Rightarrow> None)
         else if field_is k ''field'' then set_string v set_field n
         else if field_is k ''op'' then set_string v set_op n
         else if field_is k ''value'' then Some (set_value (Raw v) n)
         else Some n)
      in case n' of None \<Rightarrow> None | Some m \<Rightarrow> dec_members kvs m)"
| "dec_nodes [] = Some []"
| "dec_nodes (j # js) =
     (case (dec_node j, dec_nodes js) of (Some c, Some cs) \<Rightarrow> Some (c # cs) | _ \<Rightarrow> None)"
  by pat_completeness auto

termination
  by (relation "measure (\<lambda>x. case x of
        Inl j \<Rightarrow> json_weight j
      | Inr (Inl (kvs, _)) \<Rightarrow> sum_list (map (\<lambda>kv. Suc (json_weight (snd kv))) kvs)
      | Inr (Inr js) \<Rightarrow> sum_list (map (\<lambda>j. Suc (json_weight j)) js))") auto

section \<open>Operators\<close>

definition textPair :: "json \<Rightarrow> raw_json \<Rightarrow> (string \<times> string) option" where
  "textPair got want = (case (got, unmarshal dec_string want) of (JStr s, Some w) \<Rightarrow> Some (s, w) | _ \<Rightarrow> None)"

definition text_op :: "(string \<Rightarrow> string \<Rightarrow> bool) \<Rightarrow> json \<Rightarrow> raw_json \<Rightarrow> bool" where
  "text_op p got want = (case textPair got want of Some (s, w) \<Rightarrow> p s w | None \<Rightarrow> False)"

definition toNumber :: "json \<Rightarrow> rat option" where
  "toNumber v = (case v of JNum n \<Rightarrow> Some n | _ \<Rightarrow> None)"

definition numberOp :: "(rat \<Rightarrow> rat \<Rightarrow> bool) \<Rightarrow> json \<Rightarrow> raw_json \<Rightarrow> bool" where
  "numberOp cmp got want =
     (case (toNumber got, unmarshal dec_float want) of (Some a, Some b) \<Rightarrow> cmp a b | _ \<Rightarrow> False)"

definition setPair :: "json \<Rightarrow> raw_json \<Rightarrow> (json list \<times> string) option" where
  "setPair got want = (case (got, unmarshal dec_string want) of (JArr els, Some w) \<Rightarrow> Some (els, w) | _ \<Rightarrow> None)"

definition contains_el :: "json list \<Rightarrow> string \<Rightarrow> bool" where
  "contains_el els w = list_ex (\<lambda>el. el = JStr w) els"

definition set_op_on :: "(json list \<Rightarrow> string \<Rightarrow> bool) \<Rightarrow> json \<Rightarrow> raw_json \<Rightarrow> bool" where
  "set_op_on p got want = (case setPair got want of Some (els, w) \<Rightarrow> p els w | None \<Rightarrow> False)"

definition str_member :: "payload \<Rightarrow> string \<Rightarrow> string" where
  "str_member kvs k = (case obj_get kvs k of Some (JStr s) \<Rightarrow> s | _ \<Rightarrow> '''')"

definition actorKind :: "json \<Rightarrow> string" where
  "actorKind got = (case got of JObj kvs \<Rightarrow> str_member kvs ''kind'' | JStr s \<Rightarrow> s | _ \<Rightarrow> '''')"

definition actor_is :: "json \<Rightarrow> raw_json \<Rightarrow> bool" where
  "actor_is got want =
     (case unmarshal dec_string want of
        None \<Rightarrow> False
      | Some w \<Rightarrow> w \<noteq> '''' \<and>
          (case got of JObj kvs \<Rightarrow> str_member kvs ''agent'' = w \<or> str_member kvs ''login'' = w
           | JStr s \<Rightarrow> s = w | _ \<Rightarrow> False))"

definition globMatch :: "string \<Rightarrow> string \<Rightarrow> bool" where
  "globMatch pattern s = (glob_match pattern s = Some True)"

definition enum_in :: "json \<Rightarrow> raw_json \<Rightarrow> bool" where
  "enum_in got want =
     (case got of JStr s \<Rightarrow> (case unmarshal dec_string_list want of Some opts \<Rightarrow> s \<in> set opts | None \<Rightarrow> False)
      | _ \<Rightarrow> False)"

definition bool_is :: "json \<Rightarrow> raw_json \<Rightarrow> bool" where
  "bool_is got want = (case (got, unmarshal dec_bool want) of (JBool b, Some w) \<Rightarrow> b = w | _ \<Rightarrow> False)"

definition operators :: "(string \<times> (json \<Rightarrow> raw_json \<Rightarrow> bool)) list" where
  "operators = [
     (''text.is'', text_op (=)),
     (''text.is_not'', text_op (\<noteq>)),
     (''text.contains'', text_op contains_str),
     (''text.not_contains'', text_op (\<lambda>s w. \<not> contains_str s w)),
     (''text.starts_with'', text_op has_prefix),
     (''text.matches_glob'', text_op (\<lambda>s w. globMatch w s)),
     (''text.is_empty'', \<lambda>got _. got = JNull \<or> got = JStr ''''),
     (''number.eq'', numberOp (=)),
     (''number.gt'', numberOp (>)),
     (''number.gte'', numberOp (\<ge>)),
     (''number.lt'', numberOp (<)),
     (''number.lte'', numberOp (\<le>)),
     (''enum.is'', text_op (=)),
     (''enum.is_not'', text_op (\<noteq>)),
     (''enum.in'', enum_in),
     (''bool.is'', bool_is),
     (''set.includes'', set_op_on contains_el),
     (''set.excludes'', set_op_on (\<lambda>els w. \<not> contains_el els w)),
     (''set.is_empty'', \<lambda>got _. got = JArr []),
     (''actor.is_agent'', \<lambda>got _. actorKind got = ''agent''),
     (''actor.is_human'', \<lambda>got _. actorKind got = ''human''),
     (''actor.is'', actor_is)]"

definition leaf_field :: "string \<Rightarrow> string \<Rightarrow> string" where
  "leaf_field op fld = (if fld = '''' \<and> has_prefix op ''actor.'' then ''actor'' else fld)"

definition evalLeaf :: "condNode \<Rightarrow> payload \<Rightarrow> bool" where
  "evalLeaf n p =
     (case map_of operators (cn_Op n) of
        None \<Rightarrow> False
      | Some fn \<Rightarrow> fn (lookupPath p (leaf_field (cn_Op n) (cn_Field n))) (cn_Value n))"

fun evalNode :: "condNode \<Rightarrow> payload \<Rightarrow> bool" where
  "evalNode (CondNode (Some cs) any f op v) p = list_all (\<lambda>c. evalNode c p) cs"
| "evalNode (CondNode None (Some cs) f op v) p = list_ex (\<lambda>c. evalNode c p) cs"
| "evalNode (CondNode None None f op v) p = evalLeaf (CondNode None None f op v) p"

definition evalConditions :: "raw_json \<Rightarrow> payload \<Rightarrow> bool" where
  "evalConditions raw p =
     (if raw = RawEmpty then True
      else (case unmarshal dec_node raw of None \<Rightarrow> False | Some n \<Rightarrow> evalNode n p))"

section \<open>Stage 1: match\<close>

record triggerFilters =
  fl_Branches :: "string list"
  fl_Paths :: "string list"
  fl_Labels :: "string list"

definition no_filters :: triggerFilters where
  "no_filters = \<lparr> fl_Branches = [], fl_Paths = [], fl_Labels = [] \<rparr>"

definition set_strings :: "json \<Rightarrow> (string list \<Rightarrow> 'c \<Rightarrow> 'c) \<Rightarrow> 'c \<Rightarrow> 'c option" where
  "set_strings v g c = map_option (\<lambda>ss. g ss c) (dec_string_list v)"

fun dec_filters :: "(string \<times> json) list \<Rightarrow> triggerFilters \<Rightarrow> triggerFilters option" where
  "dec_filters [] f = Some f"
| "dec_filters ((k, v) # kvs) f =
     (case (if field_is k ''branches'' then set_strings v (\<lambda>x. fl_Branches_update (\<lambda>_. x)) f
            else if field_is k ''paths'' then set_strings v (\<lambda>x. fl_Paths_update (\<lambda>_. x)) f
            else if field_is k ''labels'' then set_strings v (\<lambda>x. fl_Labels_update (\<lambda>_. x)) f
            else Some f) of
        None \<Rightarrow> None | Some f' \<Rightarrow> dec_filters kvs f')"

definition unmarshal_filters :: "raw_json \<Rightarrow> triggerFilters option" where
  "unmarshal_filters raw =
     (case raw of Raw (JObj kvs) \<Rightarrow> dec_filters kvs no_filters | Raw JNull \<Rightarrow> Some no_filters | _ \<Rightarrow> None)"

fun texts :: "json list \<Rightarrow> string list" where
  "texts [] = []"
| "texts (j # js) = (case j of JStr s \<Rightarrow> s # texts js | _ \<Rightarrow> texts js)"

definition texts_at :: "payload \<Rightarrow> string \<Rightarrow> string list" where
  "texts_at p path = (case lookupPath p path of JArr els \<Rightarrow> texts els | _ \<Rightarrow> [])"

definition text_at :: "payload \<Rightarrow> string \<Rightarrow> string list" where
  "text_at p path = (case lookupPath p path of JStr s \<Rightarrow> if s = '''' then [] else [s] | _ \<Rightarrow> [])"

definition branchCandidates :: "Event \<Rightarrow> payload \<Rightarrow> string list" where
  "branchCandidates e p = text_at p ''pr.branch'' @
     (case ev_SubjectBranch e of Some b \<Rightarrow> if b = '''' then [] else [b] | None \<Rightarrow> [])"

definition pathCandidates :: "payload \<Rightarrow> string list" where
  "pathCandidates p = text_at p ''comment.path'' @ filter (\<lambda>s. s \<noteq> '''') (texts_at p ''pr.paths'')"

definition labelCandidates :: "payload \<Rightarrow> string list" where
  "labelCandidates p = texts_at p ''pr.labels'' @ texts_at p ''ticket.labels''"

definition anyGlob :: "string list \<Rightarrow> string list \<Rightarrow> bool" where
  "anyGlob patterns candidates = list_ex (\<lambda>p. list_ex (globMatch p) candidates) patterns"

definition anyLabel :: "string list \<Rightarrow> string list \<Rightarrow> bool" where
  "anyLabel wanted present = list_ex (\<lambda>w. w \<in> set present) wanted"

definition filters_pass :: "triggerFilters \<Rightarrow> Event \<Rightarrow> payload \<Rightarrow> bool" where
  "filters_pass f e p \<longleftrightarrow>
     (fl_Branches f = [] \<or> anyGlob (fl_Branches f) (branchCandidates e p)) \<and>
     (fl_Paths f = [] \<or> anyGlob (fl_Paths f) (pathCandidates p)) \<and>
     (fl_Labels f = [] \<or> anyLabel (fl_Labels f) (labelCandidates p))"

definition activity_passes :: "raw_json \<Rightarrow> string \<Rightarrow> bool" where
  "activity_passes raw act =
     (if raw = RawEmpty then True
      else (case unmarshal dec_string_list raw of None \<Rightarrow> False | Some kinds \<Rightarrow> kinds = [] \<or> act \<in> set kinds))"

definition matchStage :: "Trigger \<Rightarrow> Event \<Rightarrow> payload \<Rightarrow> bool" where
  "matchStage tr e p \<longleftrightarrow>
     ev_Kind e = tr_Event tr \<and>
     (ev_SubjectKind e = ''trigger'' \<longrightarrow> ev_SubjectID e = Some (tr_ID tr)) \<and>
     activity_passes (tr_ActivityTypes tr) (ev_ActivityType e) \<and>
     (if tr_Filters tr = RawEmpty then True
      else (case unmarshal_filters (tr_Filters tr) of None \<Rightarrow> False | Some f \<Rightarrow> filters_pass f e p))"

section \<open>Interpolation\<close>

text \<open>\<^verbatim>\<open>pathPattern\<close>: dotted identifiers.\<close>

definition ident_start :: "char \<Rightarrow> bool" where
  "ident_start c \<longleftrightarrow> CHR ''A'' \<le> c \<and> c \<le> CHR ''Z'' \<or> CHR ''a'' \<le> c \<and> c \<le> CHR ''z'' \<or> c = CHR ''_''"

definition ident :: "string \<Rightarrow> bool" where
  "ident s = (case s of [] \<Rightarrow> False
     | c # cs \<Rightarrow> ident_start c \<and> list_all (\<lambda>d. ident_start d \<or> CHR ''0'' \<le> d \<and> d \<le> CHR ''9'') cs)"

definition pathPattern :: "string \<Rightarrow> bool" where
  "pathPattern s = list_all ident (split_on CHR ''.'' s)"

text \<open>\<^verbatim>\<open>strings.Index\<close> as the text before and after the first occurrence.\<close>

fun cut_at :: "string \<Rightarrow> string \<Rightarrow> (string \<times> string) option" where
  "cut_at [] sub = (if sub = [] then Some ([], []) else None)"
| "cut_at (c # cs) sub =
     (if has_prefix (c # cs) sub then Some ([], drop (length sub) (c # cs))
      else (case cut_at cs sub of None \<Rightarrow> None | Some (a, b) \<Rightarrow> Some (c # a, b)))"

lemma cut_at_Some: "cut_at s sub = Some (a, b) \<Longrightarrow> s = a @ sub @ b"
proof (induction s arbitrary: a)
  case (Cons c cs)
  show ?case
  proof (cases "has_prefix (c # cs) sub")
    case True
    then have p: "take (length sub) (c # cs) = sub" by (simp only: has_prefix_def)
    from Cons.prems True have "a = []" "b = drop (length sub) (c # cs)" by simp_all
    then show ?thesis using append_take_drop_id [of "length sub" "c # cs"] p by (simp only: append_Nil)
  next
    case False
    with Cons show ?thesis by (auto split: option.splits)
  qed
qed (simp split: if_splits)

text \<open>
  \<^verbatim>\<open>renderValue\<close>. \<^verbatim>\<open>encoding/json\<close> writes composite values compactly, members in the order
  of their names, and escapes what HTML would read. A number that is no integer, or one beyond 2^53,
  is rendered by \<^verbatim>\<open>ff\<close>, \<^verbatim>\<open>strconv\<close>'s shortest decimal, an argument here (inside a composite
  value the marshaller writes the same text between 1e-6 and 1e21).
\<close>

definition hex_digit :: "nat \<Rightarrow> char" where
  "hex_digit n = (if n < 10 then char_of (48 + n) else char_of (87 + n))"

definition json_char :: "char \<Rightarrow> string" where
  "json_char c =
     (if c = CHR 0x22 then [CHR 0x5C, CHR 0x22]
      else if c = CHR 0x5C then [CHR 0x5C, CHR 0x5C]
      else if c = CHR 0x08 then [CHR 0x5C, CHR ''b'']
      else if c = CHR 0x0C then [CHR 0x5C, CHR ''f'']
      else if c = CHR 0x0A then [CHR 0x5C, CHR ''n'']
      else if c = CHR 0x0D then [CHR 0x5C, CHR ''r'']
      else if c = CHR 0x09 then [CHR 0x5C, CHR ''t'']
      else if byte c < 32 \<or> c = CHR ''<'' \<or> c = CHR ''>'' \<or> c = CHR ''&''
      then [CHR 0x5C] @ ''u00'' @ [hex_digit (byte c div 16), hex_digit (byte c mod 16)]
      else [c])"

definition json_string :: "string \<Rightarrow> string" where
  "json_string s = [CHR 0x22] @ concat (map json_char s) @ [CHR 0x22]"

definition num_text :: "(rat \<Rightarrow> string) \<Rightarrow> rat \<Rightarrow> string" where
  "num_text ff q = (if of_int (floor q) = q \<and> \<bar>q\<bar> < 2 ^ 53 then fmt_int (floor q) else ff q)"

text \<open>A Go map keeps one value per name; the marshaller sorts the names.\<close>

definition go_map :: "(string \<times> 'a) list \<Rightarrow> (string \<times> 'a) list" where
  "go_map kvs = sort_key fst (foldr (\<lambda>kv acc. kv # filter (\<lambda>x. fst x \<noteq> fst kv) acc) (rev kvs) [])"

fun marshal :: "(rat \<Rightarrow> string) \<Rightarrow> json \<Rightarrow> string" where
  "marshal ff JNull = ''null''"
| "marshal ff (JBool b) = (if b then ''true'' else ''false'')"
| "marshal ff (JNum q) = num_text ff q"
| "marshal ff (JStr s) = json_string s"
| "marshal ff (JArr js) = ''['' @ join '','' (map (marshal ff) js) @ '']''"
| "marshal ff (JObj kvs) = ''{'' @ join '','' (map (\<lambda>(k, v). json_string k @ '':'' @ v)
     (go_map (map (\<lambda>(k, v). (k, marshal ff v)) kvs))) @ ''}''"

definition renderValue :: "(rat \<Rightarrow> string) \<Rightarrow> json \<Rightarrow> string" where
  "renderValue ff v = (case v of JStr s \<Rightarrow> s | JNum q \<Rightarrow> num_text ff q | _ \<Rightarrow> marshal ff v)"

definition not_a_path :: "string \<Rightarrow> string" where
  "not_a_path inner = ''{{'' @ inner @ ''}} is not a payload path '' @ [CHR 0xE2, CHR 0x80, CHR 0x94] @
     '' templates are interpolation-only, control flow is never evaluated; rendered as empty''"

definition unknown_path :: "string \<Rightarrow> string" where
  "unknown_path p = ''unknown path {{'' @ p @ ''}} rendered as empty''"

text \<open>One placeholder: what it renders to and its warning.\<close>

definition placeholder :: "(rat \<Rightarrow> string) \<Rightarrow> payload \<Rightarrow> string \<Rightarrow> string \<times> string list" where
  "placeholder ff payload inner =
     (let p = trim_space inner in
      if \<not> pathPattern p then ('''', [not_a_path inner])
      else if lookupPath payload p = JNull then ('''', [unknown_path p])
      else (renderValue ff (lookupPath payload p), []))"

function interpolate :: "(rat \<Rightarrow> string) \<Rightarrow> string \<Rightarrow> payload \<Rightarrow> string \<times> string list" where
  "interpolate ff rest payload =
     (case cut_at rest ''{{'' of
        None \<Rightarrow> (rest, [])
      | Some (before, rest1) \<Rightarrow>
          (case cut_at rest1 ''}}'' of
             None \<Rightarrow> (before @ ''{{'' @ rest1, [])
           | Some (inner, rest2) \<Rightarrow>
               (case (placeholder ff payload inner, interpolate ff rest2 payload) of
                  ((v, ws), (out, ws')) \<Rightarrow> (before @ v @ out, ws @ ws'))))"
  by pat_completeness auto
termination
  by (relation "measure (\<lambda>(_, s, _). length s)") (auto dest!: cut_at_Some)

declare interpolate.simps [simp del]

section \<open>What a rule's author may rely on\<close>

text \<open>
  Evaluation is total and an unknown path decides every leaf: where the payload has no value, each of
  the 22 operators (and any operator the code does not know) is false, except \<^verbatim>\<open>text.is_empty\<close>.
\<close>

theorem unknown_path_is_false:
  assumes "lookupPath p (leaf_field op fld) = JNull"
  shows "evalNode (CondNode None None fld op v) p \<longleftrightarrow> op = ''text.is_empty''"
proof -
  have f: "text_op g JNull v = False" "numberOp h JNull v = False" "set_op_on k JNull v = False"
    "enum_in JNull v = False" "bool_is JNull v = False" "actorKind JNull = ''''" "actor_is JNull v = False" for g h k
    by (simp_all add: text_op_def textPair_def numberOp_def toNumber_def set_op_on_def setPair_def enum_in_def
        bool_is_def actorKind_def actor_is_def split: option.split)
  have "evalNode (CondNode None None fld op v) p =
      (case map_of operators op of None \<Rightarrow> False | Some fn \<Rightarrow> fn JNull v)"
    using assms by (simp add: evalLeaf_def split: option.split)
  also have "\<dots> = (op = ''text.is_empty'')"
    by (simp add: operators_def f)
  finally show ?thesis .
qed

theorem unknown_path_is_false_witness:
  "lookupPath [(''pr'', JObj [(''title'', JStr ''x'')])] (leaf_field ''set.excludes'' ''pr.labels'') = JNull \<and>
   \<not> evalNode (CondNode None None ''pr.labels'' ''set.excludes'' (Raw (JStr ''bug'')))
      [(''pr'', JObj [(''title'', JStr ''x'')])]"
proof -
  have l: "lookupPath [(''pr'', JObj [(''title'', JStr ''x'')])] (leaf_field ''set.excludes'' ''pr.labels'') = JNull"
    by code_simp
  from unknown_path_is_false [OF this, of "Raw (JStr ''bug'')"] l show ?thesis by simp
qed

text \<open>A template as its author reads it: literal text and placeholders.\<close>

datatype piece = Lit string | Field string

fun piece_text :: "piece \<Rightarrow> string" where
  "piece_text (Lit s) = s"
| "piece_text (Field p) = ''{{'' @ p @ ''}}''"

fun piece_ok :: "piece \<Rightarrow> bool" where
  "piece_ok (Lit s) \<longleftrightarrow> CHR ''{'' \<notin> set s"
| "piece_ok (Field p) \<longleftrightarrow> pathPattern p"

fun piece_value :: "(rat \<Rightarrow> string) \<Rightarrow> payload \<Rightarrow> piece \<Rightarrow> string" where
  "piece_value ff pl (Lit s) = s"
| "piece_value ff pl (Field p) = (if lookupPath pl p = JNull then '''' else renderValue ff (lookupPath pl p))"

fun piece_warnings :: "payload \<Rightarrow> piece \<Rightarrow> string list" where
  "piece_warnings pl (Lit s) = []"
| "piece_warnings pl (Field p) = (if lookupPath pl p = JNull then [unknown_path p] else [])"

lemma cut_at_free:
  assumes "c \<notin> set a"
  shows "cut_at (a @ [c, c] @ b) [c, c] = Some (a, b)"
  using assms by (induction a) (auto simp: has_prefix_def split: option.split)

lemma cut_at_none: "c \<notin> set a \<Longrightarrow> cut_at a (c # cs) = None"
  by (induction a) (auto simp: has_prefix_def)

lemma set_split_on: "d \<in> set s \<Longrightarrow> d = c \<or> (\<exists>w \<in> set (split_on c s). d \<in> set w)"
proof (induction s)
  case (Cons x s)
  show ?case
  proof (cases "x = c")
    case True
    then show ?thesis using Cons by auto
  next
    case False
    then show ?thesis using Cons by (cases "split_on c s") auto
  qed
qed simp

lemma ident_chars: "ident w \<Longrightarrow> d \<in> set w \<Longrightarrow> d \<noteq> CHR ''{'' \<and> d \<noteq> CHR ''}'' \<and> \<not> is_space d"
proof -
  have s: "ident_start d \<Longrightarrow> d \<noteq> CHR ''{'' \<and> d \<noteq> CHR ''}'' \<and> \<not> is_space d" for d
    unfolding ident_start_def is_space_def less_eq_char_def by auto
  have n: "CHR ''0'' \<le> d \<and> d \<le> CHR ''9'' \<Longrightarrow> d \<noteq> CHR ''{'' \<and> d \<noteq> CHR ''}'' \<and> \<not> is_space d" for d
    unfolding is_space_def less_eq_char_def by auto
  assume "ident w" "d \<in> set w"
  then have "ident_start d \<or> CHR ''0'' \<le> d \<and> d \<le> CHR ''9''"
    by (cases w) (auto simp: ident_def list_all_iff)
  then show ?thesis using s n by blast
qed

lemma pathPattern_chars:
  assumes "pathPattern s" and "d \<in> set s"
  shows "d \<noteq> CHR ''{'' \<and> d \<noteq> CHR ''}'' \<and> \<not> is_space d"
proof -
  consider "d = CHR ''.''" | w where "ident w" "d \<in> set w"
    using set_split_on [OF assms(2), of "CHR ''.''"] assms(1) by (auto simp: pathPattern_def list_all_iff)
  then show ?thesis
  proof cases
    case 1
    then show ?thesis by (simp add: is_space_def)
  next
    case 2
    then show ?thesis by (rule ident_chars)
  qed
qed

lemma dropWhile_none: "\<forall>d \<in> set s. \<not> P d \<Longrightarrow> dropWhile P s = s"
  by (cases s) simp_all

lemma trim_space_id: "\<forall>d \<in> set s. \<not> is_space d \<Longrightarrow> trim_space s = s"
  by (simp add: trim_space_def dropWhile_none)

lemma interpolate_lit:
  assumes "CHR ''{'' \<notin> set a"
  shows "interpolate ff (a @ rest) pl = (a @ fst (interpolate ff rest pl), snd (interpolate ff rest pl))"
proof -
  have cut: "cut_at (a @ rest) ''{{'' =
      (case cut_at rest ''{{'' of None \<Rightarrow> None | Some (b, r) \<Rightarrow> Some (a @ b, r))"
    using assms by (induction a) (auto simp: has_prefix_def split: option.split)
  show ?thesis
    by (subst (1 2 3) interpolate.simps) (simp add: cut split: option.split prod.split)
qed

lemma interpolate_field:
  assumes "pathPattern p"
  shows "interpolate ff (''{{'' @ p @ ''}}'' @ rest) pl =
    (piece_value ff pl (Field p) @ fst (interpolate ff rest pl), piece_warnings pl (Field p) @ snd (interpolate ff rest pl))"
proof -
  have p: "trim_space p = p" "CHR ''}'' \<notin> set p"
    using pathPattern_chars [OF assms] by (auto intro: trim_space_id)
  have c1: "cut_at (''{{'' @ x) ''{{'' = Some ('''', x)" for x by (simp add: has_prefix_def)
  have c2: "cut_at (p @ ''}}'' @ rest) ''}}'' = Some (p, rest)" using cut_at_free [OF p(2)] by simp
  have "interpolate ff (''{{'' @ p @ ''}}'' @ rest) pl =
      (case (placeholder ff pl p, interpolate ff rest pl) of ((v, ws), (out, ws')) \<Rightarrow> (v @ out, ws @ ws'))"
    by (subst interpolate.simps) (simp only: c1 c2 option.case prod.case append_Nil)
  then show ?thesis
    by (simp add: placeholder_def Let_def p assms split: prod.split)
qed

text \<open>
  Interpolation is substitution and nothing more: a template of literal text and placeholders renders
  to the literals and the looked-up values in order, with one warning per unknown path; a value that itself
  reads like a template is copied as it is, never expanded.
\<close>

theorem interpolate_substitutes:
  assumes "list_all piece_ok ps"
  shows "interpolate ff (concat (map piece_text ps)) pl =
    (concat (map (piece_value ff pl) ps), concat (map (piece_warnings pl) ps))"
  using assms
proof (induction ps)
  case Nil
  then show ?case by (subst interpolate.simps) simp
next
  case (Cons q ps)
  then show ?case
    using interpolate_lit interpolate_field by (cases q) simp_all
qed

theorem interpolate_substitutes_witness:
  "interpolate (\<lambda>_. '''') ''PR #{{pr.number}}: {{pr.title}} {{pr.x}}''
     [(''pr'', JObj [(''number'', JNum 7), (''title'', JStr ''{{pr.number}}'')])] =
   (''PR #7: {{pr.number}} '', [''unknown path {{pr.x}} rendered as empty''])"
proof -
  let ?pl = "[(''pr'', JObj [(''number'', JNum 7), (''title'', JStr ''{{pr.number}}'')])]"
  let ?ps = "[Lit ''PR #'', Field ''pr.number'', Lit '': '', Field ''pr.title'', Lit '' '', Field ''pr.x'']"
  have ok: "list_all piece_ok ?ps" by code_simp
  have v: "concat (map (piece_value (\<lambda>_. '''') ?pl) ?ps) = ''PR #7: {{pr.number}} ''"
    "concat (map (piece_warnings ?pl) ?ps) = [''unknown path {{pr.x}} rendered as empty'']" by code_simp+
  show ?thesis using interpolate_substitutes [OF ok, of "\<lambda>_. ''''" ?pl] v by simp
qed

end
