(* ===== verification/Guard.thy ===== *)
theory Guard
  imports Enqueue Timestamps Conditions
begin

text \<open>
  The loop guard, stage 3 of the trigger pipeline (\<^verbatim>\<open>internal/kernel/guard/guard.go\<close>,
  \<^verbatim>\<open>layers.go\<close>): the skip-token escape hatch, then actor suppression, review coalescing, debounce,
  cancel-in-progress, the depth counter and the budget, in the code's order. The guard reads the store
  (\<^verbatim>\<open>faults\<close> says which reads fail) and a clock in nanoseconds; its one write is the loop-stopped
  run it asks the scheduler for, through the \<^verbatim>\<open>LoopStopper\<close> seam, an optional argument here.
  A zero \<^verbatim>\<open>Outcome\<close> is \<^verbatim>\<open>None\<close>. The locale states what the trigger engine relies on;
  both evaluators of the code, \<^verbatim>\<open>Pass\<close> and \<^verbatim>\<open>Layers\<close>, are interpretations.
\<close>

section \<open>Input and verdict\<close>


record GuardInput =
  in_Event :: Event
  in_Trigger :: Trigger
  in_SubjectKey :: string
  in_Payload :: payload
  in_RunAgentIDs :: "string list"

record GuardPass =
  gp_SubjectKey :: string
  gp_Depth :: int
  gp_SupersededRunID :: string

record Verdict =
  v_Proceed :: bool
  v_Outcome :: "FiringOutcome option"
  v_Reason :: string
  v_AbsorbedByRunID :: "string option"
  v_RunID :: "string option"
  v_Pass :: GuardPass

definition no_pass :: GuardPass where
  "no_pass = \<lparr> gp_SubjectKey = '''', gp_Depth = 0, gp_SupersededRunID = '''' \<rparr>"

definition go_on :: "GuardPass \<Rightarrow> Verdict" where
  "go_on p = \<lparr> v_Proceed = True, v_Outcome = None, v_Reason = '''', v_AbsorbedByRunID = None,
     v_RunID = None, v_Pass = p \<rparr>"

definition stop :: "FiringOutcome \<Rightarrow> string \<Rightarrow> Verdict" where
  "stop out reason = \<lparr> v_Proceed = False, v_Outcome = Some out, v_Reason = reason, v_AbsorbedByRunID = None,
     v_RunID = None, v_Pass = no_pass \<rparr>"

definition Pass_Evaluate :: "GuardInput \<Rightarrow> World \<Rightarrow> Verdict \<times> World" where
  "Pass_Evaluate i w = (go_on (no_pass\<lparr> gp_SubjectKey := in_SubjectKey i \<rparr>), w)"

lemma stop_fields [simp]:
  "v_Proceed (stop out r) = False" "v_Outcome (stop out r) = Some out" "v_Reason (stop out r) = r"
  "v_RunID (stop out r) = None"
  by (simp_all add: stop_def)

lemma go_on_fields [simp]: "v_Proceed (go_on p) = True" "v_Pass (go_on p) = p" "v_Outcome (go_on p) = None"
  by (simp_all add: go_on_def)

section \<open>The configuration\<close>

record GuardConfig =
  cfg_ActorSuppression :: bool
  cfg_DebounceSeconds :: int
  cfg_CancelInProgress :: bool
  cfg_DepthLimit :: int
  cfg_DailyBudgetCents :: "int option"

definition zero_config :: GuardConfig where
  "zero_config = \<lparr> cfg_ActorSuppression = False, cfg_DebounceSeconds = 0, cfg_CancelInProgress = False,
     cfg_DepthLimit = 0, cfg_DailyBudgetCents = None \<rparr>"

text \<open>
  One member of the decoded object into the struct, as \<^verbatim>\<open>encoding/json\<close> does it: an unknown name is
  ignored, a JSON null leaves a plain field alone and clears a pointer, a value of the wrong type is an
  error (\<^verbatim>\<open>None\<close>).
\<close>

definition set_bool :: "json \<Rightarrow> (bool \<Rightarrow> 'c \<Rightarrow> 'c) \<Rightarrow> 'c \<Rightarrow> 'c option" where
  "set_bool v g c = (case v of JNull \<Rightarrow> Some c | JBool b \<Rightarrow> Some (g b c) | _ \<Rightarrow> None)"

definition set_int :: "json \<Rightarrow> (int \<Rightarrow> 'c \<Rightarrow> 'c) \<Rightarrow> 'c \<Rightarrow> 'c option" where
  "set_int v g c = (case v of JNull \<Rightarrow> Some c | JNum q \<Rightarrow> map_option (\<lambda>n. g n c) (rat_int q) | _ \<Rightarrow> None)"

definition set_int_ptr :: "json \<Rightarrow> (int option \<Rightarrow> 'c \<Rightarrow> 'c) \<Rightarrow> 'c \<Rightarrow> 'c option" where
  "set_int_ptr v g c = (case v of JNull \<Rightarrow> Some (g None c)
     | JNum q \<Rightarrow> map_option (\<lambda>n. g (Some n) c) (rat_int q) | _ \<Rightarrow> None)"

definition config_field :: "string \<times> json \<Rightarrow> GuardConfig \<Rightarrow> GuardConfig option" where
  "config_field kv c = (case kv of (k, v) \<Rightarrow>
     if field_is k ''actor_suppression'' then set_bool v (\<lambda>b. cfg_ActorSuppression_update (\<lambda>_. b)) c
     else if field_is k ''debounce_seconds'' then set_int v (\<lambda>n. cfg_DebounceSeconds_update (\<lambda>_. n)) c
     else if field_is k ''cancel_in_progress'' then set_bool v (\<lambda>b. cfg_CancelInProgress_update (\<lambda>_. b)) c
     else if field_is k ''depth_limit'' then set_int v (\<lambda>n. cfg_DepthLimit_update (\<lambda>_. n)) c
     else if field_is k ''daily_budget_cents'' then set_int_ptr v (\<lambda>n. cfg_DailyBudgetCents_update (\<lambda>_. n)) c
     else Some c)"

fun config_fields :: "(string \<times> json) list \<Rightarrow> GuardConfig \<Rightarrow> GuardConfig option" where
  "config_fields [] c = Some c"
| "config_fields (kv # kvs) c =
     (case config_field kv c of None \<Rightarrow> None | Some c' \<Rightarrow> config_fields kvs c')"

definition unmarshal_config :: "raw_json \<Rightarrow> GuardConfig \<Rightarrow> GuardConfig option" where
  "unmarshal_config raw c =
     (case raw of Raw (JObj kvs) \<Rightarrow> config_fields kvs c | Raw JNull \<Rightarrow> Some c | _ \<Rightarrow> None)"

definition default_config :: GuardConfig where
  "default_config = (case unmarshal_config DefaultLoopConfig zero_config of Some c \<Rightarrow> c | None \<Rightarrow> zero_config)"

definition loadConfig :: "raw_json \<Rightarrow> GuardConfig" where
  "loadConfig raw =
     (if raw = RawEmpty then default_config
      else (case unmarshal_config raw default_config of Some c \<Rightarrow> c | None \<Rightarrow> default_config))"

section \<open>Reading the payload\<close>

fun lookup :: "json \<Rightarrow> string list \<Rightarrow> json option" where
  "lookup cur [] = Some cur"
| "lookup cur (key # path) =
     (case cur of JObj kvs \<Rightarrow> (case obj_get kvs key of Some v \<Rightarrow> lookup v path | None \<Rightarrow> None) | _ \<Rightarrow> None)"

definition skipTokens :: "string list" where
  "skipTokens = [''skip-agents'', ''skip-agent'', ''[skip agents]'']"

definition skipPaths :: "string list list" where
  "skipPaths = [[''pr'', ''body''], [''comment'', ''body''], [''review'', ''body''], [''pr'', ''head_commit_message'']]"

definition hasSkipToken :: "payload \<Rightarrow> bool" where
  "hasSkipToken p = list_ex (\<lambda>path.
     case lookup (JObj p) path of Some (JStr s) \<Rightarrow> list_ex (contains_str (to_lower s)) skipTokens | _ \<Rightarrow> False) skipPaths"

fun first_text :: "payload \<Rightarrow> string list list \<Rightarrow> string" where
  "first_text p [] = ''''"
| "first_text p (path # paths) =
     (case lookup (JObj p) path of
        Some (JStr s) \<Rightarrow> if trim_space s \<noteq> '''' then s else first_text p paths
      | _ \<Rightarrow> first_text p paths)"

definition reviewIDOf :: "payload \<Rightarrow> string" where
  "reviewIDOf p = first_text p [[''review'', ''id''], [''comment'', ''review_id'']]"

section \<open>The layers\<close>

definition exemptFromActorSuppression :: "Event \<Rightarrow> bool" where
  "exemptFromActorSuppression e \<longleftrightarrow> ev_Kind e = ''check_suite''"

definition actor_suppressed :: "GuardConfig \<Rightarrow> GuardInput \<Rightarrow> bool" where
  "actor_suppressed cfg i \<longleftrightarrow> cfg_ActorSuppression cfg \<and> \<not> exemptFromActorSuppression (in_Event i) \<and>
     ev_ActorKind (in_Event i) = ActorAgent \<and>
     (case ev_ActorID (in_Event i) of None \<Rightarrow> False | Some a \<Rightarrow> a \<in> set (in_RunAgentIDs i))"

definition absorbed_by :: "Run \<Rightarrow> string \<Rightarrow> Verdict" where
  "absorbed_by r reason = (stop FiringDebounced reason)\<lparr> v_AbsorbedByRunID := Some (run_ID r) \<rparr>"

definition coalesceReview :: "faults \<Rightarrow> GuardInput \<Rightarrow> World \<Rightarrow> Verdict option" where
  "coalesceReview f i w =
     (let rid = reviewIDOf (in_Payload i) in
      case (ev_ProjectID (in_Event i), ev_SubjectNumber (in_Event i)) of
        (Some pid, Some num) \<Rightarrow>
          if rid = '''' then None
          else (case Runs_LatestForReview f (tr_ID (in_Trigger i)) pid (ev_SubjectKind (in_Event i)) num rid w of
                  Inl _ \<Rightarrow> None
                | Inr r \<Rightarrow> Some (absorbed_by r (''debounced: review '' @ rid @
                    '' was already given to run #'' @ fmt_int (run_Seq r) @ '' in full'')))
      | _ \<Rightarrow> None)"

text \<open>\<^verbatim>\<open>-time.Duration(n) * time.Second\<close> on 64 bits.\<close>

definition int64 :: "int \<Rightarrow> int" where
  "int64 x = (x + 2 ^ 63) mod 2 ^ 64 - 2 ^ 63"

definition debounce_cutoff :: "int \<Rightarrow> int \<Rightarrow> string" where
  "debounce_cutoff now secs = FormatTime (now + int64 (- secs * 1000000000))"

definition debounce :: "faults \<Rightarrow> int \<Rightarrow> GuardConfig \<Rightarrow> GuardInput \<Rightarrow> World \<Rightarrow> Verdict option" where
  "debounce f now cfg i w =
     (case Runs_LatestOnSubject f (tr_ID (in_Trigger i)) (in_SubjectKey i)
             (debounce_cutoff now (cfg_DebounceSeconds cfg)) w of
        Inl _ \<Rightarrow> None
      | Inr r \<Rightarrow> Some (absorbed_by r (''debounced: within '' @ fmt_int (cfg_DebounceSeconds cfg) @ ''s of run #'' @
          fmt_int (run_Seq r) @ '' on '' @ in_SubjectKey i)))"

definition elect_superseded :: "faults \<Rightarrow> GuardConfig \<Rightarrow> GuardInput \<Rightarrow> World \<Rightarrow> GuardPass" where
  "elect_superseded f cfg i w =
     (let p = no_pass\<lparr> gp_SubjectKey := in_SubjectKey i \<rparr> in
      if cfg_CancelInProgress cfg
      then (case Runs_ActiveOnSubject f (tr_ID (in_Trigger i)) (in_SubjectKey i) w of
              Inr r \<Rightarrow> p\<lparr> gp_SupersededRunID := run_ID r \<rparr> | Inl _ \<Rightarrow> p)
      else p)"

text \<open>The upward walk; the fuel is the code's own cap of 64 hops.\<close>

fun chain_walk :: "faults \<Rightarrow> string \<Rightarrow> string \<Rightarrow> World \<Rightarrow> nat \<Rightarrow> Event \<Rightarrow> int \<Rightarrow> int res" where
  "chain_walk f subj resetAt w 0 cur depth = Inr depth"
| "chain_walk f subj resetAt w (Suc hops) cur depth =
     (if resetAt \<noteq> '''' \<and> ev_OccurredAt cur \<le> resetAt then Inr depth
      else (case ev_CauseRunID cur of
              None \<Rightarrow> Inr depth
            | Some rid \<Rightarrow>
                (case Runs_ByID f rid w of
                   Inl e \<Rightarrow> Inl e
                 | Inr run \<Rightarrow>
                     if run_RequestedByUserID run \<noteq> None then Inr depth
                     else if run_SubjectKey run \<noteq> '''' \<and> run_SubjectKey run \<noteq> subj then Inr depth
                     else (case run_CauseEventID run of
                             None \<Rightarrow> Inr (depth + 1)
                           | Some eid \<Rightarrow>
                               (case Events_ByID f eid w of
                                  Inl e \<Rightarrow> Inl e
                                | Inr ev \<Rightarrow> chain_walk f subj resetAt w hops ev (depth + 1))))))"

definition chainDepth :: "faults \<Rightarrow> Event \<Rightarrow> string \<Rightarrow> World \<Rightarrow> int res" where
  "chainDepth f ev subj w =
     (case Events_NewestHumanActionAt f (case ev_ProjectID ev of Some p \<Rightarrow> p | None \<Rightarrow> '''')
             (ev_SubjectKind ev) (ev_SubjectNumber ev) (ev_SubjectID ev) w of
        Inl e \<Rightarrow> Inl e
      | Inr resetAt \<Rightarrow> chain_walk f subj resetAt w 64 ev 0)"

type_synonym loop_stopper = "LoopStoppedRun \<Rightarrow> World \<Rightarrow> (enq_err + Run) \<times> World"

definition stopLoop :: "loop_stopper option \<Rightarrow> GuardInput \<Rightarrow> int \<Rightarrow> int \<Rightarrow> World \<Rightarrow> Verdict \<times> World" where
  "stopLoop loop i depth limit w =
     (let reason = ''loop stopped: depth '' @ fmt_int depth @ '' reached the limit of '' @ fmt_int limit @
            '' on '' @ in_SubjectKey i;
          v = stop FiringLoopStopped reason in
      case (loop, in_RunAgentIDs i) of
        (Some enq, aid # _) \<Rightarrow>
          (case enq \<lparr> ls_ProjectID = tr_ProjectID (in_Trigger i), ls_AgentID = aid, ls_TriggerID = tr_ID (in_Trigger i),
                      ls_CauseEventID = ev_ID (in_Event i), ls_SubjectKey = in_SubjectKey i, ls_Depth = depth,
                      ls_Reason = reason \<rparr> w of
             (Inl _, w') \<Rightarrow> (v, w')
           | (Inr run, w') \<Rightarrow> (v\<lparr> v_RunID := Some (run_ID run) \<rparr>, w'))
      | _ \<Rightarrow> (v, w))"

definition project_ceiling :: "faults \<Rightarrow> Project \<Rightarrow> World \<Rightarrow> int" where
  "project_ceiling f p w =
     (case prj_DailyBudgetCents p of Some c \<Rightarrow> c
      | None \<Rightarrow> (case Workspace_Get f w of Inr ws \<Rightarrow> ws_DefaultDailyBudgetCents ws | Inl _ \<Rightarrow> 0))"

definition project_over :: "faults \<Rightarrow> string \<Rightarrow> Project \<Rightarrow> World \<Rightarrow> Verdict option" where
  "project_over f day p w =
     (let c = project_ceiling f p w in
      if 0 < c then
        (case Budget_ProjectDay f day (prj_ID p) w of
           Inr spent \<Rightarrow> if c \<le> spent then Some (stop FiringBudgetExceeded (''budget exceeded: project '' @
               prj_Name p @ '' has spent '' @ cents spent @ '' of its '' @ cents c @ '' daily budget'')) else None
         | Inl _ \<Rightarrow> None)
      else None)"

fun agents_over :: "faults \<Rightarrow> string \<Rightarrow> string list \<Rightarrow> World \<Rightarrow> Verdict option" where
  "agents_over f day [] w = None"
| "agents_over f day (aid # aids) w =
     (case Agents_ByID f aid w of
        Inl _ \<Rightarrow> agents_over f day aids w
      | Inr a \<Rightarrow>
          (case ag_DailyCapCents a of
             None \<Rightarrow> agents_over f day aids w
           | Some c \<Rightarrow>
               if c \<le> 0 then agents_over f day aids w
               else (case Budget_AgentDay f day aid w of
                       Inl _ \<Rightarrow> agents_over f day aids w
                     | Inr spent \<Rightarrow>
                         if c \<le> spent then Some (stop FiringBudgetExceeded (''budget exceeded: agent '' @
                           ag_Name a @ '' has spent '' @ cents spent @ '' of its '' @ cents c @ '' daily cap''))
                         else agents_over f day aids w)))"

definition rule_over :: "faults \<Rightarrow> string \<Rightarrow> GuardConfig \<Rightarrow> string \<Rightarrow> World \<Rightarrow> Verdict option" where
  "rule_over f day cfg tid w =
     (case cfg_DailyBudgetCents cfg of
        None \<Rightarrow> None
      | Some c \<Rightarrow>
          if 0 < c then
            (case Budget_TriggerDay f day tid w of
               Inr spent \<Rightarrow> if c \<le> spent then Some (stop FiringBudgetExceeded
                   (''budget exceeded: this rule has spent '' @ cents spent @ '' of its '' @ cents c @ '' daily cap''))
                 else None
             | Inl _ \<Rightarrow> None)
          else None)"

definition orelse :: "'a option \<Rightarrow> 'a option \<Rightarrow> 'a option" where
  "orelse x y = (case x of Some v \<Rightarrow> Some v | None \<Rightarrow> y)"

definition checkBudget :: "faults \<Rightarrow> int \<Rightarrow> GuardInput \<Rightarrow> GuardConfig \<Rightarrow> World \<Rightarrow> Verdict option" where
  "checkBudget f now i cfg w =
     (case Projects_ByID f (tr_ProjectID (in_Trigger i)) w of
        Inl _ \<Rightarrow> None
      | Inr p \<Rightarrow> orelse (project_over f (Day now) p w)
          (orelse (agents_over f (Day now) (in_RunAgentIDs i) w)
             (rule_over f (Day now) cfg (tr_ID (in_Trigger i)) w)))"

definition budget_layer :: "faults \<Rightarrow> int \<Rightarrow> GuardInput \<Rightarrow> GuardConfig \<Rightarrow> GuardPass \<Rightarrow> World \<Rightarrow> Verdict \<times> World" where
  "budget_layer f now i cfg pass w =
     (case checkBudget f now i cfg w of Some v \<Rightarrow> (v, w) | None \<Rightarrow> (go_on pass, w))"

definition Evaluate :: "faults \<Rightarrow> int \<Rightarrow> loop_stopper option \<Rightarrow> GuardInput \<Rightarrow> World \<Rightarrow> Verdict \<times> World" where
  "Evaluate f now loop i w =
     (let cfg = loadConfig (tr_LoopConfig (in_Trigger i)); timed = 0 < cfg_DebounceSeconds cfg in
      if hasSkipToken (in_Payload i) then (stop FiringNoAction ''skip token'', w)
      else if actor_suppressed cfg i then (stop FiringNoAction ''actor suppressed'', w)
      else (case orelse (if timed then coalesceReview f i w else None) (if timed then debounce f now cfg i w else None) of
              Some v \<Rightarrow> (v, w)
            | None \<Rightarrow>
                (let pass = elect_superseded f cfg i w in
                 if 0 < cfg_DepthLimit cfg then
                   (case chainDepth f (in_Event i) (in_SubjectKey i) w of
                      Inl _ \<Rightarrow> budget_layer f now i cfg pass w
                    | Inr depth \<Rightarrow>
                        if cfg_DepthLimit cfg \<le> depth then stopLoop loop i depth (cfg_DepthLimit cfg) w
                        else budget_layer f now i cfg (pass\<lparr> gp_Depth := depth \<rparr>) w)
                 else budget_layer f now i cfg pass w)))"

section \<open>What a proceeding verdict means\<close>

lemma orelse_None [simp]: "orelse x y = None \<longleftrightarrow> x = None \<and> y = None"
  by (simp add: orelse_def split: option.split)

lemma orelse_Some: "orelse x y = Some v \<longleftrightarrow> x = Some v \<or> x = None \<and> y = Some v"
  by (auto simp: orelse_def split: option.split)

lemma elect_subject [simp]: "gp_SubjectKey (elect_superseded f cfg i w) = in_SubjectKey i"
  by (simp add: elect_superseded_def no_pass_def Let_def split: sum.split)

lemma absorbed_fields [simp]:
  "v_Proceed (absorbed_by r s) = False" "v_Outcome (absorbed_by r s) = Some FiringDebounced"
  by (simp_all add: absorbed_by_def)

lemma stopLoop_fields [simp]:
  "v_Proceed (fst (stopLoop loop i d l w)) = False"
  "v_Outcome (fst (stopLoop loop i d l w)) = Some FiringLoopStopped"
  by (simp_all add: stopLoop_def Let_def split: option.split list.split prod.split sum.split)

lemma timed_stops:
  "coalesceReview f i w = Some v \<Longrightarrow> v_Proceed v = False \<and> v_Outcome v = Some FiringDebounced"
  "debounce f now cfg i w = Some v \<Longrightarrow> v_Proceed v = False \<and> v_Outcome v = Some FiringDebounced"
  by (auto simp: coalesceReview_def debounce_def Let_def split: option.splits sum.splits if_splits)

lemma agents_over_stops:
  "agents_over f day ids w = Some v \<Longrightarrow> v_Proceed v = False \<and> v_Outcome v = Some FiringBudgetExceeded"
  by (induction ids) (auto split: sum.splits option.splits if_splits)

lemma budget_stops:
  "checkBudget f now i cfg w = Some v \<Longrightarrow> v_Proceed v = False \<and> v_Outcome v = Some FiringBudgetExceeded"
  by (auto simp: checkBudget_def project_over_def rule_over_def Let_def orelse_Some agents_over_stops
      split: sum.splits option.splits if_splits)

text \<open>The layers one by one: every stop says which, and only a verdict that no layer stopped goes on.\<close>

lemma Evaluate_proceeds:
  assumes "Evaluate f now loop i w = (v, w')" and "v_Proceed v"
  defines "cfg \<equiv> loadConfig (tr_LoopConfig (in_Trigger i))"
  shows "w' = w" and "gp_SubjectKey (v_Pass v) = in_SubjectKey i"
    and "\<not> hasSkipToken (in_Payload i)" and "\<not> actor_suppressed cfg i"
    and "0 < cfg_DebounceSeconds cfg \<Longrightarrow> coalesceReview f i w = None \<and> debounce f now cfg i w = None"
    and "0 < cfg_DepthLimit cfg \<Longrightarrow> chainDepth f (in_Event i) (in_SubjectKey i) w = Inr d \<Longrightarrow>
      d < cfg_DepthLimit cfg \<and> gp_Depth (v_Pass v) = d"
    and "checkBudget f now i cfg w = None" and "v_Outcome v = None"
  using assms(1,2) unfolding Evaluate_def Let_def cfg_def [symmetric]
  by (auto simp: budget_layer_def orelse_Some dest: timed_stops budget_stops
      split: if_splits option.splits sum.splits) (metis fst_conv stopLoop_fields(1))+

lemma Evaluate_stopped:
  assumes "Evaluate f now loop i w = (v, w')" and "\<not> v_Proceed v"
  shows "(w' = w \<and> v_Outcome v \<in> Some ` {FiringNoAction, FiringDebounced, FiringBudgetExceeded}) \<or>
    v_Outcome v = Some FiringLoopStopped \<and> (\<exists>d l. (v, w') = stopLoop loop i d l w \<and> 0 < l \<and> l \<le> d \<and>
      l = cfg_DepthLimit (loadConfig (tr_LoopConfig (in_Trigger i))) \<and>
      chainDepth f (in_Event i) (in_SubjectKey i) w = Inr d)"
  using assms unfolding Evaluate_def Let_def
  by (auto simp: budget_layer_def orelse_Some dest: timed_stops budget_stops
      split: if_splits option.splits sum.splits) (metis fst_conv stopLoop_fields(2))+

section \<open>Depth\<close>

text \<open>
  A causal chain above an event: each run caused the event below it, was not asked for by a human and
  is on the same subject; no human has acted on the subject since the event it caused.
\<close>

fun causal_chain :: "World \<Rightarrow> string \<Rightarrow> string \<Rightarrow> Event \<Rightarrow> Run list \<Rightarrow> bool" where
  "causal_chain w subj resetAt ev [] = True"
| "causal_chain w subj resetAt ev (r # rs) \<longleftrightarrow>
     \<not> (resetAt \<noteq> '''' \<and> ev_OccurredAt ev \<le> resetAt) \<and>
     (case ev_CauseRunID ev of None \<Rightarrow> False | Some rid \<Rightarrow> find_row run_ID rid (w_runs w) = Some r) \<and>
     run_RequestedByUserID r = None \<and> (run_SubjectKey r = '''' \<or> run_SubjectKey r = subj) \<and>
     (rs = [] \<or> (case run_CauseEventID r of None \<Rightarrow> False
        | Some eid \<Rightarrow> (case find_row ev_ID eid (w_events w) of None \<Rightarrow> False
            | Some e \<Rightarrow> causal_chain w subj resetAt e rs)))"

text \<open>The foreign keys of the causal columns.\<close>

definition refs_ok :: "World \<Rightarrow> bool" where
  "refs_ok w \<longleftrightarrow>
     (\<forall>e \<in> set (w_events w). case ev_CauseRunID e of None \<Rightarrow> True
        | Some rid \<Rightarrow> find_row run_ID rid (w_runs w) \<noteq> None) \<and>
     (\<forall>r \<in> set (w_runs w). case run_CauseEventID r of None \<Rightarrow> True
        | Some eid \<Rightarrow> find_row ev_ID eid (w_events w) \<noteq> None)"

lemma chain_walk_bounds:
  "chain_walk f subj reset w n ev d = Inr d' \<Longrightarrow> d \<le> d' \<and> d' \<le> d + int n"
proof (induction n arbitrary: ev d)
  case (Suc n)
  then show ?case by (auto split: if_splits option.splits sum.splits dest!: Suc.IH)
qed simp

lemma chain_walk_total:
  assumes "refs_ok w" and "ev \<in> set (w_events w)"
  shows "\<exists>d'. chain_walk no_faults subj reset w n ev d = Inr d'"
  using assms
proof (induction n arbitrary: ev d)
  case (Suc n)
  have run: "r \<in> set (w_runs w)" if "find_row run_ID rid (w_runs w) = Some r" for rid r
    using find_row_Some [OF that] by simp
  have event: "e \<in> set (w_events w)" if "find_row ev_ID eid (w_events w) = Some e" for eid e
    using find_row_Some [OF that] by simp
  have refs: "ev_CauseRunID ev = Some rid \<Longrightarrow> find_row run_ID rid (w_runs w) \<noteq> None"
    "r \<in> set (w_runs w) \<Longrightarrow> run_CauseEventID r = Some eid \<Longrightarrow> find_row ev_ID eid (w_events w) \<noteq> None" for rid r eid
    using Suc.prems by (auto simp: refs_ok_def split: option.splits)
  show ?case
    using Suc.IH [OF Suc.prems(1)] refs
    by (auto simp: Runs_ByID_def Events_ByID_def query_row_def split: option.split dest!: run event)
      (metis option.distinct(1))+
qed simp

lemma chain_walk_counts:
  assumes "refs_ok w" and "ev \<in> set (w_events w)" and "causal_chain w subj reset ev rs" and "length rs \<le> n"
    and "chain_walk no_faults subj reset w n ev d = Inr d'"
  shows "d + int (length rs) \<le> d'"
  using assms
proof (induction rs arbitrary: n ev d)
  case Nil
  then show ?case using chain_walk_bounds by fastforce
next
  case (Cons r rs)
  then obtain m where n: "n = Suc m" by (cases n) auto
  obtain rid where rid: "ev_CauseRunID ev = Some rid" "find_row run_ID rid (w_runs w) = Some r"
    using Cons.prems(3) by (auto split: option.splits)
  show ?case
  proof (cases "run_CauseEventID r")
    case None
    then have "rs = []" using Cons.prems(3) by (auto split: option.splits)
    then show ?thesis
      using Cons.prems(3,5) n None rid by (auto simp: Runs_ByID_def query_row_def split: if_splits)
  next
    case (Some eid)
    have "r \<in> set (w_runs w)" using find_row_Some [OF rid(2)] by simp
    then obtain e where e: "find_row ev_ID eid (w_events w) = Some e"
      using Cons.prems(1) Some by (fastforce simp: refs_ok_def split: option.splits)
    have walk: "chain_walk no_faults subj reset w m e (d + 1) = Inr d'"
      using Cons.prems(3,5) n Some rid e
      by (auto simp: Runs_ByID_def Events_ByID_def query_row_def no_faults_def split: if_splits)
    have "causal_chain w subj reset e rs"
      using Cons.prems(3) Some e by (cases rs) (auto split: option.splits)
    moreover have "e \<in> set (w_events w)" using find_row_Some [OF e] by simp
    ultimately have "d + 1 + int (length rs) \<le> d'"
      using Cons.IH [OF Cons.prems(1) _ _ _ walk] Cons.prems(4) n by simp
    then show ?thesis by simp
  qed
qed

text \<open>When a human last acted on the event's subject.\<close>

definition reset_at :: "Event \<Rightarrow> World \<Rightarrow> string" where
  "reset_at ev w = (case Events_NewestHumanActionAt no_faults (case ev_ProjectID ev of Some p \<Rightarrow> p | None \<Rightarrow> '''')
     (ev_SubjectKind ev) (ev_SubjectNumber ev) (ev_SubjectID ev) w of Inr t \<Rightarrow> t | Inl _ \<Rightarrow> '''')"

lemma chainDepth_reset: "chainDepth no_faults ev subj w = chain_walk no_faults subj (reset_at ev w) w 64 ev 0"
  by (simp add: chainDepth_def reset_at_def Events_NewestHumanActionAt_def query_def)

section \<open>A world with a causal chain\<close>

text \<open>Three runs of one rule on one pull request, each caused by the event the run before it caused.\<close>

definition guard_now :: int where
  "guard_now = 1767225600000000000"

definition chain_event :: "string \<Rightarrow> string option \<Rightarrow> Event" where
  "chain_event i cause = blank_Event\<lparr> ev_ID := i, ev_ProjectID := Some ''P'', ev_Kind := ''pull_request'',
     ev_ActorKind := ActorAgent, ev_SubjectKind := ''pr'', ev_SubjectNumber := Some 7, ev_CauseRunID := cause,
     ev_OccurredAt := ''2025-12-31T23:50:00.000Z'' \<rparr>"

definition chain_run :: "string \<Rightarrow> int \<Rightarrow> string \<Rightarrow> Run" where
  "chain_run i n cause = blank_Run\<lparr> run_ID := i, run_ProjectID := ''P'', run_AgentID := ''A'', run_Seq := n,
     run_TriggerID := Some ''T'', run_SubjectKey := ''pr:7'', run_State := RunCompleted,
     run_CauseEventID := Some cause, run_QueuedAt := FormatTime (guard_now - 200000000000) \<rparr>"

definition guard_world :: World where
  "guard_world = blank_World\<lparr>
     w_events := [chain_event ''e0'' None, chain_event ''e1'' (Some ''r1''), chain_event ''e2'' (Some ''r2''),
       chain_event ''e3'' (Some ''r3'')],
     w_runs := [chain_run ''r1'' 1 ''e0'', chain_run ''r2'' 2 ''e1'', chain_run ''r3'' 3 ''e2''],
     w_projects := [blank_Project\<lparr> prj_ID := ''P'', prj_DailyBudgetCents := Some 1000 \<rparr>],
     w_agents := [blank_Agent\<lparr> ag_ID := ''A'', ag_ProjectID := ''P'', ag_DailyCapCents := Some 500 \<rparr>],
     w_budget := [\<lparr> lr_Day = ''2026-01-01'', lr_ProjectID = ''P'', lr_AgentID = Some ''A'',
       lr_TriggerID = Some ''T'', lr_Cents = 120 \<rparr>] \<rparr>"

definition guard_input :: "Event \<Rightarrow> raw_json \<Rightarrow> GuardInput" where
  "guard_input ev cfg = \<lparr> in_Event = ev,
     in_Trigger = blank_Trigger\<lparr> tr_ID := ''T'', tr_ProjectID := ''P'', tr_LoopConfig := cfg \<rparr>,
     in_SubjectKey = ''pr:7'', in_Payload = [], in_RunAgentIDs = [''A''] \<rparr>"



text \<open>
  C23. The walk never counts more than 64 hops, so a depth limit above 64, which the editor accepts, never
  stops anything: with such a limit no firing is ever loop-stopped, even one whose causal chain is a cycle.
\<close>

theorem guard_depth_cap_hole:
  assumes "64 < cfg_DepthLimit (loadConfig (tr_LoopConfig (in_Trigger i)))"
  shows "v_Outcome (fst (Evaluate f now loop i w)) \<noteq> Some FiringLoopStopped"
proof
  obtain v w' where e: "Evaluate f now loop i w = (v, w')" by (meson surj_pair)
  assume a: "v_Outcome (fst (Evaluate f now loop i w)) = Some FiringLoopStopped"
  have "d \<le> 64" if "chainDepth f (in_Event i) (in_SubjectKey i) w = Inr d" for d
    using that chain_walk_bounds by (fastforce simp: chainDepth_def split: sum.splits)
  moreover have "\<not> v_Proceed v"
    using a e Evaluate_proceeds(8) [OF e] by auto
  ultimately show False using Evaluate_stopped [OF e] a assms e by fastforce
qed

theorem guard_depth_cap_hole_witness:
  "v_Outcome (fst (Evaluate no_faults guard_now None (guard_input (chain_event ''e3'' (Some ''r3''))
     (Raw (JObj [(''depth_limit'', JNum 65)]))) guard_world)) \<noteq> Some FiringLoopStopped"
proof -
  have "64 < cfg_DepthLimit (loadConfig (tr_LoopConfig (in_Trigger (guard_input (chain_event ''e3'' (Some ''r3''))
    (Raw (JObj [(''depth_limit'', JNum 65)]))))))" by code_simp
  then show ?thesis by (rule guard_depth_cap_hole)
qed

section \<open>Debounce and budget\<close>

lemma int64_id: "- (2 ^ 63) \<le> x \<Longrightarrow> x < 2 ^ 63 \<Longrightarrow> int64 x = x"
  by (simp add: int64_def)

text \<open>
  The debounce window is exact to the millisecond: when a firing goes on, every run its rule started
  on the same subject was queued before the window opened, so a rule starts at most one run per subject
  in any window. (A window is at most 9223372036 seconds, the seconds a 64-bit duration holds.)
\<close>

theorem guard_debounce_window:
  assumes "Evaluate f now loop i w = (v, w')" and "v_Proceed v"
    and "f ''Runs.LatestOnSubject'' (tr_ID (in_Trigger i)) = None"
    and "cfg_DebounceSeconds (loadConfig (tr_LoopConfig (in_Trigger i))) = secs"
    and "0 < secs" and "secs \<le> 9223372036"
    and "r \<in> set (w_runs w)" and "run_TriggerID r = Some (tr_ID (in_Trigger i))"
    and "run_SubjectKey r = in_SubjectKey i" and "run_State r \<noteq> RunLoopStopped"
    and "run_QueuedAt r = FormatTime q" and "in_years (ms_of q)"
    and "in_years (ms_of (now - secs * 1000000000))"
  shows "ms_of q < ms_of (now - secs * 1000000000)"
proof -
  have "int64 (- secs * 1000000000) = - secs * 1000000000"
    using assms(5,6) by (intro int64_id) simp_all
  then have cut: "debounce_cutoff now secs = stamp (ms_of (now - secs * 1000000000))"
    by (simp add: debounce_cutoff_def FormatTime_def)
  have "debounce f now (loadConfig (tr_LoopConfig (in_Trigger i))) i w = None"
    using Evaluate_proceeds(5) [OF assms(1,2)] assms(4,5) by simp
  then have "\<not> debounce_cutoff now secs \<le> run_QueuedAt r"
    using assms(3,4,7-10)
    by (auto simp: debounce_def Runs_LatestOnSubject_def query_row_def newest_by_None filter_empty_conv
        split: option.splits sum.splits)
  then show ?thesis
    unfolding cut assms(11) using stamp_le_iff [OF assms(13,12)] by (simp add: FormatTime_def)
qed

theorem guard_debounce_window_witness:
  "ms_of (guard_now - 200000000000) < ms_of (guard_now - 90 * 1000000000)"
proof -
  let ?i = "guard_input (chain_event ''e0'' None) RawEmpty"
  let ?ev = "Evaluate no_faults guard_now None ?i guard_world"
  have e: "?ev = (fst ?ev, snd ?ev)" and p: "v_Proceed (fst ?ev)" by (simp, code_simp)
  have c: "cfg_DebounceSeconds (loadConfig (tr_LoopConfig (in_Trigger ?i))) = 90" by code_simp
  have r: "chain_run ''r3'' 3 ''e2'' \<in> set (w_runs guard_world)" by (simp add: guard_world_def)
  have f: "run_TriggerID (chain_run ''r3'' 3 ''e2'') = Some (tr_ID (in_Trigger ?i))"
    "run_SubjectKey (chain_run ''r3'' 3 ''e2'') = in_SubjectKey ?i"
    "run_State (chain_run ''r3'' 3 ''e2'') \<noteq> RunLoopStopped"
    "run_QueuedAt (chain_run ''r3'' 3 ''e2'') = FormatTime (guard_now - 200000000000)"
    by (simp_all add: chain_run_def guard_input_def)
  have y: "in_years (ms_of (guard_now - 200000000000))" "in_years (ms_of (guard_now - 90 * 1000000000))" by code_simp+
  show ?thesis
    using guard_debounce_window [OF e p _ c _ _ r f y] by simp
qed

lemma agents_over_None:
  assumes "agents_over no_faults day ids w = None" and "aid \<in> set ids"
    and "find_row ag_ID aid (w_agents w) = Some a" and "ag_DailyCapCents a = Some c" and "0 < c"
  shows "sum_cents (\<lambda>l. lr_Day l = day \<and> lr_AgentID l = Some aid) (w_budget w) < c"
  using assms
  by (induction ids)
    (auto simp: Agents_ByID_def Budget_AgentDay_def query_row_def query_def split: option.splits sum.splits if_splits)

text \<open>
  A firing that goes on is within every daily budget: the project's spend of the day is below its
  ceiling, that of every agent the rule would run below its cap, and the rule's own below its own.
\<close>

theorem guard_budget_enforced:
  assumes "Evaluate no_faults now loop i w = (v, w')" and "v_Proceed v"
    and "find_row prj_ID (tr_ProjectID (in_Trigger i)) (w_projects w) = Some p"
  shows "(0 < project_ceiling no_faults p w \<longrightarrow>
      sum_cents (\<lambda>l. lr_Day l = Day now \<and> lr_ProjectID l = prj_ID p) (w_budget w) < project_ceiling no_faults p w) \<and>
    (\<forall>aid \<in> set (in_RunAgentIDs i). \<forall>a c. find_row ag_ID aid (w_agents w) = Some a \<longrightarrow>
      ag_DailyCapCents a = Some c \<longrightarrow> 0 < c \<longrightarrow>
      sum_cents (\<lambda>l. lr_Day l = Day now \<and> lr_AgentID l = Some aid) (w_budget w) < c) \<and>
    (\<forall>c. cfg_DailyBudgetCents (loadConfig (tr_LoopConfig (in_Trigger i))) = Some c \<longrightarrow> 0 < c \<longrightarrow>
      sum_cents (\<lambda>l. lr_Day l = Day now \<and> lr_TriggerID l = Some (tr_ID (in_Trigger i))) (w_budget w) < c)"
proof -
  have b: "project_over no_faults (Day now) p w = None"
    "agents_over no_faults (Day now) (in_RunAgentIDs i) w = None"
    "rule_over no_faults (Day now) (loadConfig (tr_LoopConfig (in_Trigger i))) (tr_ID (in_Trigger i)) w = None"
    using Evaluate_proceeds(7) [OF assms(1,2)] assms(3)
    by (simp_all add: checkBudget_def Projects_ByID_def query_row_def)
  then show ?thesis
    using agents_over_None [OF b(2)]
    by (auto simp: project_over_def rule_over_def Let_def Budget_ProjectDay_def Budget_TriggerDay_def query_def
        split: if_splits)
qed

theorem guard_budget_enforced_witness:
  "v_Proceed (fst (Evaluate no_faults guard_now None (guard_input (chain_event ''e0'' None) RawEmpty) guard_world)) \<and>
   sum_cents (\<lambda>l. lr_Day l = Day guard_now \<and> lr_AgentID l = Some ''A'') (w_budget guard_world) < 500"
proof -
  let ?i = "guard_input (chain_event ''e0'' None) RawEmpty"
  let ?ev = "Evaluate no_faults guard_now None ?i guard_world"
  have e: "?ev = (fst ?ev, snd ?ev)" and p: "v_Proceed (fst ?ev)" by (simp, code_simp)
  have proj: "find_row prj_ID (tr_ProjectID (in_Trigger ?i)) (w_projects guard_world) = Some (w_projects guard_world ! 0)"
    by code_simp
  have a: "find_row ag_ID ''A'' (w_agents guard_world) = Some (w_agents guard_world ! 0)"
    "ag_DailyCapCents (w_agents guard_world ! 0) = Some 500" "''A'' \<in> set (in_RunAgentIDs ?i)" by code_simp+
  show ?thesis
    using guard_budget_enforced [OF e p proj] p a by simp
qed

section \<open>The contract of an evaluator\<close>

text \<open>
  The rows the engine answers for: the rules, and which firing is of which (trigger, event) pair. The
  outcome of a firing may change later (a superseded run marks it), its pair never.
\<close>

definition rule_rows :: "World \<Rightarrow> Trigger list \<times> (string \<times> string \<times> string) list" where
  "rule_rows w = (w_triggers w, map (\<lambda>x. (tf_ID x, tf_TriggerID x, tf_EventID x)) (w_firings w))"

definition fired_pairs :: "World \<Rightarrow> (string \<times> string) list" where
  "fired_pairs w = map snd (snd (rule_rows w))"

lemma rule_rows_updates [simp]:
  "rule_rows (w_runs_update g1 w) = rule_rows w" "rule_rows (w_audit_update g2 w) = rule_rows w"
  "rule_rows (w_frames_update g3 w) = rule_rows w" "rule_rows (w_effects_update g4 w) = rule_rows w"
  "rule_rows (w_activities_update g5 w) = rule_rows w" "rule_rows (w_context_update g6 w) = rule_rows w"
  "rule_rows (w_stream_update g7 w) = rule_rows w" "rule_rows (w_messages_update g8 w) = rule_rows w"
  "rule_rows (w_elicitations_update g9 w) = rule_rows w" "rule_rows (w_tickets_update g10 w) = rule_rows w"
  by (simp_all add: rule_rows_def)

lemma rule_rows_exec: "(\<And>v. rule_rows (upd v) = rule_rows v) \<Longrightarrow> rule_rows (snd (exec f s k x upd w)) = rule_rows w"
  by (simp add: exec_def split: option.split)

lemma rule_rows_exec_one:
  "(\<And>v. rule_rows (upd v) = rule_rows v) \<Longrightarrow> rule_rows (snd (exec_one f s k n upd w)) = rule_rows w"
  by (simp add: exec_one_def split: option.split)

lemma rule_rows_core:
  assumes "core w' = core w"
  shows "rule_rows w' = rule_rows w"
  by (simp add: rule_rows_def core_fields [OF assms])

lemma fired_iff: "fired w tid eid \<longleftrightarrow> (tid, eid) \<in> set (fired_pairs w)"
  by (auto simp: fired_def fired_pairs_def rule_rows_def list_ex_iff)

lemma Supersede_rows [simp]: "rule_rows (snd (Firings_Supersede f tid rid a reason w)) = rule_rows w"
  unfolding Firings_Supersede_def by (rule rule_rows_exec) (simp add: rule_rows_def update_where_def)

lemma Tx_rows:
  assumes "\<And>v. rule_rows (snd (body v)) = rule_rows v"
  shows "rule_rows (snd (Tx f body w)) = rule_rows w"
  using assms [of w] by (auto simp: Tx_def split: option.split prod.split sum.split)

lemma emit_frame_rows [simp]: "rule_rows (emit_frame fr w) = rule_rows w"
  by (simp add: emit_frame_def)

lemma emitRunState_rows [simp]: "rule_rows (emitRunState r w) = rule_rows w"
  by (rule rule_rows_core) simp

lemma audit_write_rows [simp]: "rule_rows (snd (audit_write f e w)) = rule_rows w"
  by (rule rule_rows_core) simp

lemma Create_rows [simp]: "rule_rows (snd (Runs_Create f r w)) = rule_rows w"
  by (simp add: Runs_Create_def rule_rows_exec)

lemma loop_stopped_tx_rows: "rule_rows (snd (loop_stopped_tx env run w)) = rule_rows w"
proof (cases "Runs_NextSeq (e_faults env) (run_ProjectID run) w")
  case (Inr n)
  obtain r w1 where "Runs_Create (e_faults env) (run\<lparr> run_Seq := n \<rparr>) w = (r, w1)" by (meson surj_pair)
  moreover from this have "rule_rows w1 = rule_rows w" using Create_rows by (metis snd_conv)
  ultimately show ?thesis using Inr by (simp add: loop_stopped_tx_def split: sum.split)
qed (simp add: loop_stopped_tx_def)

lemma EnqueueLoopStopped_rows [simp]: "rule_rows (snd (EnqueueLoopStopped env sandbox i req w)) = rule_rows w"
proof (cases "(ls_ProjectID req = [] \<or> ls_AgentID req = []) \<or> (\<exists>e. Agents_ByID (e_faults env) (ls_AgentID req) w = Inl e)")
  case False
  then obtain agent where a: "Agents_ByID (e_faults env) (ls_AgentID req) w = Inr agent"
    and req: "ls_ProjectID req \<noteq> []" "ls_AgentID req \<noteq> []" by (metis sumE)
  obtain r w1 where t: "Tx (e_faults env) (loop_stopped_tx env (loop_stopped_run env sandbox i agent req)) w = (r, w1)"
    by (meson surj_pair)
  have w1: "rule_rows w1 = rule_rows w"
    using Tx_rows [of "loop_stopped_tx env (loop_stopped_run env sandbox i agent req)" "e_faults env" w]
      loop_stopped_tx_rows t by simp
  show ?thesis
  proof (cases r)
    case (Inr run)
    obtain x w2 where au: "audit_write (e_faults env) (loop_stopped_audit run req) w1 = (x, w2)" by (meson surj_pair)
    then have "rule_rows w2 = rule_rows w"
      using w1 audit_write_rows [of "e_faults env" "loop_stopped_audit run req" w1] by simp
    then show ?thesis using req by (cases x) (simp_all add: EnqueueLoopStopped_def a t Inr au)
  qed (simp add: EnqueueLoopStopped_def a req t w1)
qed (auto simp: EnqueueLoopStopped_def)

text \<open>
  What the trigger engine relies on: evaluating neither edits rules nor writes firings, a verdict that
  goes on has written nothing and carries the subject, a verdict that stops names its outcome.
\<close>

locale guard_evaluator =
  fixes evaluate :: "GuardInput \<Rightarrow> World \<Rightarrow> Verdict \<times> World"
  assumes evaluate_rows: "rule_rows (snd (evaluate i w)) = rule_rows w"
    and go_on_pure: "v_Proceed (fst (evaluate i w)) \<Longrightarrow> snd (evaluate i w) = w"
    and go_on_subject: "v_Proceed (fst (evaluate i w)) \<Longrightarrow> gp_SubjectKey (v_Pass (fst (evaluate i w))) = in_SubjectKey i"
    and stop_named: "\<not> v_Proceed (fst (evaluate i w)) \<Longrightarrow> v_Outcome (fst (evaluate i w)) \<noteq> None"

interpretation pass: guard_evaluator Pass_Evaluate
  by unfold_locales (simp_all add: Pass_Evaluate_def go_on_def no_pass_def)

definition scheduler_stopper :: "Env \<Rightarrow> string \<Rightarrow> string \<Rightarrow> loop_stopper option" where
  "scheduler_stopper env sandbox newid = Some (EnqueueLoopStopped env sandbox newid)"

lemma stopLoop_rows: "rule_rows (snd (stopLoop (scheduler_stopper env sandbox newid) i d l w)) = rule_rows w"
proof -
  have e: "EnqueueLoopStopped env sandbox newid req w = (r, w') \<Longrightarrow> rule_rows w' = rule_rows w" for req r w'
    using EnqueueLoopStopped_rows by (metis snd_conv)
  show ?thesis
    by (auto simp: stopLoop_def scheduler_stopper_def Let_def split: list.split prod.split sum.split dest!: e)
qed

interpretation layers: guard_evaluator "Evaluate f now (scheduler_stopper env sandbox newid)" for f now env sandbox newid
proof (unfold_locales, goal_cases)
  case (1 i w)
  obtain v w' where e: "Evaluate f now (scheduler_stopper env sandbox newid) i w = (v, w')" by (meson surj_pair)
  show ?case
  proof (cases "v_Proceed v")
    case True
    then show ?thesis using Evaluate_proceeds(1) [OF e] e by simp
  next
    case False
    from Evaluate_stopped [OF e False] show ?thesis
      using e stopLoop_rows by (auto dest!: sym [of "(v, w')"]) (metis snd_conv)
  qed
next
  case (2 i w)
  then show ?case using Evaluate_proceeds(1) by (metis prod.collapse)
next
  case (3 i w)
  then show ?case using Evaluate_proceeds(2) by (metis prod.collapse)
next
  case (4 i w)
  then show ?case using Evaluate_stopped by (metis imageE option.distinct(1) prod.collapse)
qed

end
