(* ===== verification/RunSink.thy ===== *)
theory RunSink
  imports RunEnd
begin

text \<open>
  What a running run writes (\<^verbatim>\<open>internal/kernel/sched/sink.go\<close>, the steering half of
  \<^verbatim>\<open>supervisor.go\<close>, the redactor of \<^verbatim>\<open>scheduler.go\<close>): the sink the runtime adapter
  reports to, the provisioning checklist, the delivery of steering messages, and the step cap.
\<close>

section \<open>The run sink\<close>

record Sink =
  k_run :: Run
  k_maxSteps :: int
  k_seqMap :: "int \<Rightarrow> int option"
  k_actions :: int
  k_capped :: bool

definition newRunSink :: "Run \<Rightarrow> Agent \<Rightarrow> Sink" where
  "newRunSink run agent = \<lparr> k_run = run, k_maxSteps = ag_MaxSteps agent, k_seqMap = Map.empty,
     k_actions = 0, k_capped = False \<rparr>"

definition cap_reason :: "int \<Rightarrow> string" where
  "cap_reason n = ''step cap reached: the agent took more than '' @ fmt_int n @ '' steps''"

text \<open>
  An adapter activity: a sequence number seen before updates its row, a new one appends a row and,
  for an action, counts a step and may reach the step cap, which stops the run once. A row that was
  written is published.
\<close>

definition sink_stamp :: "Env \<Rightarrow> Sink \<Rightarrow> Activity \<Rightarrow> Activity" where
  "sink_stamp env k a = a\<lparr> act_RunID := run_ID (k_run k),
     act_CreatedAt := (if act_CreatedAt a = [] then e_now env else act_CreatedAt a),
     act_Attempt := (if act_Attempt a = 0 then 1 else act_Attempt a) \<rparr>"

definition sink_count :: "Env \<Rightarrow> Activity \<Rightarrow> int \<Rightarrow> Sink \<times> Sup \<times> World \<Rightarrow> Sink \<times> Sup \<times> World" where
  "sink_count env a adapterSeq s =
     (case s of (k, sv, w) \<Rightarrow>
      let newAction = (act_Type a = ActivityAction);
          actions = (if newAction then k_actions k + 1 else k_actions k);
          overCap = (newAction \<and> 0 < k_maxSteps k \<and> k_maxSteps k < actions \<and> \<not> k_capped k);
          k' = k\<lparr> k_seqMap := (k_seqMap k)(adapterSeq \<mapsto> act_Seq a), k_actions := actions,
                  k_capped := (k_capped k \<or> overCap) \<rparr>;
          w' = (if newAction then snd (Runs_SetStepCount (e_faults env) (run_ID (k_run k)) actions w) else w);
          sv' = (if overCap then requestStop RunFailed (cap_reason (k_maxSteps k)) sv else sv)
      in (k', sv', w'))"

definition Sink_Activity :: "Env \<Rightarrow> Activity \<Rightarrow> Sink \<times> Sup \<times> World \<Rightarrow> Sink \<times> Sup \<times> World" where
  "Sink_Activity env a0 s =
     (case s of (k, sv, w) \<Rightarrow>
      let a = sink_stamp env k a0
      in case k_seqMap k (act_Seq a0) of
           Some n \<Rightarrow>
             (case Activities_Update (e_faults env) (a\<lparr> act_Seq := n \<rparr>) w of
                (Inl _, w') \<Rightarrow> (k, sv, w')
              | (Inr _, w') \<Rightarrow> (k, sv, emit_frame (RunActivityFrame (a\<lparr> act_Seq := n \<rparr>)) w'))
         | None \<Rightarrow>
             (case Activities_AppendNext (e_faults env) a w of
                (Inl _, w') \<Rightarrow> (k, sv, w')
              | (Inr a', w') \<Rightarrow>
                  (case sink_count env a' (act_Seq a0) (k, sv, w') of
                     (k', sv', w'') \<Rightarrow> (k', sv', emit_frame (RunActivityFrame a') w''))))"

definition Sink_CurrentStep :: "Env \<Rightarrow> string \<Rightarrow> Sink \<Rightarrow> World \<Rightarrow> World" where
  "Sink_CurrentStep env step k w =
     emit_frame (RunStepFrame (run_ID (k_run k)) step)
       (snd (Runs_SetCurrentStep (e_faults env) (run_ID (k_run k)) step w))"

definition Sink_Usage :: "Env \<Rightarrow> UsageDelta \<Rightarrow> Sink \<Rightarrow> World \<Rightarrow> World" where
  "Sink_Usage env d k w =
     (let w1 = snd (Runs_AddUsage (e_faults env) (run_ID (k_run k)) d w);
          trig = (case run_TriggerID (k_run k) of None \<Rightarrow> '''' | Some t \<Rightarrow> t);
          w2 = snd (Budget_Add (e_faults env) (e_day env) (run_ProjectID (k_run k)) (run_AgentID (k_run k))
                 trig (ud_CostCents d) w1)
      in emit_frame (RunUsageFrame (run_ID (k_run k)) d) w2)"

definition Sink_Elicit :: "Env \<Rightarrow> string \<Rightarrow> Elicitation \<Rightarrow> Sink \<Rightarrow> World \<Rightarrow> unit res \<times> World" where
  "Sink_Elicit env newid el0 k w =
     (let el = el0\<lparr> el_ID := (if el_ID el0 = [] then newid else el_ID el0), el_RunID := run_ID (k_run k),
                    el_CreatedAt := (if el_CreatedAt el0 = [] then e_now env else el_CreatedAt el0) \<rparr>
      in case Elicitations_Create (e_faults env) el w of
           (Inl e, w') \<Rightarrow> (Inl e, w')
         | (Inr _, w') \<Rightarrow>
             (Inr (), emit_frame (RunElicitationFrame (el_ID el) (el_RunID el) (el_Kind el) (el_State el))
                (snd (SetRunState env (run_ID (k_run k))
                   (if el_Kind el = ElicitationApproval then RunAwaitingApproval else RunNeedsInput)
                   ''waiting for an answer'' w'))))"

definition Sink_Output :: "Env \<Rightarrow> Ports \<Rightarrow> string \<Rightarrow> RunOutput \<Rightarrow> Sink \<Rightarrow> World \<Rightarrow> World" where
  "Sink_Output env ports newid out0 k w =
     (let out = out0\<lparr> ro_ID := (if ro_ID out0 = [] then newid else ro_ID out0), ro_RunID := run_ID (k_run k),
                      ro_CreatedAt := (if ro_CreatedAt out0 = [] then e_now env else ro_CreatedAt out0) \<rparr>
      in case RunOutputs_Append (e_faults env) out w of
           (Inl _, w') \<Rightarrow> w'
         | (Inr _, w') \<Rightarrow>
             (case run_TicketID (k_run k) of
                None \<Rightarrow> w'
              | Some tid \<Rightarrow>
                  if ro_Kind out = OutputPullRequest
                  then moveTicket ports tid CategoryReview ''the run opened a pull request'' w' else w'))"

definition Sink_Offset :: "Env \<Rightarrow> int \<Rightarrow> Sink \<Rightarrow> World \<Rightarrow> World" where
  "Sink_Offset env n k w = snd (Runs_SetLogOffset (e_faults env) (run_ID (k_run k)) n w)"

section \<open>The provisioning sink\<close>

type_synonym redactor = "string list"

definition redactor_add :: "string list \<Rightarrow> redactor \<Rightarrow> redactor" where
  "redactor_add vs r = r @ filter (\<lambda>v. 4 \<le> length v) vs"

definition bullets :: string where
  "bullets = concat (replicate 3 [CHR 0xE2, CHR 0x80, CHR 0xA2])"

definition redactor_clean :: "redactor \<Rightarrow> string \<Rightarrow> string" where
  "redactor_clean r s = fold (\<lambda>v s. replace_all s v bullets) r s"

datatype StepState = StepPending | StepRunning | StepOK | StepFailed

fun StepState_str :: "StepState \<Rightarrow> string" where
  "StepState_str StepPending = ''pending''"
| "StepState_str StepRunning = ''running''"
| "StepState_str StepOK = ''ok''"
| "StepState_str StepFailed = ''failed''"

record ProvisionSink =
  pv_run :: Run
  pv_red :: redactor
  pv_steps :: "string \<Rightarrow> int option"

definition step_activity :: "Env \<Rightarrow> ProvisionSink \<Rightarrow> string \<Rightarrow> StepState \<Rightarrow> string \<Rightarrow> Activity" where
  "step_activity env p name st detail = blank_Activity\<lparr>
     act_RunID := run_ID (pv_run p), act_Type := ActivityProvision, act_Level := 1,
     act_GroupKey := ''provision'', act_Title := name,
     act_Payload := Raw (JObj [(''detail'', JStr detail), (''state'', JStr (StepState_str st)), (''step'', JStr name)]),
     act_OK := (case st of StepOK \<Rightarrow> Some True | StepFailed \<Rightarrow> Some False | _ \<Rightarrow> None),
     act_Attempt := 1, act_CreatedAt := e_now env \<rparr>"

definition Provision_Step ::
  "Env \<Rightarrow> string \<Rightarrow> StepState \<Rightarrow> string \<Rightarrow> ProvisionSink \<times> World \<Rightarrow> ProvisionSink \<times> World" where
  "Provision_Step env name st detail0 s =
     (case s of (p, w) \<Rightarrow>
      let detail = redactor_clean (pv_red p) detail0;
          a = step_activity env p name st detail;
          frame = ProvisionStepFrame (run_ID (pv_run p)) name (StepState_str st) detail
      in case pv_steps p name of
           Some n \<Rightarrow> (p, emit_frame frame (snd (Activities_Update (e_faults env) (a\<lparr> act_Seq := n \<rparr>) w)))
         | None \<Rightarrow>
             (case Activities_AppendNext (e_faults env) a w of
                (Inl _, w') \<Rightarrow> (p, w')
              | (Inr a', w') \<Rightarrow> (p\<lparr> pv_steps := (pv_steps p)(name \<mapsto> act_Seq a') \<rparr>, emit_frame frame w')))"

definition Provision_Log :: "Env \<Rightarrow> string \<Rightarrow> ProvisionSink \<Rightarrow> World \<Rightarrow> World" where
  "Provision_Log env line0 p w =
     (let line = redactor_clean (pv_red p) line0
      in snd (Activities_AppendNext (e_faults env)
           (blank_Activity\<lparr> act_RunID := run_ID (pv_run p), act_Type := ActivityProvision, act_Level := 2,
              act_GroupKey := ''provision'', act_Title := truncate_runes line 200,
              act_Payload := Raw (JObj [(''line'', JStr line)]), act_Attempt := 1,
              act_CreatedAt := e_now env \<rparr>) w))"

section \<open>Steering\<close>

text \<open>\<^verbatim>\<open>accepts\<close> is the adapter's \<^verbatim>\<open>Steer\<close>: whether it takes the message.\<close>

fun drain :: "Env \<Rightarrow> (RunMessage \<Rightarrow> bool) \<Rightarrow> string \<Rightarrow> RunMessage list \<Rightarrow> World \<Rightarrow> World" where
  "drain env accepts i [] w = w"
| "drain env accepts i (m # ms) w =
     (if \<not> accepts m then w
      else drain env accepts i ms
             (emit_frame (RunMessageFrame (rm_ID m) i (e_now env))
                (snd (RunMessages_MarkDelivered (e_faults env) (rm_ID m) (e_now env) w))))"

definition drainSteering :: "Env \<Rightarrow> (RunMessage \<Rightarrow> bool) \<Rightarrow> Sup \<Rightarrow> string \<Rightarrow> World \<Rightarrow> World" where
  "drainSteering env accepts sv i w =
     (if \<not> sup_handle sv then w
      else (case RunMessages_QueuedForRun (e_faults env) i w of
              Inl _ \<Rightarrow> w
            | Inr [] \<Rightarrow> w
            | Inr msgs \<Rightarrow>
                (case Runs_ByID (e_faults env) i w of
                   Inl _ \<Rightarrow> w
                 | Inr _ \<Rightarrow> drain env accepts i msgs w)))"

section \<open>The step cap\<close>

text \<open>The reference count: actions whose adapter sequence number was not seen before.\<close>

fun fresh_actions :: "int set \<Rightarrow> Activity list \<Rightarrow> int" where
  "fresh_actions seen [] = 0"
| "fresh_actions seen (a # as) =
     (if act_Seq a \<notin> seen \<and> act_Type a = ActivityAction then 1 else 0) +
     fresh_actions (insert (act_Seq a) seen) as"

lemma fresh_actions_nonneg [simp]: "0 \<le> fresh_actions seen as"
  by (induction as arbitrary: seen) auto

lemma emit_frame_runs [simp, frame_simps]: "w_runs (emit_frame fr w) = w_runs w"
  by (simp add: emit_frame_def)

definition over_cap :: "Sink \<Rightarrow> bool" where
  "over_cap k \<longleftrightarrow> 0 < k_maxSteps k \<and> k_maxSteps k < k_actions k"

text \<open>One activity: a known number changes nothing here, a fresh action counts one step.\<close>

lemma Sink_Activity_step:
  assumes "\<And>s x. e_faults env s x = None" and "Sink_Activity env a (k, sv, w) = (k', sv', w')"
    and "k_capped k = over_cap k"
  shows "k_run k' = k_run k \<and> k_maxSteps k' = k_maxSteps k \<and>
    dom (k_seqMap k') = insert (act_Seq a) (dom (k_seqMap k)) \<and>
    k_actions k' = k_actions k + fresh_actions (dom (k_seqMap k)) [a] \<and>
    k_capped k' = over_cap k' \<and>
    sv' = (if over_cap k' \<and> \<not> over_cap k then requestStop RunFailed (cap_reason (k_maxSteps k)) sv else sv) \<and>
    run_of w' (run_ID (k_run k)) = map_option
      (\<lambda>r. if fresh_actions (dom (k_seqMap k)) [a] = 0 then r else r\<lparr> run_StepCount := k_actions k' \<rparr>)
      (run_of w (run_ID (k_run k)))"
proof (cases "k_seqMap k (act_Seq a)")
  case (Some n)
  then have "k' = k \<and> sv' = sv \<and> w_runs w' = w_runs w"
    using assms(1,2)
    by (auto simp: Sink_Activity_def Let_def Activities_Update_def exec_one_def split: if_splits)
  moreover have "act_Seq a \<in> dom (k_seqMap k)" using Some by (rule domI)
  ultimately show ?thesis using assms(3) by (auto simp: run_of_def option.map_ident)
next
  case None
  then have fresh: "act_Seq a \<notin> dom (k_seqMap k)" by (simp add: domIff)
  define b where "b = sink_stamp env k a \<lparr> act_Seq := max_seq (run_ID (k_run k)) w + 1 \<rparr>"
  define w1 where "w1 = w_activities_update (\<lambda>t. t @ [stored_activity b]) w"
  have b: "act_Type b = act_Type a" by (simp add: b_def sink_stamp_def)
  have app: "Activities_AppendNext (e_faults env) (sink_stamp env k a) w = (Inr b, w1)"
    by (simp add: Activities_AppendNext_def Let_def exec_def assms(1) b_def w1_def sink_stamp_def)
  obtain w2 where c: "sink_count env b (act_Seq a) (k, sv, w1) = (k', sv', w2)"
    and w': "w' = emit_frame (RunActivityFrame b) w2"
    using assms(2) None app by (auto simp: Sink_Activity_def Let_def split: prod.splits)
  show ?thesis
  proof (cases "act_Type a = ActivityAction")
    case True
    let ?n = "k_actions k + 1"
    have k': "k' = k\<lparr> k_seqMap := (k_seqMap k)(act_Seq a \<mapsto> act_Seq b), k_actions := ?n,
        k_capped := (k_capped k \<or> 0 < k_maxSteps k \<and> k_maxSteps k < ?n \<and> \<not> k_capped k) \<rparr>"
      and sv': "sv' = (if 0 < k_maxSteps k \<and> k_maxSteps k < ?n \<and> \<not> k_capped k
        then requestStop RunFailed (cap_reason (k_maxSteps k)) sv else sv)"
      and w2: "w2 = snd (Runs_SetStepCount (e_faults env) (run_ID (k_run k)) ?n w1)"
      using c b True by (auto simp: sink_count_def Let_def)
    have "w_runs w' = update_where (\<lambda>r. run_ID r = run_ID (k_run k) \<and> True) (run_StepCount_update (\<lambda>_. ?n)) (w_runs w)"
      by (simp add: w' w2 w1_def Runs_SetStepCount_def exec_def assms(1))
    then have "run_of w' (run_ID (k_run k)) = run_of (w_runs_update
        (update_where (\<lambda>r. run_ID r = run_ID (k_run k) \<and> True) (run_StepCount_update (\<lambda>_. ?n))) w) (run_ID (k_run k))"
      by (simp add: run_of_def)
    also have "\<dots> = map_option (run_StepCount_update (\<lambda>_. ?n)) (run_of w (run_ID (k_run k)))"
      by (subst run_of_update_where) simp_all
    finally show ?thesis
      using k' sv' fresh True assms(3) by (auto simp: over_cap_def)
  next
    case False
    then have "k' = k\<lparr> k_seqMap := (k_seqMap k)(act_Seq a \<mapsto> act_Seq b) \<rparr>" "sv' = sv" "w2 = w1"
      using c b by (auto simp: sink_count_def Let_def)
    then show ?thesis
      using fresh False assms(3) by (auto simp: over_cap_def w' w1_def run_of_def option.map_ident)
  qed
qed

lemma requestStop_idem [simp]: "requestStop k why (requestStop k' why' sv) = requestStop k' why' sv"
  by (simp add: requestStop_def)

lemma Sink_fold:
  assumes "\<And>s x. e_faults env s x = None"
  shows "\<lbrakk>fold (Sink_Activity env) as (k, sv, w) = (k', sv', w'); k_capped k = over_cap k\<rbrakk> \<Longrightarrow>
    k_run k' = k_run k \<and> k_maxSteps k' = k_maxSteps k \<and>
    k_actions k' = k_actions k + fresh_actions (dom (k_seqMap k)) as \<and> k_capped k' = over_cap k' \<and>
    sv' = (if over_cap k' \<and> \<not> over_cap k then requestStop RunFailed (cap_reason (k_maxSteps k)) sv else sv) \<and>
    run_of w' (run_ID (k_run k)) = map_option
      (\<lambda>r. if fresh_actions (dom (k_seqMap k)) as = 0 then r else r\<lparr> run_StepCount := k_actions k' \<rparr>)
      (run_of w (run_ID (k_run k)))"
proof (induction as arbitrary: k sv w)
  case Nil
  then show ?case by (auto simp: option.map_ident)
next
  case (Cons a as)
  obtain k1 sv1 w1 where s: "Sink_Activity env a (k, sv, w) = (k1, sv1, w1)" by (metis prod_cases3)
  note one = Sink_Activity_step [OF assms s Cons.prems(2)]
  have f: "fold (Sink_Activity env) as (k1, sv1, w1) = (k', sv', w')" using Cons.prems(1) s by simp
  note ih = Cons.IH [OF f]
  have c1: "k_capped k1 = over_cap k1" using one by blast
  let ?x = "fresh_actions (dom (k_seqMap k)) [a]" and ?y = "fresh_actions (dom (k_seqMap k1)) as"
  have split: "fresh_actions (dom (k_seqMap k)) (a # as) = ?x + ?y" using one by simp
  have nonneg: "0 \<le> ?x" "0 \<le> ?y" by (rule fresh_actions_nonneg)+
  have acts: "k_actions k1 = k_actions k + ?x" "k_actions k' = k_actions k1 + ?y"
    and max: "k_maxSteps k1 = k_maxSteps k" "k_maxSteps k' = k_maxSteps k1"
    using one ih [OF c1] by blast+
  then have act: "k_actions k' = k_actions k + (?x + ?y)" by linarith
  have mono: "over_cap k1 \<Longrightarrow> over_cap k'" "over_cap k \<Longrightarrow> over_cap k1"
    unfolding over_cap_def acts max using nonneg by linarith+
  have sv1: "sv1 = (if over_cap k1 \<and> \<not> over_cap k then requestStop RunFailed (cap_reason (k_maxSteps k)) sv else sv)"
    and sv': "sv' = (if over_cap k' \<and> \<not> over_cap k1 then requestStop RunFailed (cap_reason (k_maxSteps k1)) sv1 else sv1)"
    using one ih [OF c1] by blast+
  have sv: "sv' = (if over_cap k' \<and> \<not> over_cap k then requestStop RunFailed (cap_reason (k_maxSteps k)) sv else sv)"
  proof (cases "over_cap k1")
    case True
    then have "over_cap k'" "sv' = sv1" using mono(1) sv' by simp_all
    then show ?thesis using True sv1 by simp
  next
    case False
    then have "\<not> over_cap k" "sv1 = sv" using mono(2) sv1 by (blast, simp)
    then show ?thesis using False sv' max(1) by simp
  qed
  have run: "k_run k1 = k_run k" "k_run k' = k_run k1"
    and row1: "run_of w1 (run_ID (k_run k)) = map_option
      (\<lambda>r. if ?x = 0 then r else r\<lparr> run_StepCount := k_actions k1 \<rparr>) (run_of w (run_ID (k_run k)))"
    and row2: "run_of w' (run_ID (k_run k1)) = map_option
      (\<lambda>r. if ?y = 0 then r else r\<lparr> run_StepCount := k_actions k' \<rparr>) (run_of w1 (run_ID (k_run k1)))"
    using one ih [OF c1] by argo+
  have row: "run_of w' (run_ID (k_run k)) = map_option
      (\<lambda>r. if ?x + ?y = 0 then r else r\<lparr> run_StepCount := k_actions k' \<rparr>) (run_of w (run_ID (k_run k)))"
  proof (cases "?y = 0")
    case True
    then have eq: "k_actions k' = k_actions k1" using acts(2) by linarith
    show ?thesis
      unfolding run(1) [symmetric] row2 unfolding run(1) row1 eq
      using True by (simp add: option.map_ident del: fresh_actions.simps)
  next
    case False
    then have "?x + ?y \<noteq> 0" using nonneg by linarith
    then show ?thesis
      unfolding run(1) [symmetric] row2 unfolding run(1) row1
      using False by (cases "run_of w (run_ID (k_run k))") (simp_all del: fresh_actions.simps)
  qed
  have "k_capped k' = over_cap k'" using ih [OF c1] by blast
  then show ?case unfolding split using act sv row run max by (simp del: fresh_actions.simps)
qed

text \<open>
  C13. The step cap is enforced exactly once and counts each action once: however the adapter
  re-emits sequence numbers to update them, the recorded step count is the number of distinct
  actions, and the run is asked to stop as failed, with the cap in the reason, exactly when that
  number passes a positive cap and no earlier stop request stands.
\<close>

theorem step_cap_exact:
  assumes "\<And>s x. e_faults env s x = None" and "run_of w (run_ID run) = Some row"
    and "fold (Sink_Activity env) as (newRunSink run agent, sv, w) = (k, sv', w')"
  shows "k_actions k = fresh_actions {} as \<and>
    sv' = (if 0 < ag_MaxSteps agent \<and> ag_MaxSteps agent < fresh_actions {} as
           then requestStop RunFailed (cap_reason (ag_MaxSteps agent)) sv else sv) \<and>
    (0 < fresh_actions {} as \<longrightarrow> map_option run_StepCount (run_of w' (run_ID run)) = Some (fresh_actions {} as))"
  using Sink_fold [OF assms(1,3)] assms(2) by (simp add: newRunSink_def over_cap_def)

definition action :: "int \<Rightarrow> Activity" where
  "action n = blank_Activity\<lparr> act_Seq := n, act_Type := ActivityAction \<rparr>"

definition sink_world :: World where
  "sink_world = blank_World\<lparr> w_runs := [blank_Run\<lparr> run_ID := ''r'', run_StepCount := 40 \<rparr>] \<rparr>"

theorem step_cap_exact_witness:
  "let (k, sv, w) = fold (Sink_Activity calm_env) [action 1, action 2, action 1, action 2, action 3]
         (newRunSink (blank_Run\<lparr> run_ID := ''r'' \<rparr>) (blank_Agent\<lparr> ag_MaxSteps := 2 \<rparr>), new_sup, sink_world)
   in k_actions k = 3 \<and> sup_stop sv = Some (RunFailed, cap_reason 2) \<and>
      map_option run_StepCount (run_of w ''r'') = Some 3"
proof -
  let ?as = "[action 1, action 2, action 1, action 2, action 3]"
  have row: "run_of sink_world (run_ID (blank_Run\<lparr> run_ID := ''r'' \<rparr>)) =
      Some (blank_Run\<lparr> run_ID := ''r'', run_StepCount := 40 \<rparr>)"
    by (simp add: sink_world_def run_of_def find_row_Cons)
  have "fresh_actions {} ?as = 3" by (simp add: action_def)
  moreover obtain k sv w where "fold (Sink_Activity calm_env) ?as
      (newRunSink (blank_Run\<lparr> run_ID := ''r'' \<rparr>) (blank_Agent\<lparr> ag_MaxSteps := 2 \<rparr>), new_sup, sink_world) = (k, sv, w)"
    by (metis prod_cases3)
  note step_cap_exact [OF _ row this]
  ultimately show ?thesis
    using \<open>fold _ _ _ = (k, sv, w)\<close> by (simp add: Let_def requestStop_def new_sup_def)
qed


end
