(* ===== verification/SchedSystem.thy ===== *)
theory SchedSystem
  imports RunSink Enqueue
begin

text \<open>
  The scheduler as one system: its state is the supervisors in memory and the database, a step is
  any of its operations with any answers of the driver, the ports and the clock. The invariants of
  the runs table hold in every reachable state, by rule induction over the steps.
\<close>

type_synonym Sys = "Sups \<times> World"

inductive sched_step :: "Sys \<Rightarrow> Sys \<Rightarrow> bool" where
  admit: "uncontended env \<Longrightarrow> sched_step (S, w) (S, admitPass env stop w)"
| enqueue: "uncontended env \<Longrightarrow> Enqueue env ports ps sandbox ids req S w = (r, S', w') \<Longrightarrow> sched_step (S, w) (S', w')"
| loop_stop: "EnqueueLoopStopped env sandbox i lreq w = (r, w') \<Longrightarrow> sched_step (S, w) (S, w')"
| stop: "uncontended env \<Longrightarrow> StopRun env ports i reason S w = (res, S', w') \<Longrightarrow> sched_step (S, w) (S', w')"
| takeover: "uncontended env \<Longrightarrow> TakeoverRun env ports i tnote S w = (res, S', w') \<Longrightarrow> sched_step (S, w) (S', w')"
| cancel_ticket: "uncontended env \<Longrightarrow> CancelTicketRuns env ports tid reason S w = (n, S', w') \<Longrightarrow> sched_step (S, w) (S', w')"
| finish: "uncontended env \<Longrightarrow> ports_quiet ports \<Longrightarrow>
    sched_step (S, w) (S(run_ID run := None), RunEnd.finish env ports newid run inst p kind reason message w)"
| recover: "uncontended env \<Longrightarrow> reconcile env alive newid w = (u, w') \<Longrightarrow> sched_step (Map.empty, w) (S', w')"
| crash: "sched_step (S, w) (Map.empty, w)"
| set_state: "uncontended env \<Longrightarrow> SetRunState env i st reason w = (sr, w') \<Longrightarrow>
    sched_step (S, w) (notePark i st now S, w')"
| activity: "Sink_Activity env a (k, sv, w) = (k', sv', w') \<Longrightarrow> S i = Some sv \<Longrightarrow> sched_step (S, w) (S(i \<mapsto> sv'), w')"
| current_step: "sched_step (S, w) (S, Sink_CurrentStep env txt k w)"
| use: "sched_step (S, w) (S, Sink_Usage env d k w)"
| elicit: "uncontended env \<Longrightarrow> Sink_Elicit env newid el k w = (er, w') \<Longrightarrow> sched_step (S, w) (S, w')"
| out: "ports_quiet ports \<Longrightarrow> sched_step (S, w) (S, Sink_Output env ports newid out k w)"
| offset: "sched_step (S, w) (S, Sink_Offset env n k w)"
| provision: "Provision_Step env name pst detail (p, w) = (p', w') \<Longrightarrow> sched_step (S, w) (S, w')"
| provision_log: "sched_step (S, w) (S, Provision_Log env line p w)"
| steer: "sched_step (S, w) (S, drainSteering env accepts sv i w)"

section \<open>Every step keeps the contract\<close>

lemma AppendNext_runs [simp]: "w_runs (snd (Activities_AppendNext f a w)) = w_runs w"
  by (simp add: Activities_AppendNext_def Let_def exec_def split: option.split)

lemma Activities_Update_runs [simp]: "w_runs (snd (Activities_Update f a w)) = w_runs w"
  by (simp add: Activities_Update_def exec_one_def split: option.split)

lemma safe_SetStepCount: "safe w (snd (Runs_SetStepCount f i n w))"
  by (auto simp: Runs_SetStepCount_def exec_def intro!: safe_update split: option.split)

lemma safe_Sink_Activity:
  assumes "Sink_Activity env a (k, sv, w) = (k', sv', w')"
  shows "safe w w'"
proof (cases "k_seqMap k (act_Seq a)")
  case (Some n)
  have upd: "Activities_Update f x w = (r, v) \<Longrightarrow> w_runs v = w_runs w" for f x r v
    by (metis Activities_Update_runs snd_conv)
  from Some have "w_runs w' = w_runs w"
    using assms upd by (auto simp: Sink_Activity_def Let_def split: prod.splits sum.splits)
  then show ?thesis by (rule safe_runs)
next
  case None
  obtain r w1 where ap: "Activities_AppendNext (e_faults env) (sink_stamp env k a) w = (r, w1)" by (meson surj_pair)
  have w1: "safe w w1" by (rule safe_runs) (metis AppendNext_runs ap snd_conv)
  have c: "safe w1 w2" if "sink_count env b n (k, sv, w1) = (k2, sv2, w2)" for b n k2 sv2 w2
    using that safe_SetStepCount [of w1] by (auto simp: sink_count_def Let_def split: if_splits)
  have e: "safe v (emit_frame fr v)" for fr v by (rule safe_runs) simp
  show ?thesis
    using assms None ap w1 safe_trans [OF w1 safe_trans [OF c e]]
    by (auto simp: Sink_Activity_def Let_def split: sum.splits prod.splits)
qed

lemma safe_sink_writes:
  "safe w (Sink_CurrentStep env txt k w)"
  "safe w (Sink_Usage env d k w)"
  "safe w (Sink_Offset env n k w)"
proof -
  have fr: "safe v (emit_frame fr v)" for fr v by (rule safe_runs) simp
  have "safe w (snd (Runs_SetCurrentStep f i s w))" for f i s
    by (auto simp: Runs_SetCurrentStep_def exec_one_def intro!: safe_update split: option.split)
  then show "safe w (Sink_CurrentStep env txt k w)" unfolding Sink_CurrentStep_def by (rule safe_trans [OF _ fr])
  have u: "safe w (snd (Runs_AddUsage f i d w))" for f i
    by (auto simp: Runs_AddUsage_def exec_one_def exec_def intro!: safe_update split: option.split)
  have b: "safe v (snd (Budget_Add f day pid aid tid c v))" for f day pid aid tid c v
    by (rule safe_runs) (simp add: Budget_Add_def exec_def split: option.split)
  show "safe w (Sink_Usage env d k w)"
    unfolding Sink_Usage_def Let_def by (rule safe_trans [OF safe_trans [OF u b] fr])
  show "safe w (Sink_Offset env n k w)"
    by (auto simp: Sink_Offset_def Runs_SetLogOffset_def exec_def exec_one_def intro!: safe_update split: option.split)
qed

lemma safe_Sink_Elicit:
  assumes "uncontended env"
  shows "safe w (snd (Sink_Elicit env newid el k w))"
proof -
  have c: "safe w (snd (Elicitations_Create f e w))" for f e
    by (rule safe_runs) (simp add: Elicitations_Create_def exec_def split: option.split)
  have fr: "safe v (emit_frame fr v)" for fr v by (rule safe_runs) simp
  show ?thesis
    using c by (auto simp: Sink_Elicit_def Let_def split: prod.split sum.split
      intro!: safe_trans [OF safe_trans [OF _ safe_SetRunState [OF assms]] fr]) (metis snd_conv)+
qed

lemma safe_Sink_Output:
  assumes "ports_quiet ports"
  shows "safe w (Sink_Output env ports newid out k w)"
proof -
  have "w_runs (snd (RunOutputs_Append f x w)) = w_runs w" for f x
    by (simp add: RunOutputs_Append_def exec_def split: option.split)
  then have o: "RunOutputs_Append f x w = (r, w') \<Longrightarrow> w_runs w' = w_runs w" for f x r w' by (metis snd_conv)
  have "w_runs (moveTicket ports tid cat xnote v) = w_runs v" for tid cat xnote v
    using assms by (auto simp: moveTicket_def ports_quiet_def run_tables_iff split: option.split)
  then have "w_runs (Sink_Output env ports newid out k w) = w_runs w"
    by (auto simp: Sink_Output_def Let_def o split: prod.split sum.split option.split)
  then show ?thesis by (rule safe_runs)
qed

lemma safe_provision:
  "Provision_Step env name pst detail (p, w) = (p', w') \<Longrightarrow> safe w w'"
  "safe w (Provision_Log env line p w)"
proof -
  assume a: "Provision_Step env name pst detail (p, w) = (p', w')"
  have ap: "Activities_AppendNext f x w = (r, v) \<Longrightarrow> w_runs v = w_runs w" for f x r v by (metis AppendNext_runs snd_conv)
  have "w_runs w' = w_runs w"
    using a by (auto simp: Provision_Step_def Let_def ap split: option.splits prod.splits sum.splits)
  then show "safe w w'" by (rule safe_runs)
next
  show "safe w (Provision_Log env line p w)" by (rule safe_runs) (simp add: Provision_Log_def Let_def)
qed

lemma MarkDelivered_runs [simp]: "w_runs (snd (RunMessages_MarkDelivered f j t w)) = w_runs w"
  by (simp add: RunMessages_MarkDelivered_def RunMessages_mark_def exec_one_def split: option.split)

lemma drain_runs [simp]: "w_runs (drain env accepts i ms w) = w_runs w"
  by (induction ms arbitrary: w) simp_all

lemma safe_drainSteering: "safe w (drainSteering env accepts sv i w)"
  by (rule safe_runs) (simp add: drainSteering_def split: sum.split list.split)

lemma sched_step_safe: "sched_step s s' \<Longrightarrow> safe (snd s) (snd s')"
proof (induction rule: sched_step.induct)
  case (enqueue env ports ps sandbox ids req S w r S' w')
  then show ?case using safe_Enqueue [OF enqueue(1), of w ports ps sandbox ids req S] by simp
next
  case (loop_stop env sandbox i lreq w r w' S)
  then show ?case using safe_EnqueueLoopStopped [of w env sandbox i lreq] by simp
next
  case (stop env ports i reason S w res S' w')
  then show ?case using safe_StopRun [OF stop(1), of w ports i reason S] by simp
next
  case (takeover env ports i tnote S w res S' w')
  then show ?case using safe_TakeoverRun [OF takeover(1), of w ports i tnote S] by simp
next
  case (cancel_ticket env ports tid reason S w n S' w')
  then show ?case using safe_CancelTicketRuns [OF cancel_ticket(1), of w ports tid reason S] by simp
next
  case (recover env alive newid w u w' S')
  then show ?case using safe_reconcile [OF recover(1), of w alive newid] by simp
next
  case (set_state env i st reason w sr w' S now)
  then show ?case using safe_SetRunState [OF set_state(1), of w i st reason] by simp
next
  case (activity env a k sv w k' sv' w' S i)
  then show ?case using safe_Sink_Activity by simp
next
  case (elicit env newid el k w er w' S)
  then show ?case using safe_Sink_Elicit [OF elicit(1), of w newid el k] by simp
next
  case (provision env name pst detail p w p' w' S)
  then show ?case using safe_provision(1) by simp
qed (simp_all add: safe_admitPass safe_finish safe_sink_writes safe_Sink_Output safe_provision safe_drainSteering)

lemma sched_reach_safe: "sched_step\<^sup>*\<^sup>* s s' \<Longrightarrow> safe (snd s) (snd s')"
  by (induction rule: rtranclp_induct) (auto intro: safe_trans sched_step_safe)

text \<open>
  C4. In every state the scheduler can reach, through any sequence of its operations and any driver
  errors, crashes and recoveries included, run ids and per-project numbers are unique, a run has its
  end stamped exactly when it is terminal, no run is lost, a terminal run is terminal in the same state
  for good, and no run that has left the queue ever returns to it.
\<close>

theorem scheduler_invariant:
  assumes "sched_step\<^sup>*\<^sup>* (S0, w0) (S, w)" and "runs_wf w0" and "ended_ok w0"
  shows "runs_wf w \<and> ended_ok w \<and>
    (\<forall>k s. state_of w0 k = Some s \<longrightarrow> (\<exists>t. state_of w k = Some t \<and> (Terminal s \<longrightarrow> t = s) \<and>
       (s \<noteq> RunQueued \<longrightarrow> t \<noteq> RunQueued)))"
proof -
  have s: "runs_wf w \<and> ended_ok w \<and> moves w0 w"
    using sched_reach_safe [OF assms(1)] assms(2,3) by (simp add: safe_def)
  have q: "edge_path s t \<Longrightarrow> s \<noteq> RunQueued \<Longrightarrow> t \<noteq> RunQueued" for s t
    unfolding edge_path_def by (induction rule: rtranclp_induct) (auto simp: queued_unreachable)
  have "\<exists>t. state_of w k = Some t \<and> (Terminal s \<longrightarrow> t = s) \<and> (s \<noteq> RunQueued \<longrightarrow> t \<noteq> RunQueued)"
    if "state_of w0 k = Some s" for k s
    using s that q edge_path_terminal unfolding moves_def by blast
  then show ?thesis using s by blast
qed

theorem scheduler_invariant_witness:
  "let w1 = admitPass calm_env (\<lambda>_. False) queue_world;
       w2 = snd (snd (StopRun calm_env idle_ports ''old'' ''stop'' Map.empty w1))
   in runs_wf w2 \<and> ended_ok w2 \<and> state_of w2 ''old'' \<noteq> None"
proof -
  let ?w1 = "admitPass calm_env (\<lambda>_. False) queue_world"
  obtain r S w2 where st: "StopRun calm_env idle_ports ''old'' ''stop'' Map.empty ?w1 = (r, S, w2)" by (metis prod_cases3)
  have "sched_step (Map.empty, queue_world) (Map.empty, ?w1)" by (rule sched_step.admit) simp
  moreover have "sched_step (Map.empty, ?w1) (S, w2)" by (rule sched_step.stop [OF _ st]) simp
  ultimately have reach: "sched_step\<^sup>*\<^sup>* (Map.empty, queue_world) (S, w2)" by (simp add: rtranclp.rtrancl_into_rtrancl)
  have wf: "runs_wf queue_world" "ended_ok queue_world"
    by (simp_all add: runs_wf_def ended_ok_def queue_world_def blank_Run_def)
  have "state_of queue_world ''old'' = Some RunQueued"
    by (simp add: state_of_def run_of_def queue_world_def find_row_Cons)
  with scheduler_invariant [OF reach wf] show ?thesis by (auto simp: st)
qed

end
