(* ===== verification/Engine.thy ===== *)
theory Engine
  imports Guard SchedSystem "HOL-Library.AList"
begin

text \<open>
  The trigger engine (\<^verbatim>\<open>internal/service/triggers/engine.go\<close>) and the \<^verbatim>\<open>run_agent\<close> action
  (\<^verbatim>\<open>internal/module/actions\<close>): the four stages match, conditions, guard, actions for one
  (trigger, event) pair, the firing row every terminal outcome writes, and the per-project queues.
  The guard, the registered actions and sources are fields of the engine, as in the code; the texts of
  decoder and store errors, which end up in a firing's reason, are arguments. An action works on the
  scheduler's whole state and returns the interpolation warnings it caused.
\<close>

section \<open>Ports of the engine\<close>

record ActionResult =
  ar_Outcome :: "FiringOutcome option"
  ar_RunID :: string
  ar_Note :: string

record ActionContext =
  ac_Event :: Event
  ac_Trigger :: Trigger
  ac_Project :: Project
  ac_Interp :: "string \<Rightarrow> string \<times> string list"
  ac_Guard :: GuardPass

type_synonym executor = "ActionContext \<Rightarrow> raw_json \<Rightarrow> Sys \<Rightarrow> ((string + ActionResult) \<times> string list) \<times> Sys"

record TriggerAction =
  ta_ID :: string
  ta_Label :: string
  ta_Describe :: "World \<Rightarrow> raw_json \<Rightarrow> string + string"
  ta_Execute :: executor

text \<open>Of a catalog the engine and the save-time checks read kinds, activity values, filter keys and
  the subject template; labels and help texts are the editor's.\<close>

record EventDescriptor =
  ed_Kind :: string
  ed_ActivityTypes :: "string list"
  ed_Filters :: "string list"
  ed_SubjectKey :: string

record EventSource =
  es_ID :: string
  es_Catalog :: "EventDescriptor list"
  es_Vet :: "(Trigger \<Rightarrow> (string \<times> string) list) option"

record Engine =
  en_faults :: faults
  en_now :: string
  en_guard :: "GuardInput \<Rightarrow> World \<Rightarrow> Verdict \<times> World"
  en_action :: "string \<Rightarrow> TriggerAction option"
  en_sources :: "EventSource list"
  en_newid :: "string \<Rightarrow> string \<Rightarrow> string"
  en_float :: "rat \<Rightarrow> string"
  en_json_err :: "raw_json \<Rightarrow> string"
  en_store_err :: "store_err \<Rightarrow> string"

section \<open>The subject and the agents the guard keys on\<close>

definition subjectKeyFromColumns :: "Event \<Rightarrow> string" where
  "subjectKeyFromColumns e =
     (if ev_SubjectKind e = '''' \<or> ev_SubjectKind e = ''repo'' then ''repo''
      else (case ev_SubjectNumber e of
              Some n \<Rightarrow> ev_SubjectKind e @ '':'' @ fmt_int n
            | None \<Rightarrow> (case ev_SubjectID e of Some i \<Rightarrow> ev_SubjectKind e @ '':'' @ i | None \<Rightarrow> ev_SubjectKind e)))"

definition descriptor :: "EventSource list \<Rightarrow> string \<Rightarrow> string \<Rightarrow> EventDescriptor option" where
  "descriptor srcs sid kind =
     find (\<lambda>d. ed_Kind d = kind) (concat (map es_Catalog (filter (\<lambda>s. es_ID s = sid) srcs)))"

definition deriveSubjectKey :: "Engine \<Rightarrow> Event \<Rightarrow> payload \<Rightarrow> string" where
  "deriveSubjectKey eng e p =
     (case descriptor (en_sources eng) (ev_Source e) (ev_Kind e) of
        None \<Rightarrow> subjectKeyFromColumns e
      | Some d \<Rightarrow>
          (case interpolate (en_float eng) (ed_SubjectKey d) p of (s, warns) \<Rightarrow>
             if ed_SubjectKey d \<noteq> '''' \<and> warns = [] \<and> s \<noteq> '''' then s else subjectKeyFromColumns e))"

record actionRef =
  rf_ActionID :: string
  rf_Params :: raw_json

fun dec_ref :: "(string \<times> json) list \<Rightarrow> actionRef \<Rightarrow> actionRef option" where
  "dec_ref [] r = Some r"
| "dec_ref ((k, v) # kvs) r =
     (if field_is k ''action_id'' then
        (case set_string v (\<lambda>s. rf_ActionID_update (\<lambda>_. s)) r of None \<Rightarrow> None | Some r' \<Rightarrow> dec_ref kvs r')
      else if field_is k ''params'' then dec_ref kvs (r\<lparr> rf_Params := Raw v \<rparr>)
      else dec_ref kvs r)"

definition zero_ref :: actionRef where
  "zero_ref = \<lparr> rf_ActionID = '''', rf_Params = RawEmpty \<rparr>"

fun dec_refs :: "json list \<Rightarrow> actionRef list option" where
  "dec_refs [] = Some []"
| "dec_refs (j # js) =
     (case (case j of JObj kvs \<Rightarrow> dec_ref kvs zero_ref | JNull \<Rightarrow> Some zero_ref | _ \<Rightarrow> None, dec_refs js) of
        (Some r, Some rs) \<Rightarrow> Some (r # rs) | _ \<Rightarrow> None)"

definition unmarshal_refs :: "raw_json \<Rightarrow> actionRef list option" where
  "unmarshal_refs raw = (case raw of Raw (JArr js) \<Rightarrow> dec_refs js | Raw JNull \<Rightarrow> Some [] | _ \<Rightarrow> None)"

text \<open>The lenient read of \<^verbatim>\<open>agent_id\<close> and \<^verbatim>\<open>agent_name\<close>: a member that does not decode is skipped.\<close>

fun loose_strings :: "(string \<times> json) list \<Rightarrow> string \<Rightarrow> string \<Rightarrow> string" where
  "loose_strings [] name acc = acc"
| "loose_strings ((k, v) # kvs) name acc =
     loose_strings kvs name (case v of JStr s \<Rightarrow> if field_is k name then s else acc | _ \<Rightarrow> acc)"

definition ref_text :: "actionRef \<Rightarrow> string \<Rightarrow> string" where
  "ref_text r name = (case rf_Params r of Raw (JObj kvs) \<Rightarrow> loose_strings kvs name '''' | _ \<Rightarrow> '''')"

definition ref_agents :: "faults \<Rightarrow> string \<Rightarrow> World \<Rightarrow> actionRef \<Rightarrow> string list" where
  "ref_agents f pid w r =
     (if rf_ActionID r \<noteq> ''run_agent'' \<and> rf_ActionID r \<noteq> ''post_comment'' then []
      else if ref_text r ''agent_id'' \<noteq> '''' then [ref_text r ''agent_id'']
      else if ref_text r ''agent_name'' = '''' then []
      else (case Agents_ForProject f pid w of
              Inl _ \<Rightarrow> []
            | Inr agents \<Rightarrow> (case find (\<lambda>a. ag_Name a = ref_text r ''agent_name'') agents of
                  Some a \<Rightarrow> [ag_ID a] | None \<Rightarrow> [])))"

definition runAgentIDs :: "faults \<Rightarrow> Trigger \<Rightarrow> World \<Rightarrow> string list" where
  "runAgentIDs f tr w =
     (case unmarshal_refs (tr_Actions tr) of None \<Rightarrow> []
      | Some refs \<Rightarrow> concat (map (ref_agents f (tr_ProjectID tr) w) refs))"

section \<open>Stage 4\<close>

record firingOutcome =
  fo_Outcome :: "FiringOutcome option"
  fo_Reason :: string
  fo_RunID :: "string option"
  fo_AbsorbedByRunID :: "string option"

definition firingOutcomeOf :: "FiringOutcome \<Rightarrow> string \<Rightarrow> firingOutcome" where
  "firingOutcomeOf out reason = \<lparr> fo_Outcome = Some out, fo_Reason = reason, fo_RunID = None, fo_AbsorbedByRunID = None \<rparr>"

definition outcome_run :: "FiringOutcome \<Rightarrow> string \<Rightarrow> string option \<Rightarrow> firingOutcome" where
  "outcome_run out reason rid = (firingOutcomeOf out reason)\<lparr> fo_RunID := rid \<rparr>"

definition outcome_str :: "FiringOutcome option \<Rightarrow> string" where
  "outcome_str out = (case out of Some x \<Rightarrow> FiringOutcome_str x | None \<Rightarrow> '''')"

text \<open>\<^verbatim>\<open>%q\<close> of a text of printable ASCII and UTF-8: quotes and backslashes are escaped.\<close>

definition quote_char :: "char \<Rightarrow> string" where
  "quote_char c = (if c = CHR 0x22 \<or> c = CHR 0x5C then [CHR 0x5C, c]
     else if c = CHR 0x0A then [CHR 0x5C, CHR ''n''] else if c = CHR 0x0D then [CHR 0x5C, CHR ''r'']
     else if c = CHR 0x09 then [CHR 0x5C, CHR ''t''] else [c])"

definition quote :: "string \<Rightarrow> string" where
  "quote s = [CHR 0x22] @ concat (map quote_char s) @ [CHR 0x22]"

record walk =
  wk_notes :: "string list"
  wk_run :: "string option"
  wk_succeeded :: bool
  wk_warnings :: "string list"

definition walk_end :: "walk \<Rightarrow> firingOutcome" where
  "walk_end k =
     (let reason = join ''; '' (wk_notes k) in
      if wk_succeeded k then outcome_run FiringSucceeded reason (wk_run k)
      else outcome_run FiringNoAction (if reason = '''' then ''every action had nothing to do'' else reason) (wk_run k))"

definition walk_note :: "ActionResult \<Rightarrow> string list \<Rightarrow> walk \<Rightarrow> walk" where
  "walk_note res ws k = k\<lparr>
     wk_run := (if ar_RunID res \<noteq> '''' then Some (ar_RunID res) else wk_run k),
     wk_notes := wk_notes k @ (if ar_Note res \<noteq> '''' then [ar_Note res] else []),
     wk_warnings := wk_warnings k @ ws \<rparr>"

fun walk_actions :: "(string \<Rightarrow> TriggerAction option) \<Rightarrow> ActionContext \<Rightarrow> actionRef list \<Rightarrow> walk \<Rightarrow> Sys \<Rightarrow>
   (firingOutcome \<times> string list) \<times> Sys" where
  "walk_actions reg ac [] k s = ((walk_end k, wk_warnings k), s)"
| "walk_actions reg ac (r # refs) k s =
     (case reg (rf_ActionID r) of
        None \<Rightarrow> ((outcome_run FiringErrored (''action '' @ quote (rf_ActionID r) @
            '' is not registered; nothing was executed for it'') (wk_run k), wk_warnings k), s)
      | Some act \<Rightarrow>
          (case ta_Execute act ac (rf_Params r) s of
             ((Inl err, ws), s') \<Rightarrow> ((outcome_run FiringErrored (''action '' @ quote (rf_ActionID r) @ '' failed: '' @ err)
                 (wk_run k), wk_warnings k @ ws), s')
           | ((Inr res, ws), s') \<Rightarrow>
               (let k' = walk_note res ws k; reason = join ''; '' (wk_notes k') in
                case ar_Outcome res of
                  Some FiringSucceeded \<Rightarrow> walk_actions reg ac refs (k'\<lparr> wk_succeeded := True \<rparr>) s'
                | Some FiringNoAction \<Rightarrow> walk_actions reg ac refs k' s'
                | out \<Rightarrow>
                    if out = Some FiringAwaitingApproval \<or> out = Some FiringErrored
                    then ((outcome_run (the out) (if reason \<noteq> '''' then reason
                        else ''action '' @ quote (rf_ActionID r) @ '' ended '' @ outcome_str out) (wk_run k'),
                      wk_warnings k'), s')
                    else ((outcome_run FiringErrored (''action '' @ quote (rf_ActionID r) @
                        '' returned unknown outcome '' @ quote (outcome_str out)) (wk_run k'), wk_warnings k'), s'))))"

definition start_walk :: walk where
  "start_walk = \<lparr> wk_notes = [], wk_run = None, wk_succeeded = False, wk_warnings = [] \<rparr>"

definition runActions ::
  "Engine \<Rightarrow> Trigger \<Rightarrow> Event \<Rightarrow> payload \<Rightarrow> GuardPass \<Rightarrow> Sys \<Rightarrow> (firingOutcome \<times> string list) \<times> Sys" where
  "runActions eng tr e p pass s =
     (case unmarshal_refs (tr_Actions tr) of
        None \<Rightarrow> ((firingOutcomeOf FiringErrored (''stored actions could not be parsed: '' @ en_json_err eng (tr_Actions tr)), []), s)
      | Some refs \<Rightarrow>
          if refs = [] then ((firingOutcomeOf FiringNoAction ''no actions configured'', []), s)
          else (case Projects_ByID (en_faults eng) (tr_ProjectID tr) (snd s) of
                  Inl err \<Rightarrow> ((firingOutcomeOf FiringErrored (''project could not be loaded: '' @ en_store_err eng err), []), s)
                | Inr project \<Rightarrow> walk_actions (en_action eng)
                    \<lparr> ac_Event = e, ac_Trigger = tr, ac_Project = project,
                      ac_Interp = (\<lambda>tmpl. interpolate (en_float eng) tmpl p), ac_Guard = pass \<rparr> refs start_walk s))"

section \<open>The firing row\<close>

definition opt_json :: "string option \<Rightarrow> json" where
  "opt_json x = (case x of Some s \<Rightarrow> JStr s | None \<Rightarrow> JNull)"

definition fired_event :: "string \<Rightarrow> Trigger \<Rightarrow> TriggerFiring \<Rightarrow> Event" where
  "fired_event now tr x = blank_Event\<lparr>
     ev_ProjectID := Some (tr_ProjectID tr), ev_Kind := ''trigger'', ev_ActivityType := ''fired'',
     ev_ActorKind := ActorSystem, ev_SubjectKind := ''trigger'', ev_SubjectID := Some (tr_ID tr),
     ev_Payload := Raw (JObj [
       (''firing'', JObj [(''created_at'', JStr (tf_CreatedAt x)), (''event_id'', JStr (tf_EventID x)),
          (''id'', JStr (tf_ID x)), (''outcome'', JStr (FiringOutcome_str (tf_Outcome x))),
          (''reason'', JStr (tf_Reason x)), (''run_id'', opt_json (tf_RunID x))]),
       (''trigger'', JObj [(''id'', JStr (tr_ID tr)), (''name'', JStr (tr_Name tr))])]),
     ev_OccurredAt := now, ev_DedupeKey := ''trigger.fired:'' @ tf_ID x \<rparr>"

text \<open>An outcome outside the schema's vocabulary, a zero verdict's, is a CHECK violation: nothing is written.\<close>

definition writeFiring :: "Engine \<Rightarrow> Trigger \<Rightarrow> Event \<Rightarrow> firingOutcome \<Rightarrow> string list \<Rightarrow> World \<Rightarrow> World" where
  "writeFiring eng tr e res warnings w =
     (case fo_Outcome res of
        None \<Rightarrow> w
      | Some out \<Rightarrow>
          (let x = \<lparr> tf_ID = en_newid eng (tr_ID tr) (ev_ID e), tf_TriggerID = tr_ID tr, tf_EventID = ev_ID e,
                     tf_Outcome = out, tf_Reason = fo_Reason res, tf_RunID = fo_RunID res,
                     tf_AbsorbedByRunID = fo_AbsorbedByRunID res,
                     tf_Warnings = Raw (JArr (map JStr warnings)), tf_CreatedAt = en_now eng \<rparr> in
           case Firings_Create (en_faults eng) x w of
             (Inr True, w') \<Rightarrow> emit_frame (EventFrame (fired_event (en_now eng) tr x)) w'
           | (_, w') \<Rightarrow> w'))"

section \<open>The pipeline\<close>

definition guard_input_of :: "Engine \<Rightarrow> Trigger \<Rightarrow> Event \<Rightarrow> payload \<Rightarrow> World \<Rightarrow> GuardInput" where
  "guard_input_of eng tr e p w = \<lparr> in_Event = e, in_Trigger = tr, in_SubjectKey = deriveSubjectKey eng e p,
     in_Payload = p, in_RunAgentIDs = runAgentIDs (en_faults eng) tr w \<rparr>"

definition verdict_outcome :: "Verdict \<Rightarrow> firingOutcome" where
  "verdict_outcome v = \<lparr> fo_Outcome = v_Outcome v, fo_Reason = v_Reason v, fo_RunID = v_RunID v,
     fo_AbsorbedByRunID = v_AbsorbedByRunID v \<rparr>"

definition fire :: "Engine \<Rightarrow> Trigger \<Rightarrow> Event \<Rightarrow> payload \<Rightarrow> Sys \<Rightarrow> Sys" where
  "fire eng tr e p s =
     (if \<not> matchStage tr e p then s
      else (case Firings_Exists (en_faults eng) (tr_ID tr) (ev_ID e) (snd s) of
              Inl _ \<Rightarrow> s
            | Inr True \<Rightarrow> s
            | Inr False \<Rightarrow>
                if \<not> evalConditions (tr_Conditions tr) p
                then (fst s, writeFiring eng tr e (firingOutcomeOf FiringNoAction ''conditions not met'') [] (snd s))
                else (case en_guard eng (guard_input_of eng tr e p (snd s)) (snd s) of
                        (v, w1) \<Rightarrow>
                          if \<not> v_Proceed v then (fst s, writeFiring eng tr e (verdict_outcome v) [] w1)
                          else (case runActions eng tr e p (v_Pass v) (fst s, w1) of
                                  ((res, warnings), (S2, w2)) \<Rightarrow> (S2, writeFiring eng tr e res warnings w2)))))"

definition process :: "Engine \<Rightarrow> Event \<Rightarrow> Sys \<Rightarrow> Sys" where
  "process eng e s =
     (case ev_ProjectID e of
        None \<Rightarrow> s
      | Some pid \<Rightarrow>
          (case Triggers_Enabled (en_faults eng) pid (snd s) of
             Inl _ \<Rightarrow> s
           | Inr trs \<Rightarrow> fold (\<lambda>tr. fire eng tr e (parsePayload (ev_Payload e))) trs s))"

text \<open>
  The per-project queues. \<^verbatim>\<open>handle\<close> is the bus handler: true is an ack. A worker takes the oldest
  event of its project; once the engine is stopped nothing is queued or processed.
\<close>

record Workers =
  wq_queues :: "(string \<times> Event list) list"
  wq_stopped :: bool

definition queue_of :: "Workers \<Rightarrow> string \<Rightarrow> Event list" where
  "queue_of q pid = (case map_of (wq_queues q) pid of Some es \<Rightarrow> es | None \<Rightarrow> [])"

definition handle :: "Event \<Rightarrow> Workers \<Rightarrow> bool \<times> Workers" where
  "handle e q =
     (case ev_ProjectID e of
        None \<Rightarrow> (True, q)
      | Some pid \<Rightarrow>
          if pid = '''' \<or> ev_Kind e = ''trigger'' then (True, q)
          else if wq_stopped q then (False, q)
          else (True, q\<lparr> wq_queues := AList.update pid (queue_of q pid @ [e]) (wq_queues q) \<rparr>))"

definition work :: "Engine \<Rightarrow> string \<Rightarrow> Workers \<times> Sys \<Rightarrow> Workers \<times> Sys" where
  "work eng pid qs =
     (case qs of (q, s) \<Rightarrow>
        if wq_stopped q then (q, s)
        else (case queue_of q pid of
                [] \<Rightarrow> (q, s)
              | e # es \<Rightarrow> (q\<lparr> wq_queues := AList.update pid es (wq_queues q) \<rparr>, process eng e s)))"

definition Stop :: "Workers \<Rightarrow> Workers" where
  "Stop q = q\<lparr> wq_stopped := True \<rparr>"

section \<open>What an enqueue leaves alone\<close>

lemma Respond_rows [simp]: "rule_rows (snd (Elicitations_Respond f i st resp u ts w)) = rule_rows w"
  unfolding Elicitations_Respond_def by (rule rule_rows_exec_one) simp

lemma cancel_all_rule_rows [simp]: "rule_rows (cancel_all env els w) = rule_rows w"
  by (induction els arbitrary: w) simp_all

lemma cancelPending_rows [simp]: "rule_rows (cancelPendingElicitations env i w) = rule_rows w"
  by (simp add: cancelPendingElicitations_def split: sum.split)

lemma DropQueued_rows [simp]: "rule_rows (snd (RunMessages_DropQueued f i w)) = rule_rows w"
  unfolding RunMessages_DropQueued_def by (rule rule_rows_exec) simp

lemma Wake_rows [simp]: "rule_rows (Wake w) = rule_rows w"
  by (simp add: Wake_def add_effect_def)

lemma StopRun_rows:
  assumes "uncontended env" and "StopRun env ports i reason sups w = (r, sups', w')"
  shows "rule_rows w' = rule_rows w"
proof (cases "\<exists>run. Runs_ByID (e_faults env) i w = Inr run \<and> \<not> Terminal (run_State run) \<and> sups i = None")
  case True
  then obtain run where run: "Runs_ByID (e_faults env) i w = Inr run" "\<not> Terminal (run_State run)" "sups i = None" by blast
  obtain t w1 where t: "transition env i RunCanceled (empty_update\<lparr> su_StateReason := Some reason \<rparr>) w = (t, w1)"
    by (meson surj_pair)
  have "rule_rows w1 = rule_rows w"
    by (rule rule_rows_core, rule transition_core [OF _ t]) (use assms(1) in \<open>simp add: uncontended_def\<close>)
  then show ?thesis
    using assms(2) run t by (cases t) (auto simp: StopRun_def Let_def add_effect_def)
next
  case False
  then show ?thesis using assms(2) by (auto simp: StopRun_def Let_def split: sum.splits if_splits option.splits)
qed

lemma create_items_rows [simp]: "rule_rows (snd (create_items f rid ids n its w)) = rule_rows w"
proof (induction its arbitrary: n w)
  case (Cons it its)
  let ?it = "it\<lparr> rc_RunID := rid, rc_Position := int n, rc_ID := (if rc_ID it = [] then ids n else rc_ID it) \<rparr>"
  obtain r w1 where c: "RunContextItems_Create f ?it w = (r, w1)" by (meson surj_pair)
  have "rule_rows (snd (RunContextItems_Create f ?it w)) = rule_rows w"
    by (simp add: RunContextItems_Create_def rule_rows_exec)
  then show ?case using Cons c by (cases r) simp_all
qed simp

lemma TicketStream_rows [simp]: "rule_rows (snd (TicketStream_Append f e w)) = rule_rows w"
  by (simp add: TicketStream_Append_def rule_rows_exec)

lemma enqueue_tx_rows: "rule_rows (snd (enqueue_tx env ids agent ticket items reason run w)) = rule_rows w"
proof (cases "Runs_NextSeq (e_faults env) (run_ProjectID run) w")
  case (Inr n)
  obtain r1 w1 where c: "Runs_Create (e_faults env) (run\<lparr> run_Seq := n \<rparr>) w = (r1, w1)" by (meson surj_pair)
  obtain r2 w2 where i: "create_items (e_faults env) (run_ID run) ids (Suc 0) items w1 = (r2, w2)" by (meson surj_pair)
  have w1: "rule_rows w1 = rule_rows w" using Create_rows [of "e_faults env" "run\<lparr> run_Seq := n \<rparr>" w] c by simp
  have w2: "rule_rows w2 = rule_rows w" using i w1 create_items_rows by (metis snd_conv)
  have ts: "rule_rows v = rule_rows w2" if "TicketStream_Append (e_faults env) e w2 = (x, v)" for e x v
    using that TicketStream_rows by (metis snd_conv)
  show ?thesis
    using w1 w2 ts by (cases r1; cases r2) (auto simp: enqueue_tx_def Let_def Inr c i split: sum.split option.split prod.split)
qed (simp add: enqueue_tx_def)

lemma AppendNext_rows [simp]: "rule_rows (snd (Activities_AppendNext f a w)) = rule_rows w"
  by (simp add: Activities_AppendNext_def Let_def rule_rows_exec)

lemma warn_rows [simp]: "rule_rows (warnContextBudget env run items w) = rule_rows w"
  by (simp add: warnContextBudget_def Let_def split: sum.split)

lemma supersede_rows:
  assumes "uncontended env"
  shows "rule_rows (snd (supersede env ports req run sups w)) = rule_rows w"
proof -
  obtain r s1 w1 where st: "StopRun env ports (rq_SupersededRunID req) (superseded_reason run) sups w = (r, s1, w1)"
    by (metis prod_cases3)
  then show ?thesis using StopRun_rows [OF assms st] by (simp add: supersede_def st)
qed

lemma Enqueue_rows:
  assumes "uncontended env" and "Enqueue env ports ps sandbox ids req sups w = (r, sups', w')"
  shows "rule_rows w' = rule_rows w"
proof (cases "w' = w")
  case False
  obtain agent ticket where l: "loadRequestRows (e_faults env) req w = Inr (agent, ticket)"
    using assms(2) False by (auto simp: Enqueue_def split: sum.splits)
  obtain directive where d: "(case ag_DirectiveVersionID agent of None \<Rightarrow> Inr ''''
      | Some d \<Rightarrow> map_sum DirectiveErr ad_Body (Directives_ByID (e_faults env) d w)) = Inr directive"
    using assms(2) False unfolding Enqueue_def l by (auto split: sum.splits)
  obtain prompt items where p: "assemblePrompt (e_faults env) ps agent ticket directive req w = Inr (prompt, items)"
    using assms(2) False unfolding Enqueue_def l d sum.case prod.case by (auto split: sum.splits)
  let ?body = "enqueue_tx env ids agent ticket items (rq_Reason req) (new_run env (ids 0) sandbox agent ticket prompt req)"
  obtain x w1 where t: "Tx (e_faults env) ?body w = (x, w1)" by (meson surj_pair)
  have w1: "rule_rows w1 = rule_rows w" using Tx_rows [of ?body "e_faults env" w] enqueue_tx_rows t by simp
  note E = assms(2) [unfolded Enqueue_def l d p sum.case prod.case t]
  show ?thesis
  proof (cases x)
    case (Inl e)
    then show ?thesis using E w1 by simp
  next
    case (Inr run)
    obtain y w2 where au: "audit_write (e_faults env) (enqueue_audit run req) w1 = (y, w2)" by (meson surj_pair)
    have w2: "rule_rows w2 = rule_rows w"
      using audit_write_rows [of "e_faults env" "enqueue_audit run req" w1] au w1 by simp
    obtain s3 w3 where s: "supersede env ports req run sups (warnContextBudget env run items w2) = (s3, w3)"
      by (meson surj_pair)
    have "rule_rows w3 = rule_rows w"
      using supersede_rows [OF assms(1), of ports req run sups "warnContextBudget env run items w2"] s w2 by simp
    then show ?thesis using E w2 unfolding Inr by (cases y) (auto simp: au s)
  qed
qed simp

section \<open>The \<^verbatim>\<open>run_agent\<close> action\<close>

text \<open>\<^verbatim>\<open>decodeParams\<close>: a strict decoder of text members; an unknown member or another type is an error.\<close>

fun strict_strings :: "string list \<Rightarrow> (string \<times> json) list \<Rightarrow> (string \<Rightarrow> string) \<Rightarrow> (string \<Rightarrow> string) option" where
  "strict_strings names [] acc = Some acc"
| "strict_strings names ((k, v) # kvs) acc =
     (case find (field_is k) names of
        None \<Rightarrow> None
      | Some n \<Rightarrow> (case set_string v (\<lambda>s a. a(n := s)) acc of None \<Rightarrow> None | Some acc' \<Rightarrow> strict_strings names kvs acc'))"

definition decodeParams :: "string list \<Rightarrow> raw_json \<Rightarrow> (string \<Rightarrow> string) option" where
  "decodeParams names raw =
     (case raw of RawEmpty \<Rightarrow> Some (\<lambda>_. '''') | Raw JNull \<Rightarrow> Some (\<lambda>_. '''')
      | Raw (JObj kvs) \<Rightarrow> strict_strings names kvs (\<lambda>_. '''') | _ \<Rightarrow> None)"

record ActionDeps =
  dp_env :: Env
  dp_ports :: Ports
  dp_providers :: "ContextProvider list"
  dp_sandbox :: string
  dp_ids :: "World \<Rightarrow> nat \<Rightarrow> string"
  dp_attached :: bool
  dp_json_err :: "raw_json \<Rightarrow> string"
  dp_enqueue_err :: "enq_err \<Rightarrow> string"
  dp_store_err :: "store_err \<Rightarrow> string"

definition resolveAgent :: "ActionDeps \<Rightarrow> string \<Rightarrow> string \<Rightarrow> string \<Rightarrow> World \<Rightarrow> string + Agent" where
  "resolveAgent d pid aid name w =
     (if aid \<noteq> '''' then
        (case Agents_ByID (e_faults (dp_env d)) aid w of
           Inl _ \<Rightarrow> Inl (''no agent '' @ quote aid @ '' exists; pick one from the project's roster'')
         | Inr a \<Rightarrow> if ag_ProjectID a \<noteq> pid then Inl (''agent '' @ quote (ag_Name a) @ '' belongs to another project'')
             else Inr a)
      else (case Agents_ForProject (e_faults (dp_env d)) pid w of
              Inl e \<Rightarrow> Inl (dp_store_err d e)
            | Inr agents \<Rightarrow> (case find (\<lambda>a. ag_Name a = name) agents of
                Some a \<Rightarrow> Inr a | None \<Rightarrow> Inl (''the project has no agent named '' @ quote name))))"

definition agent_request :: "ActionContext \<Rightarrow> Agent \<Rightarrow> string \<Rightarrow> RunRequest" where
  "agent_request ac agent override = blank_RunRequest\<lparr>
     rq_ProjectID := prj_ID (ac_Project ac), rq_AgentID := ag_ID agent,
     rq_Reason := ''trigger '' @ tr_Name (ac_Trigger ac), rq_PromptOverride := override,
     rq_TriggerID := tr_ID (ac_Trigger ac), rq_CauseEventID := ev_ID (ac_Event ac),
     rq_SubjectKey := gp_SubjectKey (ac_Guard ac), rq_Depth := gp_Depth (ac_Guard ac),
     rq_SupersededRunID := gp_SupersededRunID (ac_Guard ac) \<rparr>"

definition runAgentParams :: "string list" where
  "runAgentParams = [''agent_id'', ''agent_name'', ''prompt_override'', ''prompt'']"

definition runAgent_prompt :: "(string \<Rightarrow> string) \<Rightarrow> string" where
  "runAgent_prompt p = (if p ''prompt_override'' \<noteq> '''' then p ''prompt_override'' else p ''prompt'')"

definition runAgent_Execute :: "ActionDeps \<Rightarrow> executor" where
  "runAgent_Execute d ac params s =
     (case decodeParams runAgentParams params of
        None \<Rightarrow> ((Inl (dp_json_err d params), []), s)
      | Some p \<Rightarrow>
          if p ''agent_id'' = '''' \<and> p ''agent_name'' = '''' then ((Inl ''an agent is required'', []), s)
          else (case resolveAgent d (prj_ID (ac_Project ac)) (p ''agent_id'') (p ''agent_name'') (snd s) of
                  Inl err \<Rightarrow> ((Inl err, []), s)
                | Inr agent \<Rightarrow>
                    if \<not> dp_attached d
                    then ((Inl ''the run scheduler is not attached; the process is still booting'', []), s)
                    else (let (override, ws) = (if runAgent_prompt p \<noteq> '''' then ac_Interp ac (runAgent_prompt p) else ('''', [])) in
                      case Enqueue (dp_env d) (dp_ports d) (dp_providers d) (dp_sandbox d) (dp_ids d (snd s))
                             (agent_request ac agent override) (fst s) (snd s) of
                        (Inl e, s') \<Rightarrow> ((Inl (dp_enqueue_err d e), ws), s')
                      | (Inr run, s') \<Rightarrow> ((Inr \<lparr> ar_Outcome = Some FiringSucceeded, ar_RunID = run_ID run,
                          ar_Note = ''enqueued run #'' @ fmt_int (run_Seq run) @ '' for '' @ ag_Name agent \<rparr>, ws), s'))))"

definition agentLabel :: "faults \<Rightarrow> string \<Rightarrow> string \<Rightarrow> World \<Rightarrow> string" where
  "agentLabel f aid name w = (if name \<noteq> '''' then name
     else (case Agents_ByID f aid w of Inr a \<Rightarrow> ag_Name a | Inl _ \<Rightarrow> aid))"

definition runAgent_Describe :: "ActionDeps \<Rightarrow> World \<Rightarrow> raw_json \<Rightarrow> string + string" where
  "runAgent_Describe d w params =
     (case decodeParams runAgentParams params of
        None \<Rightarrow> Inl (dp_json_err d params)
      | Some p \<Rightarrow>
          if p ''agent_id'' = '''' \<and> p ''agent_name'' = '''' then Inl ''an agent is required''
          else Inr (''run agent '' @ agentLabel (e_faults (dp_env d)) (p ''agent_id'') (p ''agent_name'') w @
            (if runAgent_prompt p \<noteq> '''' then '' with a prompt override'' else '''')))"

definition runAgent :: "ActionDeps \<Rightarrow> TriggerAction" where
  "runAgent d = \<lparr> ta_ID = ''run_agent'', ta_Label = ''Run an agent'',
     ta_Describe = runAgent_Describe d, ta_Execute = runAgent_Execute d \<rparr>"

definition run_agent_only :: "ActionDeps \<Rightarrow> string \<Rightarrow> TriggerAction option" where
  "run_agent_only d a = (if a = ''run_agent'' then Some (runAgent d) else None)"

lemma runAgent_rows:
  assumes "uncontended (dp_env d)"
  shows "rule_rows (snd (snd (runAgent_Execute d ac params s))) = rule_rows (snd s)"
proof -
  note e = Enqueue_rows [OF assms]
  show ?thesis
    by (auto simp: runAgent_Execute_def Let_def split: option.split sum.split prod.split dest!: e)
qed

section \<open>The pipeline over any lawful guard and actions\<close>

text \<open>
  The interface the engine is written against: a lawful guard, and actions that neither edit rules nor
  write firings. Everything the engine promises about firings is proved here once.
\<close>

locale trigger_pipeline = guard_evaluator "en_guard eng" for eng :: Engine +
  assumes actions_rows: "en_action eng a = Some act \<Longrightarrow> rule_rows (snd (snd (ta_Execute act ac p s))) = rule_rows (snd s)"
begin

lemma walk_rows: "rule_rows (snd (snd (walk_actions (en_action eng) ac refs k s))) = rule_rows (snd s)"
proof (induction refs arbitrary: k s)
  case (Cons r refs)
  show ?case
  proof (cases "en_action eng (rf_ActionID r)")
    case (Some act)
    obtain res ws s' where x: "ta_Execute act ac (rf_Params r) s = ((res, ws), s')" by (metis surj_pair)
    have s': "rule_rows (snd s') = rule_rows (snd s)"
      using actions_rows [OF Some, of ac "rf_Params r" s] x by simp
    show ?thesis
    proof (cases res)
      case (Inr a)
      then show ?thesis
        using Cons.IH s' by (cases "ar_Outcome a"; cases "the (ar_Outcome a)") (auto simp: Some x Let_def)
    qed (simp add: Some x s')
  qed simp
qed simp

lemma walk_outcome: "fo_Outcome (fst (fst (walk_actions (en_action eng) ac refs k s))) \<noteq> None"
proof (induction refs arbitrary: k s)
  case Nil
  show ?case by (simp add: walk_end_def outcome_run_def firingOutcomeOf_def Let_def)
next
  case (Cons r refs)
  show ?case
  proof (cases "en_action eng (rf_ActionID r)")
    case (Some act)
    obtain res ws s' where x: "ta_Execute act ac (rf_Params r) s = ((res, ws), s')" by (metis surj_pair)
    show ?thesis
    proof (cases res)
      case (Inr a)
      then show ?thesis
        using Cons.IH by (cases "ar_Outcome a"; cases "the (ar_Outcome a)")
          (auto simp: Some x Let_def outcome_run_def firingOutcomeOf_def)
    qed (simp add: Some x outcome_run_def firingOutcomeOf_def)
  qed (simp add: outcome_run_def firingOutcomeOf_def)
qed

lemma runActions_facts:
  "rule_rows (snd (snd (runActions eng tr e p pass s))) = rule_rows (snd s)"
  "fo_Outcome (fst (fst (runActions eng tr e p pass s))) \<noteq> None"
  using walk_rows walk_outcome
  by (auto simp: runActions_def firingOutcomeOf_def split: option.split sum.split)

end

text \<open>A step that records at most the one pair it is about.\<close>

definition recorded :: "Engine \<Rightarrow> Trigger \<Rightarrow> Event \<Rightarrow> World \<Rightarrow> World \<Rightarrow> bool" where
  "recorded eng tr e w w' \<longleftrightarrow> rule_rows w' = rule_rows w \<or>
     (tr_ID tr, ev_ID e) \<notin> set (fired_pairs w) \<and>
     rule_rows w' = (fst (rule_rows w), snd (rule_rows w) @ [(en_newid eng (tr_ID tr) (ev_ID e), tr_ID tr, ev_ID e)])"

lemma recorded_cong: "recorded eng tr e v w' \<Longrightarrow> rule_rows v = rule_rows w \<Longrightarrow> recorded eng tr e w w'"
  by (simp add: recorded_def fired_pairs_def)

lemma fired_pairs_cong: "rule_rows v = rule_rows w \<Longrightarrow> fired_pairs v = fired_pairs w"
  by (simp add: fired_pairs_def)

lemma recorded_write: "recorded eng tr e w (writeFiring eng tr e res ws w)"
proof (cases "fo_Outcome res")
  case (Some out)
  then show ?thesis
    by (auto simp: writeFiring_def Let_def recorded_def Firings_Create_def fired_iff fired_pairs_def rule_rows_def
        emit_frame_def split: option.splits)
qed (simp add: writeFiring_def recorded_def)

definition store_up :: "Engine \<Rightarrow> bool" where
  "store_up eng \<longleftrightarrow> (\<forall>t. en_faults eng ''Firings.Create'' t = None \<and> en_faults eng ''Firings.Exists'' t = None)"

text \<open>Fresh ids: the id drawn for a pair is never that of another pair's firing.\<close>

definition ids_fresh :: "Engine \<Rightarrow> World \<Rightarrow> bool" where
  "ids_fresh eng w \<longleftrightarrow> (\<forall>(i, t, e) \<in> set (snd (rule_rows w)). i = en_newid eng t e) \<and>
     inj (\<lambda>(t, e). en_newid eng t e)"

lemma ids_fresh_recorded: "ids_fresh eng w \<Longrightarrow> recorded eng tr e w w' \<Longrightarrow> ids_fresh eng w'"
  by (auto simp: ids_fresh_def recorded_def)

lemma write_records:
  assumes "store_up eng" and "ids_fresh eng w" and "fo_Outcome res \<noteq> None"
  shows "(tr_ID tr, ev_ID e) \<in> set (fired_pairs (writeFiring eng tr e res ws w))"
proof -
  obtain out where out: "fo_Outcome res = Some out" using assms(3) by auto
  have "tf_ID y \<noteq> en_newid eng (tr_ID tr) (ev_ID e)"
    if "y \<in> set (w_firings w)" "(tr_ID tr, ev_ID e) \<notin> set (fired_pairs w)" for y
  proof
    assume "tf_ID y = en_newid eng (tr_ID tr) (ev_ID e)"
    moreover have "(tf_ID y, tf_TriggerID y, tf_EventID y) \<in> set (snd (rule_rows w))"
      using that(1) by (auto simp: rule_rows_def)
    ultimately have "(\<lambda>(t, e). en_newid eng t e) (tf_TriggerID y, tf_EventID y) = (\<lambda>(t, e). en_newid eng t e) (tr_ID tr, ev_ID e)"
      using assms(2) unfolding ids_fresh_def by auto
    then have "tf_TriggerID y = tr_ID tr \<and> tf_EventID y = ev_ID e"
      using assms(2) injD unfolding ids_fresh_def by (metis prod.inject)
    then show False using that by (auto simp: fired_pairs_def rule_rows_def image_iff)
  qed
  then show ?thesis
    using assms(1) out
    by (auto simp: writeFiring_def Let_def Firings_Create_def store_up_def fired_iff list_ex_iff emit_frame_def
        fired_pairs_def rule_rows_def)
qed

context trigger_pipeline
begin

lemma guarded:
  "rule_rows (snd (en_guard eng i w)) = rule_rows w"
  "\<not> v_Proceed (fst (en_guard eng i w)) \<Longrightarrow> fo_Outcome (verdict_outcome (fst (en_guard eng i w))) \<noteq> None"
  using evaluate_rows stop_named by (simp_all add: verdict_outcome_def)

lemma fire_recorded: "recorded eng tr e (snd s) (snd (fire eng tr e p s))"
proof -
  let ?i = "guard_input_of eng tr e p (snd s)"
  obtain v w1 where g: "en_guard eng ?i (snd s) = (v, w1)" by (meson surj_pair)
  have w1: "rule_rows w1 = rule_rows (snd s)" using guarded(1) [of ?i "snd s"] g by simp
  obtain res ws S2 w2 where a: "runActions eng tr e p (v_Pass v) (fst s, w1) = ((res, ws), (S2, w2))"
    by (metis surj_pair)
  have w2: "rule_rows w2 = rule_rows (snd s)"
    using runActions_facts(1) [of tr e p "v_Pass v" "(fst s, w1)"] a w1 by simp
  have "recorded eng tr e (snd s) (snd s)" by (simp add: recorded_def)
  then show ?thesis
    using recorded_write recorded_cong [OF recorded_write w1] recorded_cong [OF recorded_write w2]
    by (auto simp: fire_def g a split: sum.split bool.split)
qed

lemma fire_skips:
  assumes "(tr_ID tr, ev_ID e) \<in> set (fired_pairs (snd s)) \<or> \<not> matchStage tr e p"
  shows "fire eng tr e p s = s"
  using assms by (auto simp: fire_def Firings_Exists_def query_def fired_iff split: option.split)

lemma fire_records:
  assumes "store_up eng" and "ids_fresh eng (snd s)" and "matchStage tr e p"
  shows "(tr_ID tr, ev_ID e) \<in> set (fired_pairs (snd (fire eng tr e p s)))"
proof (cases "(tr_ID tr, ev_ID e) \<in> set (fired_pairs (snd s))")
  case True
  then show ?thesis using fire_skips by simp
next
  case False
  let ?i = "guard_input_of eng tr e p (snd s)"
  obtain v w1 where g: "en_guard eng ?i (snd s) = (v, w1)" by (meson surj_pair)
  have w1: "rule_rows w1 = rule_rows (snd s)" using guarded(1) [of ?i "snd s"] g by simp
  obtain res ws S2 w2 where a: "runActions eng tr e p (v_Pass v) (fst s, w1) = ((res, ws), (S2, w2))"
    by (metis surj_pair)
  have w2: "rule_rows w2 = rule_rows (snd s)" and res: "fo_Outcome res \<noteq> None"
    using runActions_facts [of tr e p "v_Pass v" "(fst s, w1)"] a w1 by simp_all
  have fresh: "ids_fresh eng w1" "ids_fresh eng w2" using assms(2) w1 w2 by (simp_all add: ids_fresh_def)
  have "\<not> v_Proceed v \<Longrightarrow> fo_Outcome (verdict_outcome v) \<noteq> None" using guarded(2) [of ?i "snd s"] g by simp
  moreover have "Firings_Exists (en_faults eng) (tr_ID tr) (ev_ID e) (snd s) = Inr False"
    using assms(1) False by (simp add: Firings_Exists_def fired_iff store_up_def)
  ultimately show ?thesis
    using assms(3) write_records [OF assms(1,2)] write_records [OF assms(1) fresh(1)] write_records [OF assms(1) fresh(2) res]
    by (simp add: fire_def g a firingOutcomeOf_def)
qed

lemma fire_rules: "fst (rule_rows (snd (fire eng tr e p s))) = fst (rule_rows (snd s))"
proof -
  from fire_recorded [of tr e s p] show ?thesis unfolding recorded_def by (elim disjE conjE) simp_all
qed

lemma fire_pairs:
  "set (fired_pairs (snd s)) \<subseteq> set (fired_pairs (snd (fire eng tr e p s)))"
  "distinct (fired_pairs (snd s)) \<Longrightarrow> distinct (fired_pairs (snd (fire eng tr e p s)))"
  using fire_recorded [of tr e s p] by (auto simp: recorded_def fired_pairs_def)

lemma fold_rules: "fst (rule_rows (snd (fold (\<lambda>tr. fire eng tr e p) trs s))) = fst (rule_rows (snd s))"
  by (induction trs arbitrary: s) (simp_all add: fire_rules)

lemma fold_pairs: "set (fired_pairs (snd s)) \<subseteq> set (fired_pairs (snd (fold (\<lambda>tr. fire eng tr e p) trs s)))"
proof (induction trs arbitrary: s)
  case (Cons tr trs)
  from order_trans [OF fire_pairs(1) Cons.IH] show ?case by simp
qed simp

lemma fold_distinct:
  "distinct (fired_pairs (snd s)) \<Longrightarrow> distinct (fired_pairs (snd (fold (\<lambda>tr. fire eng tr e p) trs s)))"
  by (induction trs arbitrary: s) (simp_all add: fire_pairs(2))

lemma fold_skips:
  assumes "\<forall>tr \<in> set trs. matchStage tr e p \<longrightarrow> (tr_ID tr, ev_ID e) \<in> set (fired_pairs (snd s))"
  shows "fold (\<lambda>tr. fire eng tr e p) trs s = s"
  using assms
proof (induction trs)
  case (Cons tr trs)
  then have "fire eng tr e p s = s" by (intro fire_skips) auto
  then show ?case using Cons by simp
qed simp

lemma fold_records:
  assumes "store_up eng" and "ids_fresh eng (snd s)" and "tr \<in> set trs" and "matchStage tr e p"
  shows "(tr_ID tr, ev_ID e) \<in> set (fired_pairs (snd (fold (\<lambda>tr. fire eng tr e p) trs s)))"
  using assms(2,3)
proof (induction trs arbitrary: s)
  case (Cons t trs)
  have fresh: "ids_fresh eng (snd (fire eng t e p s))"
    using ids_fresh_recorded [OF Cons.prems(1) fire_recorded] .
  show ?case
  proof (cases "t = tr")
    case True
    have "(tr_ID tr, ev_ID e) \<in> set (fired_pairs (snd (fire eng tr e p s)))"
      by (rule fire_records [OF assms(1) Cons.prems(1) assms(4)])
    then show ?thesis using fold_pairs [of "fire eng tr e p s" e p trs] True by auto
  next
    case False
    then show ?thesis using Cons.IH [OF fresh] Cons.prems(2) by simp
  qed
qed simp

lemma process_cases:
  "process eng e s = s \<or> (\<exists>pid trs. ev_ProjectID e = Some pid \<and> Triggers_Enabled (en_faults eng) pid (snd s) = Inr trs \<and>
     process eng e s = fold (\<lambda>tr. fire eng tr e (parsePayload (ev_Payload e))) trs s)"
  by (auto simp: process_def split: option.split sum.split)

lemma process_distinct: "distinct (fired_pairs (snd s)) \<Longrightarrow> distinct (fired_pairs (snd (process eng e s)))"
  using process_cases [of e s] fold_distinct by metis

lemma processes_distinct: "distinct (fired_pairs (snd s)) \<Longrightarrow> distinct (fired_pairs (snd (fold (process eng) es s)))"
  by (induction es arbitrary: s) (simp_all add: process_distinct)

lemma process_again:
  assumes "store_up eng" and "ids_fresh eng (snd s)"
  shows "process eng e (process eng e s) = process eng e s"
proof (cases "process eng e s = s")
  case False
  then obtain pid trs where pid: "ev_ProjectID e = Some pid" and trs: "Triggers_Enabled (en_faults eng) pid (snd s) = Inr trs"
    and p: "process eng e s = fold (\<lambda>tr. fire eng tr e (parsePayload (ev_Payload e))) trs s"
    using process_cases [of e s] by blast
  have "w_triggers (snd (process eng e s)) = w_triggers (snd s)"
    using fold_rules [of e "parsePayload (ev_Payload e)" trs s] p by (simp add: rule_rows_def)
  then have "Triggers_Enabled (en_faults eng) pid (snd (process eng e s)) = Inr trs"
    using trs by (simp add: Triggers_Enabled_def)
  then have "process eng e (process eng e s) =
      fold (\<lambda>tr. fire eng tr e (parsePayload (ev_Payload e))) trs (process eng e s)"
    by (simp add: process_def [of eng e "process eng e s"] pid)
  also have "\<dots> = process eng e s"
    using fold_records [OF assms] unfolding p by (intro fold_skips) blast
  finally show ?thesis .
qed simp

end

section \<open>The deployed engine\<close>

text \<open>
  What \<^verbatim>\<open>cmd/lexicode\<close> wires, with the one action modelled here: the layered guard over the scheduler,
  and \<^verbatim>\<open>run_agent\<close> over a scheduler no other process writes to meanwhile.
\<close>

definition settled :: "ActionDeps \<Rightarrow> ActionDeps" where
  "settled d = d\<lparr> dp_env := (dp_env d)\<lparr> e_races := \<lambda>_. [] \<rparr> \<rparr>"

definition deployed :: "Engine \<Rightarrow> int \<Rightarrow> string \<Rightarrow> ActionDeps \<Rightarrow> Engine" where
  "deployed eng now newid d = eng\<lparr>
     en_guard := Evaluate (en_faults eng) now (scheduler_stopper (dp_env d) (dp_sandbox d) newid),
     en_action := run_agent_only (settled d) \<rparr>"

interpretation deployed: trigger_pipeline "deployed eng now newid d" for eng now newid d
proof -
  have g: "en_guard (deployed eng now newid d) =
      Evaluate (en_faults eng) now (scheduler_stopper (dp_env d) (dp_sandbox d) newid)"
    by (simp add: deployed_def)
  have "uncontended (dp_env (settled d))" by (simp add: settled_def uncontended_def)
  then have "rule_rows (snd (snd (ta_Execute act ac p s))) = rule_rows (snd s)"
    if "en_action (deployed eng now newid d) a = Some act" for a act ac p s
    using that runAgent_rows [of "settled d" ac p s] by (auto simp: deployed_def run_agent_only_def runAgent_def split: if_splits)
  then show "trigger_pipeline (deployed eng now newid d)"
    unfolding trigger_pipeline_def trigger_pipeline_axioms_def g
    using layers.guard_evaluator_axioms by blast
qed

definition pair_id :: "string \<Rightarrow> string \<Rightarrow> string" where
  "pair_id t e = concat (map (\<lambda>c. [CHR ''1'', c]) t) @ CHR ''0'' # e"

lemma pair_id_inj: "inj (\<lambda>(t, e). pair_id t e)"
proof -
  have "pair_id t e = pair_id t' e' \<Longrightarrow> t = t' \<and> e = e'" for t e t' e'
    by (induction t arbitrary: t') (case_tac [!] t', auto simp: pair_id_def)
  then show ?thesis by (auto intro!: injI)
qed

definition demo_engine :: Engine where
  "demo_engine = \<lparr> en_faults = no_faults, en_now = ''2026-01-01T00:00:00.000Z'', en_guard = Pass_Evaluate,
     en_action = (\<lambda>_. None), en_sources = [], en_newid = pair_id, en_float = (\<lambda>_. ''''),
     en_json_err = (\<lambda>_. ''''), en_store_err = (\<lambda>_. '''') \<rparr>"

definition demo_deps :: ActionDeps where
  "demo_deps = \<lparr> dp_env = calm_env, dp_ports = idle_ports, dp_providers = [], dp_sandbox = ''docker'',
     dp_ids = (\<lambda>_ n. ''run-'' @ fmt_nat n), dp_attached = True, dp_json_err = (\<lambda>_. ''''),
     dp_enqueue_err = (\<lambda>_. ''''), dp_store_err = (\<lambda>_. '''') \<rparr>"

definition rule_world :: World where
  "rule_world = guard_world\<lparr>
     w_agents := [blank_Agent\<lparr> ag_ID := ''A'', ag_ProjectID := ''P'', ag_Name := ''Dev'', ag_Enabled := True \<rparr>],
     w_triggers := [blank_Trigger\<lparr> tr_ID := ''R'', tr_ProjectID := ''P'', tr_Name := ''fix'', tr_Enabled := True,
       tr_Event := ''pull_request'', tr_Conditions := Raw (JObj [(''all'', JArr [])]),
       tr_Actions := Raw (JArr [JObj [(''action_id'', JStr ''run_agent''),
         (''params'', JObj [(''agent_id'', JStr ''A'')])]]) \<rparr>] \<rparr>"

text \<open>
  C2. Redelivery is harmless: evaluating an event a second time changes nothing at all, neither rows nor
  runs nor frames, once the first evaluation could record its firings; and whatever the driver answers,
  no sequence of deliveries ever records two firings of one (trigger, event) pair.
\<close>

theorem engine_redelivery:
  fixes eng now newid d
  defines "E \<equiv> deployed eng now newid d"
  shows "(store_up E \<and> ids_fresh E (snd s) \<longrightarrow> process E e (process E e s) = process E e s) \<and>
    (distinct (fired_pairs (snd s)) \<longrightarrow> distinct (fired_pairs (snd (fold (process E) es s))))"
  unfolding E_def using deployed.process_again deployed.processes_distinct by blast

theorem engine_redelivery_witness:
  "(let E = deployed demo_engine guard_now ''stopped'' demo_deps; s1 = process E (chain_event ''e0'' None) (Map.empty, rule_world) in
    process E (chain_event ''e0'' None) s1 = s1 \<and>
    map tf_Outcome (w_firings (snd s1)) = [FiringSucceeded] \<and> length (w_runs (snd s1)) = 4)"
proof -
  let ?E = "deployed demo_engine guard_now ''stopped'' demo_deps"
  have "store_up ?E" by (simp add: store_up_def deployed_def demo_engine_def)
  moreover have "ids_fresh ?E rule_world"
    using pair_id_inj by (simp add: ids_fresh_def deployed_def demo_engine_def rule_rows_def rule_world_def guard_world_def blank_World_def)
  ultimately have again: "process ?E (chain_event ''e0'' None) (process ?E (chain_event ''e0'' None) (Map.empty, rule_world)) =
      process ?E (chain_event ''e0'' None) (Map.empty, rule_world)"
    using engine_redelivery [where s = "(Map.empty, rule_world)"] by simp
  have "map tf_Outcome (w_firings (snd (process ?E (chain_event ''e0'' None) (Map.empty, rule_world)))) = [FiringSucceeded]"
    "length (w_runs (snd (process ?E (chain_event ''e0'' None) (Map.empty, rule_world)))) = 4"
    by code_simp+
  with again show ?thesis by (simp add: Let_def)
qed

section \<open>From the guard to the run\<close>

lemma Enqueue_new_row:
  assumes "uncontended env" and "rq_SupersededRunID req \<noteq> ids 0"
    and "Enqueue env ports ps sandbox ids req sups w = (Inr run, sups', w')"
  shows "run_of w' (ids 0) = Some run \<and> run_ID run = ids 0 \<and> run_Depth run = rq_Depth req \<and>
    run_TriggerID run = null_if_empty (rq_TriggerID req) \<and> run_CauseEventID run = null_if_empty (rq_CauseEventID req) \<and>
    (rq_SubjectKey req \<noteq> [] \<longrightarrow> run_SubjectKey run = rq_SubjectKey req)"
  using assms(3)
proof (cases rule: Enqueue_cases)
  case (finished r w1 w2 agent ticket prompt)
  have id: "run_ID r = ids 0" by (subst finished(4), simp)
  have "w_runs w2 = w_runs w @ [r] \<and> run_of w (ids 0) = None"
    using Runs_Create_runs [OF finished(6)] finished(2) id by simp
  then have "run_of w2 (ids 0) = Some r"
    using id by (auto simp: run_of_def find_row_append find_row_Cons split: option.split)
  then have "run_of w' (ids 0) = Some r"
    using supersede_other [OF assms(1) assms(2) [symmetric]] finished(1) by (simp add: run_of_def)
  moreover have "run_Depth r = rq_Depth req" "run_TriggerID r = null_if_empty (rq_TriggerID req)"
    "run_CauseEventID r = null_if_empty (rq_CauseEventID req)"
    "rq_SubjectKey req \<noteq> [] \<longrightarrow> run_SubjectKey r = rq_SubjectKey req"
    by (subst finished(4), simp add: new_run_def)+
  ultimately show ?thesis using finished(3) id by simp
qed simp_all

text \<open>
  C3. The guard's decision lands on the run it allowed: when the guard lets an event through and
  \<^verbatim>\<open>run_agent\<close> succeeds on its pass, the new run carries the rule, the causing event, the guarded
  subject and the depth the guard counted, and that depth is below the rule's limit.
\<close>

theorem guard_pass_lands_on_run:
  assumes "Evaluate f now loop i w = (v, w1)" and "v_Proceed v"
    and "chainDepth f (in_Event i) (in_SubjectKey i) w = Inr n"
    and "0 < cfg_DepthLimit (loadConfig (tr_LoopConfig (in_Trigger i)))"
    and "ac_Guard ac = v_Pass v" and "ac_Trigger ac = in_Trigger i" and "ac_Event ac = in_Event i"
    and "uncontended (dp_env d)" and "gp_SupersededRunID (v_Pass v) \<noteq> dp_ids d w1 0"
    and "runAgent_Execute d ac params (S, w1) = ((Inr res, ws), (S', w'))"
  shows "\<exists>run. run_of w' (ar_RunID res) = Some run \<and> run_Depth run = n \<and>
    n < cfg_DepthLimit (loadConfig (tr_LoopConfig (in_Trigger i))) \<and>
    run_TriggerID run = null_if_empty (tr_ID (in_Trigger i)) \<and>
    run_CauseEventID run = null_if_empty (ev_ID (in_Event i)) \<and>
    (in_SubjectKey i \<noteq> '''' \<longrightarrow> run_SubjectKey run = in_SubjectKey i)"
proof -
  obtain agent override run where
    e: "Enqueue (dp_env d) (dp_ports d) (dp_providers d) (dp_sandbox d) (dp_ids d w1)
        (agent_request ac agent override) S w1 = (Inr run, S', w')" and res: "ar_RunID res = run_ID run"
    using assms(10) by (auto simp: runAgent_Execute_def Let_def split: option.splits if_splits sum.splits prod.splits)
  have req: "rq_SupersededRunID (agent_request ac agent override) = gp_SupersededRunID (v_Pass v)"
    "rq_Depth (agent_request ac agent override) = gp_Depth (v_Pass v)"
    "rq_SubjectKey (agent_request ac agent override) = gp_SubjectKey (v_Pass v)"
    "rq_TriggerID (agent_request ac agent override) = tr_ID (in_Trigger i)"
    "rq_CauseEventID (agent_request ac agent override) = ev_ID (in_Event i)"
    using assms(5-7) by (simp_all add: agent_request_def)
  have "rq_SupersededRunID (agent_request ac agent override) \<noteq> dp_ids d w1 0" using assms(9) req(1) by simp
  note row = Enqueue_new_row [OF assms(8) this e, unfolded req]
  show ?thesis
    using row Evaluate_proceeds(2) [OF assms(1,2)] Evaluate_proceeds(6) [OF assms(1,2,4,3)] res by auto
qed

theorem guard_pass_lands_on_run_witness:
  "(let i = guard_input (chain_event ''e1'' (Some ''r1'')) RawEmpty; (v, w1) = Evaluate no_faults guard_now None i rule_world;
       ac = \<lparr> ac_Event = in_Event i, ac_Trigger = in_Trigger i, ac_Project = blank_Project\<lparr> prj_ID := ''P'' \<rparr>,
              ac_Interp = (\<lambda>s. (s, [])), ac_Guard = v_Pass v \<rparr>;
       (r, (S', w')) = runAgent_Execute demo_deps ac (Raw (JObj [(''agent_id'', JStr ''A'')])) (Map.empty, w1)
    in map_option run_Depth (run_of w' ''run-0'') = Some 1)"
proof -
  let ?i = "guard_input (chain_event ''e1'' (Some ''r1'')) RawEmpty"
  let ?ev = "Evaluate no_faults guard_now None ?i rule_world"
  let ?ac = "\<lparr> ac_Event = in_Event ?i, ac_Trigger = in_Trigger ?i, ac_Project = blank_Project\<lparr> prj_ID := ''P'' \<rparr>,
    ac_Interp = (\<lambda>s. (s, [])), ac_Guard = v_Pass (fst ?ev) \<rparr>"
  let ?x = "runAgent_Execute demo_deps ?ac (Raw (JObj [(''agent_id'', JStr ''A'')])) (Map.empty, snd ?ev)"
  have e: "?ev = (fst ?ev, snd ?ev)" and p: "v_Proceed (fst ?ev)" by (simp, code_simp)
  have n: "chainDepth no_faults (in_Event ?i) (in_SubjectKey ?i) rule_world = Inr 1" by code_simp
  have l: "0 < cfg_DepthLimit (loadConfig (tr_LoopConfig (in_Trigger ?i)))" by code_simp
  have u: "uncontended (dp_env demo_deps)" by (simp add: demo_deps_def)
  have s: "gp_SupersededRunID (v_Pass (fst ?ev)) \<noteq> dp_ids demo_deps (snd ?ev) 0" by code_simp
  have ok: "is_ok (fst (fst ?x))" by code_simp
  then obtain res where r: "fst (fst ?x) = Inr res" by (auto simp: is_ok_iff)
  have rid: "(case fst (fst ?x) of Inr y \<Rightarrow> ar_RunID y = ''run-0'' | Inl _ \<Rightarrow> False)" by code_simp
  have x: "?x = ((Inr res, snd (fst ?x)), (fst (snd ?x), snd (snd ?x)))" using r by (metis prod.collapse)
  have g: "ac_Guard ?ac = v_Pass (fst ?ev)" "ac_Trigger ?ac = in_Trigger ?i" "ac_Event ?ac = in_Event ?i"
    by simp_all
  obtain run where run: "run_of (snd (snd ?x)) (ar_RunID res) = Some run" "run_Depth run = 1"
    using guard_pass_lands_on_run [OF e p n l g u s x] by blast
  have "ar_RunID res = ''run-0''" using rid r by simp
  then have "map_option run_Depth (run_of (snd (snd ?x)) ''run-0'') = Some 1" using run by simp
  then show ?thesis by (simp only: Let_def case_prod_beta)
qed

end
