(* ===== verification/Cron.thy ===== *)
theory Cron
  imports Bus Engine "HOL-Library.Word"
begin

text \<open>
  The \<^verbatim>\<open>schedule.cron\<close> event source (\<^verbatim>\<open>internal/module/cron\<close>): five-field expressions as 64-bit
  sets, the POSIX day rule, and the minute scan with its per-trigger cursor (\<^verbatim>\<open>poll_cursors\<close>). An
  instant is a number of nanoseconds as in Timestamps. Machine arithmetic that can wrap, the step of a
  list entry, is done on \<^verbatim>\<open>64 word\<close>; a shift by a negative count panics and is an outcome of its own.
\<close>

unbundle bit_operations_syntax

section \<open>Parsing an expression\<close>

datatype 'a parsed = Parsed 'a | Refused string | Panics

record Expr =
  ex_minute :: "64 word"
  ex_hour :: "64 word"
  ex_dom :: "64 word"
  ex_month :: "64 word"
  ex_dow :: "64 word"
  ex_domStar :: bool
  ex_dowStar :: bool

record fieldSpec =
  fs_name :: string
  fs_min :: int
  fs_max :: int
  fs_names :: "(string \<times> int) list option"

definition monthNames :: "(string \<times> int) list" where
  "monthNames = [(''jan'', 1), (''feb'', 2), (''mar'', 3), (''apr'', 4), (''may'', 5), (''jun'', 6),
     (''jul'', 7), (''aug'', 8), (''sep'', 9), (''oct'', 10), (''nov'', 11), (''dec'', 12)]"

definition dowNames :: "(string \<times> int) list" where
  "dowNames = [(''sun'', 0), (''mon'', 1), (''tue'', 2), (''wed'', 3), (''thu'', 4), (''fri'', 5), (''sat'', 6)]"

definition fieldSpecs :: "fieldSpec list" where
  "fieldSpecs = [
     \<lparr> fs_name = ''minute'', fs_min = 0, fs_max = 59, fs_names = None \<rparr>,
     \<lparr> fs_name = ''hour'', fs_min = 0, fs_max = 23, fs_names = None \<rparr>,
     \<lparr> fs_name = ''day-of-month'', fs_min = 1, fs_max = 31, fs_names = None \<rparr>,
     \<lparr> fs_name = ''month'', fs_min = 1, fs_max = 12, fs_names = Some monthNames \<rparr>,
     \<lparr> fs_name = ''day-of-week'', fs_min = 0, fs_max = 7, fs_names = Some dowNames \<rparr>]"

text \<open>\<^verbatim>\<open>strconv.Atoi\<close>: an optional sign, decimal digits, in the 64-bit range.\<close>

definition Atoi :: "string \<Rightarrow> int option" where
  "Atoi s =
     (let (neg, ds) = (case s of c # cs \<Rightarrow> if c = CHR ''-'' then (True, cs) else if c = CHR ''+'' then (False, cs) else (False, s)
                       | [] \<Rightarrow> (False, [])) in
      if ds = [] then None
      else (case digits ds of
              None \<Rightarrow> None
            | Some n \<Rightarrow> (let v = (if neg then - n else n) in if - (2 ^ 63) \<le> v \<and> v < 2 ^ 63 then Some v else None)))"

definition parseValue :: "string \<Rightarrow> fieldSpec \<Rightarrow> int parsed" where
  "parseValue s spec =
     (case Option.bind (fs_names spec) (\<lambda>names. map_of names (to_lower s)) of
        Some v \<Rightarrow> Parsed v
      | None \<Rightarrow>
          (case Atoi s of
             None \<Rightarrow> Refused (fs_name spec @ '': '' @ quote s @
               (if fs_names spec \<noteq> None then '' is not a number or a 3-letter name'' else '' is not a number''))
           | Some v \<Rightarrow>
               if v < fs_min spec \<or> fs_max spec < v
               then Refused (fs_name spec @ '': '' @ fmt_int v @ '' is out of range '' @ fmt_int (fs_min spec) @ ''-'' @
                      fmt_int (fs_max spec))
               else Parsed v))"

text \<open>Signed addition of two non-negative numbers is exact or negative.\<close>

lemma sint_range: "- (2 ^ 63) \<le> sint (x :: 64 word)" "sint (x :: 64 word) < 2 ^ 63"
  using sint_greater_eq [of x] sint_less [of x] by simp_all

lemma sint_plus:
  fixes x y :: "64 word"
  assumes "0 \<le> sint x" and "0 \<le> sint y"
  shows "sint (x + y) = (if sint x + sint y < 2 ^ 63 then sint x + sint y else sint x + sint y - 2 ^ 64)"
proof -
  have "x + y = word_of_int (sint x + sint y)" by simp
  then have s: "sint (x + y) = (sint x + sint y + 2 ^ 63) mod 2 ^ 64 - 2 ^ 63"
    by (simp only: int_word_sint) simp
  show ?thesis
  proof (cases "sint x + sint y < 2 ^ 63")
    case True
    then show ?thesis using assms unfolding s by (subst mod_pos_pos_trivial) simp_all
  next
    case False
    have "(sint x + sint y + 2 ^ 63) mod 2 ^ 64 = (sint x + sint y - 2 ^ 63) mod 2 ^ 64"
      using mod_add_self2 [of "sint x + sint y - 2 ^ 63" "2 ^ 64"] by (simp add: add.commute)
    also have "\<dots> = sint x + sint y - 2 ^ 63"
      using False sint_range [of x] sint_range [of y] by (intro mod_pos_pos_trivial) simp_all
    finally show ?thesis using False s by simp
  qed
qed

text \<open>
  The loop over one entry. The step wraps at 64 bits; \<^verbatim>\<open>None\<close> is the panic of a shift by a negative
  count. A step is at least 1, which \<^verbatim>\<open>parsePart\<close> has checked; below that the loop would not move.
\<close>

function part_bits :: "64 word \<Rightarrow> 64 word \<Rightarrow> 64 word \<Rightarrow> 64 word \<Rightarrow> 64 word option" where
  "part_bits hi step v bits =
     (if hi <s v then Some bits
      else if v <s 0 \<or> step <s 1 then None
      else part_bits hi step (v + step) (bits OR push_bit (nat (sint v)) 1))"
  by pat_completeness auto

termination
proof (relation "measure (\<lambda>(hi, step, v, bits). if v <s 0 then 0 else nat (sint hi + 2 - sint v))")
  fix hi step v bits :: "64 word"
  assume a: "\<not> hi <s v" "\<not> (v <s 0 \<or> step <s 1)"
  then have v: "0 \<le> sint v" "sint v \<le> sint hi" "1 \<le> sint step" by (simp_all add: word_sless_alt word_sle_eq not_less)
  show "((hi, step, v + step, bits OR push_bit (nat (sint v)) 1), hi, step, v, bits)
     \<in> measure (\<lambda>(hi, step, v, bits). if v <s 0 then 0 else nat (sint hi + 2 - sint v))"
    using v sint_plus [of v step] sint_range [of v] sint_range [of step] by (simp add: word_sless_alt split: if_splits)
qed simp


declare part_bits.simps [simp del]

text \<open>The range of an entry: its first and last value, and whether a step was given.\<close>

definition bind_parsed :: "'a parsed \<Rightarrow> ('a \<Rightarrow> 'b parsed) \<Rightarrow> 'b parsed" where
  "bind_parsed r g = (case r of Parsed x \<Rightarrow> g x | Refused e \<Rightarrow> Refused e | Panics \<Rightarrow> Panics)"

definition entry_range :: "string \<Rightarrow> bool \<Rightarrow> fieldSpec \<Rightarrow> (int \<times> int) parsed" where
  "entry_range rangePart hadStep spec =
     (if rangePart = ''*'' then Parsed (fs_min spec, fs_max spec)
      else (case cut_at rangePart ''-'' of
              Some (loStr, hiStr) \<Rightarrow>
                bind_parsed (parseValue loStr spec) (\<lambda>lo.
                bind_parsed (parseValue hiStr spec) (\<lambda>hi.
                  if hi < lo then Refused (fs_name spec @ '': range '' @ quote rangePart @ '' is reversed'')
                  else Parsed (lo, hi)))
            | None \<Rightarrow> bind_parsed (parseValue rangePart spec) (\<lambda>v. Parsed (v, if hadStep then fs_max spec else v))))"

definition entry_bits :: "string \<Rightarrow> int \<Rightarrow> bool \<Rightarrow> fieldSpec \<Rightarrow> 64 word parsed" where
  "entry_bits rangePart step hadStep spec =
     bind_parsed (entry_range rangePart hadStep spec) (\<lambda>(lo, hi).
       case part_bits (word_of_int hi) (word_of_int step) (word_of_int lo) 0 of None \<Rightarrow> Panics | Some b \<Rightarrow> Parsed b)"

definition parsePart :: "string \<Rightarrow> fieldSpec \<Rightarrow> 64 word parsed" where
  "parsePart part spec =
     (case cut_at part ''/'' of
        None \<Rightarrow> entry_bits part 1 False spec
      | Some (base, stepStr) \<Rightarrow>
          (case Atoi stepStr of
             None \<Rightarrow> Refused (fs_name spec @ '': step '' @ quote stepStr @ '' is not a number'')
           | Some n \<Rightarrow>
               if n < 1 then Refused (fs_name spec @ '': step '' @ fmt_int n @ '' must be at least 1'')
               else entry_bits base n True spec))"

fun parse_entries :: "string \<Rightarrow> fieldSpec \<Rightarrow> string list \<Rightarrow> 64 word \<Rightarrow> 64 word parsed" where
  "parse_entries field spec [] bits = Parsed bits"
| "parse_entries field spec (p # ps) bits =
     (if p = '''' then Refused (fs_name spec @ '': '' @ quote field @ '' has an empty list entry'')
      else bind_parsed (parsePart p spec) (\<lambda>b. parse_entries field spec ps (bits OR b)))"

definition parseField :: "string \<Rightarrow> fieldSpec \<Rightarrow> 64 word parsed" where
  "parseField field spec = parse_entries field spec (split_on CHR '','' field) 0"

fun parse_fields_list :: "(string \<times> fieldSpec) list \<Rightarrow> 64 word list parsed" where
  "parse_fields_list [] = Parsed []"
| "parse_fields_list ((f, spec) # fs) =
     bind_parsed (parseField f spec) (\<lambda>b. bind_parsed (parse_fields_list fs) (\<lambda>bs. Parsed (b # bs)))"

text \<open>Bit 7, the other Sunday, is folded onto bit 0.\<close>

definition fold_sunday :: "64 word \<Rightarrow> 64 word" where
  "fold_sunday d = (if d AND push_bit 7 1 \<noteq> 0 then (d OR 1) AND NOT (push_bit 7 1) else d)"

definition Parse :: "string \<Rightarrow> Expr parsed" where
  "Parse s =
     (let fs = Prelude.fields (trim_space s) in
      if length fs \<noteq> 5
      then Refused (''a cron expression has 5 fields: minute hour day-of-month month day-of-week (got '' @
             fmt_nat (length fs) @ '')'')
      else bind_parsed (parse_fields_list (zip fs fieldSpecs)) (\<lambda>b. Parsed \<lparr>
             ex_minute = b ! 0, ex_hour = b ! 1, ex_dom = b ! 2, ex_month = b ! 3, ex_dow = fold_sunday (b ! 4),
             ex_domStar = (fs ! 2 = ''*''), ex_dowStar = (fs ! 4 = ''*'') \<rparr>))"

section \<open>Matching an instant\<close>

definition minute_ns :: int where "minute_ns = 60000000000"

definition day_no :: "int \<Rightarrow> int" where
  "day_no t = ms_of t div ms_per_day"

definition hasBit :: "64 word \<Rightarrow> int \<Rightarrow> bool" where
  "hasBit w i = (w AND push_bit (nat i) 1 \<noteq> 0)"

text \<open>1970-01-01 was a Thursday, day 4 of the week.\<close>

definition Matches :: "Expr \<Rightarrow> int \<Rightarrow> bool" where
  "Matches e t =
     (case civil (day_no t + epoch) of (y, month, day) \<Rightarrow>
      if \<not> hasBit (ex_minute e) (t div minute_ns mod 60) \<or> \<not> hasBit (ex_hour e) (t div (60 * minute_ns) mod 24) \<or>
         \<not> hasBit (ex_month e) month
      then False
      else (let domOK = hasBit (ex_dom e) day; dowOK = hasBit (ex_dow e) ((day_no t + 4) mod 7) in
            if ex_domStar e \<and> ex_dowStar e then True
            else if ex_domStar e then dowOK
            else if ex_dowStar e then domOK
            else domOK \<or> dowOK))"

text \<open>The backward search; \<^verbatim>\<open>None\<close> would be a search that does not end.\<close>

partial_function (option) latest_loop :: "Expr \<Rightarrow> int \<Rightarrow> int \<Rightarrow> int option option" where
  "latest_loop e low m =
     (if \<not> low < m then Some None
      else if Matches e m then Some (Some m)
      else latest_loop e low (m - minute_ns))"

declare latest_loop.simps [code]

definition latestMatch :: "Expr \<Rightarrow> int \<Rightarrow> int \<Rightarrow> int \<Rightarrow> int option option" where
  "latestMatch e since until lookback =
     latest_loop e (if until - lookback < since then since else until - lookback) until"

definition defaultLookback :: int where
  "defaultLookback = 366 * 24 * 60 * minute_ns"

section \<open>Cursors\<close>

record PollCursor =
  pc_ProjectID :: string
  pc_Resource :: string
  pc_Cursor :: string
  pc_Etag :: string
  pc_BaselineDone :: bool
  pc_LastPolledAt :: "string option"

definition PollCursors_Get :: "faults \<Rightarrow> string \<Rightarrow> string \<Rightarrow> PollCursor list \<Rightarrow> PollCursor res" where
  "PollCursors_Get f pid resource t = query_row f ''PollCursors.Get'' resource
     (find (\<lambda>c. pc_ProjectID c = pid \<and> pc_Resource c = resource) t)"

definition PollCursors_Upsert :: "faults \<Rightarrow> PollCursor \<Rightarrow> PollCursor list \<Rightarrow> unit res \<times> PollCursor list" where
  "PollCursors_Upsert f c t =
     (case f ''PollCursors.Upsert'' (pc_Resource c) of
        Some e \<Rightarrow> (Inl e, t)
      | None \<Rightarrow>
          (Inr (), if list_ex (\<lambda>x. pc_ProjectID x = pc_ProjectID c \<and> pc_Resource x = pc_Resource c) t
             then update_where (\<lambda>x. pc_ProjectID x = pc_ProjectID c \<and> pc_Resource x = pc_Resource c) (\<lambda>_. c) t
             else t @ [c]))"

definition PollCursors_DeleteForProject :: "faults \<Rightarrow> string \<Rightarrow> PollCursor list \<Rightarrow> unit res \<times> PollCursor list" where
  "PollCursors_DeleteForProject f pid t =
     (case f ''PollCursors.DeleteForProject'' pid of
        Some e \<Rightarrow> (Inl e, t) | None \<Rightarrow> (Inr (), filter (\<lambda>c. pc_ProjectID c \<noteq> pid) t))"

section \<open>The source\<close>

definition sourceID :: string where "sourceID = ''schedule.cron''"

definition eventKind :: string where "eventKind = ''schedule''"

definition activityType :: string where "activityType = ''cron''"

definition cron_catalog :: "EventDescriptor list" where
  "cron_catalog = [\<lparr> ed_Kind = eventKind, ed_ActivityTypes = [activityType], ed_Filters = [''cron''],
     ed_SubjectKey = ''schedule:{{schedule.trigger_id}}'' \<rparr>]"

definition cursorResource :: "string \<Rightarrow> string" where
  "cursorResource tid = ''cron:'' @ tid"

text \<open>The digest is an argument: \<^verbatim>\<open>sha256\<close> in hex.\<close>

definition dedupe :: "(string \<Rightarrow> string) \<Rightarrow> string \<Rightarrow> string \<Rightarrow> string \<Rightarrow> string" where
  "dedupe sha tid expr minute = sha (sourceID @ ''|'' @ tid @ ''|'' @ expr @ ''|'' @ minute)"

definition cron_event :: "(string \<Rightarrow> string) \<Rightarrow> Trigger \<Rightarrow> string \<Rightarrow> int \<Rightarrow> Event" where
  "cron_event sha tr expr fireAt = blank_Event\<lparr>
     ev_ProjectID := Some (tr_ProjectID tr), ev_Source := sourceID, ev_Kind := eventKind,
     ev_ActivityType := activityType, ev_ActorKind := ActorSystem, ev_SubjectKind := ''trigger'',
     ev_SubjectID := Some (tr_ID tr),
     ev_Payload := Raw (JObj [(''schedule'', JObj [(''cron'', JStr expr), (''fired_at'', JStr (FormatTime fireAt)),
       (''trigger_id'', JStr (tr_ID tr))])]),
     ev_DedupeKey := dedupe sha (tr_ID tr) expr (FormatTime fireAt), ev_OccurredAt := FormatTime fireAt \<rparr>"

text \<open>\<^verbatim>\<open>None\<close>: the expression makes the parser panic.\<close>

definition VetTrigger :: "Trigger \<Rightarrow> (string \<times> string) list option" where
  "VetTrigger tr =
     (if tr_Event tr \<noteq> eventKind then Some []
      else (case tr_Cron tr of
              None \<Rightarrow> Some [(''cron'', ''A cron expression is required for schedule triggers '' @
                ''(5 fields: minute hour day-of-month month day-of-week, evaluated in UTC).'')]
            | Some c \<Rightarrow>
                if trim_space c = '''' then Some [(''cron'', ''A cron expression is required for schedule triggers '' @
                  ''(5 fields: minute hour day-of-month month day-of-week, evaluated in UTC).'')]
                else (case Parse c of
                        Parsed _ \<Rightarrow> Some []
                      | Refused e \<Rightarrow> Some [(''cron'', ''Invalid cron expression '' @ [CHR 0xE2, CHR 0x80, CHR 0x94, CHR 0x20] @ e @ ''.'')]
                      | Panics \<Rightarrow> None)))"

text \<open>The zero \<^verbatim>\<open>time.Time\<close>, the first instant of year 1, reads as no cursor.\<close>

definition zero_ms :: int where
  "zero_ms = (days_of_civil (1, 1, 1) - epoch) * ms_per_day"

definition cursor_since :: "PollCursor \<Rightarrow> int option" where
  "cursor_since c = (case parse_stamp (pc_Cursor c) of
     None \<Rightarrow> None | Some ms \<Rightarrow> if ms = zero_ms then None else Some (ms * 1000000))"

definition writeCursor :: "faults \<Rightarrow> int \<Rightarrow> Trigger \<Rightarrow> int \<Rightarrow> PollCursor list \<Rightarrow> PollCursor list" where
  "writeCursor f now tr at_time cs = snd (PollCursors_Upsert f \<lparr>
     pc_ProjectID = tr_ProjectID tr, pc_Resource = cursorResource (tr_ID tr), pc_Cursor = FormatTime at_time,
     pc_Etag = '''', pc_BaselineDone = True, pc_LastPolledAt = Some (FormatTime now) \<rparr> cs)"

text \<open>The port \<^verbatim>\<open>emit\<close> works on a state of its own; true is a nil error.\<close>

type_synonym 's emitter = "Event \<Rightarrow> 's \<Rightarrow> bool \<times> 's"

text \<open>\<^verbatim>\<open>scanTrigger\<close> from the point where the cursor is known.\<close>

definition fire_latest ::
  "faults \<Rightarrow> int \<Rightarrow> (string \<Rightarrow> string) \<Rightarrow> int \<Rightarrow> 's emitter \<Rightarrow> Trigger \<Rightarrow> string \<Rightarrow> Expr \<Rightarrow> int \<Rightarrow> int \<Rightarrow>
   PollCursor list \<times> 's \<Rightarrow> PollCursor list \<times> 's" where
  "fire_latest f now sha lookback emit tr c e since t st =
     (case latestMatch e since t lookback of
        Some (Some fireAt) \<Rightarrow>
          (case emit (cron_event sha tr c fireAt) (snd st) of
             (False, s') \<Rightarrow> (fst st, s')
           | (True, s') \<Rightarrow> (writeCursor f now tr fireAt (fst st), s'))
      | _ \<Rightarrow> st)"

text \<open>\<^verbatim>\<open>None\<close>: the parser panics on a stored expression, and the scan goroutine with it.\<close>

definition scanTrigger ::
  "faults \<Rightarrow> int \<Rightarrow> (string \<Rightarrow> string) \<Rightarrow> int \<Rightarrow> 's emitter \<Rightarrow> int \<Rightarrow> Trigger \<Rightarrow> PollCursor list \<times> 's \<Rightarrow>
   (PollCursor list \<times> 's) option" where
  "scanTrigger f now sha lookback emit t tr st =
     (case (tr_Event tr = eventKind, tr_Cron tr) of
        (True, Some c) \<Rightarrow>
          (case Parse c of
             Panics \<Rightarrow> None
           | Refused _ \<Rightarrow> Some st
           | Parsed e \<Rightarrow>
               (case PollCursors_Get f (tr_ProjectID tr) (cursorResource (tr_ID tr)) (fst st) of
                  Inl ErrNotFound \<Rightarrow> Some (writeCursor f now tr t (fst st), snd st)
                | Inl _ \<Rightarrow> Some st
                | Inr cur \<Rightarrow>
                    (case cursor_since cur of
                       None \<Rightarrow> Some (writeCursor f now tr t (fst st), snd st)
                     | Some since \<Rightarrow> Some (fire_latest f now sha lookback emit tr c e since t st))))
      | _ \<Rightarrow> Some st)"

definition truncate_minute :: "int \<Rightarrow> int" where
  "truncate_minute t = t - t mod minute_ns"

fun scan_rows :: "('st \<Rightarrow> 'st option) list \<Rightarrow> 'st \<Rightarrow> 'st option" where
  "scan_rows [] st = Some st"
| "scan_rows (g # gs) st = (case g st of None \<Rightarrow> None | Some st' \<Rightarrow> scan_rows gs st')"

definition scan ::
  "faults \<Rightarrow> int \<Rightarrow> (string \<Rightarrow> string) \<Rightarrow> int \<Rightarrow> BusSys emitter \<Rightarrow> PollCursor list \<times> BusSys \<Rightarrow>
   (PollCursor list \<times> BusSys) option" where
  "scan f now sha lookback emit st =
     (case Triggers_EnabledBySource f sourceID (snd (snd st)) of
        Inl _ \<Rightarrow> Some st
      | Inr trs \<Rightarrow> scan_rows (map (scanTrigger f now sha lookback emit (truncate_minute now)) trs) st)"

text \<open>The emit of \<^verbatim>\<open>module.go\<close>: a duplicate is not a failure; a blocked publish is one that waits.\<close>

definition module_emit :: "faults \<Rightarrow> (Event \<Rightarrow> string) \<Rightarrow> string \<Rightarrow> Event \<Rightarrow> BusSys \<Rightarrow> bool \<times> BusSys" where
  "module_emit f newid now e s =
     (case Publish f (newid e) now e s of
        (PubOk, s') \<Rightarrow> (True, s') | (PubBlocked, s') \<Rightarrow> (True, s') | (PubDuplicate _, s') \<Rightarrow> (True, s')
      | (_, s') \<Rightarrow> (False, s'))"

section \<open>The sets are exact\<close>

lemma bit_one_at: "bit (push_bit (nat (sint v)) (1 :: 64 word)) n \<longleftrightarrow> n = nat (sint v) \<and> nat (sint v) < 64"
  by (auto simp: bit_simps)

lemma part_bits_sound:
  assumes "0 \<le> sint v" and "1 \<le> sint step" and "sint hi < 64"
  shows "case part_bits hi step v bits of
      None \<Rightarrow> sint v \<le> sint hi \<and> 2 ^ 63 \<le> sint v + sint step
    | Some w \<Rightarrow> (sint v \<le> sint hi \<longrightarrow> sint v + sint step < 2 ^ 63) \<and>
        (\<forall>n. bit w n \<longleftrightarrow> bit bits n \<or> (\<exists>k. int n = sint v + int k * sint step \<and> int n \<le> sint hi))"
  using assms
proof (induction hi step v bits rule: part_bits.induct)
  case (1 hi step v bits)
  have neg: "\<not> v <s 0" "\<not> step <s 1" using 1(2,3) by (simp_all add: word_sless_alt)
  have beyond: "\<not> int n \<le> sint hi" if "int n = sint v + int k * sint step" "sint hi < sint v" for n k
    using that 1(3) mult_nonneg_nonneg [of "int k" "sint step"] by linarith
  show ?case
  proof (cases "hi <s v")
    case True
    then have "part_bits hi step v bits = Some bits" by (simp add: part_bits.simps)
    moreover have "sint hi < sint v" using True by (simp add: word_sless_alt)
    ultimately show ?thesis using beyond by auto
  next
    case le: False
    then have v: "sint v \<le> sint hi" by (simp add: word_sless_alt)
    have rec: "part_bits hi step v bits = part_bits hi step (v + step) (bits OR push_bit (nat (sint v)) 1)"
      using le neg by (subst part_bits.simps) simp
    show ?thesis
    proof (cases "sint v + sint step < 2 ^ 63")
      case False
      then have "sint (v + step) < 0"
        using sint_plus [of v step] sint_range [of v] sint_range [of step] 1(2,3) by (simp split: if_splits)
      then have "part_bits hi step (v + step) (bits OR push_bit (nat (sint v)) 1) = None"
        using v 1(2) by (subst part_bits.simps) (simp add: word_sless_alt)
      then show ?thesis using rec v False by simp
    next
      case True
      then have s: "sint (v + step) = sint v + sint step" using sint_plus [of v step] 1(2,3) by simp
      have IH: "case part_bits hi step (v + step) (bits OR push_bit (nat (sint v)) 1) of
          None \<Rightarrow> sint (v + step) \<le> sint hi \<and> 2 ^ 63 \<le> sint (v + step) + sint step
        | Some w \<Rightarrow> (sint (v + step) \<le> sint hi \<longrightarrow> sint (v + step) + sint step < 2 ^ 63) \<and>
            (\<forall>n. bit w n \<longleftrightarrow> bit (bits OR push_bit (nat (sint v)) 1) n \<or>
               (\<exists>k. int n = sint (v + step) + int k * sint step \<and> int n \<le> sint hi))"
        using 1(1) [OF le] neg 1(2-4) s by simp
      have bits: "bit (bits OR push_bit (nat (sint v)) 1) n \<longleftrightarrow> bit bits n \<or> int n = sint v" for n
        using 1(2,4) v bit_one_at [of v n] by (auto simp: bit_or_iff simp del: push_bit_of_1)
      have series: "(\<exists>k. int n = sint v + int k * sint step \<and> int n \<le> sint hi) \<longleftrightarrow>
          int n = sint v \<or> (\<exists>k. int n = sint (v + step) + int k * sint step \<and> int n \<le> sint hi)" for n
      proof -
        have split0: "(\<exists>k. P k) \<longleftrightarrow> P 0 \<or> (\<exists>k. P (Suc k))" for P :: "nat \<Rightarrow> bool" by (metis not0_implies_Suc)
        have shift: "sint v + int (Suc k) * sint step = sint (v + step) + int k * sint step" for k
          unfolding s by (simp add: algebra_simps)
        show ?thesis using v unfolding split0 [of "\<lambda>k. int n = sint v + int k * sint step \<and> int n \<le> sint hi"] shift
          by auto
      qed
      show ?thesis
      proof (cases "part_bits hi step (v + step) (bits OR push_bit (nat (sint v)) 1)")
        case None
        then show ?thesis using IH s 1(2,3,4) by simp
      next
        case (Some w)
        then show ?thesis using IH True rec bits series by auto
      qed
    qed
  qed
qed

lemma sint_small: "- (2 ^ 63) \<le> i \<Longrightarrow> i < 2 ^ 63 \<Longrightarrow> sint (word_of_int i :: 64 word) = i"
  by (simp add: int_word_sint)

lemma parseValue_range:
  "spec \<in> set fieldSpecs \<Longrightarrow> parseValue s spec = Parsed v \<Longrightarrow> fs_min spec \<le> v \<and> v \<le> fs_max spec"
  by (auto simp: fieldSpecs_def parseValue_def monthNames_def dowNames_def split: option.splits if_splits)

lemma spec_bounds: "spec \<in> set fieldSpecs \<Longrightarrow> 0 \<le> fs_min spec \<and> fs_min spec \<le> fs_max spec \<and> fs_max spec < 64"
  by (auto simp: fieldSpecs_def)

lemma entry_range_ok:
  assumes "spec \<in> set fieldSpecs" and "entry_range r had spec = Parsed (lo, hi)"
  shows "0 \<le> lo \<and> lo \<le> hi \<and> hi < 64"
  using assms(2) spec_bounds [OF assms(1)]
  by (auto simp: entry_range_def bind_parsed_def split: if_splits option.splits parsed.splits
      dest!: parseValue_range [OF assms(1)])

text \<open>
  C19. A list entry with range lo to hi and step s parses to exactly the set lo, lo+s, lo+2s, ... up to
  hi, unless lo+s leaves the 64-bit range: then, and only then, the parser panics.
\<close>

theorem entry_bits_exact:
  assumes "spec \<in> set fieldSpecs" and "entry_range r had spec = Parsed (lo, hi)" and "1 \<le> step" and "step < 2 ^ 63"
  shows "(entry_bits r step had spec = Panics \<longleftrightarrow> 2 ^ 63 \<le> lo + step) \<and>
    (lo + step < 2 ^ 63 \<longrightarrow> (\<exists>w. entry_bits r step had spec = Parsed w \<and>
       (\<forall>n. bit w n \<longleftrightarrow> (\<exists>k. int n = lo + int k * step \<and> int n \<le> hi))))"
proof -
  have b: "0 \<le> lo" "lo \<le> hi" "hi < 64" using entry_range_ok [OF assms(1,2)] by auto
  then have s: "sint (word_of_int lo :: 64 word) = lo" "sint (word_of_int hi :: 64 word) = hi"
    "sint (word_of_int step :: 64 word) = step"
    using assms(3,4) by (simp_all add: sint_small)
  have "case part_bits (word_of_int hi) (word_of_int step) (word_of_int lo) 0 of
      None \<Rightarrow> 2 ^ 63 \<le> lo + step
    | Some w \<Rightarrow> lo + step < 2 ^ 63 \<and> (\<forall>n. bit w n \<longleftrightarrow> (\<exists>k. int n = lo + int k * step \<and> int n \<le> hi))"
    using part_bits_sound [of "word_of_int lo" "word_of_int step" "word_of_int hi" 0] b assms(3)
    by (simp add: s split: option.splits)
  then show ?thesis
    using assms(2) by (auto simp: entry_bits_def bind_parsed_def split: option.splits)
qed

theorem entry_bits_exact_witness:
  "(\<exists>w. entry_bits ''*'' 15 True (fieldSpecs ! 0) = Parsed w \<and>
      (\<forall>n. bit w n \<longleftrightarrow> (\<exists>k. int n = 0 + int k * 15 \<and> int n \<le> 59))) \<and>
   entry_bits ''1'' 9223372036854775807 True (fieldSpecs ! 0) = Panics"
proof -
  have spec: "fieldSpecs ! 0 \<in> set fieldSpecs" by (simp add: fieldSpecs_def)
  have "case entry_range ''*'' True (fieldSpecs ! 0) of Parsed r \<Rightarrow> r = (0, 59) | _ \<Rightarrow> False" by code_simp
  then have r: "entry_range ''*'' True (fieldSpecs ! 0) = Parsed (0, 59)" by (simp split: parsed.splits)
  have "case entry_range ''1'' True (fieldSpecs ! 0) of Parsed r \<Rightarrow> r = (1, 59) | _ \<Rightarrow> False" by code_simp
  then have p: "entry_range ''1'' True (fieldSpecs ! 0) = Parsed (1, 59)" by (simp split: parsed.splits)
  show ?thesis
    using entry_bits_exact [OF spec r, of 15] entry_bits_exact [OF spec p, of 9223372036854775807] by simp
qed

section \<open>The search ends with the latest match\<close>

lemma latest_loop_spec:
  "\<exists>r. latest_loop e low m = Some r \<and>
     (case r of
        None \<Rightarrow> \<forall>k. low < m - int k * minute_ns \<longrightarrow> \<not> Matches e (m - int k * minute_ns)
      | Some x \<Rightarrow> \<exists>k. x = m - int k * minute_ns \<and> low < x \<and> Matches e x \<and> (\<forall>j < k. \<not> Matches e (m - int j * minute_ns)))"
proof (induction "nat (m - low)" arbitrary: m rule: less_induct)
  case less
  show ?case
  proof (cases "low < m \<and> \<not> Matches e m")
    case False
    then consider "\<not> low < m" | "low < m" "Matches e m" by blast
    then show ?thesis
    proof cases
      case 1
      then have "latest_loop e low m = Some None" by (simp add: latest_loop.simps)
      moreover have "\<not> low < m - int k * minute_ns" for k using 1 by (simp add: minute_ns_def)
      ultimately show ?thesis by auto
    next
      case 2
      then have "latest_loop e low m = Some (Some m)" by (simp add: latest_loop.simps)
      then show ?thesis using 2 by (auto intro!: exI [of _ 0])
    qed
  next
    case True
    then have rec: "latest_loop e low m = latest_loop e low (m - minute_ns)" by (subst latest_loop.simps) simp
    have "nat (m - minute_ns - low) < nat (m - low)" using True by (simp add: minute_ns_def)
    from less.hyps [OF this] obtain r where r: "latest_loop e low (m - minute_ns) = Some r" and
      c: "case r of
        None \<Rightarrow> \<forall>k. low < m - minute_ns - int k * minute_ns \<longrightarrow> \<not> Matches e (m - minute_ns - int k * minute_ns)
      | Some x \<Rightarrow> \<exists>k. x = m - minute_ns - int k * minute_ns \<and> low < x \<and> Matches e x \<and>
          (\<forall>j < k. \<not> Matches e (m - minute_ns - int j * minute_ns))" by blast
    have suc: "m - minute_ns - int k * minute_ns = m - int (Suc k) * minute_ns" for k by (simp add: algebra_simps)
    have "case r of
        None \<Rightarrow> \<forall>k. low < m - int k * minute_ns \<longrightarrow> \<not> Matches e (m - int k * minute_ns)
      | Some x \<Rightarrow> \<exists>k. x = m - int k * minute_ns \<and> low < x \<and> Matches e x \<and> (\<forall>j < k. \<not> Matches e (m - int j * minute_ns))"
    proof (cases r)
      case None
      have "\<not> Matches e (m - int k * minute_ns)" if "low < m - int k * minute_ns" for k
        using that c True unfolding None suc by (cases k) auto
      then show ?thesis by (simp add: None)
    next
      case (Some x)
      then obtain k where k: "x = m - int (Suc k) * minute_ns" "low < x" "Matches e x"
        "\<forall>j < k. \<not> Matches e (m - int (Suc j) * minute_ns)" using c unfolding suc by auto
      have "\<not> Matches e (m - int j * minute_ns)" if "j < Suc k" for j
        using that k(4) True by (cases j) auto
      then have "\<exists>k. x = m - int k * minute_ns \<and> low < x \<and> Matches e x \<and>
          (\<forall>j < k. \<not> Matches e (m - int j * minute_ns))" using k(1-3) by blast
      then show ?thesis by (simp only: Some option.case)
    qed
    then show ?thesis using r rec by auto
  qed
qed

definition window_start :: "int \<Rightarrow> int \<Rightarrow> int \<Rightarrow> int" where
  "window_start since until lookback = max since (until - lookback)"

lemma latestMatch_loop: "latestMatch e since until lookback = latest_loop e (window_start since until lookback) until"
  by (simp add: latestMatch_def window_start_def max_def)

text \<open>
  C17. The backward search always ends, for every expression and window: it returns the most recent minute
  counted back from \<^verbatim>\<open>until\<close> that matches and lies after the cursor and inside the lookback, or nothing
  exactly when there is none.
\<close>

theorem latestMatch_returns:
  "\<exists>r. latestMatch e since until lookback = Some r \<and>
     (case r of
        None \<Rightarrow> \<forall>k. window_start since until lookback < until - int k * minute_ns \<longrightarrow>
          \<not> Matches e (until - int k * minute_ns)
      | Some x \<Rightarrow> \<exists>k. x = until - int k * minute_ns \<and> window_start since until lookback < x \<and> Matches e x \<and>
          (\<forall>j < k. \<not> Matches e (until - int j * minute_ns)))"
  unfolding latestMatch_loop by (rule latest_loop_spec)

definition noon :: Expr where
  "noon = \<lparr> ex_minute = 1, ex_hour = 4096, ex_dom = mask 32, ex_month = mask 13, ex_dow = mask 7,
     ex_domStar = True, ex_dowStar = True \<rparr>"

theorem latestMatch_returns_witness:
  "\<exists>r. latestMatch noon 0 (3 * minute_ns) defaultLookback = Some r \<and> r = None"
proof -
  obtain r where r: "latestMatch noon 0 (3 * minute_ns) defaultLookback = Some r"
    "case r of
        None \<Rightarrow> \<forall>k. window_start 0 (3 * minute_ns) defaultLookback < 3 * minute_ns - int k * minute_ns \<longrightarrow>
          \<not> Matches noon (3 * minute_ns - int k * minute_ns)
      | Some x \<Rightarrow> \<exists>k. x = 3 * minute_ns - int k * minute_ns \<and>
          window_start 0 (3 * minute_ns) defaultLookback < x \<and> Matches noon x \<and>
          (\<forall>j < k. \<not> Matches noon (3 * minute_ns - int j * minute_ns))"
    using latestMatch_returns [of noon 0 "3 * minute_ns" defaultLookback] by blast
  have zero: "window_start 0 (3 * minute_ns) defaultLookback = 0" by (simp add: window_start_def defaultLookback_def minute_ns_def)
  have "\<not> Matches noon (3 * minute_ns)" "\<not> Matches noon (2 * minute_ns)" "\<not> Matches noon minute_ns" by code_simp+
  moreover have "x = 3 * minute_ns \<or> x = 2 * minute_ns \<or> x = minute_ns"
    if "x = 3 * minute_ns - int k * minute_ns" "0 < x" for x k
  proof -
    have "k < 3" using that by (simp add: minute_ns_def)
    then consider "k = 0" | "k = 1" | "k = 2" by linarith
    then show ?thesis using that by cases (simp_all add: minute_ns_def)
  qed
  ultimately have none: "\<not> Matches noon x" if "x = 3 * minute_ns - int k * minute_ns" "0 < x" for x k
    using that by metis
  have "r = None"
  proof (cases r)
    case (Some x)
    have False using r(2) none [of x] unfolding zero Some option.case by blast
    then show ?thesis ..
  qed
  then show ?thesis using r(1) by blast
qed

section \<open>One firing per minute\<close>

text \<open>
  Instants from 1970 to 9999, in nanoseconds: their stamps read back. The scanned minutes are whole,
  so nothing is lost in the cursor.
\<close>

definition in_era :: "int \<Rightarrow> bool" where
  "in_era t \<longleftrightarrow> 0 \<le> t \<and> t < 253402300800000000000"

lemma in_years_era: "in_era t \<Longrightarrow> in_years (ms_of t)"
proof -
  assume "in_era t"
  then have "0 \<le> ms_of t div ms_per_day + epoch - epoch" "ms_of t div ms_per_day + epoch \<le> 2932896 + epoch"
    by (auto simp: in_era_def ms_of_def ms_per_day_def)
  then have "year_of (0 + epoch) \<le> year_of (ms_of t div ms_per_day + epoch)"
    "year_of (ms_of t div ms_per_day + epoch) \<le> year_of (2932896 + epoch)"
    by (intro year_of_mono; linarith)+
  moreover have "year_of (0 + epoch) = 1970" "year_of (2932896 + epoch) = 9999" by code_simp+
  ultimately show ?thesis by (simp add: in_years_def Let_def)
qed

lemma cursor_read_back:
  assumes "in_era t" and "t mod minute_ns = 0" and "pc_Cursor c = FormatTime t"
  shows "cursor_since c = Some t"
proof -
  have "ms_of t * 1000000 = t" using assms(2) by (auto simp: ms_of_def minute_ns_def)
  moreover have "zero_ms < 0" by code_simp
  then have "ms_of t \<noteq> zero_ms" using assms(1) by (auto simp: ms_of_def in_era_def)
  ultimately show ?thesis
    using parse_stamp_FormatTime [OF in_years_era [OF assms(1)]] assms(3) by (simp add: cursor_since_def)
qed

lemma find_snoc: "find p (t @ [c]) = (case find p t of Some x \<Rightarrow> Some x | None \<Rightarrow> if p c then Some c else None)"
  by (induction t) auto

lemma find_update_all:
  "find p t \<noteq> None \<Longrightarrow> p c \<Longrightarrow> find p (update_where p (\<lambda>_. c) t) = Some c"
  by (induction t) (auto simp: update_where_def split: if_splits)

lemma Get_writeCursor:
  "PollCursors_Get no_faults (tr_ProjectID tr) (cursorResource (tr_ID tr)) (writeCursor no_faults now tr t cs) =
     Inr \<lparr> pc_ProjectID = tr_ProjectID tr, pc_Resource = cursorResource (tr_ID tr), pc_Cursor = FormatTime t,
       pc_Etag = '''', pc_BaselineDone = True, pc_LastPolledAt = Some (FormatTime now) \<rparr>"
  using find_None_iff [of "\<lambda>c. pc_ProjectID c = tr_ProjectID tr \<and> pc_Resource c = cursorResource (tr_ID tr)" cs]
  by (cases "find (\<lambda>c. pc_ProjectID c = tr_ProjectID tr \<and> pc_Resource c = cursorResource (tr_ID tr)) cs")
    (auto simp: PollCursors_Get_def writeCursor_def PollCursors_Upsert_def list_ex_iff find_snoc find_update_all)

lemma since_writeCursor:
  assumes "in_era t" and "t mod minute_ns = 0"
  shows "\<exists>cur. PollCursors_Get no_faults (tr_ProjectID tr) (cursorResource (tr_ID tr)) (writeCursor no_faults now tr t cs) = Inr cur \<and>
     cursor_since cur = Some t"
  unfolding Get_writeCursor by (simp add: cursor_read_back [OF assms])

lemma latest_again:
  assumes "latestMatch e since t lookback = Some (Some x)"
  shows "latestMatch e x t lookback = Some None" and "x \<le> t" and "t - lookback < x" and "\<exists>k. x = t - int k * minute_ns"
proof -
  from latest_loop_spec [of e "window_start since t lookback" t] assms obtain k where
    k: "x = t - int k * minute_ns" "window_start since t lookback < x"
      "\<And>j. j < k \<Longrightarrow> \<not> Matches e (t - int j * minute_ns)"
    unfolding latestMatch_loop by auto
  obtain r where r: "latestMatch e x t lookback = Some r" "case r of
        None \<Rightarrow> \<forall>k. window_start x t lookback < t - int k * minute_ns \<longrightarrow> \<not> Matches e (t - int k * minute_ns)
      | Some y \<Rightarrow> \<exists>k. y = t - int k * minute_ns \<and> window_start x t lookback < y \<and> Matches e y \<and>
          (\<forall>j < k. \<not> Matches e (t - int j * minute_ns))"
    using latest_loop_spec [of e "window_start x t lookback" t] unfolding latestMatch_loop by blast
  show "latestMatch e x t lookback = Some None"
  proof (cases r)
    case (Some y)
    then obtain i where i: "y = t - int i * minute_ns" "x < y" "Matches e y"
      using r(2) by (auto simp: window_start_def)
    then have "i < k" using k(1) by (auto simp: minute_ns_def)
    then show ?thesis using k(3) i by blast
  qed (simp add: r(1))
  show "x \<le> t" using k(1) by (simp add: minute_ns_def)
  show "t - lookback < x" using k(2) by (simp add: window_start_def)
  show "\<exists>k. x = t - int k * minute_ns" using k(1) by blast
qed

text \<open>
  C18. A schedule fires at most once for a minute: when a scan of a trigger at minute \<^verbatim>\<open>t\<close> has run
  with the store answering and the event accepted, scanning the same trigger again at that minute, at any later
  instant and as often as the loop likes, emits nothing and leaves the cursors as they are.
\<close>

theorem scan_once:
  assumes "scanTrigger no_faults now sha lookback emit t tr (cs, s) = Some (cs', s')"
    and "t mod minute_ns = 0" and "in_era t" and "0 < lookback" and "lookback \<le> t"
    and "\<And>e z. fst (emit e z)"
  shows "scanTrigger no_faults now' sha lookback emit t tr (cs', s') = Some (cs', s')"
proof -
  have baseline: ?thesis
    if "cs' = writeCursor no_faults now tr t cs" "tr_Event tr = eventKind" "tr_Cron tr = Some c" "Parse c = Parsed e" for c e
  proof -
    note written = that(1)
    obtain cur where "PollCursors_Get no_faults (tr_ProjectID tr) (cursorResource (tr_ID tr)) cs' = Inr cur"
      "cursor_since cur = Some t"
      using since_writeCursor [OF assms(3,2), of tr now cs] unfolding written by blast
    then show ?thesis
      by (simp add: scanTrigger_def that fire_latest_def latestMatch_loop window_start_def latest_loop.simps)
  qed
  consider "\<not> (tr_Event tr = eventKind \<and> (\<exists>c e. tr_Cron tr = Some c \<and> Parse c = Parsed e))"
    | c e where "tr_Event tr = eventKind" "tr_Cron tr = Some c" "Parse c = Parsed e" by blast
  then show ?thesis
  proof cases
    case 1
    then show ?thesis using assms(1) by (auto simp: scanTrigger_def split: option.splits parsed.splits bool.splits)
  next
    case (2 c e)
    show ?thesis
    proof (cases "PollCursors_Get no_faults (tr_ProjectID tr) (cursorResource (tr_ID tr)) cs")
      case (Inl err)
      then have "err = ErrNotFound" by (auto simp: PollCursors_Get_def query_row_def split: option.splits)
      then have "cs' = writeCursor no_faults now tr t cs" using assms(1) 2 Inl by (simp add: scanTrigger_def)
      then show ?thesis by (rule baseline [OF _ 2])
    next
      case (Inr cur)
      show ?thesis
      proof (cases "cursor_since cur")
        case None
        then have "cs' = writeCursor no_faults now tr t cs" using assms(1) 2 Inr by (simp add: scanTrigger_def)
        then show ?thesis by (rule baseline [OF _ 2])
      next
        case (Some since)
        have st: "fire_latest no_faults now sha lookback emit tr c e since t (cs, s) = (cs', s')"
          using assms(1) 2 Inr Some by (simp add: scanTrigger_def)
        show ?thesis
        proof (cases "\<exists>x. latestMatch e since t lookback = Some (Some x)")
          case False
          then have "(cs', s') = (cs, s)" using st by (auto simp: fire_latest_def split: option.splits)
          then show ?thesis using assms(1) 2 Inr Some st False
            by (auto simp: scanTrigger_def fire_latest_def split: option.splits)
        next
          case True
          then obtain x where x: "latestMatch e since t lookback = Some (Some x)" by blast
          note again = latest_again [OF x]
          have cs': "cs' = writeCursor no_faults now tr x cs"
            using st x assms(6) [of "cron_event sha tr c x" s] by (auto simp: fire_latest_def split: prod.splits bool.splits)
          have whole: "x mod minute_ns = 0"
            using again(4) assms(2) by (metis mod_diff_right_eq mod_mult_self2_is_0 diff_zero)
          have era: "in_era x" using again(2,3) assms(3,5) by (simp add: in_era_def)
          obtain cur' where "PollCursors_Get no_faults (tr_ProjectID tr) (cursorResource (tr_ID tr)) cs' = Inr cur'"
            "cursor_since cur' = Some x" using since_writeCursor [OF era whole, of tr now cs, folded cs'] by blast
          then show ?thesis using again(1) 2 by (simp add: scanTrigger_def fire_latest_def)
        qed
      qed
    qed
  qed
qed

definition demo_schedule :: "string \<Rightarrow> Trigger" where
  "demo_schedule expr = blank_Trigger\<lparr> tr_ID := ''t1'', tr_ProjectID := ''p1'', tr_Event := eventKind, tr_Cron := Some expr \<rparr>"

definition demo_cursor :: "string \<Rightarrow> PollCursor" where
  "demo_cursor at_time = \<lparr> pc_ProjectID = ''p1'', pc_Resource = ''cron:t1'', pc_Cursor = at_time, pc_Etag = '''',
     pc_BaselineDone = True, pc_LastPolledAt = None \<rparr>"

definition log_emitter :: "string list emitter" where
  "log_emitter e l = (True, l @ [ev_OccurredAt e])"

text \<open>2026-01-01T09:00Z, in nanoseconds.\<close>

definition nine :: int where "nine = 1767258000000000000"

lemma demo_first_scan:
  "scanTrigger no_faults nine (\<lambda>s. s) defaultLookback log_emitter nine (demo_schedule ''0 9 * * *'')
     ([demo_cursor ''2026-01-01T08:58:00.000Z''], []) =
   Some ([demo_cursor ''2026-01-01T09:00:00.000Z''\<lparr> pc_LastPolledAt := Some ''2026-01-01T09:00:00.000Z'' \<rparr>],
     [''2026-01-01T09:00:00.000Z''])"
  by code_simp

theorem scan_once_witness:
  "scanTrigger no_faults (nine + 30000000000) (\<lambda>s. s) defaultLookback log_emitter nine (demo_schedule ''0 9 * * *'')
     ([demo_cursor ''2026-01-01T09:00:00.000Z''\<lparr> pc_LastPolledAt := Some ''2026-01-01T09:00:00.000Z'' \<rparr>],
      [''2026-01-01T09:00:00.000Z'']) =
   Some ([demo_cursor ''2026-01-01T09:00:00.000Z''\<lparr> pc_LastPolledAt := Some ''2026-01-01T09:00:00.000Z'' \<rparr>],
     [''2026-01-01T09:00:00.000Z''])"
  by (rule scan_once [OF demo_first_scan])
    (simp_all add: nine_def minute_ns_def in_era_def defaultLookback_def log_emitter_def)


end
