(* ===== verification/Validate.thy ===== *)
theory Validate
  imports Engine
begin

text \<open>
  Save-time validation of a trigger (\<^verbatim>\<open>internal/service/triggers/validate.go\<close>): the field errors it
  collects, check by check, and the soundness of the condition check: what it accepts decodes to a
  well-formed tree. A check appends to the list of errors found so far. The stored texts come from
  decoded request bodies, so a raw text that is not one JSON document (\<^verbatim>\<open>RawBad\<close>) is a decode error.
\<close>

section \<open>Field errors\<close>

definition add :: "string \<Rightarrow> string \<Rightarrow> FieldError list \<Rightarrow> FieldError list" where
  "add field msg es = es @ [\<lparr> fe_Field = field, fe_Message = msg \<rparr>]"

lemma add_nonempty [simp]: "add field msg es \<noteq> []"
  by (simp add: add_def)

definition maxConditionDepth :: nat where "maxConditionDepth = 10"

definition maxConditionNodes :: nat where "maxConditionNodes = 100"

definition maxActions :: nat where "maxActions = 10"

definition dash :: string where
  "dash = [CHR 0x20, CHR 0xE2, CHR 0x80, CHR 0x94, CHR 0x20]"

section \<open>The condition tree\<close>

text \<open>One leaf. Of several unknown keys the code names an arbitrary one, the model the first.\<close>

definition validateLeaf :: "(string \<times> json) list \<Rightarrow> string \<Rightarrow> FieldError list \<Rightarrow> FieldError list" where
  "validateLeaf m loc es =
     (case find (\<lambda>k. k \<noteq> ''field'' \<and> k \<noteq> ''op'' \<and> k \<noteq> ''value'') (map fst m) of
        Some k \<Rightarrow> add ''conditions'' (loc @ '': unknown key '' @ quote k @ dash @
                    ''a node is {all}, {any} or {field, op, value}.'') es
      | None \<Rightarrow>
          (case Option.bind (obj_get m ''op'') dec_string of
             None \<Rightarrow> add ''conditions'' (loc @ '': an op is required.'') es
           | Some op \<Rightarrow>
               if op = '''' then add ''conditions'' (loc @ '': an op is required.'') es
               else if map_of operators op = None
               then add ''conditions'' (loc @ '': unknown operator '' @ quote op @ ''.'') es
               else (case (case obj_get m ''field'' of None \<Rightarrow> Some '''' | Some v \<Rightarrow> dec_string v) of
                       None \<Rightarrow> add ''conditions'' (loc @ '': field must be a string.'') es
                     | Some fld \<Rightarrow>
                         if fld = ''''
                         then (if has_prefix op ''actor.'' then es
                               else add ''conditions'' (loc @ '': a field is required for '' @ op @ ''.'') es)
                         else if pathPattern fld then es
                         else add ''conditions'' (loc @ '': '' @ quote fld @
                                '' is not a payload path (dotted identifiers).'') es)))"

lemma obj_get_weight: "obj_get m k = Some b \<Longrightarrow> json_weight b < json_weight (JObj m)"
proof -
  assume "obj_get m k = Some b"
  then have "(k, b) \<in> set m" by (auto simp: obj_get_def dest: map_of_SomeD)
  then have "Suc (json_weight b) \<le> sum_list (map (\<lambda>kv. Suc (json_weight (snd kv))) m)"
    using member_le_sum_list [of "Suc (json_weight b)" "map (\<lambda>kv. Suc (json_weight (snd kv))) m"] by force
  then show ?thesis by simp
qed

text \<open>The walk carries the node counter and the errors; it ends because a child weighs less than its parent.\<close>

function (sequential) walk_node :: "json \<Rightarrow> string \<Rightarrow> nat \<Rightarrow> nat \<times> FieldError list \<Rightarrow> nat \<times> FieldError list"
  and validateBranch :: "(string \<times> json) list \<Rightarrow> json \<Rightarrow> string \<Rightarrow> string \<Rightarrow> nat \<Rightarrow> nat \<times> FieldError list \<Rightarrow> nat \<times> FieldError list"
  and walk_nodes :: "json list \<Rightarrow> string \<Rightarrow> nat \<Rightarrow> nat \<Rightarrow> nat \<times> FieldError list \<Rightarrow> nat \<times> FieldError list" where
  "walk_node raw loc depth (n, es) =
     (if maxConditionNodes < Suc n then (Suc n, es)
      else if maxConditionDepth < depth
      then (Suc n, add ''conditions'' (loc @ '': nested deeper than '' @ fmt_nat maxConditionDepth @ '' levels.'') es)
      else (case raw of
              JObj m \<Rightarrow>
                (case obj_get m ''all'' of
                   Some b \<Rightarrow> validateBranch m b loc ''all'' depth (Suc n, es)
                 | None \<Rightarrow>
                     (case obj_get m ''any'' of
                        Some b \<Rightarrow> validateBranch m b loc ''any'' depth (Suc n, es)
                      | None \<Rightarrow> (Suc n, validateLeaf m loc es)))
            | JNull \<Rightarrow> (Suc n, validateLeaf [] loc es)
            | _ \<Rightarrow> (Suc n, add ''conditions'' (loc @ '': must be a JSON object.'') es)))"
| "validateBranch m branch loc kind depth (n, es) =
     (if length (remdups (map fst m)) \<noteq> 1
      then (n, add ''conditions'' (loc @ '': a '' @ quote kind @ '' node carries nothing else.'') es)
      else (case branch of
              JArr cs \<Rightarrow> walk_nodes cs (loc @ ''.'' @ kind) 0 (Suc depth) (n, es)
            | JNull \<Rightarrow> (n, es)
            | _ \<Rightarrow> (n, add ''conditions'' (loc @ '': '' @ quote kind @ '' must be an array of nodes.'') es)))"
| "walk_nodes [] pre i depth s = s"
| "walk_nodes (c # cs) pre i depth s =
     walk_nodes cs pre (Suc i) depth (walk_node c (pre @ ''['' @ fmt_nat i @ '']'') depth s)"
  by pat_completeness auto

termination
  by (relation "measure (\<lambda>x. case x of Inl (raw, loc, d, s) \<Rightarrow> 2 * json_weight raw
        | Inr (Inl (m, b, loc, k, d, s)) \<Rightarrow> Suc (2 * json_weight b)
        | Inr (Inr (cs, pre, i, d, s)) \<Rightarrow> 2 * sum_list (map (\<lambda>j. Suc (json_weight j)) cs))")
    (use obj_get_weight in \<open>fastforce simp del: json_weight.simps(2)\<close>)+

declare walk_node.simps [simp del] validateBranch.simps [simp del]

definition validateConditions :: "raw_json \<Rightarrow> FieldError list \<Rightarrow> FieldError list" where
  "validateConditions raw es =
     (case (case raw of Raw j \<Rightarrow> walk_node j ''conditions'' 1 (0, es)
                      | _ \<Rightarrow> (1, add ''conditions'' ''conditions: must be a JSON object.'' es)) of
        (n, es') \<Rightarrow> if maxConditionNodes < n
          then add ''conditions'' (''More than '' @ fmt_nat maxConditionNodes @ '' nodes.'') es' else es')"

section \<open>What the check accepts\<close>

text \<open>
  The tree that evaluation relies on: a branch carries nothing else, a leaf a known operator and either
  a payload path or, for the actor operators, none.
\<close>

fun wf_node :: "condNode \<Rightarrow> bool" where
  "wf_node (CondNode (Some cs) any f op v) =
     (any = None \<and> f = '''' \<and> op = '''' \<and> v = RawEmpty \<and> list_all wf_node cs)"
| "wf_node (CondNode None (Some cs) f op v) = (f = '''' \<and> op = '''' \<and> v = RawEmpty \<and> list_all wf_node cs)"
| "wf_node (CondNode None None f op v) =
     (map_of operators op \<noteq> None \<and> (if f = '''' then has_prefix op ''actor.'' else pathPattern f))"

fun node_count :: "condNode \<Rightarrow> nat" where
  "node_count (CondNode (Some cs) any f op v) = Suc (sum_list (map node_count cs))"
| "node_count (CondNode None (Some cs) f op v) = Suc (sum_list (map node_count cs))"
| "node_count (CondNode None None f op v) = 1"

fun node_depth :: "condNode \<Rightarrow> nat" where
  "node_depth (CondNode (Some cs) any f op v) = Suc (foldr max (map node_depth cs) 0)"
| "node_depth (CondNode None (Some cs) f op v) = Suc (foldr max (map node_depth cs) 0)"
| "node_depth (CondNode None None f op v) = 1"

text \<open>JSON the editor writes: no object repeats a name and no branch is \<^verbatim>\<open>null\<close>.\<close>

fun plain :: "json \<Rightarrow> bool" where
  "plain (JObj kvs) = (distinct (map fst kvs) \<and>
     list_all (\<lambda>(k, v). k = ''all'' \<or> k = ''any'' \<longrightarrow> v \<noteq> JNull \<and> plain v) kvs)"
| "plain (JArr js) = list_all plain js"
| "plain _ = True"

lemma foldr_max_le: "d + foldr max xs (0::nat) \<le> b \<longleftrightarrow> d \<le> b \<and> (\<forall>x \<in> set xs. d + x \<le> b)"
  by (induction xs) (auto simp: max_def)

lemma obj_get_distinct: "distinct (map fst kvs) \<Longrightarrow> obj_get kvs k = map_of kvs k"
  unfolding obj_get_def by (metis distinct_rev map_of_inject_set rev_map set_rev)

lemma single_key: "distinct ks \<Longrightarrow> length (remdups ks) = 1 \<Longrightarrow> k \<in> set ks \<Longrightarrow> ks = [k]"
  by (cases ks) (auto simp: distinct_remdups_id)

text \<open>A leaf object decodes member by member, whatever the order of its members.\<close>

lemma dec_leaf:
  assumes "distinct (map fst kvs)" and "set (map fst kvs) \<subseteq> {''field'', ''op'', ''value''}"
    and "\<And>v. map_of kvs ''field'' = Some v \<Longrightarrow> dec_string v \<noteq> None"
    and "\<And>v. map_of kvs ''op'' = Some v \<Longrightarrow> dec_string v \<noteq> None"
  shows "\<exists>v'. dec_members kvs (CondNode None None f op v) =
    Some (CondNode None None
      (case map_of kvs ''field'' of Some (JStr s) \<Rightarrow> s | _ \<Rightarrow> f)
      (case map_of kvs ''op'' of Some (JStr s) \<Rightarrow> s | _ \<Rightarrow> op) v')"
  using assms
proof (induction kvs arbitrary: f op v)
  case (Cons kv kvs)
  obtain k x where kv: "kv = (k, x)" by (cases kv)
  have rest: "distinct (map fst kvs)" "set (map fst kvs) \<subseteq> {''field'', ''op'', ''value''}" "k \<notin> set (map fst kvs)"
    using Cons.prems(1,2) kv by auto
  have fo: "map_of kvs ''field'' = Some v \<Longrightarrow> dec_string v \<noteq> None"
    "map_of kvs ''op'' = Some v \<Longrightarrow> dec_string v \<noteq> None" for v
    using Cons.prems(3)[of v] Cons.prems(4)[of v] rest(3) kv by (force split: if_splits dest: map_of_SomeD)+
  note IH = Cons.IH [OF rest(1,2) fo]
  have "k = ''field'' \<or> k = ''op'' \<or> k = ''value''" using Cons.prems(2) kv by auto
  then show ?case
  proof (elim disjE)
    assume k: "k = ''field''"
    then have "map_of kvs ''field'' = None" using rest(3) by (simp add: map_of_eq_None_iff)
    moreover have "dec_string x \<noteq> None" using Cons.prems(3) kv k by simp
    ultimately show ?thesis
      using IH kv k by (cases x) (auto simp: field_is_def to_lower_def to_lower_char_def set_string_def Let_def)
  next
    assume k: "k = ''op''"
    then have "map_of kvs ''op'' = None" using rest(3) by (simp add: map_of_eq_None_iff)
    moreover have "dec_string x \<noteq> None" using Cons.prems(4) kv k by simp
    ultimately show ?thesis
      using IH kv k by (cases x) (auto simp: field_is_def to_lower_def to_lower_char_def set_string_def Let_def)
  next
    assume k: "k = ''value''"
    then show ?thesis
      using IH kv by (auto simp: field_is_def to_lower_def to_lower_char_def Let_def)
  qed
qed simp

lemma leaf_sound:
  assumes "validateLeaf m loc es = []" and "distinct (map fst m)"
  shows "es = [] \<and> (\<exists>f op v. dec_members m empty_node = Some (CondNode None None f op v) \<and>
    wf_node (CondNode None None f op v))"
proof -
  have keys: "set (map fst m) \<subseteq> {''field'', ''op'', ''value''}"
    using assms(1) by (auto simp: validateLeaf_def find_None_iff split: option.splits)
  have none: "find (\<lambda>k. k \<noteq> ''field'' \<and> k \<noteq> ''op'' \<and> k \<noteq> ''value'') (map fst m) = None"
    using keys by (auto simp: find_None_iff)
  obtain op fld where op: "Option.bind (map_of m ''op'') dec_string = Some op" "op \<noteq> ''''" "map_of operators op \<noteq> None"
    and fld: "(case map_of m ''field'' of None \<Rightarrow> Some '''' | Some v \<Rightarrow> dec_string v) = Some fld"
      "if fld = '''' then has_prefix op ''actor.'' else pathPattern fld"
    and es: "es = []"
    using assms(1) unfolding validateLeaf_def none obj_get_distinct [OF assms(2)]
    by (simp split: option.splits if_splits)
  obtain v' where dec: "dec_members m (CondNode None None '''' '''' RawEmpty) = Some (CondNode None None
      (case map_of m ''field'' of Some (JStr s) \<Rightarrow> s | _ \<Rightarrow> '''')
      (case map_of m ''op'' of Some (JStr s) \<Rightarrow> s | _ \<Rightarrow> '''') v')"
    using dec_leaf [OF assms(2) keys, of "''''" "''''" RawEmpty] op(1) fld(1)
    by (fastforce simp: Option.bind_eq_Some_conv split: option.splits)
  have f: "(case map_of m ''field'' of Some (JStr s) \<Rightarrow> s | _ \<Rightarrow> '''') = fld"
    using fld(1) by (auto split: option.splits json.splits)
  have o: "(case map_of m ''op'' of Some (JStr s) \<Rightarrow> s | _ \<Rightarrow> '''') = op"
    using op(1,2) by (auto simp: Option.bind_eq_Some_conv split: json.splits)
  have "wf_node (CondNode None None fld op v')" using op(3) fld(2) by simp
  then show ?thesis using dec es unfolding f o empty_node_def by blast
qed

lemma branch_members:
  assumes "distinct (map fst m)" and "obj_get m k = Some (JArr cs)" and "length (remdups (map fst m)) = 1"
  shows "m = [(k, JArr cs)]"
proof -
  have mem: "map_of m k = Some (JArr cs)" using assms(1,2) by (simp add: obj_get_distinct)
  then have "k \<in> set (map fst m)" by (force dest!: map_of_SomeD)
  then have "map fst m = [k]" using single_key [OF assms(1,3)] by blast
  then show ?thesis using mem by (cases m) auto
qed

definition sound_node :: "nat \<Rightarrow> nat \<Rightarrow> condNode \<Rightarrow> bool" where
  "sound_node d k c \<longleftrightarrow> wf_node c \<and> node_count c = k \<and> d + node_depth c \<le> Suc maxConditionDepth"

definition sound_nodes :: "nat \<Rightarrow> nat \<Rightarrow> condNode list \<Rightarrow> bool" where
  "sound_nodes d k cs \<longleftrightarrow> list_all wf_node cs \<and> sum_list (map node_count cs) = k \<and>
     list_all (\<lambda>c. d + node_depth c \<le> Suc maxConditionDepth) cs"

lemma walk_sound:
  "walk_node j loc d s = (n, []) \<Longrightarrow> n \<le> maxConditionNodes \<Longrightarrow> plain j \<Longrightarrow>
     snd s = [] \<and> fst s \<le> n \<and> (\<exists>c. dec_node j = Some c \<and> sound_node d (n - fst s) c)"
  "validateBranch m b loc k d s = (n, []) \<Longrightarrow> n \<le> maxConditionNodes \<Longrightarrow> plain (JObj m) \<Longrightarrow>
     obj_get m k = Some b \<Longrightarrow> k = ''all'' \<or> k = ''any'' \<Longrightarrow> d \<le> maxConditionDepth \<Longrightarrow>
     snd s = [] \<and> fst s \<le> n \<and> (\<exists>c. dec_members m empty_node = Some c \<and> sound_node d (Suc (n - fst s)) c)"
  "walk_nodes js pre i d s = (n, []) \<Longrightarrow> n \<le> maxConditionNodes \<Longrightarrow> list_all plain js \<Longrightarrow>
     snd s = [] \<and> fst s \<le> n \<and> (\<exists>cs. dec_nodes js = Some cs \<and> sound_nodes d (n - fst s) cs)"
proof (induction j loc d s and m b loc k d s and js pre i d s arbitrary: n and n and n
    rule: walk_node_validateBranch_walk_nodes.induct)
  case (1 raw loc depth n0 es)
  show ?case
  proof (cases raw)
    case (JObj m)
    have bound: "Suc n0 \<le> maxConditionNodes" "depth \<le> maxConditionDepth"
      using 1(3,4) by (auto simp: walk_node.simps split: if_splits)
    show ?thesis
    proof (cases "obj_get m ''all''")
      case (Some b)
      then have v: "validateBranch m b loc ''all'' depth (Suc n0, es) = (n, [])"
        using 1(3) bound JObj by (simp add: walk_node.simps)
      show ?thesis
        using 1(2) [OF _ _ JObj Some v] bound 1(4,5) JObj Some by (auto simp: Suc_diff_Suc Suc_le_eq)
    next
      case None
      show ?thesis
      proof (cases "obj_get m ''any''")
        case (Some b)
        then have v: "validateBranch m b loc ''any'' depth (Suc n0, es) = (n, [])"
          using 1(3) bound JObj None by (simp add: walk_node.simps)
        show ?thesis
          using 1(1) [OF _ _ JObj None Some v] bound 1(4,5) JObj Some by (auto simp: Suc_diff_Suc Suc_le_eq)
      next
        case none: None
        then have v: "validateLeaf m loc es = []" "n = Suc n0"
          using 1(3) bound JObj None by (auto simp: walk_node.simps)
        obtain f op v' where d: "dec_members m empty_node = Some (CondNode None None f op v')" and
          w: "wf_node (CondNode None None f op v')" and es: "es = []"
          using leaf_sound [OF v(1)] 1(5) JObj by auto
        have "sound_node depth 1 (CondNode None None f op v')" using w bound(2) unfolding sound_node_def by simp
        then show ?thesis using d es v(2) JObj by simp
      qed
    qed
  next
    case JNull
    then have "validateLeaf [] loc es = []" using 1(3,4) by (auto simp: walk_node.simps split: if_splits)
    then show ?thesis by (simp add: validateLeaf_def obj_get_def)
  qed (use 1(3,4) in \<open>auto simp: walk_node.simps split: if_splits\<close>)
next
  case (2 m branch loc kind depth n0 es)
  have single: "length (remdups (map fst m)) = 1" using 2(2) by (auto simp: validateBranch.simps split: if_splits)
  have dist: "distinct (map fst m)" using 2(4) by simp
  have "(kind, branch) \<in> set m" using 2(5) dist by (auto simp: obj_get_distinct dest: map_of_SomeD)
  then have pl: "branch \<noteq> JNull" "plain branch" using 2(4,6) by (auto simp: list_all_iff)
  show ?case
  proof (cases branch)
    case (JArr cs)
    then have v: "walk_nodes cs (loc @ ''.'' @ kind) 0 (Suc depth) (n0, es) = (n, [])" using 2(2) single by (simp add: validateBranch.simps)
    obtain ds where ds: "dec_nodes cs = Some ds" "sound_nodes (Suc depth) (n - n0) ds" and es: "es = []" "n0 \<le> n"
      using 2(1) [OF _ JArr v] 2(3) pl(2) single JArr by auto
    have m: "m = [(kind, JArr cs)]" using branch_members [OF dist _ single] 2(5) JArr by simp
    have "dec_members m empty_node = Some (if kind = ''all'' then set_all (Some ds) empty_node else set_any (Some ds) empty_node)"
      using ds(1) 2(6) unfolding m by (auto simp: field_is_def to_lower_def to_lower_char_def)
    moreover have "sound_node depth (Suc (n - n0)) (if kind = ''all'' then set_all (Some ds) empty_node else set_any (Some ds) empty_node)"
      using ds(2) 2(7) by (auto simp: sound_node_def sound_nodes_def empty_node_def foldr_max_le list_all_iff)
    ultimately show ?thesis using es by simp
  qed (use 2(2) pl single in \<open>auto simp: validateBranch.simps\<close>)
next
  case (3 pre i depth s)
  then show ?case by (simp add: sound_nodes_def)
next
  case (4 c cs pre i depth s)
  let ?s1 = "walk_node c (pre @ ''['' @ fmt_nat i @ '']'') depth s"
  have w: "walk_nodes cs pre (Suc i) depth ?s1 = (n, [])" using 4(3) by simp
  obtain ds where ds: "dec_nodes cs = Some ds" "sound_nodes depth (n - fst ?s1) ds" and s1: "snd ?s1 = []" "fst ?s1 \<le> n"
    using 4(2) [OF w 4(4)] 4(5) by auto
  have v: "?s1 = (fst ?s1, [])" using s1(1) by (metis prod.collapse)
  obtain d where d: "dec_node c = Some d" "sound_node depth (fst ?s1 - fst s) d" and s: "snd s = []" "fst s \<le> fst ?s1"
    using 4(1) [OF v] s1(2) 4(4,5) by auto
  have "sound_nodes depth (n - fst s) (d # ds)"
    using d(2) ds(2) s(2) s1(2) unfolding sound_nodes_def sound_node_def by simp
  then show ?case using d(1) ds(1) s s1(2) by auto
qed

text \<open>
  C24. A condition tree that save-time validation accepts, written without repeated names and without a
  null branch, always decodes, and to a well-formed tree: no mixed node, only known operators and valid
  paths, at most ten levels and a hundred nodes. Evaluation then is the evaluation of that tree.
\<close>

theorem validated_tree_well_formed:
  assumes "validateConditions (Raw j) es = []" and "plain j"
  shows "\<exists>c. dec_node j = Some c \<and> wf_node c \<and> node_depth c \<le> maxConditionDepth \<and>
    node_count c \<le> maxConditionNodes \<and> (\<forall>p. evalConditions (Raw j) p = evalNode c p)"
proof -
  obtain n where w: "walk_node j ''conditions'' 1 (0, es) = (n, [])" and n: "n \<le> maxConditionNodes"
    using assms(1) by (auto simp: validateConditions_def split: prod.splits if_splits)
  obtain c where "dec_node j = Some c" "sound_node 1 n c" using walk_sound(1) [OF w n assms(2)] by auto
  then show ?thesis using n by (auto simp: sound_node_def evalConditions_def)
qed

definition demo_tree :: json where
  "demo_tree = JObj [(''all'', JArr [
     JObj [(''op'', JStr ''actor.is_human'')],
     JObj [(''any'', JArr [
       JObj [(''value'', JStr ''main''), (''field'', JStr ''pr.branch''), (''op'', JStr ''text.is_not'')],
       JObj [(''field'', JStr ''pr.labels''), (''op'', JStr ''set.includes''), (''value'', JStr ''urgent'')]])]])]"

theorem validated_tree_well_formed_witness:
  "\<exists>c. dec_node demo_tree = Some c \<and> wf_node c \<and> node_depth c \<le> maxConditionDepth \<and> node_count c = 5"
proof -
  have v: "validateConditions (Raw demo_tree) [] = []" by code_simp
  have p: "plain demo_tree" by code_simp
  have "map_option node_count (dec_node demo_tree) = Some 5" by code_simp
  then show ?thesis using validated_tree_well_formed [OF v p] by auto
qed

text \<open>
  C25. Validation accepts a null branch although the node then carries neither a branch nor an operator:
  evaluation takes it for a leaf without operator and no event ever meets the rule.
\<close>

theorem null_branch_accepted:
  "validateConditions (Raw (JObj [(k, JNull)])) [] = [] \<and> (\<forall>p. \<not> evalConditions (Raw (JObj [(k, JNull)])) p)"
  if "k = ''all'' \<or> k = ''any''"
  using that
  by (auto simp: validateConditions_def walk_node.simps validateBranch.simps obj_get_def maxConditionNodes_def maxConditionDepth_def evalConditions_def
      field_is_def to_lower_def to_lower_char_def empty_node_def evalLeaf_def operators_def)

theorem null_branch_accepted_witness:
  "validateConditions (Raw (JObj [(''all'', JNull)])) [] = [] \<and>
   \<not> evalConditions (Raw (JObj [(''all'', JNull)])) []"
  using null_branch_accepted [of "''all''"] by simp
section \<open>The other checks\<close>

text \<open>The catalog of the trigger's source must offer its event kind and activity types.\<close>

definition last_where :: "('a \<Rightarrow> bool) \<Rightarrow> 'a list \<Rightarrow> 'a option" where
  "last_where p xs = find p (rev xs)"

definition check_activities :: "Trigger \<Rightarrow> EventDescriptor \<Rightarrow> FieldError list \<Rightarrow> FieldError list" where
  "check_activities tr d es =
     (case unmarshal dec_string_list (tr_ActivityTypes tr) of
        None \<Rightarrow> add ''activity_types'' ''A JSON array of activity types.'' es
      | Some kinds \<Rightarrow>
          fold (\<lambda>a es. if a \<in> set (ed_ActivityTypes d) then es
                  else add ''activity_types'' (quote a @ '' is not an activity type of '' @ tr_Event tr @ ''; known: '' @
                         join '', '' (ed_ActivityTypes d) @ ''.'') es) kinds es)"

definition validateWhen ::
  "EventSource list \<Rightarrow> Trigger \<Rightarrow> FieldError list \<Rightarrow> EventDescriptor option \<times> FieldError list" where
  "validateWhen sources tr es =
     (case last_where (\<lambda>s. es_ID s = tr_SourceID tr) sources of
        None \<Rightarrow> (None, add ''source_id''
          (if sources = [] then ''No event sources are registered.''
           else ''Unknown event source '' @ quote (tr_SourceID tr) @ ''; registered: '' @
                join '', '' (sort (map es_ID sources)) @ ''.'') es)
      | Some src \<Rightarrow>
          if tr_Event tr = '''' then (None, add ''event'' ''Event kind is required.'' es)
          else (case last_where (\<lambda>d. ed_Kind d = tr_Event tr) (es_Catalog src) of
                  None \<Rightarrow> (None, add ''event'' (''Source '' @ quote (tr_SourceID tr) @ '' has no event kind '' @
                    quote (tr_Event tr) @ ''; known: '' @ join '', '' (map ed_Kind (es_Catalog src)) @ ''.'') es)
                | Some d \<Rightarrow>
                    (Some d, check_activities tr d
                       (case es_Vet src of None \<Rightarrow> es | Some vet \<Rightarrow> fold (\<lambda>(fld, msg). add fld msg) (vet tr) es))))"

definition known_fields :: "string list \<Rightarrow> (string \<times> json) list \<Rightarrow> bool" where
  "known_fields names kvs = list_all (\<lambda>(k, v). list_ex (field_is k) names) kvs"

definition strict_filters :: "raw_json \<Rightarrow> triggerFilters option" where
  "strict_filters raw =
     (case raw of Raw (JObj kvs) \<Rightarrow> if known_fields [''branches'', ''paths'', ''labels''] kvs then dec_filters kvs no_filters else None
      | _ \<Rightarrow> unmarshal_filters raw)"

definition check_patterns ::
  "Trigger \<Rightarrow> EventDescriptor option \<Rightarrow> string \<Rightarrow> string list \<Rightarrow> bool \<Rightarrow> FieldError list \<Rightarrow> FieldError list" where
  "check_patterns tr desc key patterns glob es =
     (if patterns = [] then es
      else fold (\<lambda>p es.
             if p = '''' then add ''filters'' (''The '' @ key @ '' filter has an empty entry.'') es
             else if glob \<and> glob_match p ''probe'' = None
             then add ''filters'' (quote p @ '' is not a valid glob (path.Match syntax).'') es else es) patterns
           (case desc of Some d \<Rightarrow> if key \<in> set (ed_Filters d) then es
              else add ''filters'' (''The '' @ key @ '' filter does not apply to '' @ tr_Event tr @ '' events.'') es
            | None \<Rightarrow> es))"

definition validateFilters :: "Trigger \<Rightarrow> EventDescriptor option \<Rightarrow> FieldError list \<Rightarrow> FieldError list" where
  "validateFilters tr desc es =
     (case strict_filters (tr_Filters tr) of
        None \<Rightarrow> add ''filters'' ''An object with branches, paths and labels lists.'' es
      | Some f \<Rightarrow> check_patterns tr desc ''labels'' (fl_Labels f) False
          (check_patterns tr desc ''paths'' (fl_Paths f) True
             (check_patterns tr desc ''branches'' (fl_Branches f) True es)))"

definition strict_refs :: "raw_json \<Rightarrow> actionRef list option" where
  "strict_refs raw =
     (case raw of
        Raw (JArr js) \<Rightarrow>
          if list_all (\<lambda>j. case j of JObj kvs \<Rightarrow> known_fields [''action_id'', ''params''] kvs | _ \<Rightarrow> True) js
          then dec_refs js else None
      | _ \<Rightarrow> unmarshal_refs raw)"

definition check_action ::
  "(string \<Rightarrow> TriggerAction option) \<Rightarrow> World \<Rightarrow> nat \<Rightarrow> actionRef \<Rightarrow> FieldError list \<Rightarrow> FieldError list" where
  "check_action acts w i r es =
     (let here = ''actions['' @ fmt_nat i @ '']'' in
      if rf_ActionID r = '''' then add ''actions'' (here @ '': action_id is required.'') es
      else if rf_Params r = RawBad then add ''actions'' (here @ '': params must be JSON.'') es
      else (case acts (rf_ActionID r) of
              None \<Rightarrow> es
            | Some act \<Rightarrow>
                (case ta_Describe act w (rf_Params r) of
                   Inl err \<Rightarrow> add ''actions'' (here @ '' ('' @ rf_ActionID r @ ''): '' @ err) es
                 | Inr _ \<Rightarrow> es)))"

definition validateActions ::
  "(string \<Rightarrow> TriggerAction option) \<Rightarrow> World \<Rightarrow> raw_json \<Rightarrow> FieldError list \<Rightarrow> FieldError list" where
  "validateActions acts w raw es =
     (case strict_refs raw of
        None \<Rightarrow> add ''actions'' ''A JSON array of {action_id, params}.'' es
      | Some refs \<Rightarrow>
          if maxActions < length refs then add ''actions'' (''At most '' @ fmt_nat maxActions @ '' actions.'') es
          else fold (\<lambda>(i, r). check_action acts w i r) (enumerate 0 refs) es)"

text \<open>\<^verbatim>\<open>loopConfig\<close> has the fields of the guard's configuration and starts from zero.\<close>

definition strict_config :: "raw_json \<Rightarrow> GuardConfig option" where
  "strict_config raw =
     (case raw of
        Raw (JObj kvs) \<Rightarrow>
          if known_fields [''actor_suppression'', ''debounce_seconds'', ''cancel_in_progress'', ''depth_limit'',
               ''daily_budget_cents''] kvs
          then config_fields kvs zero_config else None
      | _ \<Rightarrow> unmarshal_config raw zero_config)"

definition validateLoopConfig :: "raw_json \<Rightarrow> FieldError list \<Rightarrow> FieldError list" where
  "validateLoopConfig raw es =
     (case strict_config raw of
        None \<Rightarrow> add ''loop_config'' (''The '' @ [CHR 0xC2, CHR 0xA7] @
          ''6.1 shape: actor_suppression, debounce_seconds, cancel_in_progress, depth_limit, daily_budget_cents.'') es
      | Some c \<Rightarrow>
          (let es1 = (if cfg_DebounceSeconds c < 0 then add ''loop_config'' ''debounce_seconds must be >= 0.'' es else es);
               es2 = (if cfg_DepthLimit c < 0 then add ''loop_config'' ''depth_limit must be >= 0.'' es1 else es1)
           in (case cfg_DailyBudgetCents c of
                 Some n \<Rightarrow> if n < 0 then add ''loop_config'' ''daily_budget_cents must be >= 0 or null.'' es2 else es2
               | None \<Rightarrow> es2)))"

definition validate ::
  "EventSource list \<Rightarrow> (string \<Rightarrow> TriggerAction option) \<Rightarrow> World \<Rightarrow> Trigger \<Rightarrow> FieldError list" where
  "validate sources acts w tr =
     (let e1 = (if tr_Name tr = '''' then add ''name'' ''Name is required.'' []
                else if 120 < length (tr_Name tr) then add ''name'' ''At most 120 characters.'' [] else []) in
      case validateWhen sources tr e1 of
        (desc, e2) \<Rightarrow>
          (let e6 = validateLoopConfig (tr_LoopConfig tr)
                 (validateActions acts w (tr_Actions tr)
                   (validateConditions (tr_Conditions tr) (validateFilters tr desc e2)))
           in if tr_Cron tr \<noteq> None \<and> tr_Event tr \<noteq> ''schedule''
              then add ''cron'' ''Cron applies only to schedule triggers.'' e6 else e6))"

text \<open>Every check keeps the errors found before it, so an accepted trigger passed each of them alone.\<close>

lemma fold_add_only:
  assumes "\<And>x es. g x es = [] \<Longrightarrow> es = []"
  shows "fold g xs es = [] \<Longrightarrow> es = []"
  by (induction xs arbitrary: es) (auto dest: assms)

lemma check_activities_only: "check_activities tr d es = [] \<Longrightarrow> es = []"
  by (auto simp: check_activities_def split: option.splits if_splits elim!: fold_add_only [rotated])

lemma validateWhen_only: "validateWhen srcs tr es = (d, []) \<Longrightarrow> es = []"
  by (auto simp: validateWhen_def split: option.splits if_splits prod.splits dest!: check_activities_only
      elim!: fold_add_only [rotated])

lemma check_patterns_only: "check_patterns tr d k ps g es = [] \<Longrightarrow> es = []"
  by (auto simp: check_patterns_def split: option.splits if_splits dest!: fold_add_only [rotated])

lemma validateFilters_only: "validateFilters tr d es = [] \<Longrightarrow> es = []"
  by (auto simp: validateFilters_def split: option.splits dest!: check_patterns_only)

lemma check_action_only: "check_action act w i r es = [] \<Longrightarrow> es = []"
  by (auto simp: check_action_def Let_def split: if_splits option.splits sum.splits)

lemma validateActions_only: "validateActions act w raw es = [] \<Longrightarrow> es = []"
  by (auto simp: validateActions_def split: option.splits if_splits
      dest!: fold_add_only [rotated] dest: check_action_only)

lemma validateLoopConfig_only: "validateLoopConfig raw es = [] \<Longrightarrow> es = []"
  by (auto simp: validateLoopConfig_def Let_def split: option.splits if_splits)

lemma walk_only:
  "snd (walk_node j loc d s) = [] \<Longrightarrow> snd s = []"
  "snd (validateBranch m b loc k d s) = [] \<Longrightarrow> snd s = []"
  "snd (walk_nodes js pre i d s) = [] \<Longrightarrow> snd s = []"
proof (induction j loc d s and m b loc k d s and js pre i d s rule: walk_node_validateBranch_walk_nodes.induct)
  case (1 raw loc depth n es)
  then show ?case
    by (auto simp: walk_node.simps validateLeaf_def split: json.splits if_splits option.splits)
next
  case (2 m branch loc kind depth n es)
  then show ?case by (auto simp: validateBranch.simps split: json.splits if_splits)
qed simp_all

lemma validateConditions_only: "validateConditions raw es = [] \<Longrightarrow> es = []"
  using walk_only(1) [where s = "(0, es)"]
  by (cases raw) (auto simp: validateConditions_def case_prod_beta split: if_splits)

lemma accepted:
  assumes "validate sources acts w tr = []"
  shows "tr_Name tr \<noteq> ''''" and "length (tr_Name tr) \<le> 120"
    and "\<exists>es. validateConditions (tr_Conditions tr) es = []"
    and "tr_Cron tr \<noteq> None \<Longrightarrow> tr_Event tr = ''schedule''"
proof -
  obtain d e2 where w: "validateWhen sources tr
      (if tr_Name tr = '''' then add ''name'' ''Name is required.'' []
       else if 120 < length (tr_Name tr) then add ''name'' ''At most 120 characters.'' [] else []) = (d, e2)"
    and l: "validateLoopConfig (tr_LoopConfig tr) (validateActions acts w (tr_Actions tr)
      (validateConditions (tr_Conditions tr) (validateFilters tr d e2))) = []"
    and "tr_Cron tr \<noteq> None \<Longrightarrow> tr_Event tr = ''schedule''"
    using assms by (auto simp: validate_def Let_def split: prod.splits if_splits)
  then show "tr_Cron tr \<noteq> None \<Longrightarrow> tr_Event tr = ''schedule''" by blast
  show c: "\<exists>es. validateConditions (tr_Conditions tr) es = []"
    using validateActions_only [OF validateLoopConfig_only [OF l]] by blast
  have cs: "validateConditions (tr_Conditions tr) (validateFilters tr d e2) = []"
    by (rule validateActions_only [OF validateLoopConfig_only [OF l]])
  then have "e2 = []" using validateFilters_only validateConditions_only by blast
  then show "tr_Name tr \<noteq> ''''" "length (tr_Name tr) \<le> 120"
    using validateWhen_only [OF w [unfolded \<open>e2 = []\<close>]] by (auto split: if_splits)
qed

end
