(* ===== verification/BusSafety.thy ===== *)
theory BusSafety
  imports Bus "HOL-Library.Multiset"
begin

text \<open>
  The bus refines a ledger of who was asked and what they answered. The ledger has no queues, counters
  or blocked publishers: a dispatch asks a set of subscriptions, each asked one answers at most once, and
  the verdict on an event exists only when nobody owes an answer any more. Every interleaving of the bus
  is matched by steps of the ledger, its counters are the sizes of what is owed, and what it writes into
  \<^verbatim>\<open>events.dispatch_state\<close> is the ledger's verdict.
\<close>

section \<open>The ledger\<close>

record Ledger =
  lg_asked :: "(string \<times> nat set) list"
  lg_answers :: "(nat \<times> nat \<times> bool) list"

definition asked :: "Ledger \<Rightarrow> nat \<Rightarrow> nat set" where
  "asked L t = snd (lg_asked L ! t)"

definition owed :: "Ledger \<Rightarrow> nat \<Rightarrow> nat set" where
  "owed L t = {i \<in> asked L t. \<forall>ok. (t, i, ok) \<notin> set (lg_answers L)}"

definition refused :: "Ledger \<Rightarrow> nat \<Rightarrow> bool" where
  "refused L t \<longleftrightarrow> (\<exists>i. (t, i, False) \<in> set (lg_answers L))"

definition verdict :: "Ledger \<Rightarrow> nat \<Rightarrow> DispatchState option" where
  "verdict L t = (if owed L t \<noteq> {} then None else Some (if refused L t then DispatchFailed else DispatchDone))"

inductive ledger_step :: "Ledger \<Rightarrow> Ledger \<Rightarrow> bool" where
  ask: "S \<noteq> {} \<Longrightarrow> finite S \<Longrightarrow> ledger_step L (L\<lparr> lg_asked := lg_asked L @ [(eid, S)] \<rparr>)"
| answer: "t < length (lg_asked L) \<Longrightarrow> i \<in> owed L t \<Longrightarrow>
    ledger_step L (L\<lparr> lg_answers := lg_answers L @ [(t, i, ok)] \<rparr>)"

inductive_cases ledger_stepE: "ledger_step L L'"

definition empty_ledger :: Ledger where
  "empty_ledger = \<lparr> lg_asked = [], lg_answers = [] \<rparr>"

definition answers_known :: "Ledger \<Rightarrow> bool" where
  "answers_known L \<longleftrightarrow> (\<forall>(t, i, ok) \<in> set (lg_answers L). t < length (lg_asked L))"

lemma asked_append [simp]: "t < length (lg_asked L) \<Longrightarrow> asked (L\<lparr> lg_asked := lg_asked L @ [x] \<rparr>) t = asked L t"
  "asked (L\<lparr> lg_asked := lg_asked L @ [x] \<rparr>) (length (lg_asked L)) = snd x"
  "asked (L\<lparr> lg_answers := a \<rparr>) t = asked L t"
  by (simp_all add: asked_def nth_append)

lemma owed_append [simp]: "t < length (lg_asked L) \<Longrightarrow> owed (L\<lparr> lg_asked := lg_asked L @ [x] \<rparr>) t = owed L t"
  by (simp add: owed_def)

lemma owed_answer: "owed (L\<lparr> lg_answers := lg_answers L @ [(t, i, ok)] \<rparr>) u = (if u = t then owed L t - {i} else owed L u)"
  by (auto simp: owed_def)

lemma refused_simps [simp]: "refused (L\<lparr> lg_asked := a \<rparr>) t = refused L t"
  "refused (L\<lparr> lg_answers := lg_answers L @ [(u, i, ok)] \<rparr>) t = (refused L t \<or> u = t \<and> \<not> ok)"
  by (auto simp: refused_def)

lemma answers_known_step: "ledger_step L L' \<Longrightarrow> answers_known L \<Longrightarrow> answers_known L'"
  by (induction rule: ledger_step.induct) (auto simp: answers_known_def)

text \<open>A verdict, once there is one, is final.\<close>

lemma verdict_final:
  assumes "ledger_step L L'" and "t < length (lg_asked L)" and "verdict L t = Some v"
  shows "verdict L' t = Some v"
  using assms by (cases rule: ledger_step.cases) (auto simp: verdict_def owed_answer split: if_splits)

lemma verdict_done:
  "verdict L t = Some DispatchDone \<Longrightarrow> i \<in> asked L t \<Longrightarrow> (t, i, True) \<in> set (lg_answers L)"
  by (auto simp: verdict_def owed_def refused_def split: if_splits) (metis (full_types))

section \<open>What the bus carries\<close>

text \<open>The trackers whose item subscription \<^verbatim>\<open>i\<close> still has to see: in hand, queued, or with a blocked publisher.\<close>

definition held :: "Subscription \<Rightarrow> nat multiset" where
  "held s = (case sb_current s of None \<Rightarrow> {#} | Some it \<Rightarrow> {#snd it#}) + mset (map snd (sb_queue s))"

definition waits :: "nat \<Rightarrow> Flight \<Rightarrow> nat multiset" where
  "waits i fl = (if i \<in> set (fl_full fl) then {#snd (fl_item fl)#} else {#})"

definition carried :: "Bus \<Rightarrow> nat \<Rightarrow> nat multiset" where
  "carried b i = held (bs_subs b ! i) + sum_list (map (waits i) (bs_flight b))"

definition flight_ok :: "Bus \<Rightarrow> Flight \<Rightarrow> bool" where
  "flight_ok b fl \<longleftrightarrow> distinct (fl_full fl) \<and> (\<forall>i \<in> set (fl_full fl). i < length (bs_subs b))"

lemma flight_split:
  fixes g :: "'a \<Rightarrow> 'b::comm_monoid_add"
  assumes "n < length fs"
  shows "sum_list (map g fs) = g (fs ! n) + sum_list (map g (drop_at n fs))"
    and "sum_list (map g (fs[n := x])) = g x + sum_list (map g (drop_at n fs))"
  using assms by (simp_all add: drop_at_def upd_conv_take_nth_drop add_ac)
    (subst id_take_nth_drop [OF assms], simp add: add_ac)

lemma set_drop_at: "set (drop_at n xs) \<subseteq> set xs"
  by (auto simp: drop_at_def dest: in_set_takeD in_set_dropD)

lemma push_fields [simp]:
  "bs_trackers (push it i b) = bs_trackers b" "bs_calls (push it i b) = bs_calls b"
  "bs_flight (push it i b) = bs_flight b" "length (bs_subs (push it i b)) = length (bs_subs b)"
  "bs_stopped (push it i b) = bs_stopped b" "bs_recover (push it i b) = bs_recover b"
  "map sb_matcher (bs_subs (push it i b)) = map sb_matcher (bs_subs b)"
  by (simp_all add: push_def map_update) (metis (no_types) list_update_id map_update)

lemma held_push:
  "k < length (bs_subs b) \<Longrightarrow> i < length (bs_subs b) \<Longrightarrow>
   held (bs_subs (push it i b) ! k) = held (bs_subs b ! k) + (if k = i then {#snd it#} else {#})"
  by (simp add: push_def held_def nth_list_update)

lemma fold_push_fields [simp]:
  "bs_trackers (fold (push it) is b) = bs_trackers b" "bs_calls (fold (push it) is b) = bs_calls b"
  "bs_flight (fold (push it) is b) = bs_flight b" "length (bs_subs (fold (push it) is b)) = length (bs_subs b)"
  "bs_stopped (fold (push it) is b) = bs_stopped b" "bs_recover (fold (push it) is b) = bs_recover b"
  "map sb_matcher (bs_subs (fold (push it) is b)) = map sb_matcher (bs_subs b)"
  by (induction "is" arbitrary: b) simp_all

lemma held_fold_push:
  "distinct is \<Longrightarrow> \<forall>i \<in> set is. i < length (bs_subs b) \<Longrightarrow> k < length (bs_subs b) \<Longrightarrow>
   held (bs_subs (fold (push it) is b) ! k) = held (bs_subs b ! k) + (if k \<in> set is then {#snd it#} else {#})"
  by (induction "is" arbitrary: b) (auto simp: held_push)

lemma matched_cong: "map sb_matcher (bs_subs b') = map sb_matcher (bs_subs b) \<Longrightarrow> matched b' = matched b"
proof -
  assume m: "map sb_matcher (bs_subs b') = map sb_matcher (bs_subs b)"
  then have l: "length (bs_subs b') = length (bs_subs b)" by (metis length_map)
  have "sb_matcher (bs_subs b' ! i) = sb_matcher (bs_subs b ! i)" if "i < length (bs_subs b)" for i
    using m l that by (metis nth_map)
  then show ?thesis by (intro ext) (auto simp: matched_def l intro!: filter_cong)
qed

lemma matched_facts: "distinct (matched b e)" "i \<in> set (matched b e) \<Longrightarrow> i < length (bs_subs b)"
  by (auto simp: matched_def)

lemma matched_topic: "ev_Kind e' = ev_Kind e \<Longrightarrow> ev_ActivityType e' = ev_ActivityType e \<Longrightarrow> matched b e' = matched b e"
proof -
  assume "ev_Kind e' = ev_Kind e" "ev_ActivityType e' = ev_ActivityType e"
  then have "matches m e' = matches m e" for m by (cases m) (simp_all add: Topic_def)
  then show ?thesis by (simp add: matched_def)
qed

section \<open>The simulation relation\<close>

definition tracked :: "Bus \<Rightarrow> Ledger \<Rightarrow> bool" where
  "tracked b L \<longleftrightarrow> length (bs_trackers b) = length (lg_asked L) \<and> answers_known L \<and> bs_calls b = lg_answers L \<and>
     (\<forall>t < length (lg_asked L). tk_eventID (bs_trackers b ! t) = fst (lg_asked L ! t) \<and>
        tk_remaining (bs_trackers b ! t) = int (card (owed L t)) \<and>
        tk_anyFailed (bs_trackers b ! t) = refused L t \<and> asked L t \<subseteq> {..< length (bs_subs b)})"

text \<open>What is carried is owed, once. \<^verbatim>\<open>c\<close> says that no publisher gave up: then what is owed is carried too.\<close>

definition delivering :: "bool \<Rightarrow> Bus \<Rightarrow> Ledger \<Rightarrow> bool" where
  "delivering c b L \<longleftrightarrow> (\<forall>i < length (bs_subs b). \<forall>t. count (carried b i) t \<le> 1 \<and>
     (t \<in># carried b i \<longrightarrow> t < length (lg_asked L) \<and> i \<in> owed L t) \<and>
     (c \<longrightarrow> t < length (lg_asked L) \<longrightarrow> i \<in> owed L t \<longrightarrow> t \<in># carried b i))"

definition bus_inv :: "bool \<Rightarrow> Bus \<Rightarrow> Ledger \<Rightarrow> bool" where
  "bus_inv c b L \<longleftrightarrow> tracked b L \<and> delivering c b L \<and> (\<forall>fl \<in> set (bs_flight b). flight_ok b fl)"

lemma deliveringD:
  assumes "bus_inv c b L" and "i < length (bs_subs b)"
  shows "count (carried b i) t \<le> 1 \<and> (t \<in># carried b i \<longrightarrow> t < length (lg_asked L) \<and> i \<in> owed L t) \<and>
    (c \<longrightarrow> t < length (lg_asked L) \<longrightarrow> i \<in> owed L t \<longrightarrow> t \<in># carried b i)"
  using assms unfolding bus_inv_def delivering_def by blast

lemma slot_transfer:
  assumes "n \<le> (1::nat) \<and> (m \<longrightarrow> A \<and> B) \<and> (c \<longrightarrow> A \<longrightarrow> B \<longrightarrow> m)"
    and "n' \<le> n" and "m' \<Longrightarrow> m" and "A' = A" and "A \<Longrightarrow> B' = B" and "c \<Longrightarrow> m \<Longrightarrow> m'"
  shows "n' \<le> 1 \<and> (m' \<longrightarrow> A' \<and> B') \<and> (c \<longrightarrow> A' \<longrightarrow> B' \<longrightarrow> m')"
  using le_trans [OF assms(2) conjunct1 [OF assms(1)]] assms(1,3-6) by blast

lemma quiet_step:
  assumes "bus_inv c b L" and "bs_trackers b' = bs_trackers b" and "bs_calls b' = bs_calls b"
    and "length (bs_subs b') = length (bs_subs b)" and "\<forall>fl \<in> set (bs_flight b'). flight_ok b' fl"
    and "\<And>i. i < length (bs_subs b) \<Longrightarrow> carried b' i \<subseteq># carried b i"
    and "\<And>i. i < length (bs_subs b) \<Longrightarrow> c \<Longrightarrow> carried b' i = carried b i"
  shows "bus_inv c b' L"
proof -
  have "count (carried b' i) t \<le> 1 \<and> (t \<in># carried b' i \<longrightarrow> t < length (lg_asked L) \<and> i \<in> owed L t) \<and>
      (c \<longrightarrow> t < length (lg_asked L) \<longrightarrow> i \<in> owed L t \<longrightarrow> t \<in># carried b' i)"
    if "i < length (bs_subs b)" for i t
  proof -
    note old = deliveringD [OF assms(1) that, of t]
    show ?thesis
    proof (rule slot_transfer [OF old])
      show "count (carried b' i) t \<le> count (carried b i) t" by (rule mset_subset_eq_count [OF assms(6) [OF that]])
      show "t \<in># carried b' i \<Longrightarrow> t \<in># carried b i" by (rule mset_subset_eqD [OF assms(6) [OF that]])
      show "c \<Longrightarrow> t \<in># carried b i \<Longrightarrow> t \<in># carried b' i" by (simp only: assms(7) [OF that])
    qed (rule refl)+
  qed
  then have "delivering c b' L" unfolding delivering_def assms(4) by blast
  moreover have "tracked b' L" using assms(1-4) by (simp add: bus_inv_def tracked_def)
  ultimately show ?thesis using assms(5) by (simp only: bus_inv_def)
qed

lemma take_item_inv: "bus_inv c b L \<Longrightarrow> bus_inv c (take_item i b) L"
proof -
  assume inv: "bus_inv c b L"
  show ?thesis
  proof (cases "i < length (bs_subs b) \<and> sb_current (bs_subs b ! i) = None \<and> sb_queue (bs_subs b ! i) \<noteq> []")
    case True
    then obtain it rest where q: "sb_queue (bs_subs b ! i) = it # rest" by (auto simp: neq_Nil_conv)
    let ?b = "take_item i b"
    have b: "?b = b\<lparr> bs_subs := (bs_subs b)[i := (bs_subs b ! i)\<lparr> sb_queue := rest, sb_current := Some it \<rparr>] \<rparr>"
      using True q by (simp add: take_item_def)
    have "held (bs_subs ?b ! k) = held (bs_subs b ! k)" if "k < length (bs_subs b)" for k
      using that True q unfolding b by (auto simp: held_def nth_list_update)
    then show ?thesis
      using inv by (intro quiet_step [OF inv]) (auto simp: b carried_def bus_inv_def flight_ok_def)
  next
    case False
    then have "take_item i b = b" by (auto simp: take_item_def split: option.splits list.splits)
    then show ?thesis using inv by simp
  qed
qed

lemma bus_inv_weaken: "bus_inv c b L \<Longrightarrow> bus_inv False b L"
  by (simp add: bus_inv_def delivering_def)

lemma give_up_inv: "bus_inv False b L \<Longrightarrow> bus_inv False (give_up n b) L"
proof (cases "n < length (bs_flight b)")
  case True
  assume inv: "bus_inv False b L"
  have "carried (give_up n b) i \<subseteq># carried b i" for i
    using True by (simp add: give_up_def carried_def Let_def flight_split(1) [OF True])
  then show ?thesis
    using inv True set_drop_at [of n "bs_flight b"]
    by (intro quiet_step [OF inv]) (auto simp: give_up_def Let_def bus_inv_def flight_ok_def)
qed (simp add: give_up_def)

lemma unblock_inv: "bus_inv c b L \<Longrightarrow> bus_inv c (unblock n b) L"
proof -
  assume inv: "bus_inv c b L"
  show ?thesis
  proof (cases "n < length (bs_flight b) \<and> fl_full (bs_flight b ! n) \<noteq> [] \<and> has_room b (hd (fl_full (bs_flight b ! n)))")
    case True
    then obtain i rest where fl: "fl_full (bs_flight b ! n) = i # rest" by (auto simp: neq_Nil_conv)
    have n: "n < length (bs_flight b)" using True by simp
    have "flight_ok b (bs_flight b ! n)" using inv n by (simp add: bus_inv_def)
    then have ok: "i < length (bs_subs b)" "i \<notin> set rest" "distinct rest" "\<forall>k \<in> set rest. k < length (bs_subs b)"
      using fl by (simp_all add: flight_ok_def)
    define it where "it = fl_item (bs_flight b ! n)"
    define fs where "fs = (if rest = [] then drop_at n (bs_flight b)
      else (bs_flight b)[n := (bs_flight b ! n)\<lparr> fl_full := rest \<rparr>])"
    have b: "unblock n b = (push it i b)\<lparr> bs_flight := fs \<rparr>"
      using True fl by (simp add: unblock_def Let_def it_def fs_def)
    have fs: "sum_list (map (waits k) fs) = (if k \<in> set rest then {#snd it#} else {#}) + sum_list (map (waits k) (drop_at n (bs_flight b)))" for k
      using flight_split(2) [OF n, of "waits k" "(bs_flight b ! n)\<lparr> fl_full := rest \<rparr>"]
      by (simp add: fs_def waits_def it_def)
    have "carried (unblock n b) k = carried b k" if "k < length (bs_subs b)" for k
      using that ok(1,2) held_push [OF that ok(1), of it] fl
      by (auto simp: b carried_def fs flight_split(1) [OF n, of "waits k"] waits_def it_def)
    moreover have "flight_ok (unblock n b) fl" if "fl \<in> set fs" for fl
    proof (cases "fl \<in> set (bs_flight b)")
      case True
      then show ?thesis using inv by (auto simp: b bus_inv_def flight_ok_def)
    next
      case False
      then have "fl = (bs_flight b ! n)\<lparr> fl_full := rest \<rparr>"
        using that set_drop_at [of n "bs_flight b"] by (auto simp: fs_def set_update_memI dest!: set_update_subset_insert [THEN subsetD] split: if_splits)
      then show ?thesis using ok(3,4) by (simp add: b flight_ok_def)
    qed
    ultimately show ?thesis
      by (intro quiet_step [OF inv]) (auto simp: b)
  next
    case False
    then have "unblock n b = b" by (auto simp: unblock_def split: list.splits)
    then show ?thesis using inv by simp
  qed
qed

text \<open>A dispatch that reaches subscriptions is an \<^verbatim>\<open>ask\<close> of the ledger.\<close>

lemma dispatch_inv:
  assumes inv: "bus_inv c b L" and live: "\<not> bs_stopped b" and ne: "matched b e \<noteq> []"
    and d: "dispatch f e (b, w) = (r, (b', w'))"
  shows "w' = w \<and> matched b' = matched b \<and> bs_recover b' = bs_recover b \<and>
    bus_inv c b' (L\<lparr> lg_asked := lg_asked L @ [(ev_ID e, set (matched b e))] \<rparr>)"
proof -
  let ?L = "L\<lparr> lg_asked := lg_asked L @ [(ev_ID e, set (matched b e))] \<rparr>"
  let ?t = "length (bs_trackers b)"
  define full where "full = filter (\<lambda>i. \<not> has_room b i) (matched b e)"
  define ok where "ok = filter (has_room b) (matched b e)"
  define b1 where "b1 = b\<lparr> bs_trackers := bs_trackers b @ [\<lparr> tk_eventID = ev_ID e,
    tk_remaining = int (length (matched b e)), tk_anyFailed = False \<rparr>] \<rparr>"
  define b2 where "b2 = fold (push (e, ?t)) ok b1"
  have b': "b' = b2\<lparr> bs_flight := bs_flight b @ (if full = [] then [] else [\<lparr> fl_item = (e, ?t), fl_full = full \<rparr>]) \<rparr>" and w': "w' = w"
    using d live ne by (auto simp: dispatch_def Let_def full_def ok_def b1_def b2_def split: if_splits)
  have len: "length (bs_subs b') = length (bs_subs b)" "length (bs_trackers b) = length (lg_asked L)"
    using inv by (simp_all add: b' b2_def b1_def bus_inv_def tracked_def)
  have mt: "matched b' = matched b" by (rule matched_cong) (simp add: b' b2_def b1_def)
  have mem: "i \<in> set ok \<longleftrightarrow> i \<in> set (matched b e) \<and> i \<notin> set full"
    "i \<in> set full \<Longrightarrow> i \<in> set (matched b e)" for i
    by (auto simp: ok_def full_def)
  have "held (bs_subs b' ! i) = held (bs_subs b ! i) + (if i \<in> set ok then {#?t#} else {#})"
    if "i < length (bs_subs b)" for i
  proof -
    have "distinct ok" "\<forall>k \<in> set ok. k < length (bs_subs b1)"
      using matched_facts by (auto simp: ok_def b1_def)
    then show ?thesis
      using held_fold_push [of ok b1 i "(e, ?t)"] that by (simp add: b' b2_def) (simp add: b1_def)
  qed
  then have carried: "carried b' i = carried b i + (if i \<in> set (matched b e) then {#?t#} else {#})"
    if "i < length (bs_subs b)" for i
    using that mem [of i] by (auto simp: carried_def b' waits_def)
  have owed_new: "owed ?L ?t = set (matched b e)"
    using inv by (auto simp: owed_def asked_def nth_append len(2) bus_inv_def tracked_def answers_known_def)
  have "tracked b' ?L"
  proof -
    have "\<not> refused L ?t"
      using inv by (auto simp: refused_def bus_inv_def tracked_def answers_known_def)
    then have "tk_eventID (bs_trackers b' ! t) = fst (lg_asked ?L ! t) \<and>
        tk_remaining (bs_trackers b' ! t) = int (card (owed ?L t)) \<and>
        tk_anyFailed (bs_trackers b' ! t) = refused ?L t \<and> asked ?L t \<subseteq> {..< length (bs_subs b')}"
      if "t < Suc (length (lg_asked L))" for t
    proof (cases "t = ?t")
      case True
      then show ?thesis
        using owed_new \<open>\<not> refused L ?t\<close> matched_facts(2) [of _ b e] distinct_card [OF matched_facts(1), of b e] len
        by (auto simp: b' b2_def b1_def nth_append asked_def)
    next
      case False
      then have t: "t < length (lg_asked L)" using that len(2) by simp
      then show ?thesis
        using inv len by (auto simp: b' b2_def b1_def nth_append bus_inv_def tracked_def)
    qed
    then show ?thesis
      using inv by (auto simp: tracked_def b' b2_def b1_def bus_inv_def answers_known_def)
  qed
  moreover have "delivering c b' ?L"
    unfolding delivering_def
  proof (intro allI impI)
    fix i t
    assume i: "i < length (bs_subs b')"
    have ib: "i < length (bs_subs b)" using i len(1) by simp
    note old = deliveringD [OF inv ib, of t]
    show "count (carried b' i) t \<le> 1 \<and> (t \<in># carried b' i \<longrightarrow> t < length (lg_asked ?L) \<and> i \<in> owed ?L t) \<and>
      (c \<longrightarrow> t < length (lg_asked ?L) \<longrightarrow> i \<in> owed ?L t \<longrightarrow> t \<in># carried b' i)"
    proof (cases "t = ?t")
      case True
      then have "t \<notin># carried b i" using old len(2) by auto
      then have "count (carried b' i) t = (if i \<in> set (matched b e) then 1 else 0)"
        using carried [OF ib] True by (simp add: not_in_iff)
      then have "count (carried b' i) t \<le> 1 \<and> (t \<in># carried b' i \<longleftrightarrow> i \<in> owed ?L t)"
        using True owed_new by (simp add: count_greater_zero_iff [symmetric] del: count_greater_zero_iff)
      moreover have "t < length (lg_asked ?L)" using True len(2) by simp
      ultimately show ?thesis by blast
    next
      case False
      then have c: "count (carried b' i) t = count (carried b i) t" using carried [OF ib] by simp
      then have "t \<in># carried b' i \<longleftrightarrow> t \<in># carried b i" by (metis count_greater_zero_iff)
      moreover have "t < length (lg_asked ?L) \<longleftrightarrow> t < length (lg_asked L)" using False len(2) by auto
      ultimately show ?thesis
        by - (rule slot_transfer [OF old], simp only: c, blast, blast, simp only: owed_append, blast)
    qed
  qed
  moreover have "\<forall>fl \<in> set (bs_flight b'). flight_ok b' fl"
    using inv matched_facts len(1) by (auto simp: b' bus_inv_def flight_ok_def full_def)
  ultimately show ?thesis using w' mt by (simp add: bus_inv_def b' b2_def b1_def)
qed

text \<open>A handler's return is an \<^verbatim>\<open>answer\<close>; the row is written exactly when it brings the verdict.\<close>

lemma consume_inv:
  assumes inv: "bus_inv c b L" and i: "i < length (bs_subs b)" and cur: "sb_current (bs_subs b ! i) = Some (e, t)"
    and run: "consume f i ok (b, w) = (b', w')"
  defines "L' \<equiv> L\<lparr> lg_answers := lg_answers L @ [(t, i, ok)] \<rparr>"
  shows "t < length (lg_asked L)" and "i \<in> owed L t" and "bus_inv c b' L'" and "matched b' = matched b"
    and "bs_recover b' = bs_recover b"
    and "w' = (case verdict L' t of None \<Rightarrow> w | Some v \<Rightarrow> finalize f (fst (lg_asked L ! t)) v w)"
proof -
  have "t \<in># carried b i" using cur by (simp add: carried_def held_def)
  then show t: "t < length (lg_asked L)" and o: "i \<in> owed L t"
    using inv i by (auto simp: bus_inv_def delivering_def)
  define tr where "tr = (bs_trackers b ! t)\<lparr> tk_anyFailed := (tk_anyFailed (bs_trackers b ! t) \<or> \<not> ok),
    tk_remaining := tk_remaining (bs_trackers b ! t) - 1 \<rparr>"
  define sub where "sub = (bs_subs b ! i)\<lparr> sb_current := None,
    sb_failed := sb_failed (bs_subs b ! i) + (if ok then 0 else 1), sb_processed := sb_processed (bs_subs b ! i) + 1 \<rparr>"
  have b': "b' = b\<lparr> bs_subs := (bs_subs b)[i := sub], bs_calls := bs_calls b @ [(t, i, ok)],
      bs_trackers := (bs_trackers b)[t := tr] \<rparr>"
    and w': "w' = (if tk_remaining tr \<noteq> 0 then w
      else finalize f (tk_eventID tr) (if tk_anyFailed tr then DispatchFailed else DispatchDone) w)"
    using run i cur by (auto simp: consume_def report_tracker_def Let_def tr_def sub_def)
  have fin: "finite (owed L t)"
    using inv t finite_subset [of "owed L t" "{..< length (bs_subs b)}"] by (auto simp: bus_inv_def tracked_def owed_def)
  have tk: "tk_eventID tr = fst (lg_asked L ! t)" "tk_remaining tr = int (card (owed L' t))"
    "tk_anyFailed tr = refused L' t"
    using inv t fin o card_Suc_Diff1 [OF fin o]
    by (auto simp: tr_def bus_inv_def tracked_def L'_def owed_answer)
  then show "w' = (case verdict L' t of None \<Rightarrow> w | Some v \<Rightarrow> finalize f (fst (lg_asked L ! t)) v w)"
    using fin by (auto simp: w' verdict_def L'_def owed_answer)
  show "matched b' = matched b"
    by (rule matched_cong) (simp add: b' map_update sub_def list_update_same_conv i)
  show "bs_recover b' = bs_recover b" by (simp add: b')
  have carried: "carried b' k = (if k = i then carried b k - {#t#} else carried b k)" if "k < length (bs_subs b)" for k
    using that i cur by (auto simp: carried_def b' held_def sub_def nth_list_update)
  have "tracked b' L'"
    using inv tk t unfolding tracked_def b' bus_inv_def
    by (auto simp: nth_list_update L'_def owed_answer answers_known_def)
  moreover have "delivering c b' L'"
    unfolding delivering_def
  proof (intro allI impI)
    fix k u
    assume k: "k < length (bs_subs b')"
    have kb: "k < length (bs_subs b)" using k by (simp add: b')
    note old = deliveringD [OF inv kb, of u]
    show "count (carried b' k) u \<le> 1 \<and> (u \<in># carried b' k \<longrightarrow> u < length (lg_asked L') \<and> k \<in> owed L' u) \<and>
      (c \<longrightarrow> u < length (lg_asked L') \<longrightarrow> k \<in> owed L' u \<longrightarrow> u \<in># carried b' k)"
    proof (cases "k = i \<and> u = t")
      case True
      then have "count (carried b' k) u = 0" using conjunct1 [OF old] carried [OF kb] by simp
      then have "count (carried b' k) u \<le> 1 \<and> u \<notin># carried b' k"
        by (simp add: count_eq_zero_iff [symmetric] del: count_eq_zero_iff)
      moreover have "k \<notin> owed L' u" using True by (simp add: L'_def owed_answer)
      ultimately show ?thesis by blast
    next
      case False
      then have c: "count (carried b' k) u = count (carried b k) u" using carried [OF kb] by auto
      then have "u \<in># carried b' k \<longleftrightarrow> u \<in># carried b k" by (metis count_greater_zero_iff)
      moreover have "k \<in> owed L' u \<longleftrightarrow> k \<in> owed L u" using False by (auto simp: L'_def owed_answer)
      moreover have "lg_asked L' = lg_asked L" by (simp add: L'_def)
      ultimately show ?thesis
        by - (rule slot_transfer [OF old], simp only: c, blast, simp only:, blast, blast)
    qed
  qed
  moreover have "\<forall>fl \<in> set (bs_flight b'). flight_ok b' fl"
    using inv by (auto simp: b' bus_inv_def flight_ok_def)
  ultimately show "bus_inv c b' L'" by (simp add: bus_inv_def)
qed


section \<open>The rows\<close>

text \<open>Rows keep kind and activity, which is all a matcher looks at; \<^verbatim>\<open>I0\<close> is what the rows said at first.\<close>

definition same_topic :: "Event \<Rightarrow> Event \<Rightarrow> bool" where
  "same_topic e e' \<longleftrightarrow> ev_ID e = ev_ID e' \<and> ev_Kind e = ev_Kind e' \<and> ev_ActivityType e = ev_ActivityType e'"

definition present :: "Event \<Rightarrow> World \<Rightarrow> bool" where
  "present e w \<longleftrightarrow> (\<exists>row \<in> set (w_events w). same_topic row e)"

definition row_ok :: "(Event \<Rightarrow> nat list) \<Rightarrow> Ledger \<Rightarrow> (string \<times> DispatchState) set \<Rightarrow> Event \<Rightarrow> bool" where
  "row_ok ms L I0 row \<longleftrightarrow> (ev_ID row, ev_DispatchState row) \<in> I0 \<or> ev_DispatchState row = DispatchPending \<or>
     ms row = [] \<and> ev_DispatchState row = DispatchDone \<or>
     (\<exists>t < length (lg_asked L). fst (lg_asked L ! t) = ev_ID row \<and> asked L t = set (ms row) \<and>
        verdict L t = Some (ev_DispatchState row))"

definition rows_inv :: "(Event \<Rightarrow> nat list) \<Rightarrow> Ledger \<Rightarrow> (string \<times> DispatchState) set \<Rightarrow> World \<Rightarrow> bool" where
  "rows_inv ms L I0 w \<longleftrightarrow> distinct (map ev_ID (w_events w)) \<and>
     (\<forall>t < length (lg_asked L). \<exists>row \<in> set (w_events w). ev_ID row = fst (lg_asked L ! t) \<and> asked L t = set (ms row)) \<and>
     (\<forall>row \<in> set (w_events w). row_ok ms L I0 row)"

definition sys_inv :: "bool \<Rightarrow> (string \<times> DispatchState) set \<Rightarrow> BusSys \<Rightarrow> Ledger \<Rightarrow> bool" where
  "sys_inv c I0 s L \<longleftrightarrow> bus_inv c (fst s) L \<and> rows_inv (matched (fst s)) L I0 (snd s) \<and>
     (\<forall>e \<in> set (bs_recover (fst s)). present e (snd s))"

lemma matched_state [simp]: "matched b (row\<lparr> ev_DispatchState := st \<rparr>) = matched b row"
  by (rule matched_topic) simp_all

lemma row_ok_step:
  assumes "ledger_step L L'" and "row_ok ms L I0 row"
  shows "row_ok ms L' I0 row"
proof -
  have "t < length (lg_asked L')" "lg_asked L' ! t = lg_asked L ! t" "asked L' t = asked L t"
    if "t < length (lg_asked L)" for t
    using assms(1) that by (cases rule: ledger_step.cases; simp add: nth_append)+
  then show ?thesis using assms(2) verdict_final [OF assms(1)] unfolding row_ok_def by metis
qed

lemma rows_answer:
  "rows_inv ms L I0 w \<Longrightarrow> t < length (lg_asked L) \<Longrightarrow> i \<in> owed L t \<Longrightarrow>
   rows_inv ms (L\<lparr> lg_answers := lg_answers L @ [(t, i, ok)] \<rparr>) I0 w"
  using row_ok_step [OF ledger_step.answer] by (simp add: rows_inv_def)

lemma rows_ask:
  assumes "rows_inv (matched b) L I0 w" and "present e w" and "matched b e \<noteq> []"
  shows "rows_inv (matched b) (L\<lparr> lg_asked := lg_asked L @ [(ev_ID e, set (matched b e))] \<rparr>) I0 w"
proof -
  let ?L = "L\<lparr> lg_asked := lg_asked L @ [(ev_ID e, set (matched b e))] \<rparr>"
  obtain row where row: "row \<in> set (w_events w)" "ev_ID row = ev_ID e" "matched b row = matched b e"
  proof -
    obtain row where r: "row \<in> set (w_events w)" "same_topic row e" using assms(2) by (auto simp: present_def)
    then have "matched b row = matched b e" by (intro matched_topic) (simp_all add: same_topic_def)
    with r show ?thesis using that by (simp add: same_topic_def)
  qed
  have step: "ledger_step L ?L" using assms(3) by (intro ledger_step.ask) auto
  have "\<exists>row \<in> set (w_events w). ev_ID row = fst (lg_asked ?L ! t) \<and> asked ?L t = set (matched b row)"
    if t: "t < Suc (length (lg_asked L))" for t
  proof (cases "t = length (lg_asked L)")
    case True
    then show ?thesis using row by (intro bexI [of _ row]) (simp_all add: asked_def nth_append)
  next
    case False
    then have "t < length (lg_asked L)" using t by simp
    then show ?thesis using assms(1) by (simp add: rows_inv_def nth_append)
  qed
  moreover have "row_ok (matched b) ?L I0 r" if "r \<in> set (w_events w)" for r
    using that assms(1) row_ok_step [OF step] by (simp add: rows_inv_def)
  ultimately show ?thesis using assms(1) by (simp add: rows_inv_def)
qed

text \<open>Writing an outcome that is right for the row it addresses.\<close>

lemma finalize_events:
  "w_events (finalize f eid st w) = w_events w \<or>
   w_events (finalize f eid st w) = update_where (\<lambda>e. ev_ID e = eid) (ev_DispatchState_update (\<lambda>_. st)) (w_events w)"
  by (simp add: finalize_def Events_SetDispatchState_def exec_one_def split: option.splits)

lemma finalize_present: "present e w \<Longrightarrow> present e (finalize f eid st w)"
proof -
  assume "present e w"
  then obtain row where row: "row \<in> set (w_events w)" "same_topic row e" by (auto simp: present_def)
  let ?r = "if ev_ID row = eid then ev_DispatchState_update (\<lambda>_. st) row else row"
  have "row \<in> set (w_events (finalize f eid st w)) \<or> ?r \<in> set (w_events (finalize f eid st w))"
    using finalize_events [of f eid st w] row(1) by (auto simp: set_update_where)
  moreover have "same_topic ?r e" using row(2) by (simp add: same_topic_def)
  ultimately show "present e (finalize f eid st w)" using row(2) by (auto simp: present_def)
qed

lemma finalize_rows:
  assumes inv: "rows_inv (matched b) L I0 w"
    and ok: "\<And>row. row \<in> set (w_events w) \<Longrightarrow> ev_ID row = eid \<Longrightarrow>
      row_ok (matched b) L I0 (row\<lparr> ev_DispatchState := st \<rparr>)"
  shows "rows_inv (matched b) L I0 (finalize f eid st w)"
  using finalize_events [of f eid st w]
proof
  assume "w_events (finalize f eid st w) = w_events w"
  then show ?thesis using inv by (simp add: rows_inv_def)
next
  let ?upd = "\<lambda>e. if ev_ID e = eid then ev_DispatchState_update (\<lambda>_. st) e else e"
  assume "w_events (finalize f eid st w) = update_where (\<lambda>e. ev_ID e = eid) (ev_DispatchState_update (\<lambda>_. st)) (w_events w)"
  then have ev: "w_events (finalize f eid st w) = map ?upd (w_events w)" by (simp add: update_where_def)
  have m: "matched b (?upd row) = matched b row" for row by simp
  have "map ev_ID (map ?upd (w_events w)) = map ev_ID (w_events w)" by simp
  then have "distinct (map ev_ID (map ?upd (w_events w)))" using inv by (simp only: rows_inv_def)
  moreover have "\<exists>row \<in> set (map ?upd (w_events w)). ev_ID row = fst (lg_asked L ! t) \<and> asked L t = set (matched b row)"
    if t: "t < length (lg_asked L)" for t
  proof -
    obtain row where "row \<in> set (w_events w)" "ev_ID row = fst (lg_asked L ! t)" "asked L t = set (matched b row)"
      using inv t by (auto simp: rows_inv_def)
    then show ?thesis by (intro bexI [of _ "?upd row"]) auto
  qed
  moreover have "row_ok (matched b) L I0 (?upd row)" if "row \<in> set (w_events w)" for row
    using that inv ok by (auto simp: rows_inv_def)
  ultimately show ?thesis unfolding rows_inv_def ev by (intro conjI allI impI ballI) (blast, blast, fastforce)
qed

lemma unique_row:
  "rows_inv ms L I0 w \<Longrightarrow> row \<in> set (w_events w) \<Longrightarrow> row' \<in> set (w_events w) \<Longrightarrow> ev_ID row = ev_ID row' \<Longrightarrow> row = row'"
  by (auto simp: rows_inv_def distinct_map inj_on_def)

section \<open>Every step of the bus\<close>

abbreviation ledger_may :: "Ledger \<Rightarrow> Ledger \<Rightarrow> bool" where
  "ledger_may \<equiv> ledger_step\<^sup>=\<^sup>="

lemma sys_quiet:
  assumes "sys_inv c I0 (b, w) L" and "bus_inv c' b' L" and "matched b' = matched b"
    and "set (bs_recover b') \<subseteq> set (bs_recover b)"
  shows "sys_inv c' I0 (b', w) L"
  using assms by (auto simp: sys_inv_def)

lemma dispatch_sys:
  assumes inv: "sys_inv c I0 (b, w) L" and here: "present e w"
    and d: "dispatch f e (b, w) = (r, s')"
  shows "\<exists>L'. ledger_may L L' \<and> sys_inv c I0 s' L' \<and> bs_recover (fst s') = bs_recover b"
proof -
  have rows: "rows_inv (matched b) L I0 w" and bi: "bus_inv c b L" using inv by (auto simp: sys_inv_def)
  consider "bs_stopped b" | "\<not> bs_stopped b" "matched b e = []" | "\<not> bs_stopped b" "matched b e \<noteq> []" by blast
  then show ?thesis
  proof cases
    case 1
    then have "s' = (b, w)" using d by (simp add: dispatch_def)
    then show ?thesis using inv by auto
  next
    case 2
    then have s': "s' = (b, finalize f (ev_ID e) DispatchDone w)" using d by (simp add: dispatch_def)
    obtain row0 where r0: "row0 \<in> set (w_events w)" "same_topic row0 e" using here by (auto simp: present_def)
    have "matched b row0 = []" using r0(2) 2(2) matched_topic [of row0 e b] by (simp add: same_topic_def)
    then have "row_ok (matched b) L I0 (row\<lparr> ev_DispatchState := DispatchDone \<rparr>)"
      if "row \<in> set (w_events w)" "ev_ID row = ev_ID e" for row
      using unique_row [OF rows that(1) r0(1)] that(2) r0(2) by (simp add: row_ok_def same_topic_def)
    then have "rows_inv (matched b) L I0 (finalize f (ev_ID e) DispatchDone w)" by (rule finalize_rows [OF rows])
    then show ?thesis using inv finalize_present by (auto simp: s' sys_inv_def)
  next
    case 3
    obtain b' w' where s': "s' = (b', w')" by (cases s')
    note step = dispatch_inv [OF bi 3 d [unfolded s']]
    have "ledger_step L (L\<lparr> lg_asked := lg_asked L @ [(ev_ID e, set (matched b e))] \<rparr>)"
      using 3(2) by (intro ledger_step.ask) auto
    moreover have "sys_inv c I0 s' (L\<lparr> lg_asked := lg_asked L @ [(ev_ID e, set (matched b e))] \<rparr>)"
      using step inv rows_ask [OF rows here 3(2)] by (simp add: s' sys_inv_def)
    ultimately show ?thesis using step s' by auto
  qed
qed

lemma insert_rows:
  assumes "Events_Insert f e w = (Inr u, w')" and "rows_inv ms L I0 w" and "ev_DispatchState e = DispatchPending"
  shows "rows_inv ms L I0 w'" and "present e w'" and "present x w \<Longrightarrow> present x w'"
proof -
  obtain row where w': "w_events w' = w_events w @ [row]" and row: "same_topic row e" "ev_DispatchState row = DispatchPending"
    and fresh: "\<forall>x \<in> set (w_events w). ev_ID x \<noteq> ev_ID e"
    using assms(1,3) by (auto simp: Events_Insert_def exec_def list_ex_iff same_topic_def split: if_splits option.splits)
  have "ev_ID row \<notin> ev_ID ` set (w_events w)" using row(1) fresh by (auto simp: same_topic_def)
  then show "rows_inv ms L I0 w'"
    using assms(2) row(2) by (auto simp: rows_inv_def w' row_ok_def)
  show "present e w'" "present x w \<Longrightarrow> present x w'" using row(1) by (auto simp: present_def w')
qed

lemma publish_sys:
  assumes inv: "sys_inv c I0 s L"
  shows "\<exists>L'. ledger_may L L' \<and> sys_inv c I0 (snd (Publish f newid now e0 s)) L'"
proof -
  obtain b w where s: "s = (b, w)" by (cases s)
  define e where "e = published_row e0 newid now"
  obtain r w' where ins: "Events_Insert f e w = (r, w')" by (cases "Events_Insert f e w")
  show ?thesis
  proof (cases "ev_DedupeKey e0 = '''' \<or> (\<exists>err. r = Inl err)")
    case True
    have "w' = w" if "r = Inl err" for err
      using ins that by (auto simp: Events_Insert_def exec_def split: if_splits option.splits)
    then have "snd (Publish f newid now e0 s) = s"
      using True ins by (auto simp: Publish_def s Let_def e_def [symmetric] split: store_err.split sum.split)
    then show ?thesis using inv by auto
  next
    case False
    then obtain u where u: "r = Inr u" by (cases r) auto
    have pub: "snd (Publish f newid now e0 s) = snd (dispatch f e (b, w'))"
      using False ins u by (simp add: Publish_def s Let_def e_def [symmetric])
    have pend: "ev_DispatchState e = DispatchPending" by (simp add: e_def published_row_def)
    have "sys_inv c I0 (b, w') L"
      using inv insert_rows [OF ins [unfolded u] _ pend] by (auto simp: sys_inv_def s)
    moreover have "present e w'"
      using inv insert_rows(2) [OF ins [unfolded u] _ pend] by (auto simp: sys_inv_def s)
    ultimately show ?thesis
      using dispatch_sys [of c I0 b w' L e f] by (metis pub prod.collapse)
  qed
qed

lemma consume_sys:
  assumes inv: "sys_inv c I0 s L"
  shows "\<exists>L'. ledger_may L L' \<and> sys_inv c I0 (consume f i ok s) L'"
proof -
  obtain b w where s: "s = (b, w)" by (cases s)
  show ?thesis
  proof (cases "i < length (bs_subs b) \<and> sb_current (bs_subs b ! i) \<noteq> None")
    case False
    then have "consume f i ok s = s" by (auto simp: consume_def s split: option.splits)
    then show ?thesis using inv by auto
  next
    case True
    then obtain e t where cur: "sb_current (bs_subs b ! i) = Some (e, t)" and i: "i < length (bs_subs b)" by auto
    obtain b' w' where c: "consume f i ok (b, w) = (b', w')" by (cases "consume f i ok (b, w)")
    have bi: "bus_inv c b L" and rows: "rows_inv (matched b) L I0 w" using inv by (auto simp: sys_inv_def s)
    note step = consume_inv [OF bi i cur c]
    define L' where "L' = L\<lparr> lg_answers := lg_answers L @ [(t, i, ok)] \<rparr>"
    have rows': "rows_inv (matched b) L' I0 w" unfolding L'_def by (rule rows_answer [OF rows step(1,2)])
    have asked: "lg_asked L' = lg_asked L" "asked L' = asked L" by (simp_all add: L'_def asked_def fun_eq_iff)
    obtain row0 where r0: "row0 \<in> set (w_events w)" "ev_ID row0 = fst (lg_asked L ! t)" "asked L t = set (matched b row0)"
      using rows step(1) by (auto simp: rows_inv_def)
    have "row_ok (matched b) L' I0 (row\<lparr> ev_DispatchState := v \<rparr>)"
      if v: "verdict L' t = Some v" and row: "row \<in> set (w_events w)" "ev_ID row = fst (lg_asked L ! t)" for v row
      using unique_row [OF rows row(1) r0(1)] r0(2,3) row(2) v step(1) asked by (auto simp: row_ok_def)
    then have "rows_inv (matched b) L' I0 w'"
      using rows' finalize_rows [OF rows'] unfolding step(6) L'_def [symmetric] by (simp split: option.split)
    moreover have "present x w \<Longrightarrow> present x w'" for x
      using step(6) finalize_present by (auto split: option.splits)
    ultimately have "sys_inv c I0 (b', w') L'"
      using inv step(3-5) by (auto simp: sys_inv_def s L'_def)
    moreover have "ledger_step L L'" unfolding L'_def by (rule ledger_step.answer [OF step(1,2)])
    ultimately show ?thesis using c s by auto
  qed
qed

lemma start_sys: "sys_inv c I0 s L \<Longrightarrow> sys_inv c I0 (Start f s) L"
proof -
  assume inv: "sys_inv c I0 s L"
  obtain b w where s: "s = (b, w)" by (cases s)
  have keep: "bus_inv c (b\<lparr> bs_started := True \<rparr>) L" "bus_inv c (b\<lparr> bs_started := True, bs_recover := es \<rparr>) L" for es
    using inv by (auto simp: sys_inv_def s bus_inv_def tracked_def delivering_def carried_def flight_ok_def)
  have m: "matched (b\<lparr> bs_started := True \<rparr>) = matched b"
    "matched (b\<lparr> bs_started := True, bs_recover := es \<rparr>) = matched b" for es
    by (rule matched_cong, simp)+
  have "present e w" if "Events_ListPending f w = Inr es" "e \<in> set es" for es e
    using that by (auto simp: Events_ListPending_def present_def same_topic_def)
  then show ?thesis
    using inv keep m by (auto simp: Start_def s sys_inv_def split: sum.splits)
qed

lemma recover_sys:
  assumes inv: "sys_inv c I0 s L"
  shows "\<exists>L'. ledger_may L L' \<and> sys_inv c I0 (recover_one f s) L'"
proof -
  obtain b w where s: "s = (b, w)" by (cases s)
  show ?thesis
  proof (cases "list_ex (\<lambda>fl. bs_waits b = Some (snd (fl_item fl))) (bs_flight b) \<or> bs_recover b = []")
    case True
    then have "recover_one f s = s" by (auto simp: recover_one_def s split: list.splits)
    then show ?thesis using inv by auto
  next
    case False
    then obtain e es where rec: "bs_recover b = e # es" by (auto simp: neq_Nil_conv)
    define b1 where "b1 = b\<lparr> bs_recover := es, bs_waits := Some (length (bs_trackers b)) \<rparr>"
    have "matched b1 = matched b" by (rule matched_cong) (simp add: b1_def)
    moreover have "bus_inv c b1 L"
      using inv by (auto simp: sys_inv_def s bus_inv_def tracked_def delivering_def carried_def flight_ok_def b1_def)
    ultimately have "sys_inv c I0 (b1, w) L"
      using inv rec by (intro sys_quiet [OF inv [unfolded s]]) (auto simp: b1_def)
    moreover have "present e w" using inv rec by (auto simp: sys_inv_def s)
    moreover obtain r b' w' where d: "dispatch f e (b1, w) = (r, (b', w'))" by (metis prod_cases3)
    ultimately obtain L' where L': "ledger_may L L'" "sys_inv c I0 (b', w') L'" using dispatch_sys by fastforce
    have "matched (b'\<lparr> bs_recover := [] \<rparr>) = matched b'" by (rule matched_cong) simp
    moreover have "bus_inv c (b'\<lparr> bs_recover := [] \<rparr>) L'"
      using L'(2) by (auto simp: sys_inv_def bus_inv_def tracked_def delivering_def carried_def flight_ok_def)
    ultimately have "sys_inv c I0 (b'\<lparr> bs_recover := [] \<rparr>, w') L'"
      by (intro sys_quiet [OF L'(2)]) simp_all
    moreover have "recover_one f s = (if r = PubStopped then (b'\<lparr> bs_recover := [] \<rparr>, w') else (b', w'))"
      using False rec d by (cases r) (simp_all add: recover_one_def s b1_def)
    ultimately show ?thesis using L' by auto
  qed
qed

text \<open>Only giving up loses an item; every other operation keeps \<^verbatim>\<open>c\<close>.\<close>

definition keeps :: "bus_op \<Rightarrow> bool" where
  "keeps op = (case op of OpGiveUp _ \<Rightarrow> False | _ \<Rightarrow> True)"

lemma sys_weaken: "sys_inv c I0 s L \<Longrightarrow> sys_inv False I0 s L"
  using bus_inv_weaken by (auto simp: sys_inv_def)

lemma bus_do_sim:
  assumes inv: "sys_inv c I0 s L"
  shows "\<exists>L'. ledger_may L L' \<and> sys_inv (c \<and> keeps op) I0 (bus_do f op s) L'"
proof -
  obtain b w where s: "s = (b, w)" by (cases s)
  have bi: "bus_inv c b L" using inv by (simp add: sys_inv_def s)
  show ?thesis
  proof (cases op)
    case (OpPublish newid now e)
    then show ?thesis using publish_sys [OF inv] by (simp add: keeps_def)
  next
    case (OpUnblock n)
    have "map sb_matcher (bs_subs (unblock n b)) = map sb_matcher (bs_subs b) \<and> bs_recover (unblock n b) = bs_recover b"
      by (simp add: unblock_def Let_def split: list.split)
    then have "matched (unblock n b) = matched b" "set (bs_recover (unblock n b)) \<subseteq> set (bs_recover b)"
      using matched_cong [of "unblock n b" b] by simp_all
    then have "sys_inv c I0 (unblock n b, w) L" using sys_quiet [OF inv [unfolded s] unblock_inv [OF bi]] by blast
    then show ?thesis using OpUnblock s by (auto simp: keeps_def)
  next
    case (OpGiveUp n)
    have "matched (give_up n b) = matched b" "set (bs_recover (give_up n b)) \<subseteq> set (bs_recover b)"
      by (rule matched_cong, auto simp: give_up_def Let_def)
    then have "sys_inv False I0 (give_up n b, w) L"
      using sys_quiet [OF inv [unfolded s] give_up_inv [OF bus_inv_weaken [OF bi]]] by blast
    then show ?thesis using OpGiveUp s by (auto simp: keeps_def)
  next
    case (OpTake i)
    have "matched (take_item i b) = matched b"
      by (rule matched_cong, auto simp: take_item_def map_update list_update_same_conv split: option.splits list.splits)
    moreover have "set (bs_recover (take_item i b)) \<subseteq> set (bs_recover b)"
      by (auto simp: take_item_def split: option.splits list.splits if_splits)
    ultimately have "sys_inv c I0 (take_item i b, w) L" using sys_quiet [OF inv [unfolded s] take_item_inv [OF bi]] by blast
    then show ?thesis using OpTake s by (auto simp: keeps_def)
  next
    case (OpConsume i ok)
    then show ?thesis using consume_sys [OF inv] by (simp add: keeps_def)
  next
    case OpStart
    then show ?thesis using start_sys [OF inv] by (auto simp: keeps_def)
  next
    case OpRecover
    then show ?thesis using recover_sys [OF inv] by (simp add: keeps_def)
  next
    case OpStop
    have "matched (StopBus b) = matched b" by (rule matched_cong) (simp add: StopBus_def)
    moreover have "bus_inv c (StopBus b) L"
      using bi by (auto simp: StopBus_def bus_inv_def tracked_def delivering_def carried_def flight_ok_def)
    ultimately have "sys_inv c I0 (StopBus b, w) L"
      using sys_quiet [OF inv [unfolded s]] by (simp add: StopBus_def)
    then show ?thesis using OpStop s by (auto simp: keeps_def)
  qed
qed

lemma bus_run_sim:
  "sys_inv c I0 s L \<Longrightarrow> \<exists>L'. ledger_step\<^sup>*\<^sup>* L L' \<and> sys_inv (c \<and> list_all keeps ops) I0 (bus_run f ops s) L'"
proof (induction ops arbitrary: c s L)
  case Nil
  then show ?case by (auto simp: bus_run_def)
next
  case (Cons op ops)
  obtain L1 where 1: "ledger_may L L1" "sys_inv (c \<and> keeps op) I0 (bus_do f op s) L1"
    using bus_do_sim [OF Cons.prems] by blast
  obtain L2 where 2: "ledger_step\<^sup>*\<^sup>* L1 L2" "sys_inv ((c \<and> keeps op) \<and> list_all keeps ops) I0 (bus_run f ops (bus_do f op s)) L2"
    using Cons.IH [OF 1(2)] by blast
  have "ledger_step\<^sup>*\<^sup>* L L2" using 1(1) 2(1) by (auto intro: converse_rtranclp_into_rtranclp)
  then show ?case using 2(2) by (auto simp: bus_run_def conj_assoc)
qed


section \<open>Refinement\<close>

text \<open>A bus whose subscriptions are registered and that has not dispatched anything yet.\<close>

definition fresh_bus :: "Bus \<Rightarrow> bool" where
  "fresh_bus b \<longleftrightarrow> bs_trackers b = [] \<and> bs_flight b = [] \<and> bs_recover b = [] \<and> bs_calls b = [] \<and>
     list_all (\<lambda>s. sb_queue s = [] \<and> sb_current s = None) (bs_subs b)"

definition states_of :: "World \<Rightarrow> (string \<times> DispatchState) set" where
  "states_of w = (\<lambda>e. (ev_ID e, ev_DispatchState e)) ` set (w_events w)"

lemma fresh_inv:
  assumes "fresh_bus b" and "distinct (map ev_ID (w_events w))"
  shows "sys_inv True (states_of w) (b, w) empty_ledger"
proof -
  have "carried b i = {#}" if "i < length (bs_subs b)" for i
    using assms(1) that by (auto simp: fresh_bus_def carried_def held_def list_all_length)
  then have "bus_inv True b empty_ledger"
    using assms(1) by (auto simp: bus_inv_def tracked_def delivering_def answers_known_def empty_ledger_def fresh_bus_def)
  moreover have "rows_inv (matched b) empty_ledger (states_of w) w"
    using assms(2) by (auto simp: rows_inv_def empty_ledger_def row_ok_def states_of_def)
  ultimately show ?thesis using assms(1) by (simp add: sys_inv_def fresh_bus_def)
qed

lemma fresh_run:
  assumes "fresh_bus b0" and "distinct (map ev_ID (w_events w0))" and "bus_run f ops (b0, w0) = (b, w)"
  obtains L where "ledger_step\<^sup>*\<^sup>* empty_ledger L" and "sys_inv (list_all keeps ops) (states_of w0) (b, w) L"
  using bus_run_sim [OF fresh_inv [OF assms(1,2)], of ops f] assms(3) by auto

text \<open>
  C5. The bus refines the ledger. Whatever the interleaving of publishers, consumers, recovery and stop,
  some run of the ledger explains it: the handler calls are its answers, each tracker counts what its
  event is still owed and whether anybody refused, and every dispatch state the bus wrote is the ledger's
  verdict, or the vacuous \<^verbatim>\<open>done\<close> of an event nobody subscribes to.
\<close>

theorem bus_refines_ledger:
  assumes "fresh_bus b0" and "distinct (map ev_ID (w_events w0))" and "bus_run f ops (b0, w0) = (b, w)"
  shows "\<exists>L. ledger_step\<^sup>*\<^sup>* empty_ledger L \<and> bs_calls b = lg_answers L \<and>
    length (bs_trackers b) = length (lg_asked L) \<and>
    (\<forall>t < length (bs_trackers b). tk_eventID (bs_trackers b ! t) = fst (lg_asked L ! t) \<and>
       tk_remaining (bs_trackers b ! t) = int (card (owed L t)) \<and> tk_anyFailed (bs_trackers b ! t) = refused L t) \<and>
    (\<forall>row \<in> set (w_events w). (ev_ID row, ev_DispatchState row) \<in> states_of w0 \<or> ev_DispatchState row = DispatchPending \<or>
       matched b row = [] \<and> ev_DispatchState row = DispatchDone \<or>
       (\<exists>t < length (lg_asked L). fst (lg_asked L ! t) = ev_ID row \<and> asked L t = set (matched b row) \<and>
          verdict L t = Some (ev_DispatchState row)))"
proof -
  obtain L where L: "ledger_step\<^sup>*\<^sup>* empty_ledger L" "sys_inv (list_all keeps ops) (states_of w0) (b, w) L"
    by (rule fresh_run [OF assms])
  then show ?thesis
    by (intro exI [of _ L]) (simp add: sys_inv_def bus_inv_def tracked_def rows_inv_def row_ok_def)
qed

text \<open>
  C6. Never a false \<^verbatim>\<open>done\<close>: a row the bus turned to \<^verbatim>\<open>done\<close> belongs to an event every subscription
  that matches it has acked, its handler having returned nil for that event.
\<close>

theorem never_false_done:
  assumes "fresh_bus b0" and "distinct (map ev_ID (w_events w0))" and "bus_run f ops (b0, w0) = (b, w)"
    and "row \<in> set (w_events w)" and "ev_DispatchState row = DispatchDone"
    and "(ev_ID row, DispatchDone) \<notin> states_of w0" and "i \<in> set (matched b row)"
  shows "\<exists>t < length (bs_trackers b). tk_eventID (bs_trackers b ! t) = ev_ID row \<and> (t, i, True) \<in> set (bs_calls b)"
proof -
  obtain L where L: "sys_inv (list_all keeps ops) (states_of w0) (b, w) L" by (rule fresh_run [OF assms(1-3)])
  then have "row_ok (matched b) L (states_of w0) row" using assms(4) by (simp add: sys_inv_def rows_inv_def)
  then obtain t where "t < length (lg_asked L)" "fst (lg_asked L ! t) = ev_ID row" "asked L t = set (matched b row)"
    "verdict L t = Some DispatchDone"
    using assms(5-7) by (auto simp: row_ok_def)
  moreover have "(t, i, True) \<in> set (lg_answers L)" using calculation assms(7) by (intro verdict_done) simp_all
  ultimately show ?thesis using L by (auto simp: sys_inv_def bus_inv_def tracked_def)
qed

text \<open>
  C7. Nothing is dropped: as long as no publisher gave up, a subscription that was asked for an event
  and has not answered still has it in hand, in its queue, or with the publisher that waits for room.
\<close>

theorem nothing_dropped:
  assumes "fresh_bus b0" and "distinct (map ev_ID (w_events w0))" and "bus_run f ops (b0, w0) = (b, w)"
    and "list_all keeps ops" and "t < length (bs_trackers b)" and "row \<in> set (w_events w)"
    and "ev_ID row = tk_eventID (bs_trackers b ! t)" and "i \<in> set (matched b row)"
    and "\<forall>ok. (t, i, ok) \<notin> set (bs_calls b)"
  shows "t \<in># held (bs_subs b ! i) \<or> (\<exists>fl \<in> set (bs_flight b). i \<in> set (fl_full fl) \<and> snd (fl_item fl) = t)"
proof -
  obtain L where L: "sys_inv (list_all keeps ops) (states_of w0) (b, w) L" by (rule fresh_run [OF assms(1-3)])
  then have bi: "bus_inv True b L" and rows: "rows_inv (matched b) L (states_of w0) w"
    using assms(4) by (simp_all add: sys_inv_def)
  have t: "t < length (lg_asked L)" "fst (lg_asked L ! t) = tk_eventID (bs_trackers b ! t)"
    using bi assms(5) by (auto simp: bus_inv_def tracked_def)
  obtain r0 where r0: "r0 \<in> set (w_events w)" "ev_ID r0 = fst (lg_asked L ! t)" "asked L t = set (matched b r0)"
    using rows t(1) by (auto simp: rows_inv_def)
  have "row = r0" using unique_row [OF rows assms(6) r0(1)] assms(7) r0(2) t(2) by simp
  then have "i \<in> owed L t" using r0(3) assms(8,9) bi by (simp add: owed_def bus_inv_def tracked_def)
  then have "t \<in># carried b i" using deliveringD [OF bi matched_facts(2) [OF assms(8)], of t] t(1) by blast
  moreover have "\<exists>fl \<in> set fs. i \<in> set (fl_full fl) \<and> snd (fl_item fl) = t"
    if "t \<in># sum_list (map (waits i) fs)" for fs
    using that by (induction fs) (auto simp: waits_def split: if_splits)
  ultimately show ?thesis by (auto simp: carried_def)
qed

text \<open>A run with a full queue, a failing handler, a redelivered key and a stop.\<close>

definition demo_bus :: Bus where
  "demo_bus = snd (SubscribeTopic ''sse'' ''*.created'' True (snd (SubscribeKind ''engine'' ''ticket'' True
     (New 1 ''2026-01-01T00:00:00.000Z''))))"

definition demo_event :: "string \<Rightarrow> Event" where
  "demo_event k = blank_Event\<lparr> ev_Kind := ''ticket'', ev_ActivityType := ''created'', ev_DedupeKey := k \<rparr>"

definition demo_ops :: "bus_op list" where
  "demo_ops = [OpPublish ''e1'' ''2026-01-02T00:00:00.000Z'' (demo_event ''k1''),
     OpPublish ''e2'' ''2026-01-02T00:00:00.000Z'' (demo_event ''k2''),
     OpPublish ''e3'' ''2026-01-02T00:00:00.000Z'' (demo_event ''k1''),
     OpTake 0, OpTake 1, OpUnblock 0, OpConsume 0 True, OpConsume 1 True, OpUnblock 0, OpTake 0, OpConsume 0 False]"

lemma demo_bus_fresh: "fresh_bus demo_bus" "distinct (map ev_ID (w_events blank_World))" "list_all keeps demo_ops"
  by code_simp+

theorem bus_refines_ledger_witness:
  "let (b, w) = bus_run no_faults demo_ops (demo_bus, blank_World) in
     map ev_DispatchState (w_events w) = [DispatchDone, DispatchPending] \<and> map tk_remaining (bs_trackers b) = [0, 1] \<and>
     (\<exists>L. ledger_step\<^sup>*\<^sup>* empty_ledger L \<and> bs_calls b = lg_answers L)"
proof -
  let ?r = "bus_run no_faults demo_ops (demo_bus, blank_World)"
  have "\<exists>L. ledger_step\<^sup>*\<^sup>* empty_ledger L \<and> bs_calls (fst ?r) = lg_answers L"
    using bus_refines_ledger [OF demo_bus_fresh(1,2), of no_faults demo_ops "fst ?r" "snd ?r"] by auto
  moreover have "map ev_DispatchState (w_events (snd ?r)) = [DispatchDone, DispatchPending]" by code_simp
  moreover have "map tk_remaining (bs_trackers (fst ?r)) = [0, 1]" by code_simp
  ultimately show ?thesis by (simp add: case_prod_beta)
qed

theorem never_false_done_witness:
  "let (b, w) = bus_run no_faults demo_ops (demo_bus, blank_World) in
     \<exists>t < length (bs_trackers b). tk_eventID (bs_trackers b ! t) = ''e1'' \<and> (t, 1, True) \<in> set (bs_calls b)"
proof -
  let ?r = "bus_run no_faults demo_ops (demo_bus, blank_World)"
  let ?row = "w_events (snd ?r) ! 0"
  have facts: "?row \<in> set (w_events (snd ?r))" "ev_DispatchState ?row = DispatchDone"
    "(ev_ID ?row, DispatchDone) \<notin> states_of blank_World" "1 \<in> set (matched (fst ?r) ?row)" "ev_ID ?row = ''e1''"
    by code_simp+
  show ?thesis
    using never_false_done [OF demo_bus_fresh(1,2) prod.collapse [symmetric] facts(1-4)] facts(5)
    by (simp add: case_prod_beta)
qed

theorem nothing_dropped_witness:
  "let (b, w) = bus_run no_faults demo_ops (demo_bus, blank_World) in
     1 \<in># held (bs_subs b ! 1) \<or> (\<exists>fl \<in> set (bs_flight b). 1 \<in> set (fl_full fl) \<and> snd (fl_item fl) = 1)"
proof -
  let ?r = "bus_run no_faults demo_ops (demo_bus, blank_World)"
  let ?row = "w_events (snd ?r) ! 1"
  have facts: "1 < length (bs_trackers (fst ?r))" "?row \<in> set (w_events (snd ?r))"
    "ev_ID ?row = tk_eventID (bs_trackers (fst ?r) ! 1)" "1 \<in> set (matched (fst ?r) ?row)"
    by code_simp+
  have "list_all (\<lambda>(t, i, ok). \<not> (t = 1 \<and> i = 1)) (bs_calls (fst ?r))" by code_simp
  then have "\<forall>ok. (1, 1, ok) \<notin> set (bs_calls (fst ?r))" by (auto simp: list_all_iff)
  then show ?thesis
    using nothing_dropped [OF demo_bus_fresh(1,2) prod.collapse [symmetric] demo_bus_fresh(3) facts]
    by (simp add: case_prod_beta)
qed

end
