(* ===== verification/StoreDesk.thy ===== *)
theory StoreDesk
  imports StoreBoard
begin

text \<open>
  The repositories around a ticket: labels, acceptance criteria, mentions and users
  (\<^verbatim>\<open>internal/kernel/store\<close>: \<^verbatim>\<open>labels.go\<close>, \<^verbatim>\<open>criteria.go\<close>, \<^verbatim>\<open>mentions.go\<close>, \<^verbatim>\<open>users.go\<close>).
  The join table \<^verbatim>\<open>ticket_labels\<close> is a list of pairs of a ticket and a label.
\<close>

section \<open>Labels\<close>

definition label_order :: "Label \<Rightarrow> string \<times> string" where
  "label_order l = (lb_Name l, lb_ID l)"

definition Labels_Create :: "faults \<Rightarrow> Label \<Rightarrow> World \<Rightarrow> unit res \<times> World" where
  "Labels_Create f l w =
     (if list_ex (\<lambda>x. lb_ID x = lb_ID l \<or> lb_ProjectID x = lb_ProjectID l \<and> lb_Name x = lb_Name l) (w_labels w)
      then (Inl ErrUnique, w)
      else exec f ''Labels.Create'' (lb_ID l) () (w_labels_update (\<lambda>t. t @ [l])) w)"

definition Labels_ByID :: "faults \<Rightarrow> string \<Rightarrow> World \<Rightarrow> Label res" where
  "Labels_ByID f i w = query_row f ''Labels.ByID'' i (find_row lb_ID i (w_labels w))"

definition Labels_ForProject :: "faults \<Rightarrow> string \<Rightarrow> World \<Rightarrow> Label list res" where
  "Labels_ForProject f pid w = query f ''Labels.ForProject'' pid
     (sort_key label_order (filter (\<lambda>l. lb_ProjectID l = pid) (w_labels w)))"

definition Labels_Update :: "faults \<Rightarrow> Label \<Rightarrow> World \<Rightarrow> unit res \<times> World" where
  "Labels_Update f l w =
     (if list_ex (\<lambda>x. lb_ID x \<noteq> lb_ID l \<and> lb_Name x = lb_Name l \<and>
            list_ex (\<lambda>y. lb_ID y = lb_ID l \<and> lb_ProjectID y = lb_ProjectID x) (w_labels w)) (w_labels w)
      then (Inl ErrUnique, w)
      else exec_one f ''Labels.Update'' (lb_ID l) (rows_affected (\<lambda>x. lb_ID x = lb_ID l) (w_labels w))
        (w_labels_update (update_where (\<lambda>x. lb_ID x = lb_ID l)
           (\<lambda>x. x\<lparr> lb_Name := lb_Name l, lb_Color := lb_Color l \<rparr>))) w)"

text \<open>A label some ticket still wears cannot go: deletes are RESTRICT.\<close>

definition Labels_Delete :: "faults \<Rightarrow> string \<Rightarrow> World \<Rightarrow> unit res \<times> World" where
  "Labels_Delete f i w =
     (if list_ex (\<lambda>p. snd p = i) (w_ticket_labels w) then (Inl ErrForeignKey, w)
      else exec_one f ''Labels.Delete'' i (rows_affected (\<lambda>x. lb_ID x = i) (w_labels w))
             (w_labels_update (filter (\<lambda>x. lb_ID x \<noteq> i))) w)"

definition Labels_Attach :: "faults \<Rightarrow> string \<Rightarrow> string \<Rightarrow> World \<Rightarrow> unit res \<times> World" where
  "Labels_Attach f tid lid w =
     (if (tid, lid) \<in> set (w_ticket_labels w) then (Inl ErrUnique, w)
      else exec f ''Labels.Attach'' lid () (w_ticket_labels_update (\<lambda>t. t @ [(tid, lid)])) w)"

definition Labels_Detach :: "faults \<Rightarrow> string \<Rightarrow> string \<Rightarrow> World \<Rightarrow> bool res \<times> World" where
  "Labels_Detach f tid lid w = exec f ''Labels.Detach'' lid ((tid, lid) \<in> set (w_ticket_labels w))
     (w_ticket_labels_update (filter (\<lambda>p. p \<noteq> (tid, lid)))) w"

definition Labels_DetachAll :: "faults \<Rightarrow> string \<Rightarrow> World \<Rightarrow> int res \<times> World" where
  "Labels_DetachAll f lid w = exec f ''Labels.DetachAll'' lid (count_if (\<lambda>p. snd p = lid) (w_ticket_labels w))
     (w_ticket_labels_update (filter (\<lambda>p. snd p \<noteq> lid))) w"

text \<open>\<^verbatim>\<open>ticket_labels JOIN labels\<close>.\<close>

definition labels_of :: "World \<Rightarrow> string \<Rightarrow> Label list" where
  "labels_of w tid = sort_key label_order (filter (\<lambda>l. (tid, lb_ID l) \<in> set (w_ticket_labels w)) (w_labels w))"

definition Labels_ForTicket :: "faults \<Rightarrow> string \<Rightarrow> World \<Rightarrow> Label list res" where
  "Labels_ForTicket f tid w = query f ''Labels.ForTicket'' tid (labels_of w tid)"

text \<open>The map from tickets to label ids, as a function; a ticket without labels is absent from it.\<close>

definition Labels_IDsForProjectTickets :: "faults \<Rightarrow> string \<Rightarrow> World \<Rightarrow> (string \<Rightarrow> string list) res" where
  "Labels_IDsForProjectTickets f pid w = query f ''Labels.IDsForProjectTickets'' pid
     (\<lambda>tid. map lb_ID (filter (\<lambda>l. lb_ProjectID l = pid) (labels_of w tid)))"

section \<open>Acceptance criteria\<close>

definition Criteria_Create :: "faults \<Rightarrow> Criterion \<Rightarrow> World \<Rightarrow> unit res \<times> World" where
  "Criteria_Create f c w =
     (if list_ex (\<lambda>x. cr_ID x = cr_ID c) (w_criteria w) then (Inl ErrUnique, w)
      else exec f ''Criteria.Create'' (cr_TicketID c) () (w_criteria_update (\<lambda>t. t @ [c])) w)"

definition Criteria_ByID :: "faults \<Rightarrow> string \<Rightarrow> World \<Rightarrow> Criterion res" where
  "Criteria_ByID f i w = query_row f ''Criteria.ByID'' i (find_row cr_ID i (w_criteria w))"

definition checklist :: "World \<Rightarrow> string \<Rightarrow> Criterion list" where
  "checklist w tid = sort_key (\<lambda>c. (cr_Position c, cr_ID c)) (filter (\<lambda>c. cr_TicketID c = tid) (w_criteria w))"

definition Criteria_ForTicket :: "faults \<Rightarrow> string \<Rightarrow> World \<Rightarrow> Criterion list res" where
  "Criteria_ForTicket f tid w = query f ''Criteria.ForTicket'' tid (checklist w tid)"

definition Criteria_Update :: "faults \<Rightarrow> Criterion \<Rightarrow> World \<Rightarrow> unit res \<times> World" where
  "Criteria_Update f c w = exec_one f ''Criteria.Update'' (cr_ID c)
     (rows_affected (\<lambda>x. cr_ID x = cr_ID c) (w_criteria w))
     (w_criteria_update (update_where (\<lambda>x. cr_ID x = cr_ID c) (\<lambda>x. c\<lparr> cr_TicketID := cr_TicketID x \<rparr>))) w"

record CriteriaCounts =
  cc_Total :: int
  cc_Checked :: int

definition counts_of :: "World \<Rightarrow> string \<Rightarrow> CriteriaCounts" where
  "counts_of w tid = \<lparr> cc_Total = count_if (\<lambda>c. cr_TicketID c = tid) (w_criteria w),
     cc_Checked = count_if (\<lambda>c. cr_TicketID c = tid \<and> cr_Checked c) (w_criteria w) \<rparr>"

definition Criteria_CountsForTicket :: "faults \<Rightarrow> string \<Rightarrow> World \<Rightarrow> CriteriaCounts res" where
  "Criteria_CountsForTicket f tid w = query f ''Criteria.CountsForTicket'' tid (counts_of w tid)"

text \<open>The map of a project as a function: a ticket outside it reads as Go's zero value.\<close>

definition Criteria_CountsForProjectTickets :: "faults \<Rightarrow> string \<Rightarrow> World \<Rightarrow> (string \<Rightarrow> CriteriaCounts) res" where
  "Criteria_CountsForProjectTickets f pid w = query f ''Criteria.CountsForProjectTickets'' pid
     (\<lambda>tid. if list_ex (\<lambda>t. tk_ID t = tid \<and> tk_ProjectID t = pid) (w_tickets w) then counts_of w tid
            else \<lparr> cc_Total = 0, cc_Checked = 0 \<rparr>)"

definition Criteria_Delete :: "faults \<Rightarrow> string \<Rightarrow> World \<Rightarrow> unit res \<times> World" where
  "Criteria_Delete f i w = exec_one f ''Criteria.Delete'' i (rows_affected (\<lambda>x. cr_ID x = i) (w_criteria w))
     (w_criteria_update (filter (\<lambda>x. cr_ID x \<noteq> i))) w"

section \<open>Mentions\<close>

fun insert_mentions :: "faults \<Rightarrow> Mention list \<Rightarrow> World \<Rightarrow> unit res \<times> World" where
  "insert_mentions f [] w = (Inr (), w)"
| "insert_mentions f (m # ms) w =
     (case (if list_ex (\<lambda>x. mn_ID x = mn_ID m) (w_mentions w) then (Inl ErrUnique, w)
            else exec f ''Mentions.Insert'' (mn_FromID m) () (w_mentions_update (\<lambda>t. t @ [m])) w) of
        (Inl e, w') \<Rightarrow> (Inl e, w')
      | (Inr _, w') \<Rightarrow> insert_mentions f ms w')"

definition Mentions_ReplaceForSource ::
  "faults \<Rightarrow> string \<Rightarrow> string \<Rightarrow> Mention list \<Rightarrow> World \<Rightarrow> unit res \<times> World" where
  "Mentions_ReplaceForSource f kind fid ms w =
     (case exec f ''Mentions.Delete'' fid ()
         (w_mentions_update (filter (\<lambda>m. \<not> (mn_FromKind m = kind \<and> mn_FromID m = fid)))) w of
        (Inl e, w') \<Rightarrow> (Inl e, w')
      | (Inr _, w') \<Rightarrow> insert_mentions f ms w')"

definition Mentions_ForSource :: "faults \<Rightarrow> string \<Rightarrow> string \<Rightarrow> World \<Rightarrow> Mention list res" where
  "Mentions_ForSource f kind fid w = query f ''Mentions.ForSource'' fid
     (sort_key mn_ID (filter (\<lambda>m. mn_FromKind m = kind \<and> mn_FromID m = fid) (w_mentions w)))"

definition Mentions_ForTarget :: "faults \<Rightarrow> string \<Rightarrow> string \<Rightarrow> World \<Rightarrow> Mention list res" where
  "Mentions_ForTarget f kind tid w = query f ''Mentions.ForTarget'' tid
     (sort_key mn_ID (filter (\<lambda>m. mn_ToKind m = kind \<and> mn_ToID m = tid) (w_mentions w)))"

definition Mentions_RedirectTarget :: "faults \<Rightarrow> string \<Rightarrow> string \<Rightarrow> string \<Rightarrow> World \<Rightarrow> int res \<times> World" where
  "Mentions_RedirectTarget f kind src dst w = exec f ''Mentions.RedirectTarget'' src
     (count_if (\<lambda>m. mn_ToKind m = kind \<and> mn_ToID m = src) (w_mentions w))
     (w_mentions_update (update_where (\<lambda>m. mn_ToKind m = kind \<and> mn_ToID m = src) (\<lambda>m. m\<lparr> mn_ToID := dst \<rparr>))) w"

section \<open>Users\<close>

definition Users_Create :: "faults \<Rightarrow> User \<Rightarrow> World \<Rightarrow> unit res \<times> World" where
  "Users_Create f u w =
     (if list_ex (\<lambda>x. us_ID x = us_ID u \<or> us_Email x = us_Email u) (w_users w) then (Inl ErrUnique, w)
      else exec f ''Users.Create'' (us_ID u) () (w_users_update (\<lambda>t. t @ [u])) w)"

definition Users_ByID :: "faults \<Rightarrow> string \<Rightarrow> World \<Rightarrow> User res" where
  "Users_ByID f i w = query_row f ''Users.ByID'' i (find_row us_ID i (w_users w))"

definition Users_ByEmail :: "faults \<Rightarrow> string \<Rightarrow> World \<Rightarrow> User res" where
  "Users_ByEmail f e w = query_row f ''Users.ByEmail'' e (find_row us_Email e (w_users w))"

definition Users_List :: "faults \<Rightarrow> World \<Rightarrow> User list res" where
  "Users_List f w = query f ''Users.List'' '''' (sort_key (\<lambda>u. (us_CreatedAt u, us_ID u)) (w_users w))"

definition Users_Count :: "faults \<Rightarrow> World \<Rightarrow> int res" where
  "Users_Count f w = query f ''Users.Count'' '''' (int (length (w_users w)))"

definition Users_Update :: "faults \<Rightarrow> User \<Rightarrow> World \<Rightarrow> unit res \<times> World" where
  "Users_Update f u w = exec_one f ''Users.Update'' (us_ID u)
     (rows_affected (\<lambda>x. us_ID x = us_ID u) (w_users w))
     (w_users_update (update_where (\<lambda>x. us_ID x = us_ID u)
        (\<lambda>x. u\<lparr> us_Email := us_Email x, us_CreatedAt := us_CreatedAt x \<rparr>))) w"

definition Wiki_ByID :: "faults \<Rightarrow> string \<Rightarrow> World \<Rightarrow> WikiPage res" where
  "Wiki_ByID f i w = query_row f ''Wiki.ByID'' i (find_row wp_ID i (w_wiki w))"

interpretation labels_table: keyed_table lb_ID .
interpretation criteria_table: keyed_table cr_ID .

end
