(* ===== verification/Service.thy ===== *)
theory Service
  imports StoreDesk Enqueue
begin

text \<open>
  What the services of the board share: the errors they answer with, one request as a computation on
  the world that can fail, and the attribution, audit and emission every mutation ends with
  (\<^verbatim>\<open>internal/service/tickets\<close>, \<^verbatim>\<open>internal/kernel/audit\<close>, \<^verbatim>\<open>internal/kernel/auth/actor.go\<close>).

  A computation that fails keeps what it wrote before; only a transaction takes its writes back. The
  inversion rules in \<^verbatim>\<open>svc_ok\<close> say what a successful computation has gone through.
\<close>

named_theorems svc_ok

section \<open>Computations\<close>

datatype svc_err =
    SeStore store_err
  | SeFields "FieldError list"
  | SeArchived string
  | SeNotArchived string
  | SeDepth string
  | SeActiveRuns int int
  | SeNoColumn ColumnCategory
  | SePendingTriage string
  | SeResolved TriageState
  | SeScheduler string
  | SeTime string
  | SeInUse string
  | SeRequiredCategory ColumnCategory
  | SeWikiDepth string
  | SeWikiArchived string
  | SeOther string
  | SePanic

type_synonym 'a svc = "World \<Rightarrow> (svc_err + 'a) \<times> World"

definition fieldErr :: "string \<Rightarrow> string \<Rightarrow> svc_err" where
  "fieldErr field msg = SeFields [\<lparr> fe_Field = field, fe_Message = msg \<rparr>]"

definition ret :: "'a \<Rightarrow> 'a svc" where
  "ret x w = (Inr x, w)"

definition fail :: "svc_err \<Rightarrow> 'a svc" where
  "fail e w = (Inl e, w)"

definition andThen :: "'a svc \<Rightarrow> ('a \<Rightarrow> 'b svc) \<Rightarrow> 'b svc" where
  "andThen m k w = (case m w of (Inl e, w') \<Rightarrow> (Inl e, w') | (Inr x, w') \<Rightarrow> k x w')"

definition ensure :: "bool \<Rightarrow> svc_err \<Rightarrow> 'b svc \<Rightarrow> 'b svc" where
  "ensure b e m = (if b then m else fail e)"

definition reading :: "(World \<Rightarrow> 'a res) \<Rightarrow> 'a svc" where
  "reading q w = (case q w of Inl e \<Rightarrow> (Inl (SeStore e), w) | Inr x \<Rightarrow> (Inr x, w))"

text \<open>A read where \<^verbatim>\<open>store.ErrNotFound\<close> is an answer.\<close>

definition looking :: "(World \<Rightarrow> 'a res) \<Rightarrow> 'a option svc" where
  "looking q w = (case q w of
     Inl e \<Rightarrow> if e = ErrNotFound then (Inr None, w) else (Inl (SeStore e), w)
   | Inr x \<Rightarrow> (Inr (Some x), w))"

definition writing :: "(World \<Rightarrow> 'a res \<times> World) \<Rightarrow> 'a svc" where
  "writing s w = (case s w of (Inl e, w') \<Rightarrow> (Inl (SeStore e), w') | (Inr x, w') \<Rightarrow> (Inr x, w'))"

definition doing :: "(World \<Rightarrow> World) \<Rightarrow> unit svc" where
  "doing g w = (Inr (), g w)"

definition asking :: "(World \<Rightarrow> 'a) \<Rightarrow> 'a svc" where
  "asking g w = (Inr (g w), w)"

text \<open>
  \<^verbatim>\<open>store.Tx\<close>: a body that fails leaves the world as it was; a panic rolls back and goes on, so it is
  one more error.
\<close>

definition transact :: "faults \<Rightarrow> 'a svc \<Rightarrow> 'a svc" where
  "transact f body w =
     (case f ''Tx.Begin'' '''' of
        Some e \<Rightarrow> (Inl (SeStore e), w)
      | None \<Rightarrow>
          (case body w of
             (Inl e, _) \<Rightarrow> (Inl e, w)
           | (Inr x, w') \<Rightarrow> (case f ''Tx.Commit'' '''' of Some e \<Rightarrow> (Inl (SeStore e), w) | None \<Rightarrow> (Inr x, w'))))"

fun each :: "('a \<Rightarrow> unit svc) \<Rightarrow> 'a list \<Rightarrow> unit svc" where
  "each g [] = ret ()"
| "each g (x # xs) = andThen (g x) (\<lambda>_. each g xs)"

section \<open>What a successful computation did\<close>

lemma ret_ok [svc_ok]: "ret x w = (Inr y, w') \<longleftrightarrow> y = x \<and> w' = w"
  by (auto simp: ret_def)

lemma fail_ok [svc_ok]: "fail e w = (Inr y, w') \<longleftrightarrow> False"
  by (simp add: fail_def)

lemma andThen_ok [svc_ok]:
  "andThen m k w = (Inr y, w') \<longleftrightarrow> (\<exists>x w1. m w = (Inr x, w1) \<and> k x w1 = (Inr y, w'))"
  by (auto simp: andThen_def split: prod.splits sum.splits)

lemma ensure_ok [svc_ok]: "ensure b e m w = (Inr y, w') \<longleftrightarrow> b \<and> m w = (Inr y, w')"
  by (simp add: ensure_def fail_ok)

lemma reading_ok [svc_ok]: "reading q w = (Inr x, w') \<longleftrightarrow> q w = Inr x \<and> w' = w"
  by (auto simp: reading_def split: sum.splits)

lemma looking_ok [svc_ok]:
  "looking q w = (Inr r, w') \<longleftrightarrow> w' = w \<and> (case r of None \<Rightarrow> q w = Inl ErrNotFound | Some x \<Rightarrow> q w = Inr x)"
  by (cases r) (auto simp: looking_def split: sum.splits)

lemma writing_ok [svc_ok]: "writing s w = (Inr x, w') \<longleftrightarrow> s w = (Inr x, w')"
  by (auto simp: writing_def split: prod.splits sum.splits)

lemma doing_ok [svc_ok]: "doing g w = (Inr x, w') \<longleftrightarrow> w' = g w"
  by (auto simp: doing_def)

lemma asking_ok [svc_ok]: "asking g w = (Inr x, w') \<longleftrightarrow> x = g w \<and> w' = w"
  by (auto simp: asking_def)

lemma transact_ok [svc_ok]:
  "transact f body w = (Inr x, w') \<longleftrightarrow> f ''Tx.Begin'' '''' = None \<and> f ''Tx.Commit'' '''' = None \<and> body w = (Inr x, w')"
  by (auto simp: transact_def split: option.splits prod.splits sum.splits)

lemma transact_fail: "transact f body w = (Inl e, w') \<Longrightarrow> w' = w"
  by (auto simp: transact_def split: option.splits prod.splits sum.splits)

section \<open>Properties that survive\<close>

text \<open>Whatever the outcome, a fact of the world is kept.\<close>

definition keeps :: "(World \<Rightarrow> bool) \<Rightarrow> 'a svc \<Rightarrow> bool" where
  "keeps P m \<longleftrightarrow> (\<forall>w. P w \<longrightarrow> P (snd (m w)))"

named_theorems keep

lemma keeps_ret [keep]: "keeps P (ret x)" and keeps_fail [keep]: "keeps P (fail e)"
  by (simp_all add: keeps_def ret_def fail_def)

lemma keeps_andThen [keep]: "keeps P m \<Longrightarrow> (\<And>x. keeps P (k x)) \<Longrightarrow> keeps P (andThen m k)"
proof (unfold keeps_def, intro allI impI)
  fix w
  assume m: "\<forall>w. P w \<longrightarrow> P (snd (m w))" and k: "\<And>x. \<forall>w. P w \<longrightarrow> P (snd (k x w))" and "P w"
  obtain r w1 where "m w = (r, w1)" by fastforce
  moreover from this have "P w1" using m \<open>P w\<close> by (metis snd_conv)
  ultimately show "P (snd (andThen m k w))" using k by (cases r) (simp_all add: andThen_def)
qed

lemma keeps_ensure [keep]: "keeps P m \<Longrightarrow> keeps P (ensure b e m)"
  by (simp add: ensure_def keeps_fail)

lemma keeps_reading [keep]: "keeps P (reading q)" and keeps_looking [keep]: "keeps P (looking q)"
  by (auto simp: keeps_def reading_def looking_def split: sum.splits)

lemma keeps_asking [keep]: "keeps P (asking g)"
  by (simp add: keeps_def asking_def)

lemma keeps_doing: "(\<And>w. P w \<Longrightarrow> P (g w)) \<Longrightarrow> keeps P (doing g)"
  by (simp add: keeps_def doing_def)

lemma keeps_writing: "(\<And>w. P w \<Longrightarrow> P (snd (s w))) \<Longrightarrow> keeps P (writing s)"
proof (unfold keeps_def, intro allI impI)
  fix w
  assume s: "\<And>w. P w \<Longrightarrow> P (snd (s w))" and "P w"
  obtain r w1 where "s w = (r, w1)" by fastforce
  then show "P (snd (writing s w))" using s [OF \<open>P w\<close>] by (cases r) (simp_all add: writing_def)
qed

lemma keeps_transact [keep]: "keeps P m \<Longrightarrow> keeps P (transact f m)"
  unfolding keeps_def transact_def
  by (auto split: option.splits prod.splits sum.splits)

lemma keeps_each [keep]: "(\<And>x. keeps P (g x)) \<Longrightarrow> keeps P (each g xs)"
  by (induction xs) (auto intro: keep)

lemma keeps_if [keep]: "keeps P a \<Longrightarrow> keeps P b \<Longrightarrow> keeps P (if c then a else b)"
  by simp

lemma keeps_option [keep]: "keeps P a \<Longrightarrow> (\<And>x. keeps P (g x)) \<Longrightarrow> keeps P (case r of None \<Rightarrow> a | Some x \<Rightarrow> g x)"
  by (cases r) simp_all

lemma keeps_prod [keep]: "(\<And>x y. keeps P (g x y)) \<Longrightarrow> keeps P (case r of (x, y) \<Rightarrow> g x y)"
  by (cases r) simp

section \<open>The environment of a request\<close>

datatype request_result = Requested string | NotImplemented | RequestRefused string

text \<open>
  \<^verbatim>\<open>dk_newid\<close> is the generator of identifiers at a call site, \<^verbatim>\<open>dk_round\<close> the rounding of a floating
  point operation, \<^verbatim>\<open>dk_num\<close> the printing of one. The clock does not move inside a request.
\<close>

record Desk =
  dk_faults :: faults
  dk_now :: string
  dk_actor :: "(ActorKind \<times> string) option"
  dk_newid :: "string \<Rightarrow> nat \<Rightarrow> World \<Rightarrow> string"
  dk_round :: "rat \<Rightarrow> rat"
  dk_num :: "rat \<Rightarrow> string"
  dk_request :: "RunRequest \<Rightarrow> World \<Rightarrow> request_result \<times> World"
  dk_cancel :: "string \<Rightarrow> string \<Rightarrow> World \<Rightarrow> (string + int) option \<times> World"

definition blank_request :: RunRequest where
  "blank_request = \<lparr> rq_ProjectID = '''', rq_AgentID = '''', rq_TicketID = '''', rq_Reason = '''',
     rq_PromptOverride = '''', rq_RequestedByUserID = '''', rq_TriggerID = '''', rq_CauseEventID = '''',
     rq_ParentRunID = '''', rq_ChangedPaths = [], rq_SubjectKey = '''', rq_Depth = 0, rq_SupersededRunID = '''' \<rparr>"

definition actor_kind :: "Desk \<Rightarrow> ActorKind \<Rightarrow> ActorKind" where
  "actor_kind d none = (case dk_actor d of None \<Rightarrow> none | Some (k, _) \<Rightarrow> k)"

definition actor_id :: "Desk \<Rightarrow> string option" where
  "actor_id d = (case dk_actor d of None \<Rightarrow> None | Some (_, i) \<Rightarrow> if i = [] then None else Some i)"

text \<open>The signed-in human of a request, if it has one.\<close>

definition human :: "Desk \<Rightarrow> string option" where
  "human d = (case dk_actor d of Some (ActorHuman, i) \<Rightarrow> if i = [] then None else Some i | _ \<Rightarrow> None)"

text \<open>A Go map marshals with its keys in order.\<close>

definition obj :: "(string \<times> json) list \<Rightarrow> json" where
  "obj l = JObj (sort_key fst l)"

definition jopt :: "string option \<Rightarrow> json" where
  "jopt x = (case x of None \<Rightarrow> JNull | Some s \<Rightarrow> JStr s)"

text \<open>A field of a partial body: absent leaves the old value.\<close>

definition given :: "'a option \<Rightarrow> 'a \<Rightarrow> 'a" where
  "given x old = (case x of None \<Rightarrow> old | Some v \<Rightarrow> v)"

definition svc_audit ::
  "Desk \<Rightarrow> string \<Rightarrow> string \<Rightarrow> string \<Rightarrow> string \<Rightarrow> string \<Rightarrow> (string \<times> string) list \<Rightarrow> (string \<times> string) list \<Rightarrow> unit svc" where
  "svc_audit d action kind i pid note before after = writing (audit_write (dk_faults d)
     \<lparr> au_Action = action, au_Kind = kind, au_TargetID = i, au_ProjectID = pid, au_Note = note,
       au_Before = before, au_After = after \<rparr>)"

lemma audit_write_tables [simp]:
  "w_tickets (snd (audit_write f e w)) = w_tickets w" "w_triage (snd (audit_write f e w)) = w_triage w"
  "w_projects (snd (audit_write f e w)) = w_projects w" "w_criteria (snd (audit_write f e w)) = w_criteria w"
  "w_columns (snd (audit_write f e w)) = w_columns w" "w_triggers (snd (audit_write f e w)) = w_triggers w"
  by (simp_all add: audit_write_def exec_def split: option.splits)

lemma emit_frame_tables [simp]:
  "w_tickets (emit_frame fr w) = w_tickets w" "w_triage (emit_frame fr w) = w_triage w"
  "w_projects (emit_frame fr w) = w_projects w" "w_criteria (emit_frame fr w) = w_criteria w"
  "w_columns (emit_frame fr w) = w_columns w" "w_triggers (emit_frame fr w) = w_triggers w"
  by (simp_all add: emit_frame_def)

end
