(* ===== verification/Mentions.thy ===== *)
theory Mentions
  imports Domain
begin

text \<open>
  Mention tokens (\<^verbatim>\<open>internal/service/mentionparse\<close>): finding the tokens of a body with the paragraph
  around each, rewriting the labels of the tokens of one wiki page, masking tokens out and finding a
  plain occurrence. The regular expression excludes the closing bracket from a label and everything but
  letters and digits from an identifier, so at every position there is at most one match and the scan
  takes the leftmost: \<^verbatim>\<open>lex\<close> cuts a body into characters and tokens.
\<close>

section \<open>The token pattern\<close>

definition label_char :: "char \<Rightarrow> bool" where
  "label_char c \<longleftrightarrow> c \<noteq> CHR '']'' \<and> c \<noteq> CHR 0x0A"

definition id_char :: "char \<Rightarrow> bool" where
  "id_char c \<longleftrightarrow> CHR ''A'' \<le> c \<and> c \<le> CHR ''Z'' \<or> CHR ''a'' \<le> c \<and> c \<le> CHR ''z'' \<or> CHR ''0'' \<le> c \<and> c \<le> CHR ''9''"

definition mention_kinds :: "string list" where
  "mention_kinds = [''user'', ''agent'', ''wiki'', ''ticket'']"

fun strip_kind :: "string list \<Rightarrow> string \<Rightarrow> (string \<times> string) option" where
  "strip_kind [] s = None"
| "strip_kind (k # ks) s =
     (if has_prefix s (k @ '':'') then Some (k, drop (length k + 1) s) else strip_kind ks s)"

text \<open>A match at the start of the text: label, kind, identifier and what follows.\<close>

definition token_at :: "string \<Rightarrow> (string \<times> string \<times> string \<times> string) option" where
  "token_at s =
     (if \<not> has_prefix s ''@['' then None
      else (let l = takeWhile label_char (drop 2 s); r = dropWhile label_char (drop 2 s) in
            if l = [] \<or> \<not> has_prefix r '']('' then None
            else (case strip_kind mention_kinds (drop 2 r) of
                    None \<Rightarrow> None
                  | Some (k, r') \<Rightarrow>
                      (let i = takeWhile id_char r'; r'' = dropWhile id_char r' in
                       if i = [] \<or> \<not> has_prefix r'' '')'' then None else Some (l, k, i, drop 1 r'')))))"

datatype piece = PChar char | PToken string string string

definition render_token :: "string \<Rightarrow> string \<Rightarrow> string \<Rightarrow> string" where
  "render_token l k i = ''@['' @ l @ '']('' @ k @ '':'' @ i @ '')''"

fun piece_text :: "piece \<Rightarrow> string" where
  "piece_text (PChar c) = [c]"
| "piece_text (PToken l k i) = render_token l k i"

definition unlex :: "piece list \<Rightarrow> string" where
  "unlex ps = concat (map piece_text ps)"

lemma strip_kind_SomeD:
  "strip_kind ks s = Some (k, r) \<Longrightarrow> k \<in> set ks \<and> s = k @ '':'' @ r"
proof (induction ks s rule: strip_kind.induct)
  case (2 q ks s)
  show ?case
  proof (cases "has_prefix s (q @ '':'')")
    case True
    then have "s = (q @ '':'') @ drop (length q + 1) s"
      unfolding has_prefix_def by (metis append_take_drop_id length_append length_Cons list.size(3) One_nat_def)
    then show ?thesis using 2(2) True by (metis append_assoc list.set_intros(1) option.inject prod.inject strip_kind.simps(2))
  qed (use 2 in auto)
qed simp

lemma token_at_SomeD:
  assumes "token_at s = Some (l, k, i, r)"
  shows "s = render_token l k i @ r" and "l \<noteq> []" and "\<forall>c \<in> set l. label_char c"
    and "k \<in> set mention_kinds" and "i \<noteq> []" and "\<forall>c \<in> set i. id_char c"
proof -
  let ?r = "dropWhile label_char (drop 2 s)"
  obtain r1 where p: "has_prefix s ''@[''" "has_prefix ?r '']('' " "strip_kind mention_kinds (drop 2 ?r) = Some (k, r1)"
    "l = takeWhile label_char (drop 2 s)" "l \<noteq> []" "i = takeWhile id_char r1" "i \<noteq> []"
    "has_prefix (dropWhile id_char r1) '')''" "r = drop 1 (dropWhile id_char r1)"
    using assms by (auto simp: token_at_def Let_def split: if_splits option.splits prod.splits)
  note k = strip_kind_SomeD [OF p(3)]
  have "s = ''@['' @ drop 2 s" using p(1) by (metis append_take_drop_id has_prefix_def length_Cons list.size(3) One_nat_def Suc_1)
  also have "drop 2 s = l @ ?r" by (simp add: p(4))
  also have "?r = '']('' @ drop 2 ?r"
    using p(2) by (metis append_take_drop_id has_prefix_def length_Cons list.size(3) One_nat_def Suc_1)
  also have "drop 2 ?r = k @ '':'' @ r1" using k by blast
  also have "r1 = i @ dropWhile id_char r1" by (simp add: p(6))
  also have "dropWhile id_char r1 = '')'' @ r"
    using p(8) unfolding p(9) by (metis append_take_drop_id has_prefix_def length_Cons list.size(3) One_nat_def)
  finally show "s = render_token l k i @ r" by (simp add: render_token_def)
  show "l \<noteq> []" "k \<in> set mention_kinds" "i \<noteq> []" using p k by auto
  show "\<forall>c \<in> set l. label_char c" "\<forall>c \<in> set i. id_char c" unfolding p(4,6) by (auto dest: set_takeWhileD)
qed

function lex :: "string \<Rightarrow> piece list" where
  "lex [] = []"
| "lex (c # s) =
     (case token_at (c # s) of
        Some (l, k, i, r) \<Rightarrow> PToken l k i # lex r
      | None \<Rightarrow> PChar c # lex s)"
  by pat_completeness auto

termination
proof (relation "measure length")
  fix c s l k i r x y z
  assume "token_at (c # s) = Some x" "(l, y) = x" "(k, z) = y" "(i, r) = z"
  then have "c # s = render_token l k i @ r" using token_at_SomeD(1) by blast
  then have "length (c # s) = length (render_token l k i @ r)" by (rule arg_cong)
  then show "(r, c # s) \<in> measure length" by (simp add: render_token_def)
qed simp_all

section \<open>Parsing\<close>

record Parsed_mention =
  pm_Label :: string
  pm_Kind :: string
  pm_ID :: string
  pm_Context :: string

fun index_of :: "string \<Rightarrow> string \<Rightarrow> nat option" where
  "index_of sub [] = (if sub = [] then Some 0 else None)"
| "index_of sub (c # cs) = (if has_prefix (c # cs) sub then Some 0 else map_option Suc (index_of sub cs))"

fun last_index_of :: "string \<Rightarrow> string \<Rightarrow> nat option" where
  "last_index_of sub [] = (if sub = [] then Some 0 else None)"
| "last_index_of sub (c # cs) =
     (case last_index_of sub cs of
        Some n \<Rightarrow> Some (Suc n)
      | None \<Rightarrow> if has_prefix (c # cs) sub then Some 0 else None)"

definition blank_line :: string where "blank_line = [CHR 0x0A, CHR 0x0A]"

definition ParagraphAround :: "string \<Rightarrow> nat \<Rightarrow> nat \<Rightarrow> string" where
  "ParagraphAround body start stop =
     (let pStart = (case last_index_of blank_line (take start body) of None \<Rightarrow> 0 | Some i \<Rightarrow> i + 2);
          pEnd = (case index_of blank_line (drop stop body) of None \<Rightarrow> length body | Some i \<Rightarrow> stop + i)
      in trim_space (take (pEnd - pStart) (drop pStart body)))"

fun mentions_from :: "string \<Rightarrow> nat \<Rightarrow> piece list \<Rightarrow> Parsed_mention list" where
  "mentions_from body n [] = []"
| "mentions_from body n (PChar c # ps) = mentions_from body (Suc n) ps"
| "mentions_from body n (PToken l k i # ps) =
     (let stop = n + length (render_token l k i) in
      \<lparr> pm_Label = l, pm_Kind = k, pm_ID = i, pm_Context = ParagraphAround body n stop \<rparr> #
      mentions_from body stop ps)"

definition ParseMentions :: "string \<Rightarrow> Parsed_mention list" where
  "ParseMentions body = mentions_from body 0 (lex body)"

section \<open>Rewriting, masking, searching\<close>

fun relabel :: "string \<Rightarrow> string \<Rightarrow> piece \<Rightarrow> piece" where
  "relabel pid new (PChar c) = PChar c"
| "relabel pid new (PToken l k i) =
     (if k \<noteq> ''wiki'' \<or> i \<noteq> pid \<or> l = new then PToken l k i else PToken new ''wiki'' pid)"

definition RewriteWikiLabels :: "string \<Rightarrow> string \<Rightarrow> string \<Rightarrow> string \<times> bool" where
  "RewriteWikiLabels body pid new =
     (let ps = lex body; qs = map (relabel pid new) ps in (unlex qs, qs \<noteq> ps))"

fun mask_piece :: "piece \<Rightarrow> string" where
  "mask_piece (PChar c) = [c]"
| "mask_piece (PToken l k i) =
     map (\<lambda>c. if c = CHR 0x0A then c else CHR 0x20) (render_token l k i)"

definition MaskTokens :: "string \<Rightarrow> string" where
  "MaskTokens body = concat (map mask_piece (lex body))"

text \<open>\<^verbatim>\<open>strings.EqualFold\<close> is an argument: its folding of the letters beyond ASCII is a table.\<close>

fun fold_occurrence :: "(string \<Rightarrow> string \<Rightarrow> bool) \<Rightarrow> string \<Rightarrow> string \<Rightarrow> nat \<Rightarrow> (nat \<times> nat) option" where
  "fold_occurrence eq needle [] n = None"
| "fold_occurrence eq needle (c # cs) n =
     (if length needle > length (c # cs) then None
      else if eq (take (length needle) (c # cs)) needle then Some (n, n + length needle)
      else fold_occurrence eq needle cs (Suc n))"

definition FindPlainOccurrence :: "(string \<Rightarrow> string \<Rightarrow> bool) \<Rightarrow> string \<Rightarrow> string \<Rightarrow> (nat \<times> nat) option" where
  "FindPlainOccurrence eq body needle =
     (if needle = [] then None else fold_occurrence eq needle (MaskTokens body) 0)"

section \<open>Renaming a page keeps its links\<close>

definition good_label :: "string \<Rightarrow> bool" where
  "good_label l \<longleftrightarrow> l \<noteq> [] \<and> (\<forall>c \<in> set l. label_char c)"

lemma has_prefix_append [simp]: "has_prefix (p @ s) p"
  by (simp add: has_prefix_def)

lemma not_label [simp]: "\<not> label_char CHR '']''" "label_char CHR ''@''" "label_char CHR ''[''"
  by (simp_all add: label_char_def)

lemma not_id [simp]: "\<not> id_char CHR '')''" "\<not> id_char CHR ''@''"
  by (simp_all add: id_char_def less_eq_char_def)

lemma strip_kind_kinds:
  "k \<in> set mention_kinds \<Longrightarrow> strip_kind mention_kinds (k @ '':'' @ r) = Some (k, r)"
  by (auto simp: mention_kinds_def has_prefix_def)

lemma span_append:
  "\<forall>c \<in> set a. p c \<Longrightarrow> \<not> p x \<Longrightarrow> takeWhile p (a @ x # b) = a \<and> dropWhile p (a @ x # b) = x # b"
  by (simp add: takeWhile_append2)

lemma token_at_render:
  assumes "good_label l" and "k \<in> set mention_kinds" and "i \<noteq> []" and "\<forall>c \<in> set i. id_char c"
  shows "token_at (render_token l k i @ r) = Some (l, k, i, r)"
proof -
  let ?s = "render_token l k i @ r"
  have d: "drop 2 ?s = l @ CHR '']'' # ''('' @ k @ '':'' @ i @ '')'' @ r" by (simp add: render_token_def)
  have l: "takeWhile label_char (drop 2 ?s) = l"
    "dropWhile label_char (drop 2 ?s) = '']('' @ k @ '':'' @ i @ '')'' @ r"
    unfolding d using span_append [of l label_char "CHR '']''"] assms(1) by (simp_all add: good_label_def)
  have i: "takeWhile id_char (i @ '')'' @ r) = i" "dropWhile id_char (i @ '')'' @ r) = '')'' @ r"
    using span_append [of i id_char "CHR '')''" r] assms(4) by simp_all
  have "has_prefix ?s ''@[''" by (simp add: render_token_def has_prefix_def)
  then show ?thesis
    unfolding token_at_def Let_def l using assms(1,3) strip_kind_kinds [OF assms(2), of "i @ '')'' @ r"] i
    by (simp add: good_label_def has_prefix_def)
qed

lemma has_prefix_Cons [simp]: "has_prefix s []" "has_prefix (x # s) (y # p) \<longleftrightarrow> x = y \<and> has_prefix s p" "\<not> has_prefix [] (y # p)"
  by (auto simp: has_prefix_def)

text \<open>What follows an \<^verbatim>\<open>@\<close> sign cannot end a match that began before it.\<close>

lemma has_prefix_at: "CHR ''@'' \<notin> set p \<Longrightarrow> has_prefix (r @ CHR ''@'' # b) p = has_prefix r p"
proof (induction r arbitrary: p)
  case Nil
  then show ?case by (cases p) auto
next
  case (Cons x r)
  then show ?case by (cases p) auto
qed

lemma has_prefix_length: "has_prefix s p \<Longrightarrow> length p \<le> length s"
  by (metis has_prefix_def length_take min.absorb_iff2 min.commute nat_le_linear take_all)

lemma strip_kind_at:
  "CHR ''@'' \<notin> set (concat ks) \<Longrightarrow>
   strip_kind ks (a @ CHR ''@'' # b) = map_option (\<lambda>(k, x). (k, x @ CHR ''@'' # b)) (strip_kind ks a)"
proof (induction ks)
  case (Cons k ks)
  have "has_prefix (a @ CHR ''@'' # b) (k @ '':'') = has_prefix a (k @ '':'')"
    using Cons.prems by (intro has_prefix_at) auto
  then show ?case using Cons has_prefix_length [of a "k @ '':''"] by auto
qed simp

lemma span_at:
  "\<not> p CHR ''@'' \<Longrightarrow> takeWhile p (x @ CHR ''@'' # b) = takeWhile p x \<and> dropWhile p (x @ CHR ''@'' # b) = dropWhile p x @ CHR ''@'' # b"
  by (induction x) auto

lemma token_at_cut:
  assumes "\<exists>c \<in> set v. \<not> label_char c"
  shows "token_at (''@['' @ v @ CHR ''@'' # b) = map_option (\<lambda>(l, k, i, r). (l, k, i, r @ CHR ''@'' # b)) (token_at (''@['' @ v))"
proof -
  obtain c where c: "c \<in> set v" "\<not> label_char c" using assms by blast
  have l: "takeWhile label_char (v @ CHR ''@'' # b) = takeWhile label_char v"
    "dropWhile label_char (v @ CHR ''@'' # b) = dropWhile label_char v @ CHR ''@'' # b"
    using takeWhile_append1 [of c v label_char] dropWhile_append1 [of c v label_char] c by simp_all
  have r: "has_prefix (dropWhile label_char v @ CHR ''@'' # b) '']('' = has_prefix (dropWhile label_char v) '']('' "
    by (rule has_prefix_at) simp
  have k: "strip_kind mention_kinds (a @ CHR ''@'' # b) =
      map_option (\<lambda>(k, x). (k, x @ CHR ''@'' # b)) (strip_kind mention_kinds a)" for a
    by (rule strip_kind_at) (simp add: mention_kinds_def)
  have i: "takeWhile id_char (x @ CHR ''@'' # b) = takeWhile id_char x"
    "dropWhile id_char (x @ CHR ''@'' # b) = dropWhile id_char x @ CHR ''@'' # b" for x
    using span_at [of id_char x b] by simp_all
  have e: "has_prefix (dropWhile id_char x @ CHR ''@'' # b) '')'' = has_prefix (dropWhile id_char x) '')''" for x
    by (rule has_prefix_at) simp
  have rest: "has_prefix (dropWhile id_char x) '')'' \<Longrightarrow> drop (Suc 0 - length (dropWhile id_char x)) y = y" for x and y :: string
    by (cases "dropWhile id_char x") simp_all
  show ?thesis
  proof (cases "has_prefix (dropWhile label_char v) '']('' ")
    case False
    then show ?thesis by (simp add: token_at_def Let_def l r)
  next
    case True
    then obtain a where a: "dropWhile label_char v = '']('' @ a" by (metis append_take_drop_id has_prefix_def)
    show ?thesis
      using rest by (cases "strip_kind mention_kinds a") (auto simp: token_at_def Let_def l a k i e)
  qed
qed

lemma token_at_before:
  assumes none: "token_at (u @ render_token l k i @ r) = None" and "u \<noteq> []"
    and tok: "good_label l" "k \<in> set mention_kinds" "i \<noteq> []" "\<forall>c \<in> set i. id_char c"
  shows "token_at (u @ render_token l' k' i' @ r') = None"
proof (cases "has_prefix u ''@[''")
  case False
  have "has_prefix (u @ CHR ''@'' # b) ''@['' \<longleftrightarrow> has_prefix u ''@[''" for b
    using \<open>u \<noteq> []\<close> by (cases u; cases "tl u") auto
  then show ?thesis using False by (simp add: token_at_def render_token_def)
next
  case True
  then obtain v where u: "u = ''@['' @ v"
    by (metis append_take_drop_id has_prefix_def)
  show ?thesis
  proof (cases "\<exists>c \<in> set v. \<not> label_char c")
    case True
    from none have "token_at (''@['' @ v) = None"
      using token_at_cut [OF True] by (simp add: u render_token_def)
    then show ?thesis using token_at_cut [OF True] by (simp add: u render_token_def)
  next
    case False
    then have "good_label (v @ ''@['' @ l)" using tok(1) by (auto simp: good_label_def)
    then have "token_at (render_token (v @ ''@['' @ l) k i @ r) = Some (v @ ''@['' @ l, k, i, r)"
      by (rule token_at_render [OF _ tok(2-4)])
    then show ?thesis using none by (simp add: u render_token_def)
  qed
qed

fun good_piece :: "piece \<Rightarrow> bool" where
  "good_piece (PChar c) = True"
| "good_piece (PToken l k i) = (good_label l \<and> k \<in> set mention_kinds \<and> i \<noteq> [] \<and> (\<forall>c \<in> set i. id_char c))"

lemma unlex_simps [simp]: "unlex [] = []" "unlex (p # ps) = piece_text p @ unlex ps"
  by (simp_all add: unlex_def)

lemma unlex_lex: "unlex (lex s) = s"
  by (induction s rule: lex.induct) (auto dest: token_at_SomeD(1) split: option.splits)

lemma lex_good: "p \<in> set (lex s) \<Longrightarrow> good_piece p"
proof (induction s rule: lex.induct)
  case (2 c s)
  show ?case
  proof (cases "token_at (c # s)")
    case (Some x)
    then obtain l k i r where x: "token_at (c # s) = Some (l, k, i, r)" by (metis prod_cases4)
    have "lex (c # s) = PToken l k i # lex r" using x by simp
    moreover have "good_piece (PToken l k i)" using token_at_SomeD [OF x] by (simp add: good_label_def)
    ultimately show ?thesis using 2(2) [OF x refl refl refl] 2(3) by (metis set_ConsD)
  qed (use 2 in auto)
qed simp

text \<open>Where a body first has a token, if it has one.\<close>

lemma first_token:
  "(\<forall>p \<in> set ps. \<exists>c. p = PChar c) \<or> (\<exists>g l k i qs. ps = map PChar g @ PToken l k i # qs)"
proof (induction ps)
  case (Cons p ps)
  show ?case
  proof (cases p)
    case (PChar c)
    from Cons show ?thesis
    proof
      assume "\<exists>g l k i qs. ps = map PChar g @ PToken l k i # qs"
      then obtain g l k i qs where "ps = map PChar g @ PToken l k i # qs" by blast
      then have "p # ps = map PChar (c # g) @ PToken l k i # qs" using PChar by simp
      then show ?thesis by blast
    qed (use PChar in auto)
  next
    case (PToken l k i)
    then have "p # ps = map PChar [] @ PToken l k i # ps" by simp
    then show ?thesis by blast
  qed
qed simp

lemma unlex_chars: "unlex (map PChar g @ ps) = g @ unlex ps"
  by (induction g) simp_all

lemma lex_token: "good_piece (PToken l k i) \<Longrightarrow> lex (render_token l k i @ r) = PToken l k i # lex r"
proof -
  assume "good_piece (PToken l k i)"
  then have "token_at (render_token l k i @ r) = Some (l, k, i, r)" by (simp add: token_at_render)
  moreover obtain c t where "render_token l k i @ r = c # t" by (cases "render_token l k i @ r") (auto simp: render_token_def)
  ultimately show ?thesis by simp
qed

lemma token_at_relabelled:
  assumes "token_at (c # s) = None" and f: "\<And>c. f (PChar c) = PChar c" "\<And>l k i. \<exists>l' k' i'. f (PToken l k i) = PToken l' k' i'"
  shows "token_at (c # unlex (map f (lex s))) = None"
proof (cases "\<forall>p \<in> set (lex s). \<exists>c. p = PChar c")
  case True
  then have "map f (lex s) = lex s" using f(1) by (intro map_idI) auto
  then show ?thesis using assms(1) by (simp add: unlex_lex)
next
  case False
  then obtain g l k i qs where ps: "lex s = map PChar g @ PToken l k i # qs" using first_token [of "lex s"] by blast
  obtain l' k' i' where t: "f (PToken l k i) = PToken l' k' i'" using f(2) by blast
  have "good_piece (PToken l k i)" by (rule lex_good [of _ s]) (simp add: ps)
  then have good: "good_label l" "k \<in> set mention_kinds" "i \<noteq> []" "\<forall>c \<in> set i. id_char c" by simp_all
  have "token_at ((c # g) @ render_token l k i @ unlex qs) = None"
    using assms(1) unlex_lex [of s] by (simp add: ps unlex_chars)
  then have "token_at ((c # g) @ render_token l' k' i' @ unlex (map f qs)) = None"
    by (rule token_at_before [OF _ _ good]) simp
  moreover have "map f (lex s) = map PChar g @ PToken l' k' i' # map f qs" using f(1) by (simp add: ps t)
  then have "unlex (map f (lex s)) = g @ render_token l' k' i' @ unlex (map f qs)" by (simp add: unlex_chars)
  ultimately show ?thesis by simp
qed

lemma lex_relabelled:
  assumes f: "\<And>c. f (PChar c) = PChar c" "\<And>l k i. \<exists>l' k' i'. f (PToken l k i) = PToken l' k' i'"
    and good: "\<And>p. good_piece p \<Longrightarrow> good_piece (f p)"
  shows "lex (unlex (map f (lex s))) = map f (lex s)"
proof (induction s rule: lex.induct)
  case (2 c s)
  show ?case
  proof (cases "token_at (c # s)")
    case None
    have "lex (unlex (map f (lex (c # s)))) = lex (c # unlex (map f (lex s)))" using None by (simp add: f(1))
    also have "\<dots> = PChar c # lex (unlex (map f (lex s)))" using token_at_relabelled [OF None f] by simp
    also have "\<dots> = map f (lex (c # s))" using 2(1) [OF None] None by (simp add: f(1))
    finally show ?thesis .
  next
    case (Some x)
    then obtain l k i r where x: "token_at (c # s) = Some (l, k, i, r)" by (metis prod_cases4)
    obtain l' k' i' where t: "f (PToken l k i) = PToken l' k' i'" using f(2) by blast
    have "good_piece (PToken l k i)" using token_at_SomeD [OF x] by (simp add: good_label_def)
    then have "good_piece (PToken l' k' i')" using good t by metis
    then show ?thesis using 2(2) [OF x refl refl refl] x t by (simp add: lex_token)
  qed
qed simp

text \<open>
  C21. Renaming a page keeps every link of a body: when the new title is a possible label (not empty, no
  closing bracket, no line break), the rewritten body parses to the same mentions in the same order, of the same
  kinds and to the same targets, with the label of every link to that page replaced and all else kept.
\<close>

theorem rewrite_keeps_links:
  assumes "good_label new" and "pid \<noteq> []" and "\<forall>c \<in> set pid. id_char c"
  shows "lex (fst (RewriteWikiLabels body pid new)) = map (relabel pid new) (lex body) \<and>
    map (\<lambda>m. (pm_Label m, pm_Kind m, pm_ID m)) (ParseMentions (fst (RewriteWikiLabels body pid new))) =
      map (\<lambda>m. (if pm_Kind m = ''wiki'' \<and> pm_ID m = pid then new else pm_Label m, pm_Kind m, pm_ID m)) (ParseMentions body)"
proof -
  have "good_piece (relabel pid new p)" if "good_piece p" for p
    using that assms by (cases p) (auto simp: mention_kinds_def)
  moreover have "\<exists>l' k' i'. relabel pid new (PToken l k i) = PToken l' k' i'" for l k i by simp
  ultimately have lexed: "lex (fst (RewriteWikiLabels body pid new)) = map (relabel pid new) (lex body)"
    using lex_relabelled [of "relabel pid new" body] by (simp add: RewriteWikiLabels_def Let_def)
  have "map (\<lambda>m. (pm_Label m, pm_Kind m, pm_ID m)) (mentions_from b n (map (relabel pid new) ps)) =
      map (\<lambda>m. (if pm_Kind m = ''wiki'' \<and> pm_ID m = pid then new else pm_Label m, pm_Kind m, pm_ID m)) (mentions_from b' n' ps)"
    for b b' n n' ps
    by (induction b' n' ps arbitrary: n rule: mentions_from.induct) (auto simp: Let_def)
  then show ?thesis using lexed by (simp add: ParseMentions_def)
qed

definition linking_body :: string where
  "linking_body = ''see @[Runbook](wiki:W1) and @[dev](agent:A1)''"

theorem rewrite_keeps_links_witness:
  "map (\<lambda>m. (pm_Label m, pm_Kind m, pm_ID m)) (ParseMentions (fst (RewriteWikiLabels linking_body ''W1'' ''API runbook''))) =
     [(''API runbook'', ''wiki'', ''W1''), (''dev'', ''agent'', ''A1'')]"
proof -
  have "good_label ''API runbook''" "''W1'' \<noteq> []" "\<forall>c \<in> set ''W1''. id_char c" by code_simp+
  note links = rewrite_keeps_links [OF this, of linking_body]
  have "map (\<lambda>m. (if pm_Kind m = ''wiki'' \<and> pm_ID m = ''W1'' then ''API runbook'' else pm_Label m, pm_Kind m, pm_ID m))
      (ParseMentions linking_body) = [(''API runbook'', ''wiki'', ''W1''), (''dev'', ''agent'', ''A1'')]"
    by code_simp
  then show ?thesis using links by simp
qed


end
