(* ===== verification/Tickets.thy ===== *)
theory Tickets
  imports Service Mentions
begin

text \<open>
  The tickets service (\<^verbatim>\<open>internal/service/tickets/service.go\<close>, \<^verbatim>\<open>events.go\<close>, \<^verbatim>\<open>mentions.go\<close>): reads,
  creation with an atomically allocated key, and the patch of a ticket. A creation is split where the code
  leaves its reads and enters its transaction, because another request can run in between.
\<close>

section \<open>Attribution, streams and events\<close>

definition appendStream :: "Desk \<Rightarrow> string \<Rightarrow> StreamKind \<Rightarrow> (string \<times> json) list \<Rightarrow> unit svc" where
  "appendStream d tid kind payload = (\<lambda>w. writing (TicketStream_Append (dk_faults d)
     \<lparr> se_ID = dk_newid d ''stream'' 0 w, se_TicketID = tid, se_Kind = kind, se_ActorKind = actor_kind d ActorSystem,
       se_ActorID = actor_id d, se_Body = '''', se_Payload = Raw (obj payload), se_RunID = None,
       se_EditedAt = None, se_CreatedAt = dk_now d \<rparr>) w)"

text \<open>Best effort: a lookup that fails leaves its field empty.\<close>

definition normalizedTicket :: "Desk \<Rightarrow> Ticket \<Rightarrow> World \<Rightarrow> json" where
  "normalizedTicket d tk w =
     (let f = dk_faults d;
          col = (case Columns_ByID f (tk_ColumnID tk) w of Inl _ \<Rightarrow> ('''', '''')
                 | Inr c \<Rightarrow> (col_Name c, ColumnCategory_str (col_Category c)));
          assignee = (case tk_AssigneeID tk of None \<Rightarrow> '''' | Some u \<Rightarrow>
                       (case Users_ByID f u w of Inl _ \<Rightarrow> '''' | Inr x \<Rightarrow> us_DisplayName x));
          delegate = (case tk_DelegateAgentID tk of None \<Rightarrow> '''' | Some a \<Rightarrow>
                       (case Agents_ByID f a w of Inl _ \<Rightarrow> '''' | Inr x \<Rightarrow> ag_Name x));
          labels = (case Labels_ForTicket f (tk_ID tk) w of Inl _ \<Rightarrow> [] | Inr ls \<Rightarrow> map lb_Name ls)
      in obj [(''key'', JStr (tk_Key tk)), (''title'', JStr (tk_Title tk)), (''column'', JStr (fst col)),
              (''category'', JStr (snd col)), (''priority'', JStr (Priority_str (tk_Priority tk))),
              (''assignee'', JStr assignee), (''delegate'', JStr delegate), (''labels'', JArr (map JStr labels))])"

text \<open>Without an actor the kind is left empty, which the bus reads as the system.\<close>

definition ticket_event :: "Desk \<Rightarrow> string \<Rightarrow> string \<Rightarrow> Ticket \<Rightarrow> (string \<times> json) list \<Rightarrow> World \<Rightarrow> Event" where
  "ticket_event d kind activity tk extra w = blank_Event\<lparr>
     ev_ProjectID := Some (tk_ProjectID tk), ev_Kind := kind, ev_ActivityType := activity,
     ev_ActorKind := actor_kind d ActorSystem, ev_ActorID := actor_id d,
     ev_SubjectKind := ''ticket'', ev_SubjectID := Some (tk_ID tk),
     ev_Payload := Raw (obj ((''ticket'', normalizedTicket d tk w) # extra)), ev_OccurredAt := dk_now d \<rparr>"

definition emitTicket :: "Desk \<Rightarrow> string \<Rightarrow> Ticket \<Rightarrow> (string \<times> json) list \<Rightarrow> unit svc" where
  "emitTicket d activity tk extra = doing (\<lambda>w. emit_frame (EventFrame (ticket_event d ''ticket'' activity tk extra w)) w)"

definition ticket_snapshot :: "Desk \<Rightarrow> Ticket \<Rightarrow> (string \<times> string) list" where
  "ticket_snapshot d tk =
     (let o1 = (\<lambda>x. case x of None \<Rightarrow> ''null'' | Some s \<Rightarrow> s); i1 = (\<lambda>x. case x of None \<Rightarrow> ''null'' | Some n \<Rightarrow> fmt_int n) in
      [(''ID'', tk_ID tk), (''ProjectID'', tk_ProjectID tk), (''Seq'', fmt_int (tk_Seq tk)), (''Key'', tk_Key tk),
       (''Title'', tk_Title tk), (''Description'', tk_Description tk), (''ColumnID'', tk_ColumnID tk),
       (''Position'', dk_num d (tk_Position tk)), (''Priority'', Priority_str (tk_Priority tk)),
       (''AssigneeID'', o1 (tk_AssigneeID tk)), (''DelegateAgentID'', o1 (tk_DelegateAgentID tk)),
       (''ParentID'', o1 (tk_ParentID tk)), (''PRNumber'', i1 (tk_PRNumber tk)), (''PRState'', o1 (tk_PRState tk)),
       (''PRChecks'', o1 (tk_PRChecks tk)), (''PRAdditions'', i1 (tk_PRAdditions tk)),
       (''PRDeletions'', i1 (tk_PRDeletions tk)), (''Branch'', o1 (tk_Branch tk)),
       (''Origin'', TicketOrigin_str (tk_Origin tk)), (''CreatedByUserID'', o1 (tk_CreatedByUserID tk)),
       (''CreatedByAgentID'', o1 (tk_CreatedByAgentID tk)), (''ArchivedAt'', o1 (tk_ArchivedAt tk)),
       (''CreatedAt'', tk_CreatedAt tk), (''UpdatedAt'', tk_UpdatedAt tk)])"

section \<open>Positions\<close>

definition PositionGap :: rat where "PositionGap = 1024"

text \<open>Each floating point operation rounds; zero means no neighbour.\<close>

definition PositionBetween :: "Desk \<Rightarrow> rat \<Rightarrow> rat \<Rightarrow> rat" where
  "PositionBetween d before after =
     (let rnd = dk_round d in
      if before = 0 \<and> after = 0 then PositionGap
      else if after = 0 then rnd (before + PositionGap)
      else if before = 0 then rnd (after / 2)
      else rnd (before + rnd (rnd (after - before) / 2)))"

definition lastPosition :: "Desk \<Rightarrow> string \<Rightarrow> rat svc" where
  "lastPosition d cid = andThen (reading (Tickets_ForColumn (dk_faults d) cid)) (\<lambda>ts.
     ret (if ts = [] then 0 else tk_Position (last ts)))"

section \<open>Reads\<close>

record TicketWithMeta =
  tm_Ticket :: Ticket
  tm_Category :: "ColumnCategory option"
  tm_LabelIDs :: "string list"
  tm_CriteriaTotal :: int
  tm_CriteriaChecked :: int

record Detail =
  dt_Meta :: TicketWithMeta
  dt_Criteria :: "Criterion list"
  dt_Labels :: "Label list"
  dt_Children :: "TicketWithMeta list"

text \<open>A Go map from columns to categories; a column it does not hold has the empty category.\<close>

definition categoriesByColumn :: "Desk \<Rightarrow> string \<Rightarrow> (string \<Rightarrow> ColumnCategory option) svc" where
  "categoriesByColumn d pid = andThen (reading (Columns_ForProject (dk_faults d) pid)) (\<lambda>cols.
     ret (map_of (rev (map (\<lambda>c. (col_ID c, col_Category c)) cols))))"

definition TicketList :: "Desk \<Rightarrow> string \<Rightarrow> bool \<Rightarrow> TicketWithMeta list svc" where
  "TicketList d key includeArchived =
     (let f = dk_faults d in
      andThen (reading (Projects_ByKey f key)) (\<lambda>p.
      andThen (reading (if includeArchived then Tickets_ForProjectIncludingArchived f (prj_ID p)
                        else Tickets_ForProject f (prj_ID p))) (\<lambda>tks.
      andThen (categoriesByColumn d (prj_ID p)) (\<lambda>cats.
      andThen (reading (Labels_IDsForProjectTickets f (prj_ID p))) (\<lambda>labelIDs.
      andThen (reading (Criteria_CountsForProjectTickets f (prj_ID p))) (\<lambda>counts.
      ret (map (\<lambda>tk. \<lparr> tm_Ticket = tk, tm_Category = cats (tk_ColumnID tk), tm_LabelIDs = labelIDs (tk_ID tk),
                 tm_CriteriaTotal = cc_Total (counts (tk_ID tk)),
                 tm_CriteriaChecked = cc_Checked (counts (tk_ID tk)) \<rparr>) tks)))))))"

fun child_rows :: "Desk \<Rightarrow> (string \<Rightarrow> ColumnCategory option) \<Rightarrow> (string \<Rightarrow> CriteriaCounts) \<Rightarrow> Ticket list \<Rightarrow> TicketWithMeta list svc" where
  "child_rows d cats counts [] = ret []"
| "child_rows d cats counts (c # cs) =
     andThen (reading (Labels_ForTicket (dk_faults d) (tk_ID c))) (\<lambda>ls.
     andThen (child_rows d cats counts cs) (\<lambda>rows.
     ret (\<lparr> tm_Ticket = c, tm_Category = cats (tk_ColumnID c), tm_LabelIDs = map lb_ID ls,
            tm_CriteriaTotal = cc_Total (counts (tk_ID c)), tm_CriteriaChecked = cc_Checked (counts (tk_ID c)) \<rparr> # rows)))"

definition TicketGet :: "Desk \<Rightarrow> string \<Rightarrow> Detail svc" where
  "TicketGet d i =
     (let f = dk_faults d in
      andThen (reading (Tickets_ByID f i)) (\<lambda>tk.
      andThen (categoriesByColumn d (tk_ProjectID tk)) (\<lambda>cats.
      andThen (reading (Criteria_ForTicket f i)) (\<lambda>crit.
      andThen (reading (Labels_ForTicket f i)) (\<lambda>labels.
      andThen (reading (Tickets_Children f i)) (\<lambda>children.
      andThen (reading (Criteria_CountsForProjectTickets f (tk_ProjectID tk))) (\<lambda>counts.
      andThen (child_rows d cats counts children) (\<lambda>rows.
      ret \<lparr> dt_Meta = \<lparr> tm_Ticket = tk, tm_Category = cats (tk_ColumnID tk), tm_LabelIDs = map lb_ID labels,
              tm_CriteriaTotal = int (length crit), tm_CriteriaChecked = count_if cr_Checked crit \<rparr>,
            dt_Criteria = crit, dt_Labels = labels, dt_Children = rows \<rparr>))))))))"

definition TicketStreamOf :: "Desk \<Rightarrow> string \<Rightarrow> StreamEntry list svc" where
  "TicketStreamOf d i = andThen (reading (Tickets_ByID (dk_faults d) i)) (\<lambda>_.
     reading (TicketStream_ForTicket (dk_faults d) i))"

definition withMeta :: "Desk \<Rightarrow> Ticket \<Rightarrow> TicketWithMeta svc" where
  "withMeta d tk =
     (let f = dk_faults d in
      andThen (reading (Columns_ByID f (tk_ColumnID tk))) (\<lambda>col.
      andThen (reading (Labels_ForTicket f (tk_ID tk))) (\<lambda>labels.
      andThen (reading (Criteria_CountsForTicket f (tk_ID tk))) (\<lambda>counts.
      ret \<lparr> tm_Ticket = tk, tm_Category = Some (col_Category col), tm_LabelIDs = map lb_ID labels,
            tm_CriteriaTotal = cc_Total counts, tm_CriteriaChecked = cc_Checked counts \<rparr>))))"

section \<open>Mentions of a body\<close>

text \<open>Whether the target of a token resolves, and the agent if it is one.\<close>

definition mention_target :: "Desk \<Rightarrow> string \<Rightarrow> Parsed_mention \<Rightarrow> (bool \<times> Agent option) svc" where
  "mention_target d pid p =
     (let f = dk_faults d in
      if pm_Kind p = ''user'' then
        andThen (looking (Users_ByID f (pm_ID p))) (\<lambda>u. ret (u \<noteq> None, None))
      else if pm_Kind p = ''agent'' then
        andThen (looking (Agents_ByID f (pm_ID p))) (\<lambda>a. ret (case a of None \<Rightarrow> (False, None)
          | Some a \<Rightarrow> if ag_ProjectID a \<noteq> pid \<or> ag_ArchivedAt a \<noteq> None then (False, None) else (True, Some a)))
      else if pm_Kind p = ''ticket'' then
        andThen (looking (Tickets_ByID f (pm_ID p))) (\<lambda>t. ret (case t of None \<Rightarrow> False
          | Some t \<Rightarrow> tk_ProjectID t = pid, None))
      else if pm_Kind p = ''wiki'' then
        andThen (looking (Wiki_ByID f (pm_ID p))) (\<lambda>x. ret (case x of None \<Rightarrow> False
          | Some x \<Rightarrow> wp_ProjectID x = pid \<and> wp_ArchivedAt x = None, None))
      else ret (True, None))"

fun resolve_mentions :: "Desk \<Rightarrow> string \<Rightarrow> nat \<Rightarrow> Parsed_mention list \<Rightarrow> Mention list \<Rightarrow> Agent list \<Rightarrow> (Mention list \<times> Agent list) svc" where
  "resolve_mentions d pid n [] rows agents = ret (rows, agents)"
| "resolve_mentions d pid n (p # ps) rows agents =
     andThen (mention_target d pid p) (\<lambda>(found, agent).
     if \<not> found then resolve_mentions d pid n ps rows agents
     else andThen (asking (dk_newid d ''mention'' n)) (\<lambda>i.
       resolve_mentions d pid (Suc n) ps
         (rows @ [\<lparr> mn_ID = i, mn_ProjectID = pid, mn_FromKind = '''', mn_FromID = '''', mn_ToKind = pm_Kind p,
                     mn_ToID = pm_ID p, mn_Linked = True, mn_ContextText = pm_Context p \<rparr>])
         (case agent of None \<Rightarrow> agents
          | Some a \<Rightarrow> if list_ex (\<lambda>x. ag_ID x = ag_ID a) agents then agents else agents @ [a])))"

definition resolveMentions :: "Desk \<Rightarrow> string \<Rightarrow> Parsed_mention list \<Rightarrow> (Mention list \<times> Agent list) svc" where
  "resolveMentions d pid parsed = resolve_mentions d pid 0 parsed [] []"

definition writeMentions :: "Desk \<Rightarrow> string \<Rightarrow> string \<Rightarrow> Mention list \<Rightarrow> unit svc" where
  "writeMentions d kind fid rows = writing (Mentions_ReplaceForSource (dk_faults d) kind fid
     (map (\<lambda>m. m\<lparr> mn_FromKind := kind, mn_FromID := fid \<rparr>) rows))"

section \<open>Creation\<close>

record CreateInput =
  ci_Title :: string
  ci_Description :: string
  ci_Priority :: string
  ci_ColumnID :: string
  ci_AssigneeID :: string
  ci_DelegateAgentID :: string
  ci_ParentID :: string

definition priority_of :: "string \<Rightarrow> Priority option" where
  "priority_of s = find (\<lambda>p. Priority_str p = s)
     [PriorityNone, PriorityLow, PriorityMedium, PriorityHigh, PriorityUrgent]"

definition stampCreator :: "Desk \<Rightarrow> Ticket \<Rightarrow> Ticket" where
  "stampCreator d tk =
     (case dk_actor d of
        Some (ActorHuman, i) \<Rightarrow> if i = [] then tk else tk\<lparr> tk_CreatedByUserID := Some i \<rparr>
      | Some (ActorAgent, i) \<Rightarrow> (if i = [] then tk else tk\<lparr> tk_CreatedByAgentID := Some i \<rparr>)\<lparr> tk_Origin := OriginAgent \<rparr>
      | Some (ActorTrigger, i) \<Rightarrow> tk\<lparr> tk_Origin := OriginTrigger \<rparr>
      | _ \<Rightarrow> tk)"

definition problem :: "string \<Rightarrow> string \<Rightarrow> FieldError" where
  "problem field msg = \<lparr> fe_Field = field, fe_Message = msg \<rparr>"

definition resolveColumn :: "Desk \<Rightarrow> string \<Rightarrow> string \<Rightarrow> (Column option \<times> FieldError list) svc" where
  "resolveColumn d pid cid =
     (let f = dk_faults d; none = (None, [problem ''column_id'' ''No such column on this board.'']) in
      if cid = [] then
        andThen (reading (Columns_ByCategory f pid CategoryBacklog)) (\<lambda>cols. ret (case cols of
          [] \<Rightarrow> (None, [problem ''column_id'' ''The project has no backlog column; name a column explicitly.''])
        | c # _ \<Rightarrow> (Some c, [])))
      else andThen (looking (Columns_ByID f cid)) (\<lambda>c. ret (case c of None \<Rightarrow> none
          | Some c \<Rightarrow> if col_ProjectID c \<noteq> pid then none else (Some c, []))))"

definition resolveAssignee :: "Desk \<Rightarrow> string \<Rightarrow> (string option \<times> FieldError list) svc" where
  "resolveAssignee d uid =
     (if uid = [] then ret (None, [])
      else andThen (looking (Users_ByID (dk_faults d) uid)) (\<lambda>u. ret (case u of
          None \<Rightarrow> (None, [problem ''assignee_id'' ''No such user.'']) | Some _ \<Rightarrow> (Some uid, []))))"

definition resolveDelegate :: "Desk \<Rightarrow> string \<Rightarrow> string \<Rightarrow> (string option \<times> FieldError list) svc" where
  "resolveDelegate d pid aid =
     (let none = (None, [problem ''delegate_agent_id'' ''No such agent in this project.'']) in
      if aid = [] then ret (None, [])
      else andThen (looking (Agents_ByID (dk_faults d) aid)) (\<lambda>a. ret (case a of None \<Rightarrow> none
          | Some a \<Rightarrow> if ag_ProjectID a \<noteq> pid \<or> ag_ArchivedAt a \<noteq> None then none else (Some aid, []))))"

text \<open>The error of a parent that cannot take a child, if it cannot.\<close>

definition parentOK :: "Ticket \<Rightarrow> string \<Rightarrow> svc_err option" where
  "parentOK parent pid =
     (if tk_ProjectID parent \<noteq> pid then Some (fieldErr ''parent_id'' ''No such ticket in this project.'')
      else if tk_ArchivedAt parent \<noteq> None then Some (SeArchived (tk_Key parent))
      else if tk_ParentID parent \<noteq> None then Some (SeDepth (tk_Key parent))
      else None)"

definition resolve_parent :: "Desk \<Rightarrow> string \<Rightarrow> string \<Rightarrow> Ticket option svc" where
  "resolve_parent d pid i =
     (if i = [] then ret None
      else andThen (looking (Tickets_ByID (dk_faults d) i)) (\<lambda>pt. case pt of
          None \<Rightarrow> fail (fieldErr ''parent_id'' ''No such ticket in this project.'')
        | Some pt \<Rightarrow> (case parentOK pt pid of Some e \<Rightarrow> fail e | None \<Rightarrow> ret (Some pt))))"

text \<open>What a creation has read before its transaction.\<close>

record CreatePlan =
  cp_Project :: Project
  cp_Column :: Column
  cp_Ticket :: Ticket
  cp_Mentions :: "Mention list"

definition Create_prepare :: "Desk \<Rightarrow> string \<Rightarrow> CreateInput \<Rightarrow> CreatePlan svc" where
  "Create_prepare d key inp =
     (let f = dk_faults d; title = trim_space (ci_Title inp);
          pr = (if ci_Priority inp = [] then Priority_str PriorityNone else ci_Priority inp) in
      andThen (reading (Projects_ByKey f key)) (\<lambda>p.
      andThen (resolveColumn d (prj_ID p) (ci_ColumnID inp)) (\<lambda>(col, e1).
      andThen (resolveAssignee d (ci_AssigneeID inp)) (\<lambda>(assignee, e2).
      andThen (resolveDelegate d (prj_ID p) (ci_DelegateAgentID inp)) (\<lambda>(delegate, e3).
      case ((if title = [] then [problem ''title'' ''Title is required.''] else []) @
            (if Priority_IsValid pr then [] else [problem ''priority'' ''One of none, low, medium, high, urgent.'']) @
            e1 @ e2 @ e3, col) of
        ([], Some col) \<Rightarrow>
          andThen (resolve_parent d (prj_ID p) (ci_ParentID inp)) (\<lambda>parent.
          andThen (resolveMentions d (prj_ID p) (ParseMentions (ci_Description inp))) (\<lambda>(rows, _).
          andThen (asking (dk_newid d ''ticket'' 0)) (\<lambda>i.
          ret \<lparr> cp_Project = p, cp_Column = col,
            cp_Ticket = stampCreator d (blank_Ticket\<lparr> tk_ID := i, tk_ProjectID := prj_ID p, tk_Title := title,
              tk_Description := ci_Description inp, tk_ColumnID := col_ID col,
              tk_Priority := (case priority_of pr of None \<Rightarrow> PriorityNone | Some x \<Rightarrow> x), tk_AssigneeID := assignee,
              tk_DelegateAgentID := delegate, tk_Origin := OriginHuman, tk_ParentID := map_option tk_ID parent,
              tk_CreatedAt := dk_now d, tk_UpdatedAt := dk_now d \<rparr>),
            cp_Mentions = rows \<rparr>)))
      | (errs, _) \<Rightarrow> fail (SeFields errs))))))"

definition Create_tx :: "Desk \<Rightarrow> CreatePlan \<Rightarrow> Ticket svc" where
  "Create_tx d p =
     (let f = dk_faults d; col = cp_Column p in
      andThen (writing (Projects_AllocateTicketSeq f (prj_ID (cp_Project p)))) (\<lambda>seq.
      andThen (lastPosition d (col_ID col)) (\<lambda>pos.
      let tk = (cp_Ticket p)\<lparr> tk_Seq := seq, tk_Key := prj_Key (cp_Project p) @ ''-'' @ fmt_int seq,
                 tk_Position := PositionBetween d pos 0 \<rparr> in
      andThen (writing (Tickets_Create f tk)) (\<lambda>_.
      andThen (if cp_Mentions p = [] then ret () else writeMentions d ''ticket'' (tk_ID tk) (cp_Mentions p)) (\<lambda>_.
      andThen (appendStream d (tk_ID tk) StreamFieldChange [(''event'', JStr ''created''),
        (''column_id'', JStr (col_ID col)), (''category'', JStr (ColumnCategory_str (col_Category col)))]) (\<lambda>_.
      ret tk))))))"

definition Create_commit :: "Desk \<Rightarrow> CreatePlan \<Rightarrow> TicketWithMeta svc" where
  "Create_commit d p =
     andThen (transact (dk_faults d) (Create_tx d p)) (\<lambda>tk.
     andThen (svc_audit d ''ticket.create'' ''ticket'' (tk_ID tk) (prj_ID (cp_Project p)) '''' [] (ticket_snapshot d tk)) (\<lambda>_.
     andThen (emitTicket d ''created'' tk []) (\<lambda>_.
     ret \<lparr> tm_Ticket = tk, tm_Category = Some (col_Category (cp_Column p)), tm_LabelIDs = [],
           tm_CriteriaTotal = 0, tm_CriteriaChecked = 0 \<rparr>)))"

definition TicketCreate :: "Desk \<Rightarrow> string \<Rightarrow> CreateInput \<Rightarrow> TicketWithMeta svc" where
  "TicketCreate d key inp = andThen (Create_prepare d key inp) (Create_commit d)"

section \<open>The patch\<close>

datatype OptStr = OptAbsent | OptNull | OptValue string

record UpdatePatch =
  pt_Title :: "string option"
  pt_Description :: "string option"
  pt_Priority :: "string option"
  pt_AssigneeID :: OptStr
  pt_DelegateAgentID :: OptStr
  pt_ParentID :: OptStr

text \<open>The draft a patch works on: the ticket, the problems, the edited fields and the stream rows.\<close>

record Draft =
  dr_Ticket :: Ticket
  dr_Errs :: "FieldError list"
  dr_Edited :: "string list"
  dr_Stream :: "(string \<times> json) list list"

definition patch_text :: "UpdatePatch \<Rightarrow> Draft \<Rightarrow> Draft" where
  "patch_text p r =
     (let r = (case pt_Title p of None \<Rightarrow> r
        | Some t \<Rightarrow>
            if trim_space t = [] then r\<lparr> dr_Errs := dr_Errs r @ [problem ''title'' ''Title is required.''] \<rparr>
            else if trim_space t \<noteq> tk_Title (dr_Ticket r)
            then r\<lparr> dr_Ticket := (dr_Ticket r)\<lparr> tk_Title := trim_space t \<rparr>, dr_Edited := dr_Edited r @ [''title''] \<rparr>
            else r);
          r = (case pt_Description p of None \<Rightarrow> r
        | Some t \<Rightarrow>
            if t \<noteq> tk_Description (dr_Ticket r)
            then r\<lparr> dr_Ticket := (dr_Ticket r)\<lparr> tk_Description := t \<rparr>, dr_Edited := dr_Edited r @ [''description''] \<rparr>
            else r)
      in (case pt_Priority p of None \<Rightarrow> r
        | Some s \<Rightarrow>
            (case priority_of s of
               None \<Rightarrow> r\<lparr> dr_Errs := dr_Errs r @ [problem ''priority'' ''One of none, low, medium, high, urgent.''] \<rparr>
             | Some x \<Rightarrow>
                 if x \<noteq> tk_Priority (dr_Ticket r)
                 then r\<lparr> dr_Ticket := (dr_Ticket r)\<lparr> tk_Priority := x \<rparr>, dr_Edited := dr_Edited r @ [''priority''] \<rparr>
                 else r)))"

text \<open>An empty id resolves to nobody, whose id the code then reads: a nil dereference.\<close>

definition patch_assignee :: "Desk \<Rightarrow> UpdatePatch \<Rightarrow> Draft \<Rightarrow> Draft svc" where
  "patch_assignee d p r =
     (let tk = dr_Ticket r in
      case pt_AssigneeID p of
        OptAbsent \<Rightarrow> ret r
      | OptNull \<Rightarrow> ret (if tk_AssigneeID tk = None then r
          else r\<lparr> dr_Ticket := tk\<lparr> tk_AssigneeID := None \<rparr>, dr_Stream := dr_Stream r @ [[(''event'', JStr ''unassigned'')]] \<rparr>)
      | OptValue v \<Rightarrow>
          andThen (resolveAssignee d v) (\<lambda>(next, errs).
          if errs \<noteq> [] then ret (r\<lparr> dr_Errs := dr_Errs r @ errs \<rparr>)
          else (case next of
              None \<Rightarrow> fail SePanic
            | Some x \<Rightarrow> ret (if tk_AssigneeID tk = Some x then r
                else r\<lparr> dr_Ticket := tk\<lparr> tk_AssigneeID := Some x \<rparr>,
                       dr_Stream := dr_Stream r @ [[(''event'', JStr ''assigned''), (''assignee_id'', JStr x)]] \<rparr>))))"

definition patch_delegate :: "Desk \<Rightarrow> UpdatePatch \<Rightarrow> Draft \<Rightarrow> Draft svc" where
  "patch_delegate d p r =
     (let tk = dr_Ticket r in
      case pt_DelegateAgentID p of
        OptAbsent \<Rightarrow> ret r
      | OptNull \<Rightarrow> ret (if tk_DelegateAgentID tk = None then r
          else r\<lparr> dr_Ticket := tk\<lparr> tk_DelegateAgentID := None \<rparr>, dr_Stream := dr_Stream r @ [[(''event'', JStr ''undelegated'')]] \<rparr>)
      | OptValue v \<Rightarrow>
          andThen (resolveDelegate d (tk_ProjectID tk) v) (\<lambda>(next, errs).
          if errs \<noteq> [] then ret (r\<lparr> dr_Errs := dr_Errs r @ errs \<rparr>)
          else (case next of
              None \<Rightarrow> fail SePanic
            | Some x \<Rightarrow> ret (if tk_DelegateAgentID tk = Some x then r
                else r\<lparr> dr_Ticket := tk\<lparr> tk_DelegateAgentID := Some x \<rparr>,
                       dr_Stream := dr_Stream r @ [[(''event'', JStr ''delegated''), (''delegate_agent_id'', JStr x)]] \<rparr>))))"

definition patch_parent :: "Desk \<Rightarrow> UpdatePatch \<Rightarrow> Draft \<Rightarrow> Draft svc" where
  "patch_parent d p r =
     (let tk = dr_Ticket r; f = dk_faults d;
          bad = (\<lambda>m. ret (r\<lparr> dr_Errs := dr_Errs r @ [problem ''parent_id'' m] \<rparr>)) in
      case pt_ParentID p of
        OptAbsent \<Rightarrow> ret r
      | OptNull \<Rightarrow> ret (if tk_ParentID tk = None then r
          else r\<lparr> dr_Ticket := tk\<lparr> tk_ParentID := None \<rparr>,
                 dr_Stream := dr_Stream r @ [[(''event'', JStr ''detached_from_parent'')]] \<rparr>)
      | OptValue v \<Rightarrow>
          if tk_ParentID tk = Some v then ret r
          else if v = tk_ID tk then bad ''A ticket cannot be its own parent.''
          else andThen (looking (Tickets_ByID f v)) (\<lambda>parent. case parent of
              None \<Rightarrow> bad ''No such ticket in this project.''
            | Some parent \<Rightarrow>
                (case parentOK parent (tk_ProjectID tk) of
                   Some e \<Rightarrow> fail e
                 | None \<Rightarrow>
                     andThen (reading (Tickets_CountChildren f (tk_ID tk))) (\<lambda>n.
                     ensure (n \<le> 0) (SeDepth (tk_Key tk))
                       (ret (r\<lparr> dr_Ticket := tk\<lparr> tk_ParentID := Some (tk_ID parent) \<rparr>,
                          dr_Stream := dr_Stream r @ [[(''event'', JStr ''reparented''), (''parent_id'', JStr (tk_ID parent))]] \<rparr>))))))"

text \<open>The transaction of a patch: the row before, the row after and whether anything changed.\<close>

definition Update_tx :: "Desk \<Rightarrow> string \<Rightarrow> UpdatePatch \<Rightarrow> (Ticket \<times> Ticket \<times> bool) svc" where
  "Update_tx d i p =
     (let f = dk_faults d in
      andThen (reading (Tickets_ByID f i)) (\<lambda>before.
      ensure (tk_ArchivedAt before = None) (SeArchived (tk_Key before))
     (andThen (patch_assignee d p (patch_text p \<lparr> dr_Ticket = before, dr_Errs = [], dr_Edited = [], dr_Stream = [] \<rparr>)) (\<lambda>r.
      andThen (patch_delegate d p r) (\<lambda>r.
      andThen (patch_parent d p r) (\<lambda>r.
      ensure (dr_Errs r = []) (SeFields (dr_Errs r))
     (let stream = dr_Stream r @ (if dr_Edited r = [] then []
            else [[(''event'', JStr ''updated''), (''fields'', JArr (map JStr (dr_Edited r)))]]);
          tk = (dr_Ticket r)\<lparr> tk_UpdatedAt := dk_now d \<rparr> in
      if stream = [] then ret (before, dr_Ticket r, False)
      else andThen (writing (Tickets_Update f tk)) (\<lambda>_.
        andThen (if tk_Description tk = tk_Description before then ret ()
                 else andThen (resolveMentions d (tk_ProjectID tk) (ParseMentions (tk_Description tk))) (\<lambda>(rows, _).
                   writeMentions d ''ticket'' (tk_ID tk) rows)) (\<lambda>_.
        andThen (each (appendStream d (tk_ID tk) StreamFieldChange) stream) (\<lambda>_.
        ret (before, tk, True)))))))))))"

definition TicketUpdate :: "Desk \<Rightarrow> string \<Rightarrow> UpdatePatch \<Rightarrow> TicketWithMeta svc" where
  "TicketUpdate d i p =
     andThen (transact (dk_faults d) (Update_tx d i p)) (\<lambda>(before, tk, changed).
     andThen (if changed
              then andThen (svc_audit d ''ticket.update'' ''ticket'' (tk_ID tk) (tk_ProjectID tk) ''''
                     (ticket_snapshot d before) (ticket_snapshot d tk)) (\<lambda>_. emitTicket d ''updated'' tk [])
              else ret ()) (\<lambda>_.
     withMeta d tk))"

end
