(* ===== verification/TicketMoves.thy ===== *)
theory TicketMoves
  imports Tickets
begin

text \<open>
  Moves of a ticket and what starts or stops work because of them (\<^verbatim>\<open>internal/service/tickets/move.go\<close>,
  \<^verbatim>\<open>delegate.go\<close>): placement in a column by fractional positions with renumbering when the numbers
  run out, the category moves of the scheduler and of trigger actions, column auto-start, archiving and
  sub-tickets.
\<close>

section \<open>Placement\<close>

record MoveInput =
  mi_ColumnID :: string
  mi_Position :: "rat option"
  mi_AfterID :: OptStr

fun index_where :: "('a \<Rightarrow> bool) \<Rightarrow> 'a list \<Rightarrow> nat option" where
  "index_where p [] = None"
| "index_where p (x # xs) = (if p x then Some 0 else map_option Suc (index_where p xs))"

text \<open>The slot among the other tickets of the column; appended unless the input says otherwise.\<close>

definition slot_of :: "OptStr \<Rightarrow> string \<Rightarrow> Ticket list \<Rightarrow> svc_err + nat" where
  "slot_of after self rest =
     (case after of
        OptAbsent \<Rightarrow> Inr (length rest)
      | OptNull \<Rightarrow> Inr 0
      | OptValue v \<Rightarrow>
          if v = self then Inl (fieldErr ''after_ticket_id'' ''A ticket cannot be placed after itself.'')
          else (case index_where (\<lambda>t. tk_ID t = v) rest of
                  None \<Rightarrow> Inl (fieldErr ''after_ticket_id'' ''No such ticket in the destination column.'')
                | Some i \<Rightarrow> Inr (Suc i)))"

text \<open>Renumbering: the \<^verbatim>\<open>n\<close>-th ticket of the column gets \<^verbatim>\<open>n\<close> gaps; the mover is written by the caller.\<close>

fun renumber :: "Desk \<Rightarrow> string \<Rightarrow> nat \<Rightarrow> Ticket list \<Rightarrow> rat \<Rightarrow> rat svc" where
  "renumber d self n [] out = ret out"
| "renumber d self n (t # ts) out =
     (let p = dk_round d (of_nat (n + 1) * PositionGap) in
      if tk_ID t = self then renumber d self (Suc n) ts p
      else andThen (writing (Tickets_SetPosition (dk_faults d) (tk_ID t) p (dk_now d))) (\<lambda>_.
             renumber d self (Suc n) ts out))"

definition neighbours :: "Ticket list \<Rightarrow> nat \<Rightarrow> rat \<times> rat" where
  "neighbours rest idx =
     (if 0 < idx then tk_Position (rest ! (idx - 1)) else 0, if idx < length rest then tk_Position (rest ! idx) else 0)"

definition placeTicket :: "Desk \<Rightarrow> Ticket \<Rightarrow> string \<Rightarrow> MoveInput \<Rightarrow> rat svc" where
  "placeTicket d tk cid inp =
     (case mi_Position inp of
        Some p \<Rightarrow> ensure (0 < p) (fieldErr ''position'' ''Positions are positive numbers.'') (ret p)
      | None \<Rightarrow>
          andThen (reading (Tickets_ForColumn (dk_faults d) cid)) (\<lambda>all.
          let rest = filter (\<lambda>t. tk_ID t \<noteq> tk_ID tk) all in
          case slot_of (mi_AfterID inp) (tk_ID tk) rest of
            Inl e \<Rightarrow> fail e
          | Inr idx \<Rightarrow>
              (let (lo, hi) = neighbours rest idx; pos = PositionBetween d lo hi in
               if lo < pos \<and> (hi = 0 \<or> pos < hi) then ret pos
               else renumber d (tk_ID tk) 0 (take idx rest @ tk # drop idx rest) 0)))"

section \<open>The drag\<close>

record moveResult =
  mr_before :: Ticket
  mr_after :: Ticket
  mr_fromCol :: Column
  mr_toCol :: Column

definition moved_to :: "Desk \<Rightarrow> Ticket \<Rightarrow> string \<Rightarrow> rat \<Rightarrow> Ticket" where
  "moved_to d tk cid pos = tk\<lparr> tk_ColumnID := cid, tk_Position := pos, tk_UpdatedAt := dk_now d \<rparr>"

definition move_stream :: "Column \<Rightarrow> Column \<Rightarrow> (string \<times> json) list" where
  "move_stream src dst = [(''event'', JStr ''moved''), (''from_column_id'', JStr (col_ID src)),
     (''from_category'', JStr (ColumnCategory_str (col_Category src))), (''to_column_id'', JStr (col_ID dst)),
     (''to_category'', JStr (ColumnCategory_str (col_Category dst)))]"

definition Move_tx :: "Desk \<Rightarrow> string \<Rightarrow> MoveInput \<Rightarrow> moveResult svc" where
  "Move_tx d i inp =
     (let f = dk_faults d; nocol = fieldErr ''column_id'' ''No such column on this board.'' in
      andThen (reading (Tickets_ByID f i)) (\<lambda>tk.
      ensure (tk_ArchivedAt tk = None) (SeArchived (tk_Key tk))
     (ensure (mi_ColumnID inp \<noteq> []) (fieldErr ''column_id'' ''A destination column is required.'')
     (andThen (looking (Columns_ByID f (mi_ColumnID inp))) (\<lambda>toCol. case toCol of
        None \<Rightarrow> fail nocol
      | Some toCol \<Rightarrow>
          ensure (col_ProjectID toCol = tk_ProjectID tk) nocol
         (andThen (reading (Columns_ByID f (tk_ColumnID tk))) (\<lambda>fromCol.
          andThen (placeTicket d tk (col_ID toCol) inp) (\<lambda>pos.
          andThen (writing (Tickets_Move f (tk_ID tk) (col_ID toCol) pos (dk_now d))) (\<lambda>_.
          andThen (if col_ID fromCol = col_ID toCol then ret ()
                   else appendStream d (tk_ID tk) StreamStatusChange (move_stream fromCol toCol)) (\<lambda>_.
          ret \<lparr> mr_before = tk, mr_after = moved_to d tk (col_ID toCol) pos, mr_fromCol = fromCol, mr_toCol = toCol \<rparr>))))))))))"

text \<open>\<^verbatim>\<open>maybeAutoStart\<close>: the one sanctioned way in which a move starts a run. Its failures are only logged.\<close>

definition autostart_request :: "Ticket \<Rightarrow> string \<Rightarrow> RunRequest" where
  "autostart_request tk agent = blank_request\<lparr> rq_ProjectID := tk_ProjectID tk, rq_AgentID := agent,
     rq_TicketID := tk_ID tk, rq_Reason := ''column auto-start'' \<rparr>"

definition starts_run :: "moveResult \<Rightarrow> bool" where
  "starts_run res \<longleftrightarrow> col_ID (mr_fromCol res) \<noteq> col_ID (mr_toCol res) \<and> col_AutoStartDelegate (mr_toCol res) \<and>
     tk_DelegateAgentID (mr_after res) \<noteq> None"

definition request_snapshot :: "RunRequest \<Rightarrow> (string \<times> string) list" where
  "request_snapshot rq = [(''ProjectID'', rq_ProjectID rq), (''AgentID'', rq_AgentID rq), (''TicketID'', rq_TicketID rq),
     (''Reason'', rq_Reason rq), (''PromptOverride'', rq_PromptOverride rq), (''RequestedByUserID'', rq_RequestedByUserID rq)]"

definition maybeAutoStart :: "Desk \<Rightarrow> moveResult \<Rightarrow> World \<Rightarrow> World" where
  "maybeAutoStart d res w =
     (case (starts_run res, tk_DelegateAgentID (mr_after res)) of
        (True, Some agent) \<Rightarrow>
          (let rq = autostart_request (mr_after res) agent in
           case dk_request d rq w of (r, w1) \<Rightarrow>
             snd (svc_audit d ''ticket.autostart_delegate'' ''ticket'' (tk_ID (mr_after res)) (tk_ProjectID (mr_after res))
               (case r of NotImplemented \<Rightarrow> ''scheduler not implemented until S22; no run started''
                | RequestRefused e \<Rightarrow> ''scheduler refused: '' @ e | Requested i \<Rightarrow> ''run requested: '' @ i)
               [] (request_snapshot rq) w1))
      | _ \<Rightarrow> w)"

definition place_snapshot :: "Desk \<Rightarrow> Ticket \<Rightarrow> (string \<times> string) list" where
  "place_snapshot d tk = [(''column_id'', tk_ColumnID tk), (''position'', dk_num d (tk_Position tk))]"

definition move_extra :: "moveResult \<Rightarrow> (string \<times> json) list" where
  "move_extra res = [(''from_category'', JStr (ColumnCategory_str (col_Category (mr_fromCol res)))),
     (''to_category'', JStr (ColumnCategory_str (col_Category (mr_toCol res))))]"

definition TicketMove :: "Desk \<Rightarrow> string \<Rightarrow> MoveInput \<Rightarrow> TicketWithMeta svc" where
  "TicketMove d i inp =
     andThen (transact (dk_faults d) (Move_tx d i inp)) (\<lambda>res.
     andThen (svc_audit d ''ticket.move'' ''ticket'' (tk_ID (mr_after res)) (tk_ProjectID (mr_after res)) ''''
       (place_snapshot d (mr_before res)) (place_snapshot d (mr_after res))) (\<lambda>_.
     andThen (emitTicket d ''moved'' (mr_after res) (move_extra res)) (\<lambda>_.
     andThen (doing (maybeAutoStart d res)) (\<lambda>_.
     withMeta d (mr_after res)))))"

section \<open>Moves to a category\<close>

definition moveToCategory_tx :: "Desk \<Rightarrow> Ticket \<Rightarrow> Column \<Rightarrow> Column \<Rightarrow> string \<Rightarrow> moveResult svc" where
  "moveToCategory_tx d tk fromCol dest note =
     andThen (lastPosition d (col_ID dest)) (\<lambda>pos0.
     let pos = PositionBetween d pos0 0 in
     andThen (writing (Tickets_Move (dk_faults d) (tk_ID tk) (col_ID dest) pos (dk_now d))) (\<lambda>_.
     andThen (appendStream d (tk_ID tk) StreamStatusChange (move_stream fromCol dest @ [(''note'', JStr note)])) (\<lambda>_.
     ret \<lparr> mr_before = tk, mr_after = moved_to d tk (col_ID dest) pos, mr_fromCol = fromCol, mr_toCol = dest \<rparr>)))"

text \<open>\<^verbatim>\<open>None\<close> is the no-op: the ticket is archived or already in a column of the category.\<close>

definition moveToCategory :: "Desk \<Rightarrow> string \<Rightarrow> ColumnCategory \<Rightarrow> string \<Rightarrow> moveResult option svc" where
  "moveToCategory d i cat note =
     (let f = dk_faults d in
      andThen (reading (Tickets_ByID f i)) (\<lambda>tk.
      if tk_ArchivedAt tk \<noteq> None then ret None
      else andThen (reading (Columns_ByID f (tk_ColumnID tk))) (\<lambda>fromCol.
        if col_Category fromCol = cat then ret None
        else andThen (reading (Columns_ByCategory f (tk_ProjectID tk) cat)) (\<lambda>cols. case cols of
            [] \<Rightarrow> fail (SeNoColumn cat)
          | dest # _ \<Rightarrow>
              andThen (transact f (moveToCategory_tx d tk fromCol dest note)) (\<lambda>res.
              andThen (svc_audit d ''ticket.move'' ''ticket'' (tk_ID tk) (tk_ProjectID tk) note
                (place_snapshot d tk) (place_snapshot d (mr_after res))) (\<lambda>_.
              andThen (emitTicket d ''moved'' (mr_after res) (move_extra res)) (\<lambda>_.
              ret (Some res))))))))"

definition MoveTicketToCategory :: "Desk \<Rightarrow> string \<Rightarrow> ColumnCategory \<Rightarrow> string \<Rightarrow> unit svc" where
  "MoveTicketToCategory d i cat note = andThen (moveToCategory d i cat note) (\<lambda>_. ret ())"

definition TriggerMoveToCategory :: "Desk \<Rightarrow> string \<Rightarrow> ColumnCategory \<Rightarrow> string \<Rightarrow> bool svc" where
  "TriggerMoveToCategory d i cat note =
     (let f = dk_faults d in
      andThen (reading (Tickets_ByID f i)) (\<lambda>tk.
      andThen (looking (Triage_ByTicket f (tk_ID tk))) (\<lambda>it.
      ensure (case it of None \<Rightarrow> True | Some it \<Rightarrow> \<not> Unresolved it) (SePendingTriage (tk_Key tk))
     (andThen (moveToCategory d i cat note) (\<lambda>r. case r of
        None \<Rightarrow> ret False
      | Some res \<Rightarrow> andThen (doing (maybeAutoStart d res)) (\<lambda>_. ret True))))))"

section \<open>Delegation\<close>

record DelegateInput =
  di_AgentID :: string
  di_Prompt :: string

text \<open>The field problems are the second way to refuse: \<^verbatim>\<open>Inl\<close> of the result.\<close>

definition record_delegate :: "Desk \<Rightarrow> Ticket \<Rightarrow> string \<Rightarrow> unit svc" where
  "record_delegate d tk agent =
     (if tk_DelegateAgentID tk = Some agent then ret ()
      else transact (dk_faults d)
        (andThen (writing (Tickets_Update (dk_faults d) (tk\<lparr> tk_DelegateAgentID := Some agent, tk_UpdatedAt := dk_now d \<rparr>))) (\<lambda>_.
         appendStream d (tk_ID tk) StreamFieldChange [(''event'', JStr ''delegated''), (''delegate_agent_id'', JStr agent)])))"

definition Delegate :: "Desk \<Rightarrow> string \<Rightarrow> DelegateInput \<Rightarrow> (FieldError list + string) svc" where
  "Delegate d i inp =
     (let f = dk_faults d in
      andThen (reading (Tickets_ByID f i)) (\<lambda>tk.
      ensure (tk_ArchivedAt tk = None) (SeArchived (tk_Key tk))
     (if di_AgentID inp = [] then ret (Inl [problem ''agent_id'' ''An agent is required.''])
      else andThen (resolveDelegate d (tk_ProjectID tk) (di_AgentID inp)) (\<lambda>(delegate, ferr).
        case (ferr, delegate) of
          ([], Some agent) \<Rightarrow>
            andThen (reading (Agents_ByID f agent)) (\<lambda>a.
            if \<not> ag_Enabled a then ret (Inl [problem ''agent_id'' ''This agent is disabled.''])
            else andThen (record_delegate d tk agent) (\<lambda>_.
              let rq = blank_request\<lparr> rq_ProjectID := tk_ProjectID tk, rq_AgentID := agent, rq_TicketID := tk_ID tk,
                         rq_Reason := ''delegate button'', rq_PromptOverride := di_Prompt inp,
                         rq_RequestedByUserID := (case dk_actor d of Some (ActorHuman, u) \<Rightarrow> u | _ \<Rightarrow> '''') \<rparr> in
              andThen (\<lambda>w. case dk_request d rq w of (r, w1) \<Rightarrow> (Inr r, w1)) (\<lambda>r.
              let bad = (case r of Requested _ \<Rightarrow> None | RequestRefused e \<Rightarrow> Some e
                         | NotImplemented \<Rightarrow> Some ''sched: run scheduler not implemented until S22'') in
              andThen (svc_audit d ''ticket.delegate_run'' ''ticket'' (tk_ID tk) (tk_ProjectID tk)
                (case bad of None \<Rightarrow> ''run requested'' | Some e \<Rightarrow> ''scheduler refused: '' @ e)
                [] (request_snapshot rq)) (\<lambda>_.
              case r of Requested x \<Rightarrow> ret (Inr x) | RequestRefused e \<Rightarrow> fail (SeScheduler e)
              | NotImplemented \<Rightarrow> fail (SeScheduler (case bad of Some e \<Rightarrow> e | None \<Rightarrow> ''''))))))
        | _ \<Rightarrow> ret (Inl ferr)))))"

section \<open>Archiving\<close>

definition Archive :: "Desk \<Rightarrow> string \<Rightarrow> int \<Rightarrow> TicketWithMeta svc" where
  "Archive d i confirmed =
     (let f = dk_faults d in
      andThen (reading (Tickets_ByID f i)) (\<lambda>before.
      ensure (tk_ArchivedAt before = None) (SeArchived (tk_Key before))
     (andThen (reading (Runs_ForTicket f i)) (\<lambda>runs.
      let active = count_if (\<lambda>r. \<not> Terminal (run_State r)) runs in
      ensure (active = confirmed) (SeActiveRuns active confirmed)
     (andThen (\<lambda>w. case dk_cancel d i ''ticket archived'' w of
          (None, w1) \<Rightarrow> (Inr ''scheduler not implemented until S22; no runs to cancel'', w1)
        | (Some (Inl e), w1) \<Rightarrow> (Inl (SeScheduler (''cancel active runs: '' @ e)), w1)
        | (Some (Inr n), w1) \<Rightarrow> (Inr (''cancelled '' @ fmt_int n @ '' active runs''), w1)) (\<lambda>note.
      let tk = before\<lparr> tk_ArchivedAt := Some (dk_now d), tk_UpdatedAt := dk_now d \<rparr> in
      andThen (transact f (andThen (writing (Tickets_Update f tk)) (\<lambda>_.
        appendStream d (tk_ID tk) StreamStatusChange [(''event'', JStr ''archived''),
          (''active_runs_cancelled'', JNum (of_int active))]))) (\<lambda>_.
      andThen (svc_audit d ''ticket.archive'' ''ticket'' (tk_ID tk) (tk_ProjectID tk) note
        (ticket_snapshot d before) (ticket_snapshot d tk)) (\<lambda>_.
      andThen (emitTicket d ''archived'' tk []) (\<lambda>_.
      withMeta d tk)))))))))"

definition Unarchive :: "Desk \<Rightarrow> string \<Rightarrow> TicketWithMeta svc" where
  "Unarchive d i =
     (let f = dk_faults d in
      andThen (reading (Tickets_ByID f i)) (\<lambda>before.
      ensure (tk_ArchivedAt before \<noteq> None) (SeNotArchived (tk_Key before))
     (let tk = before\<lparr> tk_ArchivedAt := None, tk_UpdatedAt := dk_now d \<rparr> in
      andThen (transact f (andThen (writing (Tickets_Update f tk)) (\<lambda>_.
        appendStream d (tk_ID tk) StreamStatusChange [(''event'', JStr ''unarchived'')]))) (\<lambda>_.
      andThen (svc_audit d ''ticket.unarchive'' ''ticket'' (tk_ID tk) (tk_ProjectID tk) ''''
        (ticket_snapshot d before) (ticket_snapshot d tk)) (\<lambda>_.
      andThen (emitTicket d ''unarchived'' tk []) (\<lambda>_.
      withMeta d tk))))))"

section \<open>Sub-tickets\<close>

definition maxSubticketBatch :: nat where "maxSubticketBatch = 100"

definition sub_ticket :: "Desk \<Rightarrow> Ticket \<Rightarrow> Project \<Rightarrow> string \<Rightarrow> string \<Rightarrow> int \<Rightarrow> rat \<Rightarrow> Ticket" where
  "sub_ticket d parent p title i seq pos = stampCreator d (blank_Ticket\<lparr> tk_ID := i, tk_ProjectID := tk_ProjectID parent,
     tk_Seq := seq, tk_Key := prj_Key p @ ''-'' @ fmt_int seq, tk_Title := title, tk_ColumnID := tk_ColumnID parent,
     tk_Position := pos, tk_Priority := PriorityNone, tk_ParentID := Some (tk_ID parent), tk_Origin := OriginHuman,
     tk_CreatedAt := dk_now d, tk_UpdatedAt := dk_now d \<rparr>)"

fun create_subs :: "Desk \<Rightarrow> Ticket \<Rightarrow> Project \<Rightarrow> Column \<Rightarrow> rat \<Rightarrow> string list \<Rightarrow> Ticket list \<Rightarrow> Ticket list svc" where
  "create_subs d parent p col pos [] done_so_far = ret done_so_far"
| "create_subs d parent p col pos (t # ts) done_so_far =
     andThen (writing (Projects_AllocateTicketSeq (dk_faults d) (tk_ProjectID parent))) (\<lambda>seq.
     andThen (asking (dk_newid d ''ticket'' (length done_so_far))) (\<lambda>i.
     let pos' = PositionBetween d pos 0; tk = sub_ticket d parent p t i seq pos' in
     andThen (writing (Tickets_Create (dk_faults d) tk)) (\<lambda>_.
     andThen (appendStream d (tk_ID tk) StreamFieldChange [(''event'', JStr ''created''), (''column_id'', JStr (col_ID col)),
       (''category'', JStr (ColumnCategory_str (col_Category col))), (''parent_id'', JStr (tk_ID parent))]) (\<lambda>_.
     create_subs d parent p col pos' ts (done_so_far @ [tk])))))"

definition Subtickets :: "Desk \<Rightarrow> string \<Rightarrow> string list \<Rightarrow> TicketWithMeta list svc" where
  "Subtickets d i titles =
     (let f = dk_faults d; clean = filter (\<lambda>t. t \<noteq> []) (map trim_space titles) in
      andThen (reading (Tickets_ByID f i)) (\<lambda>parent.
      ensure (tk_ArchivedAt parent = None) (SeArchived (tk_Key parent))
     (ensure (tk_ParentID parent = None) (SeDepth (tk_Key parent))
     (ensure (clean \<noteq> []) (fieldErr ''titles'' ''At least one non-empty title is required.'')
     (ensure (length clean \<le> maxSubticketBatch)
        (fieldErr ''titles'' (''At most '' @ fmt_nat maxSubticketBatch @ '' sub-tickets per request.''))
     (andThen (reading (Columns_ByID f (tk_ColumnID parent))) (\<lambda>col.
      andThen (transact f
        (andThen (lastPosition d (tk_ColumnID parent)) (\<lambda>pos.
         andThen (reading (Projects_ByID f (tk_ProjectID parent))) (\<lambda>p.
         andThen (create_subs d parent p col pos clean []) (\<lambda>created.
         andThen (appendStream d (tk_ID parent) StreamFieldChange [(''event'', JStr ''subtickets_added''),
           (''count'', JNum (of_nat (length created))), (''keys'', JArr (map (\<lambda>t. JStr (tk_Key t)) created))]) (\<lambda>_.
         ret created)))))) (\<lambda>created.
      andThen (each (\<lambda>tk. andThen (svc_audit d ''ticket.create'' ''ticket'' (tk_ID tk) (tk_ProjectID tk)
          (''sub-ticket of '' @ tk_Key parent) [] (ticket_snapshot d tk)) (\<lambda>_.
          emitTicket d ''created'' tk [(''parent_key'', JStr (tk_Key parent))])) created) (\<lambda>_.
      ret (map (\<lambda>tk. \<lparr> tm_Ticket = tk, tm_Category = Some (col_Category col), tm_LabelIDs = [],
                 tm_CriteriaTotal = 0, tm_CriteriaChecked = 0 \<rparr>) created))))))))))"

end
