(* ===== verification/Triage.thy ===== *)
theory Triage
  imports TicketMoves Timestamps
begin

text \<open>
  Triage (\<^verbatim>\<open>internal/service/tickets/triage.go\<close>, \<^verbatim>\<open>triagequeue.go\<close>): trigger-made tickets are written into the
  queue, never onto the board, and leave it by accept, duplicate or decline; a snoozed item waits for an instant
  or for an event that concerns its ticket. The reading of RFC 3339 texts is an argument of the snooze.
\<close>

section \<open>Writing into triage\<close>

record TriggerCreateInput =
  tc_ProjectID :: string
  tc_Title :: string
  tc_Description :: string
  tc_LabelNames :: "string list"
  tc_Provenance :: string
  tc_SourceTriggerID :: string
  tc_SourceRunID :: string

definition opt_id :: "string \<Rightarrow> string option" where
  "opt_id s = (if s = [] then None else Some s)"

text \<open>Unknown names are skipped.\<close>

fun attach_ids :: "Label list \<Rightarrow> string list \<Rightarrow> string list" where
  "attach_ids labels [] = []"
| "attach_ids labels (n # ns) =
     (case find (\<lambda>l. lb_Name l = n) labels of None \<Rightarrow> attach_ids labels ns | Some l \<Rightarrow> lb_ID l # attach_ids labels ns)"

definition triage_snapshot :: "TriageItem \<Rightarrow> (string \<times> string) list" where
  "triage_snapshot it =
     (let o1 = (\<lambda>x. case x of None \<Rightarrow> ''null'' | Some s \<Rightarrow> s) in
      [(''ID'', ti_ID it), (''TicketID'', ti_TicketID it), (''Provenance'', ti_Provenance it),
       (''SourceTriggerID'', o1 (ti_SourceTriggerID it)), (''SourceRunID'', o1 (ti_SourceRunID it)),
       (''State'', TriageState_str (ti_State it)), (''DuplicateOf'', o1 (ti_DuplicateOf it)), (''Reason'', ti_Reason it),
       (''SnoozeUntil'', o1 (ti_SnoozeUntil it)), (''ResolvedBy'', o1 (ti_ResolvedBy it)),
       (''ResolvedAt'', o1 (ti_ResolvedAt it)), (''CreatedAt'', ti_CreatedAt it)])"

definition emitTriageCreated :: "Desk \<Rightarrow> Ticket \<Rightarrow> TriageItem \<Rightarrow> unit svc" where
  "emitTriageCreated d tk it = doing (\<lambda>w. emit_frame (EventFrame (blank_Event\<lparr>
     ev_ProjectID := Some (tk_ProjectID tk), ev_Kind := ''triage'', ev_ActivityType := ''created'',
     ev_ActorKind := ActorTrigger, ev_SubjectKind := ''ticket'', ev_SubjectID := Some (tk_ID tk),
     ev_Payload := Raw (obj [(''ticket'', normalizedTicket d tk w),
       (''triage'', obj [(''id'', JStr (ti_ID it)), (''provenance'', JStr (ti_Provenance it)),
         (''state'', JStr (TriageState_str (ti_State it)))])]), ev_OccurredAt := dk_now d \<rparr>)) w)"

definition CreateFromTrigger_tx :: "Desk \<Rightarrow> Project \<Rightarrow> Column \<Rightarrow> Ticket \<Rightarrow> TriageItem \<Rightarrow> string list \<Rightarrow> Ticket svc" where
  "CreateFromTrigger_tx d p col tk it attach =
     (let f = dk_faults d in
      andThen (writing (Projects_AllocateTicketSeq f (prj_ID p))) (\<lambda>seq.
      andThen (lastPosition d (col_ID col)) (\<lambda>pos.
      let tk = tk\<lparr> tk_Seq := seq, tk_Key := prj_Key p @ ''-'' @ fmt_int seq, tk_Position := PositionBetween d pos 0 \<rparr> in
      andThen (writing (Tickets_Create f tk)) (\<lambda>_.
      andThen (writing (Triage_Create f it)) (\<lambda>_.
      andThen (each (\<lambda>l. writing (Labels_Attach f (tk_ID tk) l)) attach) (\<lambda>_.
      andThen (appendStream d (tk_ID tk) StreamFieldChange [(''event'', JStr ''created''), (''column_id'', JStr (col_ID col)),
        (''category'', JStr (ColumnCategory_str (col_Category col))), (''provenance'', JStr (ti_Provenance it))]) (\<lambda>_.
      ret tk)))))))"

definition CreateFromTrigger :: "Desk \<Rightarrow> TriggerCreateInput \<Rightarrow> Ticket svc" where
  "CreateFromTrigger d inp =
     (let f = dk_faults d; title = trim_space (tc_Title inp) in
      andThen (reading (Projects_ByID f (tc_ProjectID inp))) (\<lambda>p.
      ensure (title \<noteq> []) (fieldErr ''title'' ''Title is required.'')
     (andThen (reading (Columns_ByCategory f (prj_ID p) CategoryBacklog)) (\<lambda>cols. case cols of
        [] \<Rightarrow> fail (SeNoColumn CategoryBacklog)
      | col # _ \<Rightarrow>
          andThen (reading (Labels_ForProject f (prj_ID p))) (\<lambda>labels.
          andThen (asking (dk_newid d ''ticket'' 0)) (\<lambda>i.
          andThen (asking (dk_newid d ''triage'' 0)) (\<lambda>j.
          let it = blank_TriageItem\<lparr> ti_ID := j, ti_TicketID := i, ti_Provenance := tc_Provenance inp,
                     ti_SourceTriggerID := opt_id (tc_SourceTriggerID inp), ti_SourceRunID := opt_id (tc_SourceRunID inp),
                     ti_State := TriagePending, ti_CreatedAt := dk_now d \<rparr> in
          andThen (transact f (CreateFromTrigger_tx d p col
            (blank_Ticket\<lparr> tk_ID := i, tk_ProjectID := prj_ID p, tk_Title := title, tk_Description := tc_Description inp,
               tk_ColumnID := col_ID col, tk_Priority := PriorityNone, tk_Origin := OriginTrigger,
               tk_CreatedAt := dk_now d, tk_UpdatedAt := dk_now d \<rparr>)
            it (attach_ids labels (tc_LabelNames inp)))) (\<lambda>tk.
          andThen (svc_audit d ''ticket.create_from_trigger'' ''ticket'' (tk_ID tk) (prj_ID p) (tc_Provenance inp)
            [] (ticket_snapshot d tk)) (\<lambda>_.
          andThen (emitTriageCreated d tk it) (\<lambda>_.
          ret tk))))))))))"

section \<open>The queue\<close>

record TriageListItem =
  tl_Item :: TriageItem
  tl_Ticket :: TicketWithMeta

fun triage_rows :: "Desk \<Rightarrow> (string \<Rightarrow> ColumnCategory option) \<Rightarrow> TriageItem list \<Rightarrow> TriageListItem list svc" where
  "triage_rows d cats [] = ret []"
| "triage_rows d cats (it # its) =
     (let f = dk_faults d in
      andThen (reading (Tickets_ByID f (ti_TicketID it))) (\<lambda>tk.
      andThen (reading (Labels_ForTicket f (tk_ID tk))) (\<lambda>labels.
      andThen (reading (Criteria_CountsForTicket f (tk_ID tk))) (\<lambda>counts.
      andThen (triage_rows d cats its) (\<lambda>rows.
      ret (\<lparr> tl_Item = it, tl_Ticket = \<lparr> tm_Ticket = tk, tm_Category = cats (tk_ColumnID tk),
               tm_LabelIDs = map lb_ID labels, tm_CriteriaTotal = cc_Total counts,
               tm_CriteriaChecked = cc_Checked counts \<rparr> \<rparr> # rows))))))"

definition TriageQueue :: "Desk \<Rightarrow> string \<Rightarrow> TriageListItem list svc" where
  "TriageQueue d key =
     (let f = dk_faults d in
      andThen (reading (Projects_ByKey f key)) (\<lambda>p.
      andThen (reading (Triage_UnresolvedForProject f (prj_ID p))) (\<lambda>items.
      andThen (categoriesByColumn d (prj_ID p)) (\<lambda>cats.
      triage_rows d cats items))))"

definition TriagePendingCount :: "Desk \<Rightarrow> string \<Rightarrow> int svc" where
  "TriagePendingCount d key = andThen (reading (Projects_ByKey (dk_faults d) key)) (\<lambda>p.
     reading (Triage_CountPending (dk_faults d) (prj_ID p)))"

section \<open>What the verbs share\<close>

definition unresolvedItem :: "Desk \<Rightarrow> string \<Rightarrow> (TriageItem \<times> Ticket) svc" where
  "unresolvedItem d i =
     (let f = dk_faults d in
      andThen (reading (Triage_ByID f i)) (\<lambda>it.
      ensure (Unresolved it) (SeResolved (ti_State it))
     (andThen (reading (Tickets_ByID f (ti_TicketID it))) (\<lambda>tk.
      ensure (tk_ArchivedAt tk = None) (SeArchived (tk_Key tk))
        (ret (it, tk))))))"

definition resolveItem :: "Desk \<Rightarrow> TriageItem \<Rightarrow> TriageState \<Rightarrow> TriageItem" where
  "resolveItem d it state = it\<lparr> ti_State := state, ti_SnoozeUntil := None, ti_ResolvedAt := Some (dk_now d),
     ti_ResolvedBy := (case human d of None \<Rightarrow> ti_ResolvedBy it | Some u \<Rightarrow> Some u) \<rparr>"

definition emitTriage :: "Desk \<Rightarrow> string \<Rightarrow> Ticket \<Rightarrow> TriageItem \<Rightarrow> unit svc" where
  "emitTriage d activity tk it = doing (\<lambda>w. emit_frame (EventFrame (ticket_event d ''triage'' activity tk
     [(''triage'', obj [(''id'', JStr (ti_ID it)), (''provenance'', JStr (ti_Provenance it)),
       (''state'', JStr (TriageState_str (ti_State it))), (''duplicate_of'', jopt (ti_DuplicateOf it)),
       (''reason'', JStr (ti_Reason it)), (''snooze_until'', jopt (ti_SnoozeUntil it))])] w)) w)"

definition triage_result :: "Desk \<Rightarrow> TriageItem \<Rightarrow> Ticket \<Rightarrow> TriageListItem svc" where
  "triage_result d it tk = andThen (withMeta d tk) (\<lambda>m. ret \<lparr> tl_Item = it, tl_Ticket = m \<rparr>)"

section \<open>Accept and decline\<close>

definition TriageAccept_tx :: "Desk \<Rightarrow> string \<Rightarrow> (TriageItem \<times> Ticket) svc" where
  "TriageAccept_tx d i =
     andThen (unresolvedItem d i) (\<lambda>(it, tk).
     let it = resolveItem d it TriageAccepted in
     andThen (writing (Triage_Update (dk_faults d) it)) (\<lambda>_.
     andThen (reading (Columns_ByID (dk_faults d) (tk_ColumnID tk))) (\<lambda>col.
     andThen (appendStream d (tk_ID tk) StreamStatusChange [(''event'', JStr ''triage_accepted''),
       (''column_id'', JStr (col_ID col)), (''category'', JStr (ColumnCategory_str (col_Category col)))]) (\<lambda>_.
     ret (it, tk)))))"

definition TriageAccept :: "Desk \<Rightarrow> string \<Rightarrow> TriageListItem svc" where
  "TriageAccept d i =
     andThen (transact (dk_faults d) (TriageAccept_tx d i)) (\<lambda>(it, tk).
     andThen (svc_audit d ''triage.accept'' ''triage_item'' (ti_ID it) (tk_ProjectID tk) (tk_Key tk) [] (triage_snapshot it)) (\<lambda>_.
     andThen (emitTriage d ''accepted'' tk it) (\<lambda>_.
     andThen (emitTicket d ''updated'' tk []) (\<lambda>_.
     triage_result d it tk))))"

definition TriageDecline_tx :: "Desk \<Rightarrow> string \<Rightarrow> string \<Rightarrow> (TriageItem \<times> Ticket) svc" where
  "TriageDecline_tx d i reason =
     andThen (unresolvedItem d i) (\<lambda>(it, tk).
     let it = (resolveItem d it TriageDeclined)\<lparr> ti_Reason := reason \<rparr>;
         tk = tk\<lparr> tk_ArchivedAt := Some (dk_now d), tk_UpdatedAt := dk_now d \<rparr> in
     andThen (writing (Triage_Update (dk_faults d) it)) (\<lambda>_.
     andThen (writing (Tickets_Update (dk_faults d) tk)) (\<lambda>_.
     andThen (appendStream d (tk_ID tk) StreamStatusChange [(''event'', JStr ''triage_declined''), (''reason'', JStr reason)]) (\<lambda>_.
     ret (it, tk)))))"

definition TriageDecline :: "Desk \<Rightarrow> string \<Rightarrow> string \<Rightarrow> TriageListItem svc" where
  "TriageDecline d i reason0 =
     (let reason = trim_space reason0 in
      andThen (transact (dk_faults d) (TriageDecline_tx d i reason)) (\<lambda>(it, tk).
      andThen (svc_audit d ''triage.decline'' ''triage_item'' (ti_ID it) (tk_ProjectID tk)
        (tk_Key tk @ (if reason = [] then [] else '': '' @ reason)) [] (triage_snapshot it)) (\<lambda>_.
      andThen (emitTriage d ''declined'' tk it) (\<lambda>_.
      andThen (emitTicket d ''archived'' tk []) (\<lambda>_.
      triage_result d it tk)))))"

section \<open>Duplicates\<close>

definition criterionGap :: int where "criterionGap = 1024"

definition merge_labels :: "Desk \<Rightarrow> string \<Rightarrow> string \<Rightarrow> unit svc" where
  "merge_labels d survivor dup =
     (let f = dk_faults d in
      andThen (reading (Labels_ForTicket f survivor)) (\<lambda>have.
      andThen (reading (Labels_ForTicket f dup)) (\<lambda>labels.
      each (\<lambda>l. if list_ex (\<lambda>h. lb_ID h = lb_ID l) have then ret ()
                else writing (Labels_Attach f survivor (lb_ID l))) labels)))"

fun copy_criteria :: "Desk \<Rightarrow> string \<Rightarrow> int \<Rightarrow> nat \<Rightarrow> Criterion list \<Rightarrow> unit svc" where
  "copy_criteria d survivor pos n [] = ret ()"
| "copy_criteria d survivor pos n (c # cs) =
     andThen (asking (dk_newid d ''criterion'' n)) (\<lambda>i.
     andThen (writing (Criteria_Create (dk_faults d)
       (c\<lparr> cr_ID := i, cr_TicketID := survivor, cr_Position := pos + criterionGap, cr_UpdatedAt := dk_now d \<rparr>))) (\<lambda>_.
     copy_criteria d survivor (pos + criterionGap) (Suc n) cs))"

definition merge_criteria :: "Desk \<Rightarrow> string \<Rightarrow> string \<Rightarrow> unit svc" where
  "merge_criteria d survivor dup =
     (let f = dk_faults d in
      andThen (reading (Criteria_ForTicket f survivor)) (\<lambda>own.
      andThen (reading (Criteria_ForTicket f dup)) (\<lambda>crit.
      copy_criteria d survivor (if own = [] then 0 else cr_Position (last own)) 0 crit)))"

text \<open>
  The first byte through \<^verbatim>\<open>strings.ToLower\<close>: a byte of a longer character alone is invalid text, which Go
  replaces by U+FFFD.
\<close>

fun lowerFirst :: "string \<Rightarrow> string" where
  "lowerFirst [] = []"
| "lowerFirst (c # cs) = (if of_char c < (128 :: nat) then [to_lower_char c] else map char_of [0xEF, 0xBF, 0xBD :: nat]) @ cs"

text \<open>The survivor is a live ticket of the project that is not itself in triage.\<close>

definition the_survivor :: "Desk \<Rightarrow> Ticket \<Rightarrow> string \<Rightarrow> Ticket svc" where
  "the_survivor d dup oid =
     (let f = dk_faults d; none = fieldErr ''of_ticket_id'' ''No such ticket in this project.'' in
      ensure (oid \<noteq> []) (fieldErr ''of_ticket_id'' ''Name the ticket this duplicates.'')
     (ensure (oid \<noteq> tk_ID dup) (fieldErr ''of_ticket_id'' ''A ticket cannot be a duplicate of itself.'')
     (andThen (looking (Tickets_ByID f oid)) (\<lambda>s. case s of
        None \<Rightarrow> fail none
      | Some s \<Rightarrow>
          ensure (tk_ProjectID s = tk_ProjectID dup) none
         (ensure (tk_ArchivedAt s = None) (SeArchived (tk_Key s))
         (andThen (looking (Triage_ByTicket f (tk_ID s))) (\<lambda>sit.
          ensure (case sit of None \<Rightarrow> True | Some sit \<Rightarrow> \<not> Unresolved sit)
            (fieldErr ''of_ticket_id'' (tk_Key s @ '' is itself awaiting triage; resolve it first.''))
            (ret s))))))))"

definition TriageDuplicate_tx :: "Desk \<Rightarrow> string \<Rightarrow> string \<Rightarrow> (TriageItem \<times> Ticket \<times> Ticket) svc" where
  "TriageDuplicate_tx d i oid =
     (let f = dk_faults d in
      andThen (unresolvedItem d i) (\<lambda>(it, dup0).
      andThen (the_survivor d dup0 oid) (\<lambda>survivor.
      andThen (merge_labels d (tk_ID survivor) (tk_ID dup0)) (\<lambda>_.
      andThen (merge_criteria d (tk_ID survivor) (tk_ID dup0)) (\<lambda>_.
      andThen (writing (Mentions_RedirectTarget f ''ticket'' (tk_ID dup0) (tk_ID survivor))) (\<lambda>_.
      andThen (appendStream d (tk_ID survivor) StreamFieldChange [(''event'', JStr ''merged_from''),
        (''ticket_id'', JStr (tk_ID dup0)), (''ticket_key'', JStr (tk_Key dup0)), (''provenance'', JStr (ti_Provenance it)),
        (''note'', JStr (''merged from '' @ tk_Key dup0 @ '' created by '' @ lowerFirst (ti_Provenance it)))]) (\<lambda>_.
      let dup = dup0\<lparr> tk_ArchivedAt := Some (dk_now d), tk_UpdatedAt := dk_now d \<rparr> in
      andThen (writing (Tickets_Update f dup)) (\<lambda>_.
      andThen (appendStream d (tk_ID dup) StreamStatusChange [(''event'', JStr ''triage_duplicate''),
        (''of_ticket_id'', JStr (tk_ID survivor)), (''of_ticket_key'', JStr (tk_Key survivor))]) (\<lambda>_.
      let it = (resolveItem d it TriageDuplicate)\<lparr> ti_DuplicateOf := Some (tk_ID survivor) \<rparr> in
      andThen (writing (Triage_Update f it)) (\<lambda>_.
      ret (it, dup, survivor)))))))))))"

definition TriageDuplicateOf :: "Desk \<Rightarrow> string \<Rightarrow> string \<Rightarrow> TriageListItem svc" where
  "TriageDuplicateOf d i oid =
     andThen (transact (dk_faults d) (TriageDuplicate_tx d i oid)) (\<lambda>(it, dup, survivor).
     andThen (svc_audit d ''triage.duplicate'' ''triage_item'' (ti_ID it) (tk_ProjectID dup)
       (tk_Key dup @ '' duplicates '' @ tk_Key survivor) [] (triage_snapshot it)) (\<lambda>_.
     andThen (emitTriage d ''duplicate'' dup it) (\<lambda>_.
     andThen (emitTicket d ''archived'' dup []) (\<lambda>_.
     andThen (emitTicket d ''updated'' survivor []) (\<lambda>_.
     triage_result d it dup)))))"

section \<open>Snoozing and waking\<close>

text \<open>The wake time: parsed, in the future, normalised.\<close>

definition snooze_time :: "Desk \<Rightarrow> (string \<Rightarrow> int option) \<Rightarrow> string option \<Rightarrow> string option svc" where
  "snooze_time d parse until =
     (case until of None \<Rightarrow> ret None
      | Some u \<Rightarrow>
          (case parse u of
             None \<Rightarrow> fail (fieldErr ''until'' ''An RFC3339 timestamp, or null for until-new-activity.'')
           | Some t \<Rightarrow>
               (case parse (dk_now d) of
                  None \<Rightarrow> fail (SeTime (dk_now d))
                | Some now \<Rightarrow>
                    ensure (now < t) (fieldErr ''until'' ''The wake time must be in the future.'')
                      (ret (Some (FormatTime t))))))"

definition TriageSnooze_tx :: "Desk \<Rightarrow> string \<Rightarrow> string option \<Rightarrow> (TriageItem \<times> Ticket) svc" where
  "TriageSnooze_tx d i until =
     andThen (unresolvedItem d i) (\<lambda>(it, tk).
     let it = it\<lparr> ti_State := TriageSnoozed, ti_SnoozeUntil := until \<rparr> in
     andThen (writing (Triage_Update (dk_faults d) it)) (\<lambda>_.
     andThen (appendStream d (tk_ID tk) StreamStatusChange [(''event'', JStr ''triage_snoozed''),
       (case until of Some u \<Rightarrow> (''until'', JStr u) | None \<Rightarrow> (''until_activity'', JBool True))]) (\<lambda>_.
     ret (it, tk))))"

definition TriageSnooze :: "Desk \<Rightarrow> (string \<Rightarrow> int option) \<Rightarrow> string \<Rightarrow> string option \<Rightarrow> TriageListItem svc" where
  "TriageSnooze d parse i until0 =
     andThen (snooze_time d parse until0) (\<lambda>until.
     andThen (transact (dk_faults d) (TriageSnooze_tx d i until)) (\<lambda>(it, tk).
     andThen (svc_audit d ''triage.snooze'' ''triage_item'' (ti_ID it) (tk_ProjectID tk)
       (tk_Key tk @ '' '' @ (case until of None \<Rightarrow> ''until new activity'' | Some u \<Rightarrow> ''until '' @ u))
       [] (triage_snapshot it)) (\<lambda>_.
     andThen (emitTriage d ''snoozed'' tk it) (\<lambda>_.
     triage_result d it tk))))"

text \<open>The item is read again inside the transaction: another request may have resolved it.\<close>

definition wake_tx :: "Desk \<Rightarrow> TriageItem \<Rightarrow> Ticket \<Rightarrow> string \<Rightarrow> TriageItem svc" where
  "wake_tx d it tk why =
     andThen (reading (Triage_ByID (dk_faults d) (ti_ID it))) (\<lambda>cur.
     if ti_State cur \<noteq> TriageSnoozed then ret it
     else let cur = cur\<lparr> ti_State := TriagePending, ti_SnoozeUntil := None \<rparr> in
       andThen (writing (Triage_Update (dk_faults d) cur)) (\<lambda>_.
       andThen (appendStream d (tk_ID tk) StreamStatusChange [(''event'', JStr ''triage_woken''), (''reason'', JStr why)]) (\<lambda>_.
       ret cur)))"

definition wakeItem :: "Desk \<Rightarrow> TriageItem \<Rightarrow> Ticket \<Rightarrow> string \<Rightarrow> unit svc" where
  "wakeItem d it0 tk why =
     andThen (transact (dk_faults d) (wake_tx d it0 tk why)) (\<lambda>it.
     if ti_State it \<noteq> TriagePending then ret ()
     else andThen (svc_audit d ''triage.wake'' ''triage_item'' (ti_ID it) (tk_ProjectID tk) (tk_Key tk @ '' '' @ why)
            [] (triage_snapshot it)) (\<lambda>_.
          emitTriage d ''woken'' tk it))"

text \<open>A failure that is only logged.\<close>

definition logged :: "'a svc \<Rightarrow> unit svc" where
  "logged m w = (Inr (), snd (m w))"

definition eventMatchesTicket :: "Event \<Rightarrow> Ticket \<Rightarrow> bool" where
  "eventMatchesTicket e tk \<longleftrightarrow>
     ev_SubjectKind e = ''ticket'' \<and> ev_SubjectID e = Some (tk_ID tk) \<or>
     ev_SubjectNumber e \<noteq> None \<and> ev_SubjectNumber e = tk_PRNumber tk \<or>
     ev_SubjectBranch e \<noteq> None \<and> ev_SubjectBranch e = tk_Branch tk"

definition wake_each :: "Desk \<Rightarrow> (Ticket \<Rightarrow> bool) \<Rightarrow> string \<Rightarrow> TriageItem list \<Rightarrow> unit svc" where
  "wake_each d matches why = each (\<lambda>it. logged
     (andThen (reading (Tickets_ByID (dk_faults d) (ti_TicketID it))) (\<lambda>tk.
      if matches tk then wakeItem d it tk why else ret ())))"

definition TriageWakeOnEvent :: "Desk \<Rightarrow> Event \<Rightarrow> unit svc" where
  "TriageWakeOnEvent d e =
     (case ev_ProjectID e of
        None \<Rightarrow> ret ()
      | Some pid \<Rightarrow>
          if ev_Kind e = ''triage'' then ret ()
          else andThen (reading (Triage_SnoozedUntilActivity (dk_faults d) pid))
                 (wake_each d (eventMatchesTicket e) ''new_activity''))"

definition WakeDueTriage :: "Desk \<Rightarrow> unit svc" where
  "WakeDueTriage d = logged (andThen (reading (Triage_SnoozedDue (dk_faults d) (dk_now d)))
     (wake_each d (\<lambda>_. True) ''snooze_expired''))"


end
