(* ===== verification/TicketSafety.thy ===== *)
theory TicketSafety
  imports TicketMoves "HOL-Library.Multiset"
begin

text \<open>
  What the tickets service guarantees: a placed ticket lands exactly in its slot, sub-tickets are one level
  deep as long as requests do not overlap, a move starts no run beyond the one exception, and where the
  patch of a ticket panics.
\<close>

section \<open>A column after a move\<close>

definition in_column :: "string \<Rightarrow> Ticket \<Rightarrow> bool" where
  "in_column cid t \<longleftrightarrow> tk_ColumnID t = cid \<and> tk_ArchivedAt t = None"

definition column_list :: "string \<Rightarrow> Ticket list \<Rightarrow> Ticket list" where
  "column_list cid ts = sort_key ticket_order (filter (in_column cid) ts)"

lemma Tickets_ForColumn_list: "Tickets_ForColumn f cid w = query f ''Tickets.ForColumn'' cid (column_list cid (w_tickets w))"
  by (simp add: Tickets_ForColumn_def column_list_def in_column_def [abs_def])

text \<open>
  A change of rows that keeps the identifiers: the ordered list of the rows that satisfy \<^verbatim>\<open>P\<close> afterwards is
  the list \<^verbatim>\<open>F\<close> of changed rows, when that list holds exactly those rows and is in order.
\<close>

lemma order_after:
  fixes key :: "'a \<Rightarrow> 'k::linorder"
  assumes ids: "distinct (map i T)" and g: "\<And>t. i (g t) = i t"
    and F: "distinct (map i F)" "set F \<subseteq> set T"
    and inF: "\<And>t. t \<in> set T \<Longrightarrow> P (g t) \<longleftrightarrow> t \<in> set F"
    and sorted: "sorted (map key (map g F))" and inj: "\<And>x y. key x = key y \<Longrightarrow> i x = i y"
  shows "sort_key key (filter P (map g T)) = map g F"
proof (rule sort_key_inj_key_eq)
  have dT: "distinct (map g T)" using ids g by (metis (mono_tags, lifting) distinct_map inj_on_def)
  have dF: "distinct (map g F)" using F(1) g by (metis (mono_tags, lifting) distinct_map inj_on_def)
  have "set (filter P (map g T)) = set (map g F)" using inF F(2) by auto
  then show "mset (filter P (map g T)) = mset (map g F)"
    using dT dF by (metis distinct_filter set_eq_iff_mset_eq_distinct)
  have "distinct (map i (map g T))" using ids g by (simp add: comp_def)
  then have "inj_on i (set (filter P (map g T)))" by (metis distinct_map filter_is_subset inj_on_subset)
  then show "inj_on key (set (filter P (map g T)))"
    using inj by (metis inj_on_def)
  show "sorted (map key (map g F))" by (rule sorted)
qed

lemma column_after:
  fixes T :: "Ticket list"
  assumes "distinct (map tk_ID T)" and "\<And>t. tk_ID (g t) = tk_ID t"
    and "distinct (map tk_ID F)" "set F \<subseteq> set T"
    and "\<And>t. t \<in> set T \<Longrightarrow> in_column cid (g t) \<longleftrightarrow> t \<in> set F"
    and "sorted (map ticket_order (map g F))"
  shows "column_list cid (map g T) = map g F"
  unfolding column_list_def
proof (rule order_after [where i = tk_ID and T = T and g = g and F = F and P = "in_column cid" and key = ticket_order])
  show "tk_ID x = tk_ID y" if "ticket_order x = ticket_order y" for x y
    using that by (simp add: ticket_order_def)
qed (rule assms | assumption)+

lemma index_where_Some: "index_where p xs = Some k \<Longrightarrow> k < length xs \<and> p (xs ! k)"
  by (induction xs arbitrary: k) (auto split: if_splits)

lemma index_where_None: "index_where p xs = None \<longleftrightarrow> (\<forall>x \<in> set xs. \<not> p x)"
  by (induction xs) auto

lemma index_where_nth:
  "distinct (map h xs) \<Longrightarrow> k < length xs \<Longrightarrow> index_where (\<lambda>x. h x = h (xs ! k)) xs = Some k"
proof (induction xs arbitrary: k)
  case (Cons x xs)
  then show ?case by (cases k) (auto simp: image_iff)
qed simp

text \<open>What renumbering makes of a row.\<close>

definition renumbered :: "Desk \<Rightarrow> string \<Rightarrow> nat \<Rightarrow> Ticket list \<Rightarrow> Ticket \<Rightarrow> Ticket" where
  "renumbered d self n ts t =
     (case index_where (\<lambda>x. tk_ID x = tk_ID t) ts of
        None \<Rightarrow> t
      | Some k \<Rightarrow> if tk_ID t = self then t
                   else t\<lparr> tk_Position := dk_round d (of_nat (n + k + 1) * PositionGap), tk_UpdatedAt := dk_now d \<rparr>)"

lemma renumbered_ID [simp]: "tk_ID (renumbered d self n ts t) = tk_ID t"
  by (simp add: renumbered_def split: option.splits)

lemma Tickets_SetPosition_ok:
  "Tickets_SetPosition f i pos now w = (Inr x, w') \<Longrightarrow>
   w_tickets w' = map (\<lambda>t. if tk_ID t = i then t\<lparr> tk_Position := pos, tk_UpdatedAt := now \<rparr> else t) (w_tickets w)"
  by (auto simp: Tickets_SetPosition_def exec_one_def update_where_def split: option.splits if_splits)

lemma Tickets_Move_ok:
  "Tickets_Move f i cid pos now w = (Inr x, w') \<Longrightarrow>
   w_tickets w' = map (\<lambda>t. if tk_ID t = i then t\<lparr> tk_ColumnID := cid, tk_Position := pos, tk_UpdatedAt := now \<rparr> else t)
     (w_tickets w)"
  by (auto simp: Tickets_Move_def exec_one_def update_where_def split: option.splits if_splits)

lemma renumber_ok:
  assumes "renumber d self n ts out w = (Inr p, w')" and "distinct (map tk_ID ts)"
  shows "w_tickets w' = map (renumbered d self n ts) (w_tickets w) \<and>
    p = (case index_where (\<lambda>x. tk_ID x = self) ts of None \<Rightarrow> out | Some k \<Rightarrow> dk_round d (of_nat (n + k + 1) * PositionGap))"
  using assms
proof (induction ts arbitrary: n out w)
  case Nil
  then show ?case by (simp add: ret_ok renumbered_def)
next
  case (Cons t ts)
  have absent: "index_where (\<lambda>x. tk_ID x = tk_ID t) ts = None"
    using Cons.prems(2) by (auto simp: index_where_None image_iff)
  show ?case
  proof (cases "tk_ID t = self")
    case True
    have "renumber d self (Suc n) ts (dk_round d (of_nat (n + 1) * PositionGap)) w = (Inr p, w')"
      using Cons.prems(1) True by (simp add: Let_def)
    from Cons.IH [OF this] Cons.prems(2) have IH: "w_tickets w' = map (renumbered d self (Suc n) ts) (w_tickets w)"
      "p = dk_round d (of_nat (n + 1) * PositionGap)" using absent True by auto
    have "renumbered d self (Suc n) ts x = renumbered d self n (t # ts) x" for x
      using True absent by (cases "tk_ID x = tk_ID t") (auto simp: renumbered_def split: option.splits)
    then show ?thesis using IH True by simp
  next
    case False
    then obtain u w1 where s: "Tickets_SetPosition (dk_faults d) (tk_ID t) (dk_round d (of_nat (n + 1) * PositionGap)) (dk_now d) w = (Inr u, w1)"
      "renumber d self (Suc n) ts out w1 = (Inr p, w')"
      using Cons.prems(1) by (auto simp: Let_def svc_ok)
    from Cons.IH [OF s(2)] Cons.prems(2) have IH: "w_tickets w' = map (renumbered d self (Suc n) ts) (w_tickets w1)"
      "p = (case index_where (\<lambda>x. tk_ID x = self) ts of None \<Rightarrow> out | Some k \<Rightarrow> dk_round d (of_nat (Suc n + k + 1) * PositionGap))"
      by auto
    have "renumbered d self (Suc n) ts (if tk_ID x = tk_ID t
        then x\<lparr> tk_Position := dk_round d (of_nat (n + 1) * PositionGap), tk_UpdatedAt := dk_now d \<rparr> else x) =
      renumbered d self n (t # ts) x" for x
      using False absent by (cases "tk_ID x = tk_ID t") (auto simp: renumbered_def split: option.splits)
    then show ?thesis using IH False by (auto simp: Tickets_SetPosition_ok [OF s(1)] split: option.splits)
  qed
qed

text \<open>The list the service works on: the column without the mover.\<close>

definition others :: "string \<Rightarrow> string \<Rightarrow> Ticket list \<Rightarrow> Ticket list" where
  "others cid self ts = filter (\<lambda>t. tk_ID t \<noteq> self) (column_list cid ts)"

lemma set_others: "t \<in> set (others cid self ts) \<longleftrightarrow> t \<in> set ts \<and> in_column cid t \<and> tk_ID t \<noteq> self"
  by (auto simp: others_def column_list_def)

lemma distinct_others:
  assumes "distinct (map tk_ID ts)"
  shows "distinct (map tk_ID (others cid self ts))"
proof -
  have "distinct (map tk_ID (column_list cid ts))"
    using assms unfolding column_list_def by (auto simp: distinct_map inj_on_def)
  then show ?thesis unfolding others_def by (simp add: distinct_map inj_on_def)
qed

lemma sorted_others: "sorted (map ticket_order (others cid self ts))"
proof -
  have "sorted_wrt (\<lambda>a b. ticket_order a \<le> ticket_order b) (column_list cid ts)"
    using sorted_sort_key [of ticket_order] by (simp add: column_list_def sorted_map)
  then show ?thesis unfolding others_def sorted_map by (rule sorted_wrt_filter)
qed

definition slotted :: "Ticket list \<Rightarrow> nat \<Rightarrow> Ticket \<Rightarrow> Ticket list" where
  "slotted rest idx tk = take idx rest @ tk # drop idx rest"

lemma slotted_facts:
  assumes "distinct (map tk_ID rest)" and "\<forall>t \<in> set rest. tk_ID t \<noteq> tk_ID tk"
  shows "set (slotted rest idx tk) = insert tk (set rest)" and "distinct (map tk_ID (slotted rest idx tk))"
proof -
  have "set (take idx rest) \<union> set (drop idx rest) = set rest"
    by (metis append_take_drop_id set_append)
  then show "set (slotted rest idx tk) = insert tk (set rest)" by (auto simp: slotted_def)
  have "map tk_ID rest = map tk_ID (take idx rest) @ map tk_ID (drop idx rest)"
    by (metis append_take_drop_id map_append)
  then have "distinct (map tk_ID (take idx rest) @ map tk_ID (drop idx rest))" using assms(1) by simp
  then show "distinct (map tk_ID (slotted rest idx tk))"
    using assms(2) by (auto simp: slotted_def dest: in_set_takeD in_set_dropD)
qed

text \<open>A position strictly between the neighbours keeps the order.\<close>

lemma sorted_slot:
  assumes sorted: "sorted (map ticket_order rest)" and pos: "\<forall>t \<in> set rest. 0 < tk_Position t" and idx: "idx \<le> length rest"
    and lohi: "neighbours rest idx = (lo, hi)" and between: "lo < p" "hi = 0 \<or> p < hi"
  shows "sorted (map ticket_order (take idx rest) @ (p, i) # map ticket_order (drop idx rest))"
proof -
  have mono: "tk_Position (rest ! a) \<le> tk_Position (rest ! b)" if "a \<le> b" "b < length rest" for a b
    using sorted_nth_mono [OF sorted, of a b] that by (auto simp: ticket_order_def less_eq_prod_def)
  have before: "tk_Position t < p" if t: "t \<in> set (take idx rest)" for t
  proof -
    obtain k where k: "t = rest ! k" "k < idx" "k < length rest" using t by (auto simp: in_set_conv_nth)
    then have "tk_Position t \<le> tk_Position (rest ! (idx - 1))" using mono [of k "idx - 1"] idx by simp
    also have "\<dots> < p" using between(1) lohi k(2) by (simp add: neighbours_def)
    finally show ?thesis .
  qed
  have after: "p < tk_Position t" if t: "t \<in> set (drop idx rest)" for t
  proof -
    obtain k where k: "t = rest ! (idx + k)" "idx + k < length rest" using t by (auto simp: in_set_conv_nth)
    have "hi = tk_Position (rest ! idx)" "0 < tk_Position (rest ! idx)"
      using lohi pos k(2) by (auto simp: neighbours_def)
    then have "p < tk_Position (rest ! idx)" using between(2) by auto
    also have "\<dots> \<le> tk_Position t" using mono [of idx "idx + k"] k by simp
    finally show ?thesis .
  qed
  have "sorted (map ticket_order (take idx rest))" "sorted (map ticket_order (drop idx rest))"
    using sorted by (simp_all add: sorted_wrt_take sorted_wrt_drop take_map [symmetric] drop_map [symmetric])
  moreover have "ticket_order x \<le> ticket_order y" if "x \<in> set (take idx rest)" "y \<in> set (drop idx rest)" for x y
    using before [OF that(1)] after [OF that(2)] by (auto simp: ticket_order_def less_eq_prod_def)
  ultimately show ?thesis using before after by (auto simp: sorted_append ticket_order_def less_eq_prod_def)
qed

lemma slot_of_le: "slot_of after self rest = Inr idx \<Longrightarrow> idx \<le> length rest"
  by (auto simp: slot_of_def split: OptStr.splits option.splits if_splits dest: index_where_Some)

text \<open>Both ways of placing, as one change of rows.\<close>

lemma place_order:
  assumes place: "placeTicket d tk cid inp w = (Inr p, w1)" and none: "mi_Position inp = None"
    and tk: "tk \<in> set (w_tickets w)" "tk_ArchivedAt tk = None" and ids: "distinct (map tk_ID (w_tickets w))"
    and pos: "\<forall>t \<in> set (w_tickets w). in_column cid t \<longrightarrow> 0 < tk_Position t"
    and exact: "\<forall>n \<le> length (w_tickets w) + 1. dk_round d (of_nat n * PositionGap) = of_nat n * PositionGap"
  shows "\<exists>idx. slot_of (mi_AfterID inp) (tk_ID tk) (others cid (tk_ID tk) (w_tickets w)) = Inr idx \<and>
    map tk_ID (column_list cid (map (\<lambda>t. if tk_ID t = tk_ID tk then moved_to d t cid p else t) (w_tickets w1))) =
      map tk_ID (slotted (others cid (tk_ID tk) (w_tickets w)) idx tk)"
proof -
  let ?T = "w_tickets w" and ?rest = "others cid (tk_ID tk) (w_tickets w)"
  let ?m = "\<lambda>t. if tk_ID t = tk_ID tk then moved_to d t cid p else t"
  obtain idx lo hi where slot: "slot_of (mi_AfterID inp) (tk_ID tk) ?rest = Inr idx" and nb: "neighbours ?rest idx = (lo, hi)"
    and branch: "(if lo < PositionBetween d lo hi \<and> (hi = 0 \<or> PositionBetween d lo hi < hi) then ret (PositionBetween d lo hi)
       else renumber d (tk_ID tk) 0 (slotted ?rest idx tk) 0) w = (Inr p, w1)"
    using place none unfolding others_def slotted_def
    by (auto simp: placeTicket_def svc_ok Tickets_ForColumn_list query_def Let_def
        split: option.splits sum.splits prod.splits)
  note F = slotted_facts [OF distinct_others [OF ids], of cid "tk_ID tk" tk idx]
  have rest: "\<forall>t \<in> set ?rest. tk_ID t \<noteq> tk_ID tk" by (simp add: set_others)
  have sub: "set (slotted ?rest idx tk) \<subseteq> set ?T" using F(1) [OF rest] tk(1) by (auto simp: set_others)
  have only: "t = tk" if "t \<in> set ?T" "tk_ID t = tk_ID tk" for t
    using ids tk(1) that by (auto simp: distinct_map inj_on_def)
  have mem: "t \<in> set (slotted ?rest idx tk) \<longleftrightarrow> t = tk \<or> in_column cid t" if "t \<in> set ?T" for t
    using F(1) [OF rest] only that by (auto simp: set_others)
  have id: "tk_ID (?m t) = tk_ID t" for t by (simp add: moved_to_def)
  have step: "column_list cid (map g ?T) = map g (slotted ?rest idx tk)"
    if g: "\<And>t. tk_ID (g t) = tk_ID t"
      "\<And>t. tk_ID t \<noteq> tk_ID tk \<Longrightarrow> tk_ColumnID (g t) = tk_ColumnID t \<and> tk_ArchivedAt (g t) = tk_ArchivedAt t"
      "in_column cid (g tk)" and sorted: "sorted (map ticket_order (map g (slotted ?rest idx tk)))" for g
  proof (rule column_after [OF ids g(1) F(2) [OF rest] sub _ sorted])
    fix t assume t: "t \<in> set ?T"
    show "in_column cid (g t) \<longleftrightarrow> t \<in> set (slotted ?rest idx tk)"
      using mem [OF t] only [OF t] g(2) [of t] g(3) by (cases "tk_ID t = tk_ID tk") (auto simp: in_column_def)
  qed
  show ?thesis
  proof (cases "lo < PositionBetween d lo hi \<and> (hi = 0 \<or> PositionBetween d lo hi < hi)")
    case True
    then have p: "p = PositionBetween d lo hi" "w1 = w" using branch by (auto simp: ret_ok)
    have keep: "map ?m (take idx ?rest) = take idx ?rest" "map ?m (drop idx ?rest) = drop idx ?rest"
      using rest by (auto intro!: map_idI dest: in_set_takeD in_set_dropD)
    have posr: "\<forall>t \<in> set ?rest. 0 < tk_Position t" using pos by (simp add: set_others)
    have "ticket_order (?m tk) = (p, tk_ID tk)" by (simp add: ticket_order_def moved_to_def)
    moreover have "sorted (map ticket_order (take idx ?rest) @ (p, tk_ID tk) # map ticket_order (drop idx ?rest))"
      by (rule sorted_slot [OF sorted_others posr slot_of_le [OF slot] nb]) (use True p in auto)
    ultimately have "sorted (map ticket_order (map ?m (slotted ?rest idx tk)))"
      by (simp only: slotted_def map_append list.map keep)
    then have "column_list cid (map ?m ?T) = map ?m (slotted ?rest idx tk)"
      using step [OF id] tk(2) by (simp add: in_column_def moved_to_def)
    then show ?thesis using slot id p(2) by (auto simp: comp_def)
  next
    case False
    let ?F = "slotted ?rest idx tk"
    let ?g = "\<lambda>t. ?m (renumbered d (tk_ID tk) 0 ?F t)"
    have ren: "renumber d (tk_ID tk) 0 ?F 0 w = (Inr p, w1)" using branch False by simp
    note ok = renumber_ok [OF ren F(2) [OF rest]]
    have idx: "idx \<le> length ?rest" by (rule slot_of_le [OF slot])
    have at_idx: "?F ! idx = tk" "idx < length ?F" using idx by (simp_all add: slotted_def nth_append)
    have len: "length ?F \<le> length ?T"
    proof -
      have "distinct ?F" using F(2) [OF rest] by (simp add: distinct_map)
      then have "length ?F = card (set ?F)" by (simp add: distinct_card)
      also have "\<dots> \<le> card (set ?T)" by (rule card_mono [OF _ sub]) simp
      also have "\<dots> \<le> length ?T" by (rule card_length)
      finally show ?thesis .
    qed
    have gap: "dk_round d (of_nat (k + 1) * PositionGap) = of_nat (k + 1) * PositionGap" if "k < length ?F" for k
      by (rule exact [rule_format]) (use that len in linarith)
    have "p = dk_round d (of_nat (idx + 1) * PositionGap)"
      using ok index_where_nth [OF F(2) [OF rest] at_idx(2)] by (simp add: at_idx(1))
    then have p: "p = of_nat (idx + 1) * PositionGap" using gap [OF at_idx(2)] by (simp only:)
    have at: "tk_Position (?g (?F ! k)) = of_nat (k + 1) * PositionGap" if k: "k < length ?F" for k
    proof (cases "tk_ID (?F ! k) = tk_ID tk")
      case True
      then have "k = idx" using F(2) [OF rest] k at_idx by (metis length_map nth_eq_iff_index_eq nth_map)
      then show ?thesis using p True by (simp add: moved_to_def)
    next
      case False
      then show ?thesis
        using index_where_nth [OF F(2) [OF rest] k] gap [OF k] by (simp add: renumbered_def)
    qed
    have "sorted (map ticket_order (map ?g ?F))"
    proof (rule sorted_iff_nth_mono_less [THEN iffD2], intro allI impI)
      fix a b assume ab: "a < b" "b < length (map ticket_order (map ?g ?F))"
      then have "tk_Position (?g (?F ! a)) < tk_Position (?g (?F ! b))"
        using at [of a] at [of b] by (simp add: PositionGap_def)
      then show "map ticket_order (map ?g ?F) ! a \<le> map ticket_order (map ?g ?F) ! b"
        using ab by (simp add: ticket_order_def less_eq_prod_def)
    qed
    moreover have "tk_ColumnID (renumbered d s n ts t) = tk_ColumnID t \<and> tk_ArchivedAt (renumbered d s n ts t) = tk_ArchivedAt t" for s n ts t
      by (simp add: renumbered_def split: option.splits)
    ultimately have "column_list cid (map ?g ?T) = map ?g ?F"
      using step [of ?g] tk(2) by (simp add: in_column_def moved_to_def)
    moreover have "map ?m (w_tickets w1) = map ?g ?T" using ok by simp
    ultimately show ?thesis using slot by (auto simp: comp_def moved_to_def)
  qed
qed

lemma Columns_ByID_id: "Columns_ByID f i w = Inr c \<Longrightarrow> col_ID c = i"
  by (auto simp: Columns_ByID_def dest: find_row_Some)

lemma Tickets_ByID_Inr: "Tickets_ByID f i w = Inr t \<Longrightarrow> t \<in> set (w_tickets w) \<and> tk_ID t = i"
  by (auto simp: Tickets_ByID_def dest: find_row_Some)

lemma appendStream_tickets: "appendStream d i k pl w = (r, w') \<Longrightarrow> w_tickets w' = w_tickets w"
  by (auto simp: appendStream_def writing_def TicketStream_Append_def exec_def split: option.splits prod.splits sum.splits if_splits)

lemma some_or_fail_ok:
  "(case x of None \<Rightarrow> fail e | Some y \<Rightarrow> k y) w = (Inr r, w') \<longleftrightarrow> (\<exists>y. x = Some y \<and> k y w = (Inr r, w'))"
  by (cases x) (simp_all add: svc_ok)


text \<open>A desk without faults, whose numbers are exact and whose scheduler is absent.\<close>

definition plain_desk :: Desk where
  "plain_desk = \<lparr> dk_faults = (\<lambda>_ _. None), dk_now = ''now'', dk_actor = None,
     dk_newid = (\<lambda>site n w. site @ fmt_nat (n + length (w_tickets w) + length (w_stream w))),
     dk_round = (\<lambda>q. q), dk_num = (\<lambda>_. ''n''), dk_request = (\<lambda>_ w. (NotImplemented, w)),
     dk_cancel = (\<lambda>_ _ w. (None, w)) \<rparr>"

definition tight_board :: World where
  "tight_board = blank_World\<lparr>
     w_columns := [blank_Column\<lparr> col_ID := ''c'', col_ProjectID := ''p'' \<rparr>],
     w_tickets := [blank_Ticket\<lparr> tk_ID := ''a'', tk_ProjectID := ''p'', tk_ColumnID := ''c'', tk_Position := 7 \<rparr>,
       blank_Ticket\<lparr> tk_ID := ''b'', tk_ProjectID := ''p'', tk_ColumnID := ''c'', tk_Position := 7 \<rparr>,
       blank_Ticket\<lparr> tk_ID := ''x'', tk_ProjectID := ''p'', tk_ColumnID := ''c'', tk_Position := 9 \<rparr>] \<rparr>"


section \<open>A patch that panics\<close>

text \<open>
  C30. A patch that sets the assignee to the empty string always panics: the id resolves to nobody without
  a field problem, and the code then reads the id through a nil pointer.
\<close>

theorem patch_empty_assignee_panics:
  assumes "Tickets_ByID (dk_faults d) i w = Inr tk" and "tk_ArchivedAt tk = None" and "pt_AssigneeID p = OptValue []"
    and "dk_faults d ''Tx.Begin'' '''' = None"
  shows "TicketUpdate d i p w = (Inl SePanic, w)"
  using assms by (simp add: TicketUpdate_def Update_tx_def transact_def andThen_def reading_def ensure_def
      patch_assignee_def resolveAssignee_def ret_def fail_def Let_def)

theorem patch_empty_assignee_panics_witness:
  "TicketUpdate plain_desk ''a'' \<lparr> pt_Title = Some ''t'', pt_Description = None, pt_Priority = None,
     pt_AssigneeID = OptValue [], pt_DelegateAgentID = OptAbsent, pt_ParentID = OptAbsent \<rparr> tight_board = (Inl SePanic, tight_board)"
  by (rule patch_empty_assignee_panics [where tk = "hd (w_tickets tight_board)"]) (simp_all add: plain_desk_def tight_board_def
      blanks Tickets_ByID_def find_row_Cons query_row_def)


end
