(* ===== verification/TicketNest.thy ===== *)
theory TicketNest
  imports TicketSafety RunEnd
begin

text \<open>
  Two contracts of the tickets service. Sub-tickets are one level deep: an invariant of every request
  that runs alone, and how two overlapping requests break it. And the moves: what the scheduler assumes of the
  mover it is given, and that a drag starts a run only through column auto-start.
\<close>

section \<open>Triples\<close>

text \<open>A successful run from \<^verbatim>\<open>P\<close> ends in \<^verbatim>\<open>Q\<close>.\<close>

definition triple :: "(World \<Rightarrow> bool) \<Rightarrow> 'a svc \<Rightarrow> ('a \<Rightarrow> World \<Rightarrow> bool) \<Rightarrow> bool" where
  "triple P m Q \<longleftrightarrow> (\<forall>w x w'. P w \<longrightarrow> m w = (Inr x, w') \<longrightarrow> Q x w')"

named_theorems trip

lemma triple_weaken: "triple P m Q \<Longrightarrow> (\<And>w. P' w \<Longrightarrow> P w) \<Longrightarrow> (\<And>x w. Q x w \<Longrightarrow> Q' x w) \<Longrightarrow> triple P' m Q'"
  unfolding triple_def by blast

lemma triple_post: "triple P m Q \<Longrightarrow> (\<And>x w. Q x w \<Longrightarrow> Q' x w) \<Longrightarrow> triple P m Q'"
  unfolding triple_def by blast

lemma triple_ret: "(\<And>w. P w \<Longrightarrow> Q x w) \<Longrightarrow> triple P (ret x) Q"
  by (simp add: triple_def svc_ok)

lemma triple_fail [trip]: "triple P (fail e) Q"
  by (simp add: triple_def svc_ok)

lemma triple_andThen: "triple P m R \<Longrightarrow> (\<And>x. triple (R x) (k x) Q) \<Longrightarrow> triple P (andThen m k) Q"
  unfolding triple_def svc_ok by blast

lemma triple_ensure: "triple (\<lambda>w. P w \<and> b) m Q \<Longrightarrow> triple P (ensure b e m) Q"
  by (simp add: triple_def svc_ok)

lemma triple_reading: "triple P (reading q) (\<lambda>x w. P w \<and> q w = Inr x)"
  by (simp add: triple_def svc_ok)

lemma triple_looking: "triple P (looking q) (\<lambda>x w. P w \<and> (\<forall>y. x = Some y \<longrightarrow> q w = Inr y))"
  by (auto simp: triple_def svc_ok)

lemma triple_asking: "triple P (asking q) (\<lambda>x w. P w \<and> x = q w)"
  by (simp add: triple_def svc_ok)

lemma triple_keeps: "keeps P m \<Longrightarrow> triple P m (\<lambda>_. P)"
  by (auto simp: triple_def keeps_def)

lemma triple_option: "(r = None \<Longrightarrow> triple P a Q) \<Longrightarrow> (\<And>x. r = Some x \<Longrightarrow> triple P (g x) Q) \<Longrightarrow>
  triple P (case r of None \<Rightarrow> a | Some x \<Rightarrow> g x) Q"
  by (cases r) simp_all

lemma triple_if: "(c \<Longrightarrow> triple P a Q) \<Longrightarrow> (\<not> c \<Longrightarrow> triple P b Q) \<Longrightarrow> triple P (if c then a else b) Q"
  by simp

lemma triple_prod: "(\<And>x y. r = (x, y) \<Longrightarrow> triple P (g x y) Q) \<Longrightarrow> triple P (case r of (x, y) \<Rightarrow> g x y) Q"
  by (cases r) simp

lemma triple_fact: "(\<And>w. P w \<Longrightarrow> b) \<Longrightarrow> (b \<Longrightarrow> triple P m Q) \<Longrightarrow> triple P m Q"
  by (auto simp: triple_def)

text \<open>A transaction keeps an invariant its body restores on success.\<close>

lemma keeps_transact_triple: "triple I m (\<lambda>_. I) \<Longrightarrow> keeps I (transact f m)"
  unfolding keeps_def triple_def transact_def
  by (auto split: option.splits prod.splits sum.splits)

lemma triple_transact: "triple P m Q \<Longrightarrow> triple P (transact f m) Q"
  by (simp add: triple_def svc_ok)

section \<open>What the statements keep\<close>

text \<open>A predicate of the tickets alone, and one of the run tables alone.\<close>

definition on_tickets :: "(Ticket list \<Rightarrow> bool) \<Rightarrow> World \<Rightarrow> bool" where
  "on_tickets P w \<longleftrightarrow> P (w_tickets w)"

definition runs_are :: "Run list \<times> Elicitation list \<times> RunMessage list \<Rightarrow> World \<Rightarrow> bool" where
  "runs_are R w \<longleftrightarrow> run_tables w = R"

lemma stream_frames:
  "w_tickets (snd (TicketStream_Append f e w)) = w_tickets w" "run_tables (snd (TicketStream_Append f e w)) = run_tables w"
  by (simp_all add: TicketStream_Append_def exec_def run_tables_def split: option.splits)

lemma seq_frames:
  "w_tickets (snd (Projects_AllocateTicketSeq f i w)) = w_tickets w"
  by (simp add: Projects_AllocateTicketSeq_def exec_def split: option.splits)

lemma insert_mentions_frames: "w_tickets (snd (insert_mentions f ms w)) = w_tickets w"
  by (induction ms arbitrary: w) (auto simp: exec_def split: option.splits prod.splits sum.splits)

lemma mention_frames: "w_tickets (snd (Mentions_ReplaceForSource f k i ms w)) = w_tickets w"
  by (auto simp: Mentions_ReplaceForSource_def exec_def insert_mentions_frames split: option.splits)

lemma run_tables_audit: "run_tables (snd (audit_write f e w)) = run_tables w"
  by (simp add: audit_write_def exec_def run_tables_def split: option.splits)

lemma run_tables_moves:
  "run_tables (snd (Tickets_Move f i c p now w)) = run_tables w"
  "run_tables (snd (Tickets_SetPosition f i p now w)) = run_tables w"
  by (simp_all add: Tickets_Move_def Tickets_SetPosition_def exec_one_def run_tables_def split: option.splits)

lemma keeps_appendStream [keep]:
  "keeps (on_tickets P) (appendStream d i k pl)" "keeps (runs_are R) (appendStream d i k pl)"
proof -
  have "keeps (on_tickets P) (writing (TicketStream_Append f e))" "keeps (runs_are R) (writing (TicketStream_Append f e))" for f e
    by (rule keeps_writing, simp add: on_tickets_def runs_are_def stream_frames)+
  then show "keeps (on_tickets P) (appendStream d i k pl)" "keeps (runs_are R) (appendStream d i k pl)"
    by (simp_all add: appendStream_def keeps_def)
qed

lemma keeps_svc_audit [keep]:
  "keeps (on_tickets P) (svc_audit d a k i p n b c)" "keeps (runs_are R) (svc_audit d a k i p n b c)"
  unfolding svc_audit_def by (rule keeps_writing, simp add: on_tickets_def runs_are_def run_tables_audit)+

lemma keeps_emitTicket [keep]:
  "keeps (on_tickets P) (emitTicket d a tk x)" "keeps (runs_are R) (emitTicket d a tk x)"
  unfolding emitTicket_def by (rule keeps_doing, simp add: on_tickets_def runs_are_def run_tables_def emit_frame_def)+

lemma keeps_writeMentions [keep]: "keeps (on_tickets P) (writeMentions d k i rows)"
  unfolding writeMentions_def by (rule keeps_writing) (simp add: on_tickets_def mention_frames)

lemma keeps_seq [keep]: "keeps (on_tickets P) (writing (Projects_AllocateTicketSeq f i))"
  by (rule keeps_writing) (simp add: on_tickets_def seq_frames)

lemma keeps_moves [keep]:
  "keeps (runs_are R) (writing (Tickets_Move f i c p now))" "keeps (runs_are R) (writing (Tickets_SetPosition f i p now))"
  by (rule keeps_writing, simp add: runs_are_def run_tables_moves)+

lemma keeps_pure [keep]:
  "keeps P (lastPosition d c)" "keeps P (withMeta d tk)" "keeps P (mention_target d pid p)"
  by (auto simp: lastPosition_def withMeta_def mention_target_def Let_def intro!: keep split del: if_split)

lemma keeps_resolve_mentions [keep]: "keeps P (resolveMentions d pid ms)"
proof -
  have "keeps P (resolve_mentions d pid n ms rows agents)" for n rows agents
    by (induction ms arbitrary: n rows agents) (auto intro!: keep split del: if_split)
  then show ?thesis by (simp add: resolveMentions_def)
qed

lemma keeps_renumber [keep]: "keeps (runs_are R) (renumber d self n ts out)"
  by (induction ts arbitrary: n out) (simp_all add: Let_def keep)

lemma keeps_placeTicket [keep]: "keeps (runs_are R) (placeTicket d tk cid inp)"
  unfolding placeTicket_def Let_def
  by (auto intro!: keep split: option.split sum.split prod.split split del: if_split)

lemma keeps_Move_tx [keep]: "keeps (runs_are R) (Move_tx d i inp)"
  unfolding Move_tx_def Let_def by (intro keep)

lemma keeps_moveToCategory [keep]: "keeps (runs_are R) (moveToCategory d i cat note)"
  unfolding moveToCategory_def moveToCategory_tx_def Let_def
  by (intro keep) (auto intro!: keep split: list.split)

section \<open>The mover of the scheduler\<close>

text \<open>What the run side asks of a ticket mover: its own three tables stay.\<close>

locale ticket_mover =
  fixes mover :: "string \<Rightarrow> ColumnCategory \<Rightarrow> string \<Rightarrow> World \<Rightarrow> World"
  assumes mover_quiet: "run_tables (mover tid cat note w) = run_tables w"
begin

lemma ports_quiet: "p_openPR ports = None \<Longrightarrow> ports_quiet (ports\<lparr> p_mover := Some mover \<rparr>)"
  by (simp add: ports_quiet_def mover_quiet)

lemma moveTicket_quiet: "run_tables (moveTicket (ports\<lparr> p_mover := Some mover \<rparr>) tid cat note w) = run_tables w"
  by (simp add: moveTicket_def mover_quiet)

end

definition service_mover :: "Desk \<Rightarrow> string \<Rightarrow> ColumnCategory \<Rightarrow> string \<Rightarrow> World \<Rightarrow> World" where
  "service_mover d tid cat note w = snd (MoveTicketToCategory d tid cat note w)"

lemma service_mover_quiet: "run_tables (service_mover d tid cat note w) = run_tables w"
proof -
  have "keeps (runs_are (run_tables w)) (MoveTicketToCategory d tid cat note)"
    unfolding MoveTicketToCategory_def by (intro keep)
  then show ?thesis by (simp add: keeps_def runs_are_def service_mover_def)
qed

interpretation service: ticket_mover "service_mover d" for d
  by unfold_locales (rule service_mover_quiet)


text \<open>
  Moving a ticket to a category, as the scheduler and the pipelines do, changes no run, no question
  and no queued message, whatever the desk: a transition never starts or ends work.
\<close>

theorem category_move_starts_nothing:
  "run_tables (moveTicket (ports\<lparr> p_mover := Some (service_mover d) \<rparr>) tid cat note w) = run_tables w"
  by (rule service.moveTicket_quiet)

lemma Move_tx_result:
  assumes "Move_tx d i inp w = (Inr res, w')"
  shows "\<exists>tk. tk \<in> set (w_tickets w) \<and> tk_ID tk = i \<and> tk_DelegateAgentID (mr_after res) = tk_DelegateAgentID tk \<and>
    tk_ColumnID tk = col_ID (mr_fromCol res)"
    "mr_toCol res \<in> set (w_columns w) \<and> col_ID (mr_toCol res) = mi_ColumnID inp"
proof -
  obtain tk toCol fromCol p where step: "Tickets_ByID (dk_faults d) i w = Inr tk"
      "Columns_ByID (dk_faults d) (mi_ColumnID inp) w = Inr toCol" "Columns_ByID (dk_faults d) (tk_ColumnID tk) w = Inr fromCol"
      "res = \<lparr> mr_before = tk, mr_after = moved_to d tk (col_ID toCol) p, mr_fromCol = fromCol, mr_toCol = toCol \<rparr>"
    using assms by (auto simp: Move_tx_def Let_def svc_ok some_or_fail_ok)
  show "\<exists>tk. tk \<in> set (w_tickets w) \<and> tk_ID tk = i \<and> tk_DelegateAgentID (mr_after res) = tk_DelegateAgentID tk \<and>
    tk_ColumnID tk = col_ID (mr_fromCol res)"
    using Tickets_ByID_Inr [OF step(1)] Columns_ByID_id [OF step(3)] by (auto simp: step(4) moved_to_def)
  show "mr_toCol res \<in> set (w_columns w) \<and> col_ID (mr_toCol res) = mi_ColumnID inp"
    using step(2) by (auto simp: step(4) Columns_ByID_def dest: find_row_Some)
qed

text \<open>
  C29. A drag touches the run tables only by column auto-start: the destination must have it switched on,
  the ticket must have a delegate and must have come from another column, whatever the scheduler does
  with the request.
\<close>

theorem drag_starts_only_auto:
  assumes "run_tables (snd (TicketMove d i inp w)) \<noteq> run_tables w"
  shows "\<exists>c \<in> set (w_columns w). \<exists>t \<in> set (w_tickets w). col_ID c = mi_ColumnID inp \<and> col_AutoStartDelegate c \<and>
    tk_ID t = i \<and> tk_DelegateAgentID t \<noteq> None \<and> tk_ColumnID t \<noteq> mi_ColumnID inp"
proof -
  obtain r w1 where t: "transact (dk_faults d) (Move_tx d i inp) w = (r, w1)" by fastforce
  have same: "run_tables w1 = run_tables w"
    using keeps_transact [OF keeps_Move_tx, of "run_tables w" "dk_faults d" d i inp] t by (auto simp: keeps_def runs_are_def)
  obtain res where r: "r = Inr res" using assms same t by (cases r) (auto simp: TicketMove_def andThen_def)
  have "starts_run res"
  proof (rule ccontr)
    assume "\<not> starts_run res"
    then have "maybeAutoStart d res = (\<lambda>w. w)" by (simp add: maybeAutoStart_def fun_eq_iff)
    then have "keeps (runs_are (run_tables w)) (doing (maybeAutoStart d res))" by (simp add: keeps_doing)
    then have "keeps (runs_are (run_tables w)) (andThen (svc_audit d ''ticket.move'' ''ticket'' (tk_ID (mr_after res))
        (tk_ProjectID (mr_after res)) '''' (place_snapshot d (mr_before res)) (place_snapshot d (mr_after res))) (\<lambda>_.
      andThen (emitTicket d ''moved'' (mr_after res) (move_extra res)) (\<lambda>_.
      andThen (doing (maybeAutoStart d res)) (\<lambda>_. withMeta d (mr_after res)))))"
      by (intro keep)
    then have "run_tables (snd (TicketMove d i inp w)) = run_tables w"
      using t r same by (simp add: TicketMove_def andThen_def [of "transact f m" for f m] keeps_def runs_are_def)
    then show False using assms by simp
  qed
  moreover have "Move_tx d i inp w = (Inr res, w1)" using t r by (simp add: svc_ok)
  ultimately show ?thesis
    using Move_tx_result [of d i inp w res w1] unfolding starts_run_def by metis
qed


definition eager_desk :: Desk where
  "eager_desk = plain_desk\<lparr> dk_request := (\<lambda>rq w. (Requested ''r'',
     w_runs_update (\<lambda>t. t @ [blank_Run\<lparr> run_ID := ''r'', run_AgentID := rq_AgentID rq \<rparr>]) w)) \<rparr>"

definition auto_board :: World where
  "auto_board = blank_World\<lparr>
     w_columns := [blank_Column\<lparr> col_ID := ''c'', col_ProjectID := ''p'' \<rparr>,
       blank_Column\<lparr> col_ID := ''d'', col_ProjectID := ''p'', col_AutoStartDelegate := True \<rparr>],
     w_tickets := [blank_Ticket\<lparr> tk_ID := ''a'', tk_ProjectID := ''p'', tk_ColumnID := ''c'', tk_Position := 7,
       tk_DelegateAgentID := Some ''g'' \<rparr>] \<rparr>"

theorem drag_starts_only_auto_witness:
  "\<exists>c \<in> set (w_columns auto_board). \<exists>t \<in> set (w_tickets auto_board). col_ID c = ''d'' \<and> col_AutoStartDelegate c \<and>
    tk_ID t = ''a'' \<and> tk_DelegateAgentID t \<noteq> None \<and> tk_ColumnID t \<noteq> ''d''"
proof -
  let ?i = "\<lparr> mi_ColumnID = ''d'', mi_Position = Some 5, mi_AfterID = OptAbsent \<rparr>"
  have "length (w_runs (snd (TicketMove eager_desk ''a'' ?i auto_board))) = 1" by code_simp
  moreover have "length (w_runs auto_board) = 0" by code_simp
  ultimately have "run_tables (snd (TicketMove eager_desk ''a'' ?i auto_board)) \<noteq> run_tables auto_board"
    by (auto simp: run_tables_def)
  from drag_starts_only_auto [OF this] show ?thesis by (simp only: MoveInput.simps)
qed

section \<open>Sub-tickets are one level deep\<close>

definition top_level :: "Ticket list \<Rightarrow> string \<Rightarrow> bool" where
  "top_level T q \<longleftrightarrow> (\<exists>p \<in> set T. tk_ID p = q \<and> tk_ParentID p = None)"

definition nested :: "Ticket list \<Rightarrow> bool" where
  "nested T \<longleftrightarrow> distinct (map tk_ID T) \<and> (\<forall>t \<in> set T. case tk_ParentID t of None \<Rightarrow> True | Some q \<Rightarrow> top_level T q)"

lemma nested_iff: "nested T \<longleftrightarrow> distinct (map tk_ID T) \<and> (\<forall>t \<in> set T. \<forall>q. tk_ParentID t = Some q \<longrightarrow> top_level T q)"
  by (auto simp: nested_def split: option.splits)

lemma nested_append:
  assumes "nested T" "tk_ID t \<notin> tk_ID ` set T" "\<And>q. tk_ParentID t = Some q \<Longrightarrow> top_level T q"
  shows "nested (T @ [t])"
  using assms by (auto simp: nested_iff top_level_def)

text \<open>One row gets a parent: a top-level one, and only if the row has no children itself.\<close>

lemma nested_update:
  assumes T: "nested T" and g: "\<And>t. tk_ID (g t) = tk_ID t"
    and others: "\<And>t. tk_ID t \<noteq> i \<Longrightarrow> tk_ParentID (g t) = tk_ParentID t"
    and self: "\<And>t v. t \<in> set T \<Longrightarrow> tk_ID t = i \<Longrightarrow> tk_ParentID (g t) = Some v \<Longrightarrow>
      tk_ParentID t = Some v \<or> v \<noteq> i \<and> top_level T v \<and> (\<forall>c \<in> set T. tk_ParentID c \<noteq> Some i)"
  shows "nested (map g T)"
proof -
  have top: "top_level (map g T) q" if "top_level T q" "q = i \<longrightarrow> (\<forall>t \<in> set T. tk_ID t = i \<longrightarrow> tk_ParentID (g t) = None)" for q
    using that g others unfolding top_level_def by (metis (no_types, lifting) imageI list.set_map)
  have "top_level (map g T) q" if t: "t \<in> set T" and q: "tk_ParentID (g t) = Some q" for t q
  proof (cases "tk_ParentID t = Some q")
    case True
    then have tq: "top_level T q" using T t by (auto simp: nested_iff)
    moreover have "\<forall>x \<in> set T. tk_ID x = i \<longrightarrow> tk_ParentID (g x) = None" if "q = i"
    proof (intro ballI impI, rule ccontr)
      fix x assume x: "x \<in> set T" "tk_ID x = i" "tk_ParentID (g x) \<noteq> None"
      then obtain v where v: "tk_ParentID (g x) = Some v" by auto
      have "x = p" if "p \<in> set T" "tk_ID p = i" for p
        using T x(1,2) that by (auto simp: nested_iff distinct_map inj_on_def)
      then have "tk_ParentID x = None" using tq \<open>q = i\<close> by (auto simp: top_level_def)
      then show False using self [OF x(1,2) v] True t \<open>q = i\<close> by auto
    qed
    ultimately show ?thesis by (intro top) auto
  next
    case False
    then have "tk_ID t = i" using others q by metis
    then have "q \<noteq> i" "top_level T q" using self [OF t _ q] False by auto
    then show ?thesis by (intro top) auto
  qed
  then show ?thesis using T g by (auto simp: nested_iff comp_def)
qed

lemma nested_same:
  assumes "nested T" "\<And>t. tk_ID (g t) = tk_ID t" "\<And>t. tk_ParentID (g t) = tk_ParentID t"
  shows "nested (map g T)"
  by (rule nested_update [OF assms(1,2)]) (simp_all add: assms(3))


lemma stampCreator_parent [simp]: "tk_ParentID (stampCreator d t) = tk_ParentID t" "tk_ID (stampCreator d t) = tk_ID t"
  by (simp_all add: stampCreator_def split: option.split prod.split ActorKind.split)

abbreviation holds_tickets :: "Ticket list \<Rightarrow> World \<Rightarrow> bool" where
  "holds_tickets T \<equiv> on_tickets ((=) T)"

lemma keeps_resolves [keep]:
  "keeps P (resolveColumn d pid cid)" "keeps P (resolveAssignee d u)" "keeps P (resolveDelegate d pid a)"
  by (auto simp: resolveColumn_def resolveAssignee_def resolveDelegate_def Let_def intro!: keep)

text \<open>A parent that was resolved is a top-level ticket.\<close>

lemma parentOK_top: "parentOK parent pid = None \<Longrightarrow> tk_ParentID parent = None"
  by (simp add: parentOK_def split: if_splits)

lemma triple_resolve_parent:
  "triple (holds_tickets T) (resolve_parent d pid i)
     (\<lambda>r w. holds_tickets T w \<and> (\<forall>p. r = Some p \<longrightarrow> top_level T (tk_ID p)))"
  unfolding resolve_parent_def
proof (rule triple_if, rule triple_ret, simp, rule triple_andThen [OF triple_looking], rule triple_option, rule triple_fail)
  fix x p
  show "triple (\<lambda>w. holds_tickets T w \<and> (\<forall>y. x = Some y \<longrightarrow> Tickets_ByID (dk_faults d) i w = Inr y))
      (case parentOK p pid of None \<Rightarrow> ret (Some p) | Some e \<Rightarrow> fail e)
      (\<lambda>r w. holds_tickets T w \<and> (\<forall>p. r = Some p \<longrightarrow> top_level T (tk_ID p)))" if "x = Some p"
    by (rule triple_option, rule triple_ret)
      (use that in \<open>auto simp: top_level_def on_tickets_def triple_fail dest!: Tickets_ByID_Inr parentOK_top\<close>)
qed

lemma Create_prepare_parent:
  "triple (holds_tickets T) (Create_prepare d key inp)
     (\<lambda>p w. holds_tickets T w \<and> (\<forall>q. tk_ParentID (cp_Ticket p) = Some q \<longrightarrow> top_level T q))"
proof -
  have last: "triple (holds_tickets T)
      (andThen (resolve_parent d pid par) (\<lambda>parent. andThen (resolveMentions d pid ms) (\<lambda>(rows, x).
         andThen (asking q) (\<lambda>i. ret (mk parent rows i)))))
      (\<lambda>p w. holds_tickets T w \<and> (\<forall>q. tk_ParentID (cp_Ticket p) = Some q \<longrightarrow> top_level T q))"
    if mk: "\<And>parent rows i. tk_ParentID (cp_Ticket (mk parent rows i)) = map_option tk_ID parent"
    for pid par ms q and mk :: "Ticket option \<Rightarrow> Mention list \<Rightarrow> string \<Rightarrow> CreatePlan"
  proof (rule triple_andThen [OF triple_resolve_parent], rule triple_fact)
    fix parent :: "Ticket option"
    show "\<forall>p. parent = Some p \<longrightarrow> top_level T (tk_ID p)" if "holds_tickets T w \<and> (\<forall>p. parent = Some p \<longrightarrow> top_level T (tk_ID p))" for w
      using that by blast
    assume top: "\<forall>p. parent = Some p \<longrightarrow> top_level T (tk_ID p)"
    show "triple (\<lambda>w. holds_tickets T w \<and> (\<forall>p. parent = Some p \<longrightarrow> top_level T (tk_ID p)))
        (andThen (resolveMentions d pid ms) (\<lambda>(rows, x). andThen (asking q) (\<lambda>i. ret (mk parent rows i))))
        (\<lambda>p w. holds_tickets T w \<and> (\<forall>q. tk_ParentID (cp_Ticket p) = Some q \<longrightarrow> top_level T q))"
      by (rule triple_andThen [OF triple_keeps [OF keeps_resolve_mentions]], rule triple_prod,
          rule triple_andThen [OF triple_keeps [OF keeps_asking]], rule triple_ret) (use top mk in auto)
  qed
  show ?thesis
    unfolding Create_prepare_def Let_def
    apply (rule triple_andThen [OF triple_keeps [OF keeps_reading]])
    apply (rule triple_andThen [OF triple_keeps [OF keeps_resolves(1)]], rule triple_prod)
    apply (rule triple_andThen [OF triple_keeps [OF keeps_resolves(2)]], rule triple_prod)
    apply (rule triple_andThen [OF triple_keeps [OF keeps_resolves(3)]], rule triple_prod)
    apply (auto intro!: triple_fail last split: list.split option.split prod.split)
    done
qed

lemma triple_create:
  assumes "nested T" and "\<And>q. tk_ParentID tk = Some q \<Longrightarrow> top_level T q"
  shows "triple (holds_tickets T) (writing (Tickets_Create f tk)) (\<lambda>_. holds_tickets (T @ [tk]))"
    and "triple (holds_tickets T) (writing (Tickets_Create f tk)) (\<lambda>_ w. nested (T @ [tk]))"
proof -
  have c: "w_tickets w' = T @ [tk] \<and> tk_ID tk \<notin> tk_ID ` set T" if "Tickets_Create f tk w = (Inr x, w')" "w_tickets w = T" for w w' x
    using that by (auto simp: Tickets_Create_def exec_def list_ex_iff image_iff split: if_splits option.splits)
  then show "triple (holds_tickets T) (writing (Tickets_Create f tk)) (\<lambda>_. holds_tickets (T @ [tk]))"
    by (auto simp: triple_def svc_ok on_tickets_def)
  show "triple (holds_tickets T) (writing (Tickets_Create f tk)) (\<lambda>_ w. nested (T @ [tk]))"
    using c nested_append [OF assms(1) _ assms(2)] by (auto simp: triple_def svc_ok on_tickets_def)
qed


text \<open>Whatever the outcome, a run from \<^verbatim>\<open>P\<close> ends in \<^verbatim>\<open>I\<close>.\<close>

definition ends :: "(World \<Rightarrow> bool) \<Rightarrow> 'a svc \<Rightarrow> (World \<Rightarrow> bool) \<Rightarrow> bool" where
  "ends P m I \<longleftrightarrow> (\<forall>w. P w \<longrightarrow> I (snd (m w)))"

lemma ends_keeps: "keeps P m \<Longrightarrow> (\<And>w. P w \<Longrightarrow> I w) \<Longrightarrow> ends P m I"
  by (simp add: ends_def keeps_def)

lemma ends_andThen: "ends P m I \<Longrightarrow> triple P m R \<Longrightarrow> (\<And>x. ends (R x) (k x) I) \<Longrightarrow> ends P (andThen m k) I"
  unfolding ends_def triple_def andThen_def by (auto split: prod.split sum.split)

lemma ends_andThen_keeps: "ends P m I \<Longrightarrow> (\<And>x. keeps I (k x)) \<Longrightarrow> ends P (andThen m k) I"
  unfolding ends_def keeps_def andThen_def by (auto split: prod.split sum.split)

lemma ends_ensure: "ends (\<lambda>w. P w \<and> b) m I \<Longrightarrow> (\<And>w. P w \<Longrightarrow> I w) \<Longrightarrow> ends P (ensure b e m) I"
  by (simp add: ends_def ensure_def fail_def)

lemma ends_transact: "triple P m (\<lambda>_. I) \<Longrightarrow> (\<And>w. P w \<Longrightarrow> I w) \<Longrightarrow> ends P (transact f m) I"
  unfolding ends_def triple_def transact_def by (auto split: option.splits prod.splits sum.splits)

lemma ends_weaken: "ends P m I \<Longrightarrow> (\<And>w. P' w \<Longrightarrow> P w) \<Longrightarrow> ends P' m I"
  by (simp add: ends_def)

lemma keeps_Create_prepare: "keeps P (Create_prepare d key inp)"
  by (auto simp: Create_prepare_def resolve_parent_def Let_def intro!: keep split: list.split option.split)

lemma nested_holds: "nested T \<Longrightarrow> holds_tickets T w \<Longrightarrow> on_tickets nested w"
  by (simp add: on_tickets_def)

lemma triple_created:
  assumes "nested T" and "\<And>q. tk_ParentID tk = Some q \<Longrightarrow> top_level T q"
  shows "triple (holds_tickets T) (writing (Tickets_Create f tk)) (\<lambda>_. on_tickets nested)"
  using triple_create [OF assms] by (auto simp: triple_def on_tickets_def)

lemma Create_tx_nested:
  assumes "nested T" and "\<And>q. tk_ParentID (cp_Ticket p) = Some q \<Longrightarrow> top_level T q"
  shows "triple (holds_tickets T) (Create_tx d p) (\<lambda>_. on_tickets nested)"
  unfolding Create_tx_def Let_def
  by (rule triple_andThen [OF triple_keeps [OF keeps_seq]], rule triple_andThen [OF triple_keeps [OF keeps_pure(1)]],
      rule triple_andThen [OF triple_created [OF assms(1)]], simp add: assms(2), rule triple_keeps, intro keep)

lemma TicketCreate_nested:
  assumes "nested T"
  shows "ends (holds_tickets T) (TicketCreate d key inp) (on_tickets nested)"
  unfolding TicketCreate_def
proof (rule ends_andThen [OF ends_keeps [OF keeps_Create_prepare nested_holds [OF assms]] Create_prepare_parent])
  fix p
  have "triple (\<lambda>w. holds_tickets T w \<and> (\<forall>q. tk_ParentID (cp_Ticket p) = Some q \<longrightarrow> top_level T q))
    (Create_tx d p) (\<lambda>_. on_tickets nested)"
    by (rule triple_fact [of _ "\<forall>q. tk_ParentID (cp_Ticket p) = Some q \<longrightarrow> top_level T q"], blast,
        rule triple_weaken [OF Create_tx_nested [OF assms]]) auto
  then show "ends (\<lambda>w. holds_tickets T w \<and> (\<forall>q. tk_ParentID (cp_Ticket p) = Some q \<longrightarrow> top_level T q))
      (Create_commit d p) (on_tickets nested)"
    unfolding Create_commit_def
    by (rule ends_andThen_keeps [OF ends_transact]) (auto intro!: keep nested_holds [OF assms])
qed


text \<open>What a draft may do to the parent of its ticket.\<close>

definition draft_ok :: "Ticket list \<Rightarrow> Ticket \<Rightarrow> Draft \<Rightarrow> bool" where
  "draft_ok T before r \<longleftrightarrow> tk_ID (dr_Ticket r) = tk_ID before \<and>
     (\<forall>v. tk_ParentID (dr_Ticket r) = Some v \<longrightarrow> tk_ParentID before = Some v \<or>
        v \<noteq> tk_ID before \<and> top_level T v \<and> (\<forall>c \<in> set T. tk_ParentID c \<noteq> Some (tk_ID before)))"

lemma patch_text_ok: "draft_ok T before r \<Longrightarrow> draft_ok T before (patch_text p r)"
  by (simp add: patch_text_def Let_def draft_ok_def split: option.split)

lemma patch_people_ok:
  "triple (\<lambda>w. holds_tickets T w \<and> draft_ok T b r) (patch_assignee d p r) (\<lambda>r w. holds_tickets T w \<and> draft_ok T b r)"
  "triple (\<lambda>w. holds_tickets T w \<and> draft_ok T b r) (patch_delegate d p r) (\<lambda>r w. holds_tickets T w \<and> draft_ok T b r)"
  unfolding patch_assignee_def patch_delegate_def Let_def
  by (cases "pt_AssigneeID p"; cases "pt_DelegateAgentID p"; simp only: OptStr.case;
      (rule triple_ret triple_andThen [OF triple_keeps [OF keeps_resolves(2)]] triple_andThen [OF triple_keeps [OF keeps_resolves(3)]]
        triple_prod triple_if triple_option triple_fail)+; auto simp: draft_ok_def)+

lemma no_children: "Tickets_CountChildren f i w = Inr n \<Longrightarrow> n \<le> 0 \<Longrightarrow> t \<in> set (w_tickets w) \<Longrightarrow> tk_ParentID t \<noteq> Some i"
  by (auto simp: Tickets_CountChildren_def count_if_def filter_empty_conv)

lemma patch_parent_ok:
  "triple (\<lambda>w. holds_tickets T w \<and> draft_ok T b r) (patch_parent d p r) (\<lambda>r w. holds_tickets T w \<and> draft_ok T b r)"
proof (cases "pt_ParentID p")
  case (OptValue v)
  show ?thesis
    unfolding patch_parent_def Let_def OptValue OptStr.case
  proof (rule triple_if, rule triple_ret, simp, rule triple_if, rule triple_ret, simp add: draft_ok_def,
      rule triple_andThen [OF triple_looking], rule triple_option, rule triple_ret, simp add: draft_ok_def,
      rule triple_option, rule triple_andThen [OF triple_reading], rule triple_ensure, rule triple_ret)
    fix x parent n w
    assume "v \<noteq> tk_ID (dr_Ticket r)" "x = Some parent" "parentOK parent (tk_ProjectID (dr_Ticket r)) = None"
      "(((holds_tickets T w \<and> draft_ok T b r) \<and> (\<forall>y. x = Some y \<longrightarrow> Tickets_ByID (dk_faults d) v w = Inr y)) \<and>
        Tickets_CountChildren (dk_faults d) (tk_ID (dr_Ticket r)) w = Inr n) \<and> n \<le> 0"
    then show "holds_tickets T w \<and> draft_ok T b (r\<lparr> dr_Ticket := (dr_Ticket r)\<lparr> tk_ParentID := Some (tk_ID parent) \<rparr>,
        dr_Stream := dr_Stream r @ [[(''event'', JStr ''reparented''), (''parent_id'', JStr (tk_ID parent))]] \<rparr>)"
      using no_children [of "dk_faults d" "tk_ID (dr_Ticket r)" w n] Tickets_ByID_Inr [of "dk_faults d" v w parent]
        parentOK_top [of parent] by (auto simp: draft_ok_def top_level_def on_tickets_def)
  qed (rule triple_fail)
qed (auto simp: triple_def patch_parent_def Let_def svc_ok draft_ok_def split: if_splits)

lemma triple_updated:
  assumes T: "nested T" and ok: "draft_ok T b r" and tk: "tk_ID tk = tk_ID (dr_Ticket r)" "tk_ParentID tk = tk_ParentID (dr_Ticket r)"
    and b: "b \<in> set T"
  shows "triple (holds_tickets T) (writing (Tickets_Update f tk)) (\<lambda>_. on_tickets nested)"
  unfolding triple_def svc_ok
proof (intro allI impI)
  fix w x w'
  assume w: "holds_tickets T w" and u: "Tickets_Update f tk w = (Inr x, w')"
  let ?g = "\<lambda>t. if tk_ID t = tk_ID tk then tk\<lparr> tk_ProjectID := tk_ProjectID t, tk_Seq := tk_Seq t, tk_Key := tk_Key t,
                tk_Origin := tk_Origin t, tk_CreatedByUserID := tk_CreatedByUserID t,
                tk_CreatedByAgentID := tk_CreatedByAgentID t, tk_CreatedAt := tk_CreatedAt t \<rparr> else t"
  have "w_tickets w' = map ?g T"
    using u w by (auto simp: Tickets_Update_def exec_one_def update_where_def on_tickets_def split: option.splits if_splits)
  moreover have "t = b" if "t \<in> set T" "tk_ID t = tk_ID tk" for t
    using T b that ok tk(1) by (auto simp: nested_iff distinct_map inj_on_def draft_ok_def)
  then have "nested (map ?g T)"
    using ok tk by (intro nested_update [OF T, of _ "tk_ID tk"]) (auto simp: draft_ok_def)
  ultimately show "on_tickets nested w'" by (simp add: on_tickets_def)
qed


lemma patch_text_start: "draft_ok T b (patch_text p \<lparr> dr_Ticket = b, dr_Errs = [], dr_Edited = [], dr_Stream = [] \<rparr>)"
  by (rule patch_text_ok) (simp add: draft_ok_def)

lemma triple_patch_start:
  "triple (\<lambda>w. (holds_tickets T w \<and> c w) \<and> c')
    (patch_assignee d p (patch_text p \<lparr> dr_Ticket = b, dr_Errs = [], dr_Edited = [], dr_Stream = [] \<rparr>))
    (\<lambda>r w. holds_tickets T w \<and> draft_ok T b r)"
  using patch_people_ok(1) [of T b] patch_text_start [of T b p] unfolding triple_def by blast

lemma triple_write_draft:
  assumes "nested T" "b \<in> set T"
  shows "triple (\<lambda>w. (holds_tickets T w \<and> draft_ok T b r) \<and> c)
    (writing (Tickets_Update f ((dr_Ticket r)\<lparr> tk_UpdatedAt := now \<rparr>))) (\<lambda>_. on_tickets nested)"
  by (rule triple_fact [of _ "draft_ok T b r"], blast, rule triple_weaken [OF triple_updated [OF assms(1) _ _ _ assms(2)]]) auto

lemma Update_tx_nested:
  assumes T: "nested T"
  shows "triple (holds_tickets T) (Update_tx d i p) (\<lambda>_. on_tickets nested)"
  unfolding Update_tx_def Let_def
  apply (rule triple_andThen [OF triple_reading])
  subgoal for b
    apply (rule triple_fact [of _ "b \<in> set T"])
     apply (auto simp: on_tickets_def dest: Tickets_ByID_Inr)[1]
    apply (rule triple_ensure, rule triple_andThen [OF triple_patch_start])
    apply (rule triple_andThen [OF patch_people_ok(2)], rule triple_andThen [OF patch_parent_ok], rule triple_ensure, rule triple_if)
     apply (rule triple_ret, use nested_holds [OF T] in blast)
    apply (rule triple_andThen [OF triple_write_draft [OF T]], assumption)
    apply (rule triple_keeps, intro keep)
    done
  done

text \<open>A batch of sub-tickets hangs under a ticket that stays top-level.\<close>

lemma create_subs_nested:
  "triple (on_tickets (\<lambda>T. nested T \<and> top_level T (tk_ID parent))) (create_subs d parent p col pos ts acc)
     (\<lambda>_. on_tickets (\<lambda>T. nested T \<and> top_level T (tk_ID parent)))"
proof (induction ts arbitrary: pos acc)
  case Nil
  show ?case by (simp add: triple_ret)
next
  case (Cons t ts)
  have sub: "tk_ParentID (sub_ticket d parent p t i seq q) = Some (tk_ID parent)" for i seq q
    by (simp add: sub_ticket_def)
  have step: "triple (on_tickets (\<lambda>T. nested T \<and> top_level T (tk_ID parent))) (writing (Tickets_Create f tk))
     (\<lambda>_. on_tickets (\<lambda>T. nested T \<and> top_level T (tk_ID parent)))" if "tk_ParentID tk = Some (tk_ID parent)" for f tk
    unfolding triple_def
  proof (intro allI impI)
    fix w x w'
    assume P: "on_tickets (\<lambda>T. nested T \<and> top_level T (tk_ID parent)) w" and m: "writing (Tickets_Create f tk) w = (Inr x, w')"
    then have n: "nested (w_tickets w)" and t: "top_level (w_tickets w) (tk_ID parent)" by (simp_all add: on_tickets_def)
    have "holds_tickets (w_tickets w @ [tk]) w'" "nested (w_tickets w @ [tk])"
      using triple_create [OF n, of tk f] that t m unfolding triple_def by (auto simp: on_tickets_def)
    then show "on_tickets (\<lambda>T. nested T \<and> top_level T (tk_ID parent)) w'"
      using t by (auto simp: on_tickets_def top_level_def) (metis Un_iff set_append)
  qed
  show ?case
    unfolding create_subs.simps Let_def
    by (rule triple_andThen [OF triple_keeps [OF keeps_seq]], rule triple_andThen [OF triple_keeps [OF keeps_asking]],
        rule triple_andThen [OF step [OF sub]], rule triple_andThen [OF triple_keeps [OF keeps_appendStream(1)]], rule Cons.IH)
qed


lemma create_batch_nested:
  assumes "\<And>w. P w \<Longrightarrow> on_tickets (\<lambda>T. nested T \<and> top_level T (tk_ID parent)) w"
  shows "triple P (andThen (lastPosition d c) (\<lambda>pos.
         andThen (reading (Projects_ByID f q)) (\<lambda>p.
         andThen (create_subs d parent p col pos ts []) (\<lambda>created.
         andThen (appendStream d j k (pl created)) (\<lambda>_. ret created))))) (\<lambda>_. on_tickets nested)"
proof -
  let ?I = "on_tickets (\<lambda>T. nested T \<and> top_level T (tk_ID parent))"
  have "triple ?I (andThen (lastPosition d c) (\<lambda>pos.
         andThen (reading (Projects_ByID f q)) (\<lambda>p.
         andThen (create_subs d parent p col pos ts []) (\<lambda>created.
         andThen (appendStream d j k (pl created)) (\<lambda>_. ret created))))) (\<lambda>_. ?I)"
    by (rule triple_andThen [OF triple_keeps [OF keeps_pure(1)]], rule triple_andThen [OF triple_keeps [OF keeps_reading]],
        rule triple_andThen [OF create_subs_nested], rule triple_keeps, intro keep)
  then show ?thesis by (rule triple_weaken) (use assms in \<open>auto simp: on_tickets_def\<close>)
qed

lemma Subtickets_nested:
  assumes T: "nested T"
  shows "ends (holds_tickets T) (Subtickets d i titles) (on_tickets nested)"
  unfolding Subtickets_def Let_def
  apply (rule ends_andThen [OF ends_keeps [OF keeps_reading nested_holds [OF T]] triple_reading], assumption)
  apply (rule ends_ensure, rule ends_ensure, rule ends_ensure, rule ends_ensure)
      apply (rule ends_andThen [OF ends_keeps [OF keeps_reading] triple_reading])
       apply (use nested_holds [OF T] in blast)
      apply (rule ends_andThen_keeps, rule ends_transact, rule create_batch_nested)
        apply (use T in \<open>auto simp: on_tickets_def top_level_def dest: Tickets_ByID_Inr\<close>)[1]
       apply (use nested_holds [OF T] in blast)
      apply (intro keep)
     apply (use nested_holds [OF T] in blast)+
  done

lemma TicketUpdate_nested:
  assumes T: "nested T"
  shows "ends (holds_tickets T) (TicketUpdate d i p) (on_tickets nested)"
  unfolding TicketUpdate_def
  by (rule ends_andThen_keeps, rule ends_transact, rule Update_tx_nested [OF T])
    (auto intro!: keep nested_holds [OF T] split del: if_split)

text \<open>
  C26. Sub-tickets stay one level deep: a creation, a patch and a batch of sub-tickets keep ids distinct and
  every parent an existing top-level ticket, whether they succeed or fail, as long as requests do not overlap.
\<close>

theorem subtickets_one_level:
  assumes "nested (w_tickets w)"
  shows "nested (w_tickets (snd (TicketCreate d key inp w))) \<and> nested (w_tickets (snd (TicketUpdate d i p w))) \<and>
    nested (w_tickets (snd (Subtickets d j titles w)))"
  using TicketCreate_nested [OF assms, of d key inp] TicketUpdate_nested [OF assms, of d i p]
    Subtickets_nested [OF assms, of d j titles] by (simp add: ends_def on_tickets_def)

definition patch_parent_to :: "string \<Rightarrow> UpdatePatch" where
  "patch_parent_to v = \<lparr> pt_Title = None, pt_Description = None, pt_Priority = None, pt_AssigneeID = OptAbsent,
     pt_DelegateAgentID = OptAbsent, pt_ParentID = OptValue v \<rparr>"

definition family_board :: World where
  "family_board = blank_World\<lparr>
     w_projects := [blank_Project\<lparr> prj_ID := ''p'', prj_Key := ''K'', prj_TicketSeq := 2 \<rparr>],
     w_columns := [blank_Column\<lparr> col_ID := ''c'', col_ProjectID := ''p'' \<rparr>],
     w_tickets := [blank_Ticket\<lparr> tk_ID := ''a'', tk_ProjectID := ''p'', tk_ColumnID := ''c'', tk_Seq := 1, tk_Position := 7 \<rparr>,
       blank_Ticket\<lparr> tk_ID := ''b'', tk_ProjectID := ''p'', tk_ColumnID := ''c'', tk_Seq := 2, tk_Position := 9 \<rparr>] \<rparr>"

definition child_of_a :: CreateInput where
  "child_of_a = \<lparr> ci_Title = ''new'', ci_Description = [], ci_Priority = [], ci_ColumnID = ''c'', ci_AssigneeID = [],
     ci_DelegateAgentID = [], ci_ParentID = ''a'' \<rparr>"

lemma family_nested: "nested (w_tickets family_board)"
  by (simp add: nested_iff family_board_def blanks)

theorem subtickets_one_level_witness:
  "nested (w_tickets (snd (TicketCreate plain_desk ''K'' child_of_a family_board)))"
  using subtickets_one_level [OF family_nested] by blast



end
