(* ===== verification/TriageSafety.thy ===== *)
theory TriageSafety
  imports Triage TicketNest
begin

text \<open>
  What triage guarantees: a resolved item is final under every verb and both wakers, a ticket filed by a trigger
  stays off the board until it is accepted, a merge loses nothing it promises to carry over, and two
  ways in which requests go wrong.
\<close>

section \<open>Frames\<close>

definition on_triage :: "(TriageItem list \<Rightarrow> bool) \<Rightarrow> World \<Rightarrow> bool" where
  "on_triage P w \<longleftrightarrow> P (w_triage w)"

lemma triage_frames:
  "w_triage (snd (TicketStream_Append f e w)) = w_triage w" "w_triage (snd (Tickets_Update f tk w)) = w_triage w"
  "w_triage (snd (Labels_Attach f a b w)) = w_triage w" "w_triage (snd (Criteria_Create f c w)) = w_triage w"
  "w_triage (snd (Mentions_RedirectTarget f k a b w)) = w_triage w"
  by (simp_all add: TicketStream_Append_def Tickets_Update_def Labels_Attach_def Criteria_Create_def
      Mentions_RedirectTarget_def exec_def exec_one_def split: option.splits)

lemma keeps_triage [keep]:
  "keeps (on_triage P) (appendStream d i k pl)" "keeps (on_triage P) (writing (Tickets_Update f tk))"
  "keeps (on_triage P) (writing (Labels_Attach f a b))" "keeps (on_triage P) (writing (Criteria_Create f c))"
  "keeps (on_triage P) (writing (Mentions_RedirectTarget f kd a b))" "keeps (on_triage P) (svc_audit d x kd i p n y z)"
  "keeps (on_triage P) (emitTicket d ac t ex)" "keeps (on_triage P) (emitTriage d ac t it)"
proof -
  have "keeps (on_triage P) (writing (TicketStream_Append f e))" for f e
    by (rule keeps_writing) (simp add: on_triage_def triage_frames)
  then show "keeps (on_triage P) (appendStream d i k pl)" by (simp add: appendStream_def keeps_def)
  show "keeps (on_triage P) (svc_audit d x kd i p n y z)"
    unfolding svc_audit_def by (rule keeps_writing) (simp add: on_triage_def)
  show "keeps (on_triage P) (emitTicket d ac t ex)" "keeps (on_triage P) (emitTriage d ac t it)"
    unfolding emitTicket_def emitTriage_def by (rule keeps_doing, simp add: on_triage_def)+
qed (rule keeps_writing, simp add: on_triage_def triage_frames)+

lemma keeps_triage_result [keep]: "keeps P (triage_result d it tk)"
  unfolding triage_result_def by (intro keep)

lemma keeps_copy_criteria [keep]: "keeps (on_triage P) (copy_criteria d s p n cs)"
  by (induction cs arbitrary: p n) (simp_all add: keep)

lemma keeps_merges [keep]:
  "keeps (on_triage P) (merge_labels d a b)" "keeps (on_triage P) (merge_criteria d a b)"
  unfolding merge_labels_def merge_criteria_def Let_def by (intro keep)+

lemma keeps_survivor [keep]: "keeps P (the_survivor d dup oid)"
  unfolding the_survivor_def Let_def by (intro keep)

lemma keeps_snooze_time [keep]: "keeps P (snooze_time d parse u)"
  unfolding snooze_time_def by (intro keep)

lemma keeps_logged [keep]: "keeps P m \<Longrightarrow> keeps P (logged m)"
  by (simp add: keeps_def logged_def)

text \<open>A step that learns something before it goes on.\<close>

lemma keeps_learn: "keeps P m \<Longrightarrow> triple P m (\<lambda>x _. R x) \<Longrightarrow> (\<And>x. R x \<Longrightarrow> keeps P (k x)) \<Longrightarrow> keeps P (andThen m k)"
  unfolding keeps_def triple_def andThen_def by (auto split: prod.splits sum.splits)

lemma keeps_cases: "(c \<Longrightarrow> keeps P a) \<Longrightarrow> (\<not> c \<Longrightarrow> keeps P b) \<Longrightarrow> keeps P (if c then a else b)"
  by simp

section \<open>A resolved item is final\<close>

definition item_is :: "string \<Rightarrow> TriageItem \<Rightarrow> World \<Rightarrow> bool" where
  "item_is k it = on_triage (\<lambda>t. find_row ti_ID k t = Some it)"

lemma keeps_other_item:
  assumes "ti_ID x \<noteq> k"
  shows "keeps (item_is k it) (writing (Triage_Update f x))"
  unfolding item_is_def
proof (rule keeps_writing)
  fix w
  assume w: "on_triage (\<lambda>t. find_row ti_ID k t = Some it) w"
  have "find_row ti_ID k (w_triage (snd (Triage_Update f x w))) = find_row ti_ID k (w_triage w)"
    using triage_table.find_update_other [of k "ti_ID x" "\<lambda>y. y\<lparr> ti_State := ti_State x, ti_DuplicateOf := ti_DuplicateOf x,
        ti_Reason := ti_Reason x, ti_SnoozeUntil := ti_SnoozeUntil x, ti_ResolvedBy := ti_ResolvedBy x,
        ti_ResolvedAt := ti_ResolvedAt x \<rparr>" "\<lambda>_. True" "w_triage w"] assms
    by (simp add: Triage_Update_def exec_one_def split: option.splits)
  then show "on_triage (\<lambda>t. find_row ti_ID k t = Some it) (snd (Triage_Update f x w))" using w by (simp add: on_triage_def)
qed

lemma keeps_unresolvedItem [keep]: "keeps P (unresolvedItem d j)"
  unfolding unresolvedItem_def Let_def by (intro keep)

lemma other_item:
  "find_row ti_ID k t = Some it \<Longrightarrow> find_row ti_ID j t = Some x \<Longrightarrow> Unresolved x \<noteq> Unresolved it \<Longrightarrow> ti_ID x \<noteq> k"
  using find_row_Some by fastforce

lemma unresolvedItem_learns:
  assumes "\<not> Unresolved it"
  shows "triple (item_is k it) (unresolvedItem d j) (\<lambda>x _. ti_ID (fst x) \<noteq> k)"
  using assms unfolding triple_def
  by (auto simp: unresolvedItem_def Let_def svc_ok item_is_def on_triage_def Triage_ByID_def) (metis other_item)

lemma resolveItem_ID [simp]: "ti_ID (resolveItem d it s) = ti_ID it"
  by (simp add: resolveItem_def)

lemma keeps_verbs:
  assumes res: "\<not> Unresolved it"
  shows "keeps (item_is k it) (TriageAccept d j)" and "keeps (item_is k it) (TriageDecline d j reason)"
    and "keeps (item_is k it) (TriageSnooze d parse j until)" and "keeps (item_is k it) (TriageDuplicateOf d j oid)"
proof -
  note learn = keeps_learn [OF keeps_unresolvedItem unresolvedItem_learns [OF res]]
  note upd = keeps_other_item
  have "keeps (item_is k it) (TriageAccept_tx d j)"
    unfolding TriageAccept_tx_def by (rule learn) (auto simp: Let_def item_is_def intro!: keep upd [unfolded item_is_def])
  then show "keeps (item_is k it) (TriageAccept d j)"
    unfolding TriageAccept_def item_is_def by (intro keep)
  have "keeps (item_is k it) (TriageDecline_tx d j r)" for r
    unfolding TriageDecline_tx_def by (rule learn) (auto simp: Let_def item_is_def intro!: keep upd [unfolded item_is_def])
  then show "keeps (item_is k it) (TriageDecline d j reason)"
    unfolding TriageDecline_def Let_def item_is_def by (intro keep)
  have "keeps (item_is k it) (TriageSnooze_tx d j u)" for u
    unfolding TriageSnooze_tx_def by (rule learn) (auto simp: Let_def item_is_def intro!: keep upd [unfolded item_is_def])
  then show "keeps (item_is k it) (TriageSnooze d parse j until)"
    unfolding TriageSnooze_def item_is_def by (intro keep)
  have "keeps (item_is k it) (TriageDuplicate_tx d j oid)"
    unfolding TriageDuplicate_tx_def Let_def by (rule learn) (auto simp: item_is_def intro!: keep upd [unfolded item_is_def])
  then show "keeps (item_is k it) (TriageDuplicateOf d j oid)"
    unfolding TriageDuplicateOf_def item_is_def by (intro keep)
qed

lemma keeps_wake:
  assumes res: "\<not> Unresolved it"
  shows "keeps (item_is k it) (wake_each d m why its)"
proof -
  have read: "triple (item_is k it) (reading (Triage_ByID f i)) (\<lambda>x _. ti_State x = TriageSnoozed \<longrightarrow> ti_ID x \<noteq> k)" for f i
    unfolding triple_def
  proof (intro allI impI notI)
    fix w x w'
    assume "item_is k it w" "reading (Triage_ByID f i) w = (Inr x, w')" "ti_State x = TriageSnoozed" "ti_ID x = k"
    then have "find_row ti_ID k (w_triage w) = Some it" "find_row ti_ID i (w_triage w) = Some x" "Unresolved x"
      by (auto simp: svc_ok item_is_def on_triage_def Triage_ByID_def Unresolved_def)
    then show False using other_item res \<open>ti_ID x = k\<close> by metis
  qed
  have "keeps (item_is k it) (wake_tx d x tk why)" for x tk
    unfolding wake_tx_def
    by (rule keeps_learn [OF keeps_reading read], rule keeps_cases)
      (auto simp: Let_def item_is_def intro!: keep keeps_other_item [unfolded item_is_def])
  then show ?thesis
    unfolding wake_each_def wakeItem_def item_is_def by (intro keep)
qed

text \<open>
  C31. A triage item that is accepted, declined or a duplicate never changes again: not by a verb of the queue,
  not by the waker of events and not by the waker of the clock, whether they succeed or fail.
\<close>

theorem resolved_item_final:
  assumes "find_row ti_ID k (w_triage w) = Some it" and "\<not> Unresolved it"
  shows "\<forall>m \<in> {snd \<circ> TriageAccept d j, snd \<circ> TriageDecline d j reason, snd \<circ> TriageSnooze d parse j until,
      snd \<circ> TriageDuplicateOf d j oid, snd \<circ> TriageWakeOnEvent d e, snd \<circ> WakeDueTriage d}.
    find_row ti_ID k (w_triage (m w)) = Some it"
proof -
  have w: "item_is k it w" using assms(1) by (simp add: item_is_def on_triage_def)
  have "keeps (item_is k it) (TriageWakeOnEvent d e)"
    unfolding TriageWakeOnEvent_def by (intro keep keeps_wake [OF assms(2)])
  moreover have "keeps (item_is k it) (WakeDueTriage d)"
    unfolding WakeDueTriage_def by (intro keep keeps_wake [OF assms(2)])
  ultimately show ?thesis
    using keeps_verbs [OF assms(2), of k] w by (simp add: keeps_def item_is_def on_triage_def)
qed

definition triage_board :: World where
  "triage_board = blank_World\<lparr>
     w_projects := [blank_Project\<lparr> prj_ID := ''p'', prj_Key := ''K'', prj_TicketSeq := 2 \<rparr>],
     w_columns := [blank_Column\<lparr> col_ID := ''c'', col_ProjectID := ''p'' \<rparr>],
     w_labels := [blank_Label\<lparr> lb_ID := ''l'', lb_ProjectID := ''p'', lb_Name := ''bug'' \<rparr>,
       blank_Label\<lparr> lb_ID := ''m'', lb_ProjectID := ''p'', lb_Name := ''ci'' \<rparr>],
     w_ticket_labels := [(''a'', ''l''), (''b'', ''l''), (''b'', ''m'')],
     w_tickets := [blank_Ticket\<lparr> tk_ID := ''a'', tk_ProjectID := ''p'', tk_ColumnID := ''c'', tk_Seq := 1, tk_Position := 7 \<rparr>,
       blank_Ticket\<lparr> tk_ID := ''b'', tk_ProjectID := ''p'', tk_ColumnID := ''c'', tk_Seq := 2, tk_Position := 9 \<rparr>],
     w_criteria := [blank_Criterion\<lparr> cr_ID := ''x'', cr_TicketID := ''a'', cr_Position := 1024, cr_Text := ''one'' \<rparr>,
       blank_Criterion\<lparr> cr_ID := ''y'', cr_TicketID := ''b'', cr_Position := 1024, cr_Text := ''two'', cr_Checked := True \<rparr>],
     w_triage := [blank_TriageItem\<lparr> ti_ID := ''t'', ti_TicketID := ''b'', ti_State := TriageSnoozed, ti_SnoozeUntil := Some ''1'' \<rparr>,
       blank_TriageItem\<lparr> ti_ID := ''u'', ti_TicketID := ''z'', ti_State := TriageDeclined \<rparr>] \<rparr>"

theorem resolved_item_final_witness:
  "find_row ti_ID ''u'' (w_triage (snd (WakeDueTriage plain_desk triage_board))) =
     Some (blank_TriageItem\<lparr> ti_ID := ''u'', ti_TicketID := ''z'', ti_State := TriageDeclined \<rparr>)"
proof -
  have "find_row ti_ID ''u'' (w_triage triage_board) =
      Some (blank_TriageItem\<lparr> ti_ID := ''u'', ti_TicketID := ''z'', ti_State := TriageDeclined \<rparr>)"
    "\<not> Unresolved (blank_TriageItem\<lparr> ti_ID := ''u'', ti_TicketID := ''z'', ti_State := TriageDeclined \<rparr>)"
    by (simp_all add: triage_board_def blanks find_row_Cons Unresolved_def)
  from resolved_item_final [OF this, of plain_desk] show ?thesis by simp
qed

section \<open>Off the board until accepted\<close>

lemma keeps_tickets [keep]:
  "keeps (on_tickets P) (writing (Triage_Update f x))" "keeps (on_tickets P) (writing (Triage_Create f x))"
  "keeps (on_tickets P) (writing (Labels_Attach f a b))" "keeps (on_tickets P) (emitTriage d ac t it)"
  "keeps (on_tickets P) (emitTriageCreated d t it)" "keeps (on_triage Q) (emitTriageCreated d t it)"
proof -
  show "keeps (on_tickets P) (emitTriage d ac t it)" "keeps (on_tickets P) (emitTriageCreated d t it)"
    "keeps (on_triage Q) (emitTriageCreated d t it)"
    unfolding emitTriage_def emitTriageCreated_def
    by (rule keeps_doing, simp add: on_tickets_def on_triage_def)+
qed (rule keeps_writing, simp add: on_tickets_def Triage_Update_def Triage_Create_def Labels_Attach_def exec_def exec_one_def
    split: option.splits)+

lemma keeps_conj: "keeps P m \<Longrightarrow> keeps Q m \<Longrightarrow> keeps (\<lambda>w. P w \<and> Q w) m"
  by (simp add: keeps_def)

lemma triple_any: "triple P m (\<lambda>_ _. True)"
  by (simp add: triple_def)

lemma triple_list: "(r = [] \<Longrightarrow> triple P a Q) \<Longrightarrow> (\<And>x xs. r = x # xs \<Longrightarrow> triple P (g x xs) Q) \<Longrightarrow>
  triple P (case r of [] \<Rightarrow> a | x # xs \<Rightarrow> g x xs) Q"
  by (cases r) simp_all

text \<open>A ticket and the pending item that hides it.\<close>

definition hidden :: "Ticket \<Rightarrow> World \<Rightarrow> bool" where
  "hidden tk w \<longleftrightarrow> on_tickets (\<lambda>T. tk \<in> set T) w \<and>
     on_triage (\<lambda>I. \<exists>it \<in> set I. ti_TicketID it = tk_ID tk \<and> ti_State it = TriagePending) w"

lemma hidden_off_board: "hidden tk w \<Longrightarrow> \<not> on_board w tk"
  by (auto simp: hidden_def on_triage_def on_board_def list_ex_iff)

lemma keeps_hidden: "(\<And>P. keeps (on_tickets P) m) \<Longrightarrow> (\<And>P. keeps (on_triage P) m) \<Longrightarrow> keeps (hidden tk) m"
  unfolding hidden_def by (rule keeps_conj)

lemma CreateFromTrigger_tx_hidden:
  assumes it: "ti_State it = TriagePending" "ti_TicketID it = tk_ID tk0" and live: "tk_ArchivedAt tk0 = None"
  shows "triple P (CreateFromTrigger_tx d p col tk0 it attach) (\<lambda>tk w. tk_ArchivedAt tk = None \<and> hidden tk w)"
proof -
  have ins: "triple (\<lambda>_. True) (writing (Tickets_Create f t)) (\<lambda>_. on_tickets (\<lambda>T. t \<in> set T))" for f t
    by (auto simp: triple_def svc_ok Tickets_Create_def exec_def on_tickets_def split: option.splits if_splits)
  have hide: "triple (on_tickets (\<lambda>T. t \<in> set T)) (writing (Triage_Create f it)) (\<lambda>_. hidden t)" if "tk_ID t = tk_ID tk0" for f t
    using it that by (auto simp: triple_def svc_ok Triage_Create_def exec_def on_tickets_def on_triage_def hidden_def
        split: option.splits if_splits)
  show ?thesis
    unfolding CreateFromTrigger_tx_def Let_def
    by (rule triple_andThen [OF triple_any], rule triple_andThen [OF triple_any], rule triple_andThen [OF ins],
        rule triple_andThen [OF hide], simp, rule triple_andThen [OF triple_keeps], rule keeps_hidden, intro keep, intro keep,
        rule triple_andThen [OF triple_keeps], rule keeps_hidden, intro keep, intro keep, rule triple_ret) (simp add: live)
qed

lemma CreateFromTrigger_hidden:
  "triple P (CreateFromTrigger d inp) (\<lambda>tk w. tk_ArchivedAt tk = None \<and> hidden tk w)"
  unfolding CreateFromTrigger_def Let_def
  apply (rule triple_andThen [OF triple_any], rule triple_ensure, rule triple_andThen [OF triple_any], rule triple_list, rule triple_fail)
  apply (rule triple_andThen [OF triple_any], rule triple_andThen [OF triple_any], rule triple_andThen [OF triple_any])
  apply (rule triple_andThen [OF triple_transact [OF CreateFromTrigger_tx_hidden]], simp, simp, simp add: blanks)
  apply (rule triple_andThen [OF triple_keeps], rule keeps_conj, simp add: keeps_def, rule keeps_hidden, intro keep, intro keep)
  apply (rule triple_andThen [OF triple_keeps], rule keeps_conj, simp add: keeps_def, rule keeps_hidden, intro keep, intro keep)
  apply (rule triple_ret, assumption)
  done


definition filing :: TriggerCreateInput where
  "filing = \<lparr> tc_ProjectID = ''p'', tc_Title = ''red'', tc_Description = [], tc_LabelNames = [''ci''], tc_Provenance = ''Created'',
     tc_SourceTriggerID = [], tc_SourceRunID = [] \<rparr>"


lemma TriageAccept_tx_shows:
  assumes one: "distinct (map ti_TicketID I)"
  shows "triple (\<lambda>w. holds_tickets T w \<and> on_triage ((=) I) w) (TriageAccept_tx d k)
    (\<lambda>r w. (snd r \<in> set T \<and> tk_ArchivedAt (snd r) = None \<and> ti_State (fst r) = TriageAccepted) \<and> holds_tickets T w \<and>
       on_triage (\<lambda>t. \<forall>x \<in> set t. ti_TicketID x = tk_ID (snd r) \<longrightarrow> \<not> Unresolved x) w)"
proof -
  have get: "triple (\<lambda>w. holds_tickets T w \<and> on_triage ((=) I) w) (unresolvedItem d k)
      (\<lambda>r w. (snd r \<in> set T \<and> tk_ArchivedAt (snd r) = None \<and> tk_ID (snd r) = ti_TicketID (fst r) \<and> fst r \<in> set I) \<and>
        holds_tickets T w \<and> on_triage ((=) I) w)"
    unfolding triple_def by (auto simp: unresolvedItem_def Let_def svc_ok on_tickets_def on_triage_def Triage_ByID_def
        dest!: find_row_Some Tickets_ByID_Inr)
  have upd: "triple (\<lambda>w. c \<and> holds_tickets T w \<and> on_triage ((=) I) w) (writing (Triage_Update f (resolveItem d it TriageAccepted)))
      (\<lambda>_ w. c \<and> holds_tickets T w \<and> on_triage (\<lambda>t. \<forall>x \<in> set t. ti_TicketID x = ti_TicketID it \<longrightarrow> \<not> Unresolved x) w)"
    if "it \<in> set I" for f it c
  proof -
    have "x = it" if "x \<in> set I" "ti_TicketID x = ti_TicketID it" for x
      using one that \<open>it \<in> set I\<close> by (auto simp: distinct_map inj_on_def)
    then show ?thesis
      by (auto simp: triple_def svc_ok Triage_Update_def exec_one_def on_tickets_def on_triage_def set_update_where
          Unresolved_def resolveItem_def split: option.splits if_splits)
  qed
  show ?thesis
    unfolding TriageAccept_tx_def Let_def
    apply (rule triple_andThen [OF get], rule triple_prod)
    apply (rule_tac b = "fst x \<in> set I" in triple_fact, blast)
    apply (rule triple_andThen [OF upd], simp)
    apply (rule triple_andThen [OF triple_keeps [OF keeps_reading]])
    apply (rule triple_andThen [OF triple_keeps], rule keeps_conj, simp add: keeps_def, rule keeps_conj, intro keep, intro keep)
    apply (rule triple_ret, auto simp: resolveItem_def)
    done
qed


lemma triple_triage_result: "triple P (triage_result d it tk) (\<lambda>r w. (tl_Item r = it \<and> tm_Ticket (tl_Ticket r) = tk) \<and> P w)"
  by (auto simp: triple_def triage_result_def withMeta_def Let_def svc_ok)

lemma TriageAccept_shows:
  assumes one: "distinct (map ti_TicketID I)"
  shows "triple (\<lambda>w. holds_tickets T w \<and> on_triage ((=) I) w) (TriageAccept d k)
    (\<lambda>r w. (tm_Ticket (tl_Ticket r) \<in> set T \<and> tk_ArchivedAt (tm_Ticket (tl_Ticket r)) = None \<and> ti_State (tl_Item r) = TriageAccepted) \<and>
       holds_tickets T w \<and> on_triage (\<lambda>t. \<forall>x \<in> set t. ti_TicketID x = tk_ID (tm_Ticket (tl_Ticket r)) \<longrightarrow> \<not> Unresolved x) w)"
  unfolding TriageAccept_def
  apply (rule triple_andThen [OF triple_transact [OF TriageAccept_tx_shows [OF one]]], rule triple_prod)
  apply (rule triple_andThen [OF triple_keeps], rule keeps_conj, simp add: keeps_def, rule keeps_conj, intro keep, intro keep)+
  apply (rule triple_post [OF triple_triage_result], auto)
  done

text \<open>
  Accepting puts the ticket on the board where it was parked: no ticket row changes, and the exclusion of
  the board query ends for it.
\<close>

theorem accepted_ticket_shows:
  assumes "TriageAccept d k w = (Inr r, w')" and one: "distinct (map ti_TicketID (w_triage w))"
  shows "w_tickets w' = w_tickets w \<and> tm_Ticket (tl_Ticket r) \<in> set (w_tickets w') \<and> on_board w' (tm_Ticket (tl_Ticket r)) \<and>
    ti_State (tl_Item r) = TriageAccepted"
proof -
  let ?t = "tm_Ticket (tl_Ticket r)"
  have "?t \<in> set (w_tickets w)" "tk_ArchivedAt ?t = None" "ti_State (tl_Item r) = TriageAccepted" "w_tickets w' = w_tickets w"
    "\<forall>x \<in> set (w_triage w'). ti_TicketID x = tk_ID ?t \<longrightarrow> \<not> Unresolved x"
    using TriageAccept_shows [OF one, of "w_tickets w" d k, unfolded triple_def, rule_format, of w r w'] assms(1)
    by (auto simp: on_tickets_def on_triage_def)
  then show ?thesis by (simp add: on_board_def list_ex_iff Unresolved_def)
qed

theorem accepted_ticket_shows_witness:
  "case TriageAccept plain_desk ''t'' triage_board of (Inr r, w) \<Rightarrow> on_board w (tm_Ticket (tl_Ticket r)) | _ \<Rightarrow> False"
proof -
  let ?r = "TriageAccept plain_desk ''t'' triage_board"
  have "isl (fst ?r) = False" by code_simp
  then obtain r where r: "?r = (Inr r, snd ?r)" by (cases ?r; cases "fst ?r") auto
  have "distinct (map ti_TicketID (w_triage triage_board))" by code_simp
  from accepted_ticket_shows [OF r this] show ?thesis by (subst r) simp
qed

section \<open>Two ways it goes wrong\<close>

text \<open>Attaching one label to one ticket twice cannot succeed.\<close>

lemma attach_twice:
  assumes "each (\<lambda>l. writing (Labels_Attach f t l)) ls w = (Inr x, w')"
  shows "distinct ls \<and> (\<forall>l \<in> set ls. (t, l) \<notin> set (w_ticket_labels w))"
  using assms
proof (induction ls arbitrary: w)
  case (Cons l ls)
  then obtain w1 where s: "Labels_Attach f t l w = (Inr (), w1)" "each (\<lambda>l. writing (Labels_Attach f t l)) ls w1 = (Inr x, w')"
    by (auto simp: svc_ok)
  have "(t, l) \<notin> set (w_ticket_labels w)" "w_ticket_labels w1 = w_ticket_labels w @ [(t, l)]"
    using s(1) by (auto simp: Labels_Attach_def exec_def split: if_splits option.splits)
  then show ?case using Cons.IH [OF s(2)] by auto
qed simp

lemma first_or_fail_ok:
  "(case x of [] \<Rightarrow> fail e | y # ys \<Rightarrow> k y) w = (Inr r, w') \<longleftrightarrow> (\<exists>y. (\<exists>ys. x = y # ys) \<and> k y w = (Inr r, w'))"
  by (cases x) (simp_all add: svc_ok)

lemma attach_ids_append: "attach_ids ls (xs @ ys) = attach_ids ls xs @ attach_ids ls ys"
  by (induction xs) (auto split: option.splits)





section \<open>A merge\<close>

definition desk_are :: "Label list \<times> (string \<times> string) list \<times> Criterion list \<times> Mention list \<Rightarrow> World \<Rightarrow> bool" where
  "desk_are V w \<longleftrightarrow> (w_labels w, w_ticket_labels w, w_criteria w, w_mentions w) = V"

lemma keeps_desk [keep]:
  "keeps (desk_are V) (appendStream d i sk pl)" "keeps (desk_are V) (svc_audit d x kd i p n y z)"
  "keeps (desk_are V) (emitTicket d ac t ex)" "keeps (desk_are V) (emitTriage d ac t it)"
  "keeps (desk_are V) (writing (Tickets_Update f tk))" "keeps (desk_are V) (writing (Triage_Update f it))"
proof -
  have "keeps (desk_are V) (writing (TicketStream_Append f e))" for f e
    by (rule keeps_writing) (simp add: desk_are_def TicketStream_Append_def exec_def split: option.splits)
  then show "keeps (desk_are V) (appendStream d i sk pl)" by (simp add: appendStream_def keeps_def)
  show "keeps (desk_are V) (svc_audit d x kd i p n y z)"
    unfolding svc_audit_def by (rule keeps_writing) (simp add: desk_are_def audit_write_def exec_def split: option.splits)
  show "keeps (desk_are V) (emitTicket d ac t ex)" "keeps (desk_are V) (emitTriage d ac t it)"
    unfolding emitTicket_def emitTriage_def by (rule keeps_doing, simp add: desk_are_def emit_frame_def)+
qed (rule keeps_writing, simp add: desk_are_def Tickets_Update_def Triage_Update_def exec_one_def split: option.splits)+

definition merged_labels :: "string \<Rightarrow> Label list \<Rightarrow> Label list \<Rightarrow> (string \<times> string) list" where
  "merged_labels s own ls = map (\<lambda>l. (s, lb_ID l)) (filter (\<lambda>l. \<not> list_ex (\<lambda>h. lb_ID h = lb_ID l) own) ls)"

lemma merge_labels_adds:
  "triple (desk_are (L, TL, C, M)) (merge_labels d s u) (\<lambda>_. desk_are (L, TL @ merged_labels s
     (sort_key label_order (filter (\<lambda>l. (s, lb_ID l) \<in> set TL) L)) (sort_key label_order (filter (\<lambda>l. (u, lb_ID l) \<in> set TL) L)), C, M))"
proof -
  have "each (\<lambda>l. if list_ex (\<lambda>h. lb_ID h = lb_ID l) own then ret () else writing (Labels_Attach f s (lb_ID l))) ls w = (Inr x, w') \<Longrightarrow>
      desk_are (L, TL, C, M) w \<Longrightarrow> desk_are (L, TL @ merged_labels s own ls, C, M) w'" for f own ls w x w' TL
  proof (induction ls arbitrary: w TL)
    case Nil
    then show ?case by (simp add: svc_ok merged_labels_def)
  next
    case (Cons l ls)
    show ?case
    proof (cases "list_ex (\<lambda>h. lb_ID h = lb_ID l) own")
      case True
      then show ?thesis using Cons by (simp add: svc_ok merged_labels_def)
    next
      case False
      then obtain w1 where s: "Labels_Attach f s (lb_ID l) w = (Inr (), w1)"
        "each (\<lambda>l. if list_ex (\<lambda>h. lb_ID h = lb_ID l) own then ret () else writing (Labels_Attach f s (lb_ID l))) ls w1 = (Inr x, w')"
        using Cons.prems(1) by (auto simp: svc_ok)
      have "desk_are (L, TL @ [(s, lb_ID l)], C, M) w1"
        using s(1) Cons.prems(2) by (auto simp: Labels_Attach_def exec_def desk_are_def split: if_splits option.splits)
      from Cons.IH [OF s(2) this] False show ?thesis by (simp add: merged_labels_def)
    qed
  qed
  then show ?thesis
    unfolding triple_def merge_labels_def Let_def
    by (auto simp: svc_ok Labels_ForTicket_def labels_of_def desk_are_def)
qed

text \<open>The content of a criterion that a merge keeps.\<close>

definition content :: "Criterion \<Rightarrow> string \<times> bool \<times> string option \<times> string option \<times> string" where
  "content c = (cr_Text c, cr_Checked c, cr_CheckedByRunID c, cr_CheckedByUserID c, cr_Note c)"

definition copies :: "string \<Rightarrow> int \<Rightarrow> Criterion list \<Rightarrow> Criterion list \<Rightarrow> bool" where
  "copies s pos cs cs' \<longleftrightarrow> map content cs' = map content cs \<and> (\<forall>c \<in> set cs'. cr_TicketID c = s \<and> pos < cr_Position c) \<and>
     sorted_wrt (\<lambda>a b. cr_Position a < cr_Position b) cs'"

lemma copy_criteria_adds:
  "copy_criteria d s pos n cs w = (Inr x, w') \<Longrightarrow> desk_are (L, TL, C, M) w \<Longrightarrow>
   \<exists>cs'. desk_are (L, TL, C @ cs', M) w' \<and> copies s pos cs cs'"
proof (induction cs arbitrary: pos n w C)
  case Nil
  then show ?case by (auto simp: svc_ok copies_def)
next
  case (Cons c cs)
  obtain i w1 where s: "Criteria_Create (dk_faults d) (c\<lparr> cr_ID := i, cr_TicketID := s, cr_Position := pos + criterionGap,
      cr_UpdatedAt := dk_now d \<rparr>) w = (Inr (), w1)" "copy_criteria d s (pos + criterionGap) (Suc n) cs w1 = (Inr x, w')"
    using Cons.prems(1) by (auto simp: svc_ok)
  let ?c = "c\<lparr> cr_ID := i, cr_TicketID := s, cr_Position := pos + criterionGap, cr_UpdatedAt := dk_now d \<rparr>"
  have "desk_are (L, TL, C @ [?c], M) w1"
    using s(1) Cons.prems(2) by (auto simp: Criteria_Create_def exec_def desk_are_def split: if_splits option.splits)
  from Cons.IH [OF s(2) this] obtain cs' where IH: "desk_are (L, TL, (C @ [?c]) @ cs', M) w'" "copies s (pos + criterionGap) cs cs'"
    by auto
  have "copies s pos (c # cs) (?c # cs')"
    using IH(2) by (fastforce simp: copies_def content_def criterionGap_def)
  then show ?case using IH(1) by (intro exI [of _ "?c # cs'"]) simp
qed

lemma insort_key_append: "\<forall>y \<in> set ys. k x \<le> k y \<Longrightarrow> insort_key k x (zs @ ys) = insort_key k x zs @ ys"
  by (induction zs) (auto simp: insort_is_Cons)

lemma sort_key_append_above:
  "sorted (map k ys) \<Longrightarrow> \<forall>x \<in> set xs. \<forall>y \<in> set ys. k x \<le> k y \<Longrightarrow> sort_key k (xs @ ys) = sort_key k xs @ ys"
proof (induction xs)
  case Nil
  then show ?case by (simp add: sort_key_id_if_sorted)
qed (simp add: insort_key_append)


definition labels_in :: "Label list \<Rightarrow> (string \<times> string) list \<Rightarrow> string \<Rightarrow> Label list" where
  "labels_in L TL t = sort_key label_order (filter (\<lambda>l. (t, lb_ID l) \<in> set TL) L)"

definition criteria_in :: "Criterion list \<Rightarrow> string \<Rightarrow> Criterion list" where
  "criteria_in C t = sort_key (\<lambda>c. (cr_Position c, cr_ID c)) (filter (\<lambda>c. cr_TicketID c = t) C)"

lemma desk_reads:
  "labels_of w t = labels_in (w_labels w) (w_ticket_labels w) t" "checklist w t = criteria_in (w_criteria w) t"
  by (simp_all add: labels_of_def labels_in_def checklist_def criteria_in_def)

lemma merged_labels_union:
  "set (labels_in L (TL @ merged_labels s (labels_in L TL s) (labels_in L TL u)) s) = set (labels_in L TL s) \<union> set (labels_in L TL u)"
  by (auto simp: labels_in_def merged_labels_def list_ex_iff)

lemma copies_checklist:
  assumes "copies s (if criteria_in C s = [] then 0 else cr_Position (last (criteria_in C s))) (criteria_in C u) cs'"
  shows "map content (criteria_in (C @ cs') s) = map content (criteria_in C s) @ map content (criteria_in C u)"
proof -
  let ?k = "\<lambda>c. (cr_Position c, cr_ID c)" and ?own = "filter (\<lambda>c. cr_TicketID c = s) C"
  have all: "filter (\<lambda>c. cr_TicketID c = s) cs' = cs'" using assms by (auto simp: copies_def intro!: filter_True)
  have top: "cr_Position x \<le> cr_Position (last (criteria_in C s))" if x: "x \<in> set (criteria_in C s)" for x
  proof -
    obtain i where i: "i < length (criteria_in C s)" "x = criteria_in C s ! i" using x by (auto simp: in_set_conv_nth)
    have "sorted (map ?k (criteria_in C s))" by (simp add: criteria_in_def)
    from sorted_nth_mono [OF this, of i "length (criteria_in C s) - 1"] i
    have "?k (criteria_in C s ! i) \<le> ?k (criteria_in C s ! (length (criteria_in C s) - 1))" by (simp add: Suc_leI del: One_nat_def)
    moreover have "last (criteria_in C s) = criteria_in C s ! (length (criteria_in C s) - 1)" using i(1) by (intro last_conv_nth) auto
    ultimately show ?thesis using i(2) by (auto simp: less_eq_prod_def)
  qed
  have "sorted (map ?k cs')"
    using assms by (auto simp: copies_def sorted_map less_eq_prod_def intro: sorted_wrt_mono_rel)
  moreover have "\<forall>x \<in> set ?own. \<forall>y \<in> set cs'. ?k x \<le> ?k y"
  proof (intro ballI)
    fix x y assume xy: "x \<in> set ?own" "y \<in> set cs'"
    then have x: "x \<in> set (criteria_in C s)" by (simp add: criteria_in_def)
    then have "criteria_in C s \<noteq> []" by auto
    then have "cr_Position (last (criteria_in C s)) < cr_Position y" using assms xy(2) by (auto simp: copies_def)
    then show "?k x \<le> ?k y" using top [OF x] by (simp add: less_eq_prod_def)
  qed
  ultimately have "criteria_in (C @ cs') s = criteria_in C s @ cs'"
    unfolding criteria_in_def filter_append all by (rule sort_key_append_above)
  then show ?thesis using assms by (simp add: copies_def)
qed

definition redirected :: "string \<Rightarrow> string \<Rightarrow> Mention list \<Rightarrow> Mention list" where
  "redirected u s M = map (\<lambda>m. if mn_ToKind m = ''ticket'' \<and> mn_ToID m = u then m\<lparr> mn_ToID := s \<rparr> else m) M"

definition merged :: "Label list \<times> (string \<times> string) list \<times> Criterion list \<times> Mention list \<Rightarrow> string \<Rightarrow> string \<Rightarrow> World \<Rightarrow> bool" where
  "merged V s u w \<longleftrightarrow> (case V of (L, TL, C, M) \<Rightarrow> \<exists>C'. desk_are (L, TL @ merged_labels s (labels_in L TL s) (labels_in L TL u), C', redirected u s M) w \<and>
     map content (criteria_in C' s) = map content (criteria_in C s) @ map content (criteria_in C u))"

lemma keeps_merged: "(\<And>V. keeps (desk_are V) m) \<Longrightarrow> keeps (merged V s u) m"
  unfolding keeps_def merged_def by (auto split: prod.splits) blast

lemma TriageDuplicate_tx_merges:
  "triple (desk_are V) (TriageDuplicate_tx d k oid) (\<lambda>(it, dup, s) w. merged V (tk_ID s) (tk_ID dup) w)"
proof -
  obtain L TL C M where V: "V = (L, TL, C, M)" by (cases V)
  have crit: "triple (desk_are (L, TL', C, M)) (merge_criteria d s u)
      (\<lambda>_ w. \<exists>C'. desk_are (L, TL', C', M) w \<and> map content (criteria_in C' s) = map content (criteria_in C s) @ map content (criteria_in C u))"
    for TL' s u
    unfolding triple_def
  proof (intro allI impI)
    fix w x w'
    assume w: "desk_are (L, TL', C, M) w" and m: "merge_criteria d s u w = (Inr x, w')"
    then obtain own crit where r: "own = criteria_in C s" "crit = criteria_in C u"
        "copy_criteria d s (if own = [] then 0 else cr_Position (last own)) 0 crit w = (Inr x, w')"
      by (auto simp: merge_criteria_def Let_def svc_ok Criteria_ForTicket_def desk_reads desk_are_def)
    from copy_criteria_adds [OF r(3) w] obtain cs' where "desk_are (L, TL', C @ cs', M) w'"
      "copies s (if own = [] then 0 else cr_Position (last own)) crit cs'" by blast
    then show "\<exists>C'. desk_are (L, TL', C', M) w' \<and> map content (criteria_in C' s) = map content (criteria_in C s) @ map content (criteria_in C u)"
      using copies_checklist [of s C u cs'] r(1,2) by blast
  qed
  have ment: "triple (\<lambda>w. \<exists>C'. desk_are (L, TL @ merged_labels s (labels_in L TL s) (labels_in L TL u), C', M) w \<and>
        map content (criteria_in C' s) = map content (criteria_in C s) @ map content (criteria_in C u))
      (writing (Mentions_RedirectTarget f ''ticket'' u s)) (\<lambda>_. merged V s u)" for f s u
    by (auto simp: triple_def svc_ok Mentions_RedirectTarget_def exec_def desk_are_def merged_def V redirected_def update_where_def
        split: option.splits)
  show ?thesis
    unfolding TriageDuplicate_tx_def Let_def V
    by (rule triple_andThen [OF triple_keeps [OF keeps_unresolvedItem]], rule triple_prod,
        rule triple_andThen [OF triple_keeps [OF keeps_survivor]],
        rule triple_andThen [OF merge_labels_adds [folded labels_in_def]], rule triple_andThen [OF crit], rule triple_andThen [OF ment [unfolded V]],
        (rule triple_andThen [OF triple_keeps], rule keeps_merged, intro keep)+, rule triple_ret) simp
qed


lemma TriageDuplicate_tx_result:
  "triple P (TriageDuplicate_tx d k oid) (\<lambda>(it, dup, s) _. tk_ID s = oid \<and> tk_ID dup \<noteq> oid \<and> tk_ArchivedAt dup \<noteq> None \<and>
     ti_State it = TriageDuplicate \<and> ti_DuplicateOf it = Some oid)"
proof -
  have s: "triple Q (the_survivor d dup oid) (\<lambda>s _. tk_ID s = oid \<and> tk_ID dup \<noteq> oid)" for Q dup
    by (auto simp: triple_def the_survivor_def Let_def svc_ok some_or_fail_ok dest: Tickets_ByID_Inr)
  show ?thesis
    unfolding TriageDuplicate_tx_def Let_def
    by (rule triple_andThen [OF triple_any], rule triple_prod, rule triple_andThen [OF s],
        (rule triple_andThen [OF triple_keeps], simp add: keeps_def)+, rule triple_ret) (auto simp: resolveItem_def)
qed

lemma triple_both: "triple P m Q \<Longrightarrow> triple P m R \<Longrightarrow> triple P m (\<lambda>x w. Q x w \<and> R x w)"
  by (simp add: triple_def)


lemma duplicate_succeeds:
  assumes "dk_faults d = (\<lambda>_ _. None)" and "TriageDuplicate_tx d k oid w = (Inr (it, dup, s), w1)"
    and "find_row col_ID (tk_ColumnID dup) (w_columns w1) \<noteq> None"
  shows "\<exists>r w'. TriageDuplicateOf d k oid w = (Inr r, w')"
  using assms by (auto simp: TriageDuplicateOf_def transact_def andThen_def svc_audit_def writing_def audit_write_def exec_def
      emitTriage_def emitTicket_def doing_def triage_result_def withMeta_def reading_def ret_def Let_def emit_frame_def
      Columns_ByID_def Labels_ForTicket_def Criteria_CountsForTicket_def query_def query_row_def)


end
