(* ===== verification/TicketExtras.thy ===== *)
theory TicketExtras
  imports Triage
begin

text \<open>
  What hangs on a ticket: acceptance criteria, labels and comments (\<^verbatim>\<open>internal/service/tickets/criteria.go\<close>,
  \<^verbatim>\<open>labels.go\<close>, \<^verbatim>\<open>comments.go\<close>). A comment that mentions an agent requests a run for it.
\<close>

section \<open>Acceptance criteria\<close>

definition criterion_snapshot :: "Criterion \<Rightarrow> (string \<times> string) list" where
  "criterion_snapshot c =
     (let o1 = (\<lambda>x. case x of None \<Rightarrow> ''null'' | Some s \<Rightarrow> s) in
      [(''ID'', cr_ID c), (''TicketID'', cr_TicketID c), (''Position'', fmt_int (cr_Position c)), (''Text'', cr_Text c),
       (''Checked'', if cr_Checked c then ''true'' else ''false''), (''CheckedByRunID'', o1 (cr_CheckedByRunID c)),
       (''CheckedByUserID'', o1 (cr_CheckedByUserID c)), (''Note'', cr_Note c), (''UpdatedAt'', cr_UpdatedAt c)])"

definition AddCriterion_tx :: "Desk \<Rightarrow> Ticket \<Rightarrow> Criterion \<Rightarrow> Criterion svc" where
  "AddCriterion_tx d tk c =
     andThen (reading (Criteria_ForTicket (dk_faults d) (tk_ID tk))) (\<lambda>existing.
     let c = c\<lparr> cr_Position := if existing = [] then criterionGap else cr_Position (last existing) + criterionGap \<rparr> in
     andThen (writing (Criteria_Create (dk_faults d) c)) (\<lambda>_.
     andThen (appendStream d (tk_ID tk) StreamFieldChange
       [(''event'', JStr ''criterion_added''), (''criterion_id'', JStr (cr_ID c)), (''text'', JStr (cr_Text c))]) (\<lambda>_.
     ret c)))"

definition AddCriterion :: "Desk \<Rightarrow> string \<Rightarrow> string \<Rightarrow> Criterion svc" where
  "AddCriterion d tid text0 =
     (let f = dk_faults d; text = trim_space text0 in
      andThen (reading (Tickets_ByID f tid)) (\<lambda>tk.
      ensure (tk_ArchivedAt tk = None) (SeArchived (tk_Key tk))
     (ensure (text \<noteq> []) (fieldErr ''text'' ''Criterion text is required.'')
     (andThen (asking (dk_newid d ''criterion'' 0)) (\<lambda>i.
      andThen (transact f (AddCriterion_tx d tk
        (blank_Criterion\<lparr> cr_ID := i, cr_TicketID := tk_ID tk, cr_Text := text, cr_UpdatedAt := dk_now d \<rparr>))) (\<lambda>c.
      andThen (svc_audit d ''ticket.criterion.add'' ''criterion'' (cr_ID c) (tk_ProjectID tk) [] [] (criterion_snapshot c)) (\<lambda>_.
      andThen (emitTicket d ''updated'' tk []) (\<lambda>_.
      ret c))))))))"

record CriterionPatch =
  cp_Text :: "string option"
  cp_Note :: "string option"
  cp_Checked :: "bool option"
  cp_AfterID :: OptStr

text \<open>Renumbering as for tickets: the mover is written by the caller.\<close>

fun renumber_criteria :: "Desk \<Rightarrow> string \<Rightarrow> nat \<Rightarrow> Criterion list \<Rightarrow> int \<Rightarrow> int svc" where
  "renumber_criteria d self n [] out = ret out"
| "renumber_criteria d self n (c # cs) out =
     (let p = (int n + 1) * criterionGap in
      if cr_ID c = self then renumber_criteria d self (Suc n) cs p
      else andThen (writing (Criteria_Update (dk_faults d) (c\<lparr> cr_Position := p, cr_UpdatedAt := dk_now d \<rparr>))) (\<lambda>_.
             renumber_criteria d self (Suc n) cs out))"

definition criterion_slot :: "OptStr \<Rightarrow> string \<Rightarrow> Criterion list \<Rightarrow> svc_err + nat" where
  "criterion_slot after self rest =
     (case after of
        OptValue v \<Rightarrow>
          if v = self then Inl (fieldErr ''after_id'' ''A criterion cannot be placed after itself.'')
          else (case index_where (\<lambda>c. cr_ID c = v) rest of
                  None \<Rightarrow> Inl (fieldErr ''after_id'' ''No such criterion on this ticket.'')
                | Some i \<Rightarrow> Inr (Suc i))
      | _ \<Rightarrow> Inr 0)"

text \<open>Go's division by two rounds towards zero.\<close>

definition half_trunc :: "int \<Rightarrow> int" where
  "half_trunc x = (if x < 0 then - ((- x) div 2) else x div 2)"

definition reorderCriterion :: "Desk \<Rightarrow> Criterion \<Rightarrow> OptStr \<Rightarrow> int svc" where
  "reorderCriterion d c after =
     andThen (reading (Criteria_ForTicket (dk_faults d) (cr_TicketID c))) (\<lambda>all.
     let rest = filter (\<lambda>x. cr_ID x \<noteq> cr_ID c) all in
     case criterion_slot after (cr_ID c) rest of
       Inl e \<Rightarrow> fail e
     | Inr idx \<Rightarrow>
         if rest = [] then ret criterionGap
         else if idx \<noteq> 0 \<and> idx = length rest then ret (cr_Position (last rest) + criterionGap)
         else
          (let lo = (if idx = 0 then 0 else cr_Position (rest ! (idx - 1))); hi = cr_Position (rest ! idx);
               mid = lo + half_trunc (hi - lo) in
           if lo < mid \<and> mid < hi then ret mid
           else renumber_criteria d (cr_ID c) 0 (take idx rest @ c # drop idx rest) 0))"

text \<open>The edits of a patch, each with its stream row.\<close>

definition patch_criterion :: "Desk \<Rightarrow> CriterionPatch \<Rightarrow> Criterion \<Rightarrow> svc_err + Criterion \<times> (string \<times> json) list list" where
  "patch_criterion d p c0 =
     (let note = (\<lambda>(c, ps). case cp_Note p of
            Some x \<Rightarrow> if x = cr_Note c then (c, ps)
              else (c\<lparr> cr_Note := x \<rparr>, ps @ [[(''event'', JStr ''criterion_updated''), (''criterion_id'', JStr (cr_ID c)), (''note'', JStr x)]])
          | None \<Rightarrow> (c, ps));
          check = (\<lambda>(c, ps). case cp_Checked p of
            Some x \<Rightarrow> if x = cr_Checked c then (c, ps)
              else (c\<lparr> cr_Checked := x, cr_CheckedByRunID := None, cr_CheckedByUserID := if x then human d else None \<rparr>,
                    ps @ [[(''event'', JStr (if x then ''criterion_checked'' else ''criterion_unchecked'')),
                           (''criterion_id'', JStr (cr_ID c)), (''text'', JStr (cr_Text c))]])
          | None \<Rightarrow> (c, ps))
      in case cp_Text p of
           None \<Rightarrow> Inr (check (note (c0, [])))
         | Some t0 \<Rightarrow>
             (let t = trim_space t0 in
              if t = [] then Inl (fieldErr ''text'' ''Criterion text is required.'')
              else if t = cr_Text c0 then Inr (check (note (c0, [])))
              else Inr (check (note (c0\<lparr> cr_Text := t \<rparr>,
                [[(''event'', JStr ''criterion_updated''), (''criterion_id'', JStr (cr_ID c0)), (''text'', JStr t)]])))))"

definition UpdateCriterion_tx :: "Desk \<Rightarrow> string \<Rightarrow> CriterionPatch \<Rightarrow> (Criterion \<times> Ticket) svc" where
  "UpdateCriterion_tx d i p =
     (let f = dk_faults d in
      andThen (reading (Criteria_ByID f i)) (\<lambda>c0.
      andThen (reading (Tickets_ByID f (cr_TicketID c0))) (\<lambda>tk.
      ensure (tk_ArchivedAt tk = None) (SeArchived (tk_Key tk))
     (case patch_criterion d p c0 of
        Inl e \<Rightarrow> fail e
      | Inr (c, payloads) \<Rightarrow>
          andThen (if cp_AfterID p = OptAbsent then ret (cr_Position c) else reorderCriterion d c (cp_AfterID p)) (\<lambda>pos.
          let c = c\<lparr> cr_Position := pos, cr_UpdatedAt := dk_now d \<rparr> in
          andThen (writing (Criteria_Update f c)) (\<lambda>_.
          andThen (each (appendStream d (tk_ID tk) StreamFieldChange) payloads) (\<lambda>_.
          ret (c, tk))))))))"

definition UpdateCriterion :: "Desk \<Rightarrow> string \<Rightarrow> CriterionPatch \<Rightarrow> Criterion svc" where
  "UpdateCriterion d i p =
     andThen (transact (dk_faults d) (UpdateCriterion_tx d i p)) (\<lambda>(c, tk).
     andThen (svc_audit d ''ticket.criterion.update'' ''criterion'' (cr_ID c) (tk_ProjectID tk) [] [] (criterion_snapshot c)) (\<lambda>_.
     andThen (emitTicket d ''updated'' tk []) (\<lambda>_.
     ret c)))"

definition DeleteCriterion :: "Desk \<Rightarrow> string \<Rightarrow> unit svc" where
  "DeleteCriterion d i =
     (let f = dk_faults d in
      andThen (transact f
        (andThen (reading (Criteria_ByID f i)) (\<lambda>c.
         andThen (reading (Tickets_ByID f (cr_TicketID c))) (\<lambda>tk.
         ensure (tk_ArchivedAt tk = None) (SeArchived (tk_Key tk))
        (andThen (writing (Criteria_Delete f (cr_ID c))) (\<lambda>_.
         andThen (appendStream d (tk_ID tk) StreamFieldChange [(''event'', JStr ''criterion_removed''),
           (''criterion_id'', JStr (cr_ID c)), (''text'', JStr (cr_Text c))]) (\<lambda>_.
         ret (c, tk)))))))) (\<lambda>(c, tk).
      andThen (svc_audit d ''ticket.criterion.delete'' ''criterion'' (cr_ID c) (tk_ProjectID tk) [] (criterion_snapshot c) []) (\<lambda>_.
      emitTicket d ''updated'' tk [])))"

section \<open>Labels\<close>

definition label_color :: "string \<Rightarrow> bool" where
  "label_color s \<longleftrightarrow> length s = 7 \<and> s ! 0 = CHR 0x23 \<and>
     list_all (\<lambda>c. CHR ''0'' \<le> c \<and> c \<le> CHR ''9'' \<or> CHR ''a'' \<le> c \<and> c \<le> CHR ''f'' \<or> CHR ''A'' \<le> c \<and> c \<le> CHR ''F'') (tl s)"

definition label_snapshot :: "Label \<Rightarrow> (string \<times> string) list" where
  "label_snapshot l = [(''ID'', lb_ID l), (''ProjectID'', lb_ProjectID l), (''Name'', lb_Name l), (''Color'', lb_Color l)]"

definition emitLabel :: "Desk \<Rightarrow> string \<Rightarrow> Label \<Rightarrow> unit svc" where
  "emitLabel d activity l = doing (emit_frame (EventFrame (blank_Event\<lparr>
     ev_ProjectID := Some (lb_ProjectID l), ev_Kind := ''label'', ev_ActivityType := activity,
     ev_ActorKind := actor_kind d ActorSystem, ev_ActorID := actor_id d,
     ev_SubjectKind := ''label'', ev_SubjectID := Some (lb_ID l),
     ev_Payload := Raw (obj [(''label'', obj [(''id'', JStr (lb_ID l)), (''name'', JStr (lb_Name l)), (''color'', JStr (lb_Color l))])]),
     ev_OccurredAt := dk_now d \<rparr>)))"

definition ListLabels :: "Desk \<Rightarrow> string \<Rightarrow> Label list svc" where
  "ListLabels d key = andThen (reading (Projects_ByKey (dk_faults d) key)) (\<lambda>p. reading (Labels_ForProject (dk_faults d) (prj_ID p)))"

text \<open>A statement whose unique violation is a problem with the name.\<close>

definition naming :: "(World \<Rightarrow> 'a res \<times> World) \<Rightarrow> 'a svc" where
  "naming s w = (case s w of
     (Inl e, w') \<Rightarrow> (Inl (if e = ErrUnique then fieldErr ''name'' ''A label with this name already exists.'' else SeStore e), w')
   | (Inr x, w') \<Rightarrow> (Inr x, w'))"

definition CreateLabel :: "Desk \<Rightarrow> string \<Rightarrow> string \<Rightarrow> string \<Rightarrow> Label svc" where
  "CreateLabel d key name0 color =
     (let f = dk_faults d; name = trim_space name0;
          errs = (if name = [] then [problem ''name'' ''Name is required.''] else []) @
                 (if label_color color then [] else [problem ''color'' ''Use a #rrggbb color.'']) in
      andThen (reading (Projects_ByKey f key)) (\<lambda>p.
      ensure (errs = []) (SeFields errs)
     (andThen (asking (dk_newid d ''label'' 0)) (\<lambda>i.
      let l = \<lparr> lb_ID = i, lb_ProjectID = prj_ID p, lb_Name = name, lb_Color = color \<rparr> in
      andThen (naming (Labels_Create f l)) (\<lambda>_.
      andThen (svc_audit d ''label.create'' ''label'' (lb_ID l) (prj_ID p) [] [] (label_snapshot l)) (\<lambda>_.
      andThen (emitLabel d ''created'' l) (\<lambda>_.
      ret l)))))))"

definition UpdateLabel :: "Desk \<Rightarrow> string \<Rightarrow> string option \<Rightarrow> string option \<Rightarrow> Label svc" where
  "UpdateLabel d i name color =
     (let f = dk_faults d in
      andThen (reading (Labels_ByID f i)) (\<lambda>before.
      let (l, e1) = (case name of None \<Rightarrow> (before, []) | Some n \<Rightarrow>
            if trim_space n = [] then (before, [problem ''name'' ''Name is required.''])
            else (before\<lparr> lb_Name := trim_space n \<rparr>, []));
          (l, e2) = (case color of None \<Rightarrow> (l, e1) | Some c \<Rightarrow>
            if label_color c then (l\<lparr> lb_Color := c \<rparr>, e1) else (l, e1 @ [problem ''color'' ''Use a #rrggbb color.''])) in
      ensure (e2 = []) (SeFields e2)
     (andThen (naming (Labels_Update f l)) (\<lambda>_.
      andThen (svc_audit d ''label.update'' ''label'' (lb_ID l) (lb_ProjectID l) [] (label_snapshot before) (label_snapshot l)) (\<lambda>_.
      andThen (emitLabel d ''updated'' l) (\<lambda>_.
      ret l))))))"

definition DeleteLabel :: "Desk \<Rightarrow> string \<Rightarrow> unit svc" where
  "DeleteLabel d i =
     (let f = dk_faults d in
      andThen (reading (Labels_ByID f i)) (\<lambda>l.
      andThen (transact f (andThen (writing (Labels_DetachAll f (lb_ID l))) (\<lambda>n.
        andThen (writing (Labels_Delete f (lb_ID l))) (\<lambda>_. ret n)))) (\<lambda>n.
      andThen (svc_audit d ''label.delete'' ''label'' (lb_ID l) (lb_ProjectID l)
        (if 0 < n then ''detached from '' @ fmt_int n @ '' tickets'' else []) (label_snapshot l) []) (\<lambda>_.
      emitLabel d ''deleted'' l))))"

definition ticketAndLabel :: "Desk \<Rightarrow> string \<Rightarrow> string \<Rightarrow> (Ticket \<times> Label) svc" where
  "ticketAndLabel d tid lid =
     andThen (reading (Tickets_ByID (dk_faults d) tid)) (\<lambda>tk.
     andThen (reading (Labels_ByID (dk_faults d) lid)) (\<lambda>l.
     ensure (lb_ProjectID l = tk_ProjectID tk) (SeStore ErrNotFound) (ret (tk, l))))"

text \<open>Whether the statement changed anything: a label that is already there is no error.\<close>

definition attaching :: "(World \<Rightarrow> unit res \<times> World) \<Rightarrow> bool svc" where
  "attaching s w = (case s w of
     (Inl e, w') \<Rightarrow> (if e = ErrUnique then Inr False else Inl (SeStore e), w')
   | (Inr _, w') \<Rightarrow> (Inr True, w'))"

definition label_change :: "Desk \<Rightarrow> string \<Rightarrow> string \<Rightarrow> (Ticket \<Rightarrow> Label \<Rightarrow> bool svc) \<Rightarrow> string \<Rightarrow> string \<Rightarrow> (Label \<Rightarrow> (string \<times> string) list \<times> (string \<times> string) list) \<Rightarrow> unit svc" where
  "label_change d tid lid change event action snap =
     (let f = dk_faults d in
      andThen (ticketAndLabel d tid lid) (\<lambda>(tk, l).
      ensure (tk_ArchivedAt tk = None) (SeArchived (tk_Key tk))
     (andThen (transact f (andThen (change tk l) (\<lambda>changed.
        if \<not> changed then ret False
        else andThen (appendStream d (tk_ID tk) StreamFieldChange
               [(''event'', JStr event), (''label_id'', JStr (lb_ID l)), (''name'', JStr (lb_Name l))]) (\<lambda>_. ret True)))) (\<lambda>changed.
      if \<not> changed then ret ()
      else andThen (svc_audit d action ''ticket'' (tk_ID tk) (tk_ProjectID tk) [] (fst (snap l)) (snd (snap l))) (\<lambda>_.
        emitTicket d ''updated'' tk [])))))"

definition AttachLabel :: "Desk \<Rightarrow> string \<Rightarrow> string \<Rightarrow> unit svc" where
  "AttachLabel d tid lid = label_change d tid lid (\<lambda>tk l. attaching (Labels_Attach (dk_faults d) (tk_ID tk) (lb_ID l)))
     ''label_added'' ''ticket.label.add'' (\<lambda>l. ([], [(''label_id'', lb_ID l), (''name'', lb_Name l)]))"

definition DetachLabel :: "Desk \<Rightarrow> string \<Rightarrow> string \<Rightarrow> unit svc" where
  "DetachLabel d tid lid = label_change d tid lid (\<lambda>tk l. writing (Labels_Detach (dk_faults d) (tk_ID tk) (lb_ID l)))
     ''label_removed'' ''ticket.label.remove'' (\<lambda>l. ([(''label_id'', lb_ID l), (''name'', lb_Name l)], []))"

section \<open>Comments\<close>

definition maxCommentBytes :: nat where "maxCommentBytes = 65536"

record CommentRunRequest =
  cq_AgentID :: string
  cq_AgentName :: string
  cq_RunID :: string
  cq_Staged :: bool
  cq_Note :: string

record CommentResult =
  cs_Entry :: StreamEntry
  cs_RunRequests :: "CommentRunRequest list"

definition actorName :: "Desk \<Rightarrow> World \<Rightarrow> string" where
  "actorName d w =
     (case dk_actor d of
        None \<Rightarrow> ''''
      | Some (k, i) \<Rightarrow>
          (let kind = ActorKind_str k in
           if k = ActorHuman then (case Users_ByID (dk_faults d) i w of Inr u \<Rightarrow> us_DisplayName u | Inl _ \<Rightarrow> kind)
           else if k = ActorAgent then (case Agents_ByID (dk_faults d) i w of Inr a \<Rightarrow> ag_Name a | Inl _ \<Rightarrow> kind)
           else kind))"

definition requestMentionRun :: "Desk \<Rightarrow> Ticket \<Rightarrow> Agent \<Rightarrow> CommentRunRequest svc" where
  "requestMentionRun d tk a w =
     (let rq = blank_request\<lparr> rq_ProjectID := tk_ProjectID tk, rq_AgentID := ag_ID a, rq_TicketID := tk_ID tk, rq_Reason := ''@mention'' \<rparr>;
          (r, w1) = dk_request d rq w;
          out = \<lparr> cq_AgentID = ag_ID a, cq_AgentName = ag_Name a, cq_RunID = '''', cq_Staged = False, cq_Note = '''' \<rparr>;
          out = (case r of
            NotImplemented \<Rightarrow> out\<lparr> cq_Note := ''scheduler not implemented until S22; no run started'' \<rparr>
          | RequestRefused e \<Rightarrow> out\<lparr> cq_Note := ''scheduler refused: '' @ e \<rparr>
          | Requested i \<Rightarrow> out\<lparr> cq_Staged := True, cq_RunID := i, cq_Note := ''run requested'' \<rparr>)
      in (Inr out, snd (svc_audit d ''ticket.mention_run'' ''ticket'' (tk_ID tk) (tk_ProjectID tk) (cq_Note out) []
            (request_snapshot rq) w1)))"

fun request_each :: "Desk \<Rightarrow> Ticket \<Rightarrow> Agent list \<Rightarrow> CommentRunRequest list svc" where
  "request_each d tk [] = ret []"
| "request_each d tk (a # as) = andThen (requestMentionRun d tk a) (\<lambda>r. andThen (request_each d tk as) (\<lambda>rs. ret (r # rs)))"

definition Comment :: "Desk \<Rightarrow> string \<Rightarrow> string \<Rightarrow> CommentResult svc" where
  "Comment d tid body =
     (let f = dk_faults d in
      andThen (reading (Tickets_ByID f tid)) (\<lambda>tk.
      ensure (tk_ArchivedAt tk = None) (SeArchived (tk_Key tk))
     (ensure (trim_space body \<noteq> []) (fieldErr ''body'' ''A comment needs text.'')
     (ensure (length body \<le> maxCommentBytes) (fieldErr ''body'' (''At most '' @ fmt_nat maxCommentBytes @ '' bytes per comment.''))
     (andThen (resolveMentions d (tk_ProjectID tk) (ParseMentions body)) (\<lambda>(rows, agents).
      andThen (asking (dk_newid d ''comment'' 0)) (\<lambda>i.
      let e = \<lparr> se_ID = i, se_TicketID = tk_ID tk, se_Kind = StreamComment, se_ActorKind = actor_kind d ActorSystem,
                se_ActorID = actor_id d, se_Body = body, se_Payload = Raw (JObj [(''event'', JStr ''commented'')]),
                se_RunID = None, se_EditedAt = None, se_CreatedAt = dk_now d \<rparr> in
      andThen (transact f (andThen (writing (TicketStream_Append f e)) (\<lambda>_. writeMentions d ''comment'' (se_ID e) rows))) (\<lambda>_.
      andThen (svc_audit d ''ticket.comment'' ''ticket'' (tk_ID tk) (tk_ProjectID tk) [] []
        [(''mentions'', fmt_nat (length rows)), (''stream_entry_id'', se_ID e)]) (\<lambda>_.
      andThen (\<lambda>w. emitTicket d ''commented'' tk [(''comment'', obj [(''id'', JStr (se_ID e)),
        (''author'', JStr (actorName d w)), (''body'', JStr body)])] w) (\<lambda>_.
      andThen (request_each d tk agents) (\<lambda>rs.
      ret \<lparr> cs_Entry = e, cs_RunRequests = rs \<rparr>)))))))))))"


end
