(* ===== verification/BoardService.thy ===== *)
theory BoardService
  imports TicketMoves
begin

text \<open>
  The board service (\<^verbatim>\<open>internal/service/board\<close>): the columns a project is born with, and their creation,
  renaming, reordering, re-categorising and deletion. Automation reads the category of a column, so a
  project must never lose its last backlog, running or done column. Positions are unbounded integers.
\<close>

section \<open>The column set of a new project\<close>

definition col_positionGap :: int where "col_positionGap = 1024"

definition default_column :: "string \<Rightarrow> string \<Rightarrow> (nat \<Rightarrow> string) \<Rightarrow> nat \<times> string \<times> ColumnCategory \<Rightarrow> Column" where
  "default_column pid now ids def = (case def of (n, name, cat) \<Rightarrow>
     \<lparr> col_ID = ids n, col_ProjectID = pid, col_Name = name, col_Category = cat,
       col_Position = (int n + 1) * col_positionGap, col_WIPLimit = None, col_AutoStartDelegate = False,
       col_CreatedAt = now, col_UpdatedAt = now \<rparr>)"

definition DefaultColumns :: "string \<Rightarrow> string \<Rightarrow> (nat \<Rightarrow> string) \<Rightarrow> Column list" where
  "DefaultColumns pid now ids = map (default_column pid now ids)
     [(0, ''Backlog'', CategoryBacklog), (1, ''Ready'', CategoryReady), (2, ''In Progress'', CategoryRunning),
      (3, ''In Review'', CategoryReview), (4, ''Done'', CategoryDone), (5, ''Canceled'', CategoryCanceled)]"

definition requiredCategories :: "ColumnCategory \<Rightarrow> bool" where
  "requiredCategories cat \<longleftrightarrow> cat = CategoryBacklog \<or> cat = CategoryRunning \<or> cat = CategoryDone"

definition category_of :: "string \<Rightarrow> ColumnCategory option" where
  "category_of s = find (\<lambda>cat. ColumnCategory_str cat = s)
     [CategoryBacklog, CategoryReady, CategoryRunning, CategoryReview, CategoryDone, CategoryCanceled]"

section \<open>Reads, audit and events\<close>

record ColumnWithCount =
  cw_Column :: Column
  cw_TicketCount :: int

definition count_of :: "(string \<Rightarrow> int option) \<Rightarrow> string \<Rightarrow> int" where
  "count_of counts cid = (case counts cid of None \<Rightarrow> 0 | Some n \<Rightarrow> n)"

definition BoardList :: "Desk \<Rightarrow> string \<Rightarrow> ColumnWithCount list svc" where
  "BoardList d key =
     (let f = dk_faults d in
      andThen (reading (Projects_ByKey f key)) (\<lambda>p.
      andThen (reading (Columns_ForProject f (prj_ID p))) (\<lambda>cols.
      andThen (reading (Columns_TicketCounts f (prj_ID p))) (\<lambda>counts.
      ret (map (\<lambda>c. \<lparr> cw_Column = c, cw_TicketCount = count_of counts (col_ID c) \<rparr>) cols)))))"

definition column_snapshot :: "Column \<Rightarrow> (string \<times> string) list" where
  "column_snapshot c =
     [(''ID'', col_ID c), (''ProjectID'', col_ProjectID c), (''Name'', col_Name c),
      (''Category'', ColumnCategory_str (col_Category c)), (''Position'', fmt_int (col_Position c)),
      (''WIPLimit'', case col_WIPLimit c of None \<Rightarrow> ''null'' | Some n \<Rightarrow> fmt_int n),
      (''AutoStartDelegate'', if col_AutoStartDelegate c then ''true'' else ''false''),
      (''CreatedAt'', col_CreatedAt c), (''UpdatedAt'', col_UpdatedAt c)]"

text \<open>Without an actor the kind is left empty, which the bus reads as the system.\<close>

definition board_event :: "Desk \<Rightarrow> Column \<Rightarrow> string \<Rightarrow> Event" where
  "board_event d c action = blank_Event\<lparr>
     ev_ProjectID := Some (col_ProjectID c), ev_Kind := ''board.updated'',
     ev_ActorKind := actor_kind d ActorSystem, ev_ActorID := actor_id d,
     ev_SubjectKind := ''column'', ev_SubjectID := Some (col_ID c),
     ev_Payload := Raw (JObj [(''action'', JStr action),
       (''column'', JObj [(''category'', JStr (ColumnCategory_str (col_Category c))), (''id'', JStr (col_ID c))])]),
     ev_OccurredAt := dk_now d \<rparr>"

definition emitBoard :: "Desk \<Rightarrow> Column \<Rightarrow> string \<Rightarrow> unit svc" where
  "emitBoard d c action = doing (emit_frame (EventFrame (board_event d c action)))"

section \<open>Creation\<close>

definition badCategory :: FieldError where
  "badCategory = \<lparr> fe_Field = ''category'', fe_Message = ''One of backlog, ready, running, review, done, canceled.'' \<rparr>"

definition noName :: FieldError where
  "noName = \<lparr> fe_Field = ''name'', fe_Message = ''Name is required.'' \<rparr>"

definition column_tx :: "Desk \<Rightarrow> string \<Rightarrow> string \<Rightarrow> ColumnCategory \<Rightarrow> Column svc" where
  "column_tx d pid name cat =
     (let f = dk_faults d in
      transact f
        (andThen (reading (Columns_ForProject f pid)) (\<lambda>cols.
         andThen (asking (\<lambda>w. \<lparr> col_ID = dk_newid d ''column'' 0 w, col_ProjectID = pid, col_Name = name, col_Category = cat,
             col_Position = (if cols = [] then col_positionGap else col_Position (last cols) + col_positionGap),
             col_WIPLimit = None, col_AutoStartDelegate = False, col_CreatedAt = dk_now d, col_UpdatedAt = dk_now d \<rparr>)) (\<lambda>c.
         andThen (writing (Columns_Create f c)) (\<lambda>_. ret c)))))"

definition ColumnCreate :: "Desk \<Rightarrow> string \<Rightarrow> string \<Rightarrow> string \<Rightarrow> Column svc" where
  "ColumnCreate d key name0 cat0 =
     (let f = dk_faults d; name = trim_space name0 in
      andThen (reading (Projects_ByKey f key)) (\<lambda>p.
      case (if name = [] then [noName] else [], category_of cat0) of
        (es, None) \<Rightarrow> fail (SeFields (es @ [badCategory]))
      | (es, Some cat) \<Rightarrow>
          ensure (es = []) (SeFields es)
            (andThen (column_tx d (prj_ID p) name cat) (\<lambda>c.
             andThen (svc_audit d ''column.create'' ''column'' (col_ID c) (prj_ID p) '''' [] (column_snapshot c)) (\<lambda>_.
             andThen (emitBoard d c ''created'') (\<lambda>_. ret c))))))"

section \<open>The guardrail\<close>

definition requireCategorySurvives :: "Desk \<Rightarrow> Column \<Rightarrow> unit svc" where
  "requireCategorySurvives d c =
     (if \<not> requiredCategories (col_Category c) then ret ()
      else andThen (reading (Columns_ByCategory (dk_faults d) (col_ProjectID c) (col_Category c))) (\<lambda>same.
        ensure (1 < length same) (SeRequiredCategory (col_Category c)) (ret ())))"

section \<open>Reordering\<close>

fun renumber_columns :: "Desk \<Rightarrow> string \<Rightarrow> Column list \<Rightarrow> int \<Rightarrow> int \<Rightarrow> int svc" where
  "renumber_columns d cid [] i pos = ret pos"
| "renumber_columns d cid (x # xs) i pos =
     (if col_ID x = cid then renumber_columns d cid xs (i + 1) ((i + 1) * col_positionGap)
      else andThen (writing (Columns_Update (dk_faults d)
               (x\<lparr> col_Position := (i + 1) * col_positionGap, col_UpdatedAt := dk_now d \<rparr>))) (\<lambda>_.
             renumber_columns d cid xs (i + 1) pos))"

definition slot_index :: "Column \<Rightarrow> OptStr \<Rightarrow> Column list \<Rightarrow> nat svc" where
  "slot_index c after rest =
     (case after of
        OptValue v \<Rightarrow>
          if v = col_ID c then fail (fieldErr ''after_id'' ''A column cannot be placed after itself.'')
          else (case index_where (\<lambda>x. col_ID x = v) rest of
                  None \<Rightarrow> fail (fieldErr ''after_id'' ''No such column on this board.'')
                | Some n \<Rightarrow> ret (n + 1))
      | _ \<Rightarrow> ret 0)"

definition between :: "Desk \<Rightarrow> Column \<Rightarrow> Column list \<Rightarrow> nat \<Rightarrow> int \<Rightarrow> int \<Rightarrow> int svc" where
  "between d c rest idx lo hi =
     (let mid = lo + go_div (hi - lo) 2 in
      if lo < mid \<and> mid < hi then ret mid
      else renumber_columns d (col_ID c) (take idx rest @ c # drop idx rest) 0 0)"

definition reorder :: "Desk \<Rightarrow> Column \<Rightarrow> OptStr \<Rightarrow> int svc" where
  "reorder d c after =
     andThen (reading (Columns_ForProject (dk_faults d) (col_ProjectID c))) (\<lambda>cols.
     let rest = filter (\<lambda>x. col_ID x \<noteq> col_ID c) cols in
     andThen (slot_index c after rest) (\<lambda>idx.
       if rest = [] then ret col_positionGap
       else if idx = 0 then between d c rest idx 0 (col_Position (hd rest))
       else if idx = length rest then ret (col_Position (last rest) + col_positionGap)
       else between d c rest idx (col_Position (rest ! (idx - 1))) (col_Position (rest ! idx))))"

section \<open>Update\<close>

datatype OptInt = IntAbsent | IntNull | IntValue int

record ColumnPatch =
  cp_Name :: "string option"
  cp_Category :: "string option"
  cp_WIPLimit :: OptInt
  cp_AutoStartDelegate :: "bool option"
  cp_AfterID :: OptStr

definition patch_column_name :: "ColumnPatch \<Rightarrow> Column \<Rightarrow> Column \<times> FieldError list" where
  "patch_column_name p c =
     (case cp_Name p of None \<Rightarrow> (c, [])
      | Some n \<Rightarrow> if trim_space n = [] then (c, [noName]) else (c\<lparr> col_Name := trim_space n \<rparr>, []))"

definition patch_category :: "Desk \<Rightarrow> ColumnPatch \<Rightarrow> Column \<times> FieldError list \<Rightarrow> (Column \<times> FieldError list) svc" where
  "patch_category d p r =
     (case r of (c, es) \<Rightarrow>
        (case cp_Category p of
           None \<Rightarrow> ret (c, es)
         | Some s \<Rightarrow>
             (case category_of s of
                None \<Rightarrow> ret (c, es @ [badCategory])
              | Some cat \<Rightarrow>
                  if cat = col_Category c then ret (c, es)
                  else andThen (requireCategorySurvives d c) (\<lambda>_. ret (c\<lparr> col_Category := cat \<rparr>, es)))))"

definition patch_wip :: "ColumnPatch \<Rightarrow> Column \<times> FieldError list \<Rightarrow> Column \<times> FieldError list" where
  "patch_wip p r =
     (case r of (c, es) \<Rightarrow>
        (case cp_WIPLimit p of
           IntAbsent \<Rightarrow> (c, es)
         | IntNull \<Rightarrow> (c\<lparr> col_WIPLimit := None \<rparr>, es)
         | IntValue v \<Rightarrow>
             if v < 1 then (c, es @ [\<lparr> fe_Field = ''wip_limit'', fe_Message = ''Must be at least 1, or null for no limit.'' \<rparr>])
             else (c\<lparr> col_WIPLimit := Some v \<rparr>, es)))"

definition patch_order :: "Desk \<Rightarrow> ColumnPatch \<Rightarrow> Column \<Rightarrow> Column svc" where
  "patch_order d p c =
     (case cp_AfterID p of
        OptAbsent \<Rightarrow> ret c
      | after \<Rightarrow> andThen (reorder d c after) (\<lambda>pos. ret (c\<lparr> col_Position := pos \<rparr>)))"

definition column_update_tx :: "Desk \<Rightarrow> string \<Rightarrow> ColumnPatch \<Rightarrow> (Column \<times> Column) svc" where
  "column_update_tx d i p =
     (let f = dk_faults d in
      andThen (reading (Columns_ByID f i)) (\<lambda>before.
      andThen (patch_category d p (patch_column_name p before)) (\<lambda>r.
      case patch_wip p r of
        (c, es) \<Rightarrow>
          ensure (es = []) (SeFields es)
            (andThen (patch_order d p (c\<lparr> col_AutoStartDelegate := given (cp_AutoStartDelegate p) (col_AutoStartDelegate c) \<rparr>)) (\<lambda>c2.
             andThen (writing (Columns_Update f (c2\<lparr> col_UpdatedAt := dk_now d \<rparr>))) (\<lambda>_.
             ret (before, c2\<lparr> col_UpdatedAt := dk_now d \<rparr>)))))))"

definition ColumnUpdate :: "Desk \<Rightarrow> string \<Rightarrow> ColumnPatch \<Rightarrow> ColumnWithCount svc" where
  "ColumnUpdate d i p =
     (let f = dk_faults d in
      andThen (transact f (column_update_tx d i p)) (\<lambda>r.
      case r of (before, c) \<Rightarrow>
        andThen (svc_audit d ''column.update'' ''column'' (col_ID c) (col_ProjectID c) '''' (column_snapshot before) (column_snapshot c)) (\<lambda>_.
        andThen (emitBoard d c ''updated'') (\<lambda>_.
        andThen (reading (Columns_TicketCounts f (col_ProjectID c))) (\<lambda>counts.
        ret \<lparr> cw_Column = c, cw_TicketCount = count_of counts (col_ID c) \<rparr>)))))"

section \<open>Deletion\<close>

definition dest_err :: "string \<Rightarrow> svc_err" where
  "dest_err msg = fieldErr ''destination_column_id'' msg"

definition evacuate :: "Desk \<Rightarrow> Column \<Rightarrow> string \<Rightarrow> int \<Rightarrow> int svc" where
  "evacuate d c dest n =
     (if n \<le> 0 then ret 0
      else if dest = [] then fail (dest_err (''This column holds '' @ fmt_int n @ '' tickets; choose a column to move them to.''))
      else if dest = col_ID c then fail (dest_err ''The destination cannot be the column being deleted.'')
      else andThen (asking (Columns_ByID (dk_faults d) dest)) (\<lambda>r.
        case r of
          Inl _ \<Rightarrow> fail (dest_err ''No such column on this board.'')
        | Inr c' \<Rightarrow>
            ensure (col_ProjectID c' = col_ProjectID c) (dest_err ''No such column on this board.'')
              (writing (Tickets_MoveAllToColumn (dk_faults d) (col_ID c) (col_ID c') (dk_now d)))))"

definition column_delete_tx :: "Desk \<Rightarrow> string \<Rightarrow> string \<Rightarrow> (Column \<times> int) svc" where
  "column_delete_tx d i dest =
     (let f = dk_faults d in
      andThen (reading (Columns_ByID f i)) (\<lambda>c.
      andThen (requireCategorySurvives d c) (\<lambda>_.
      andThen (reading (Columns_TicketCounts f (col_ProjectID c))) (\<lambda>counts.
      andThen (evacuate d c dest (count_of counts (col_ID c))) (\<lambda>moved.
      andThen (writing (Columns_Delete f (col_ID c))) (\<lambda>_.
      ret (c, moved)))))))"

definition ColumnDelete :: "Desk \<Rightarrow> string \<Rightarrow> string \<Rightarrow> unit svc" where
  "ColumnDelete d i dest =
     andThen (transact (dk_faults d) (column_delete_tx d i dest)) (\<lambda>r.
     case r of (c, moved) \<Rightarrow>
       andThen (svc_audit d ''column.delete'' ''column'' (col_ID c) (col_ProjectID c)
         (if 0 < moved then ''moved '' @ fmt_int moved @ '' tickets to column '' @ dest else '''') (column_snapshot c) []) (\<lambda>_.
       emitBoard d c ''deleted''))"

end
