(* ===== verification/BoardSafety.thy ===== *)
theory BoardSafety
  imports BoardService TicketNest
begin

text \<open>
  What the board service guarantees: a project born with the default columns never loses its last backlog,
  running or done column, whatever requests follow; a reordered column lands exactly where the request
  puts it; and a deleted column gives up no ticket.
\<close>

section \<open>The columns of a project by identifier and category\<close>

definition col_sig :: "Column \<Rightarrow> string \<times> string \<times> ColumnCategory" where
  "col_sig c = (col_ID c, col_ProjectID c, col_Category c)"

definition sigs :: "World \<Rightarrow> (string \<times> string \<times> ColumnCategory) list" where
  "sigs w = map col_sig (w_columns w)"

definition full_sigs :: "string \<Rightarrow> (string \<times> string \<times> ColumnCategory) list \<Rightarrow> bool" where
  "full_sigs pid S \<longleftrightarrow> distinct (map fst S) \<and>
     (\<forall>cat. requiredCategories cat \<longrightarrow> (\<exists>i. (i, pid, cat) \<in> set S))"

definition full_board :: "string \<Rightarrow> World \<Rightarrow> bool" where
  "full_board pid w \<longleftrightarrow> distinct (map col_ID (w_columns w)) \<and>
     (\<forall>cat. requiredCategories cat \<longrightarrow>
        (\<exists>c \<in> set (w_columns w). col_ProjectID c = pid \<and> col_Category c = cat))"

lemma map_fst_sigs [simp]: "map fst (sigs w) = map col_ID (w_columns w)"
  by (simp add: sigs_def col_sig_def comp_def)

lemma mem_sigs: "(i, p, cat) \<in> set (sigs w) \<longleftrightarrow>
    (\<exists>c \<in> set (w_columns w). col_ID c = i \<and> col_ProjectID c = p \<and> col_Category c = cat)"
  by (auto simp: sigs_def col_sig_def)

lemma full_board_sigs: "full_board pid w \<longleftrightarrow> full_sigs pid (sigs w)"
  unfolding full_board_def full_sigs_def mem_sigs map_fst_sigs by blast

definition recategorise :: "string \<Rightarrow> ColumnCategory \<Rightarrow> string \<times> string \<times> ColumnCategory \<Rightarrow> string \<times> string \<times> ColumnCategory" where
  "recategorise i cat s = (if fst s = i then (i, fst (snd s), cat) else s)"

lemma Columns_Update_ok:
  "Columns_Update f c w = (Inr u, w') \<Longrightarrow>
   w_columns w' = map (\<lambda>x. if col_ID x = col_ID c then c\<lparr> col_ProjectID := col_ProjectID x, col_CreatedAt := col_CreatedAt x \<rparr> else x)
     (w_columns w) \<and> w_tickets w' = w_tickets w"
  by (auto simp: Columns_Update_def exec_one_def update_where_def split: option.splits if_splits)

lemma sigs_update: "Columns_Update f c w = (Inr u, w') \<Longrightarrow> sigs w' = map (recategorise (col_ID c) (col_Category c)) (sigs w)"
  by (auto dest!: Columns_Update_ok simp: sigs_def col_sig_def recategorise_def)

lemma recategorise_same:
  assumes "distinct (map fst S)" and "(i, p, cat) \<in> set S"
  shows "map (recategorise i cat) S = S"
proof (rule map_idI)
  fix s
  assume "s \<in> set S"
  moreover obtain j q k where s: "s = (j, q, k)" by (cases s)
  moreover have "j = i \<Longrightarrow> (q, k) = (p, cat)"
    using eq_key_imp_eq_value [OF assms(1)] assms(2) \<open>s \<in> set S\<close> s by metis
  ultimately show "recategorise i cat s = s" by (auto simp: recategorise_def)
qed

lemma renumber_columns_sigs:
  "renumber_columns d cid xs n pos w = (Inr p, w') \<Longrightarrow> distinct (map fst (sigs w)) \<Longrightarrow>
   (\<And>x. x \<in> set xs \<Longrightarrow> col_ID x \<noteq> cid \<Longrightarrow> col_sig x \<in> set (sigs w)) \<Longrightarrow> sigs w' = sigs w"
proof (induction xs arbitrary: n pos w)
  case (Cons x xs)
  show ?case
  proof (cases "col_ID x = cid")
    case True
    with Cons show ?thesis by simp
  next
    case False
    then obtain u w1 where s: "Columns_Update (dk_faults d) (x\<lparr> col_Position := (n + 1) * col_positionGap, col_UpdatedAt := dk_now d \<rparr>) w = (Inr u, w1)"
      "renumber_columns d cid xs (n + 1) pos w1 = (Inr p, w')"
      using Cons.prems(1) by (auto simp: svc_ok)
    have "sigs w1 = sigs w"
      using sigs_update [OF s(1)] recategorise_same [OF Cons.prems(2), of "col_ID x" "col_ProjectID x" "col_Category x"]
        Cons.prems(3) [of x] False by (simp add: col_sig_def)
    then show ?thesis using Cons.IH [OF s(2)] Cons.prems by simp
  qed
qed (simp add: svc_ok)

lemma Columns_ForProject_ok:
  "Columns_ForProject f pid w = Inr cols \<Longrightarrow> cols = sort_key board_order (filter (\<lambda>c. col_ProjectID c = pid) (w_columns w))"
  by (auto simp: Columns_ForProject_def query_Inr)

lemma reorder_sigs:
  assumes r: "reorder d c after w = (Inr pos, w')" and d: "distinct (map fst (sigs w))"
  shows "sigs w' = sigs w"
proof -
  obtain cols where cols: "Columns_ForProject (dk_faults d) (col_ProjectID c) w = Inr cols"
    using r by (auto simp: reorder_def svc_ok Let_def)
  have row: "col_sig x \<in> set (sigs w)" if "x \<in> set (filter (\<lambda>x. col_ID x \<noteq> col_ID c) cols)" for x
    using that Columns_ForProject_ok [OF cols] by (auto simp: sigs_def)
  have b: "sigs w' = sigs w" if "between d c (filter (\<lambda>x. col_ID x \<noteq> col_ID c) cols) idx lo hi w = (Inr pos, w')" for idx lo hi
  proof (cases "lo < lo + go_div (hi - lo) 2 \<and> lo + go_div (hi - lo) 2 < hi")
    case True
    show ?thesis using that unfolding between_def Let_def if_P [OF True] by (simp add: svc_ok)
  next
    case False
    have "renumber_columns d (col_ID c) (take idx (filter (\<lambda>x. col_ID x \<noteq> col_ID c) cols) @
        c # drop idx (filter (\<lambda>x. col_ID x \<noteq> col_ID c) cols)) 0 0 w = (Inr pos, w')"
      using that unfolding between_def Let_def if_not_P [OF False] .
    then show ?thesis by (rule renumber_columns_sigs [OF _ d]) (use row in \<open>auto dest: in_set_takeD in_set_dropD\<close>)
  qed
  show ?thesis using r cols b
    by (fastforce simp: reorder_def svc_ok Let_def slot_index_def split: OptStr.splits option.splits if_splits)
qed

section \<open>The guardrail holds\<close>

lemma survivor:
  assumes g: "requireCategorySurvives d c w = (Inr u, w')" and req: "requiredCategories (col_Category c)"
    and d: "distinct (map fst (sigs w))"
  shows "\<exists>j. j \<noteq> col_ID c \<and> (j, col_ProjectID c, col_Category c) \<in> set (sigs w)"
proof -
  let ?P = "\<lambda>x. col_ProjectID x = col_ProjectID c \<and> col_Category x = col_Category c"
  obtain same where same: "Columns_ByCategory (dk_faults d) (col_ProjectID c) (col_Category c) w = Inr same" "1 < length same"
    using g req by (auto simp: requireCategorySurvives_def svc_ok)
  then have set: "set same = {x \<in> set (w_columns w). ?P x}" and len: "length same = length (filter ?P (w_columns w))"
    by (auto simp: Columns_ByCategory_def query_Inr)
  have "distinct (map col_ID (filter ?P (w_columns w)))"
    using d by (simp add: distinct_map inj_on_def)
  then have "card (set (map col_ID (filter ?P (w_columns w)))) = length same" using distinct_card len by (metis length_map)
  then have "\<not> set (map col_ID (filter ?P (w_columns w))) \<subseteq> {col_ID c}"
    using same(2) card_mono [of "{col_ID c}" "set (map col_ID (filter ?P (w_columns w)))"] by auto
  then show ?thesis by (auto simp: mem_sigs)
qed

lemma requireCategorySurvives_pure: "requireCategorySurvives d c w = (Inr u, w') \<Longrightarrow> w' = w"
  by (auto simp: requireCategorySurvives_def svc_ok split: if_splits)

lemma recategorise_full:
  assumes "full_sigs pid S" and "(i, p, old) \<in> set S"
    and "cat \<noteq> old \<Longrightarrow> requiredCategories old \<Longrightarrow> \<exists>j. j \<noteq> i \<and> (j, p, old) \<in> set S"
  shows "full_sigs pid (map (recategorise i cat) S)"
proof -
  have keep: "(j, q, k) \<in> set (map (recategorise i cat) S)" if "(j, q, k) \<in> set S" "j \<noteq> i" for j q k
  proof -
    have "recategorise i cat (j, q, k) \<in> set (map (recategorise i cat) S)" using that(1) by (simp only: set_map image_eqI)
    then show ?thesis using that(2) by (simp add: recategorise_def)
  qed
  have uniq: "q = p \<and> k = old" if "(i, q, k) \<in> set S" for q k
    using eq_key_imp_eq_value [of S i "(q, k)" "(p, old)"] that assms(1,2) by (simp add: full_sigs_def)
  have "map fst (map (recategorise i cat) S) = map fst S" by (simp add: recategorise_def)
  moreover have "\<exists>j. (j, pid, k) \<in> set (map (recategorise i cat) S)" if k: "requiredCategories k" for k
  proof -
    obtain j where j: "(j, pid, k) \<in> set S" using assms(1) k by (auto simp: full_sigs_def)
    show ?thesis
    proof (cases "j = i")
      case True
      then have e: "pid = p" "k = old" using j uniq by auto
      show ?thesis
      proof (cases "cat = old")
        case True
        then show ?thesis using recategorise_same [of S i p cat] assms(1,2) e by (auto simp: full_sigs_def)
      next
        case False
        then show ?thesis using assms(3) k e keep by blast
      qed
    qed (use j keep in blast)
  qed
  ultimately show ?thesis using assms(1) unfolding full_sigs_def by metis
qed

lemma patched_column:
  assumes "patch_category d p (patch_column_name p c) w = (Inr r, w')"
  shows "w' = w" and "col_ID (fst r) = col_ID c" and "col_ProjectID (fst r) = col_ProjectID c"
    and "col_Position (fst r) = col_Position c"
    and "\<exists>v. col_Category (fst r) = col_Category c \<or> requireCategorySurvives d (fst (patch_column_name p c)) w = (Inr (), v)"
proof -
  obtain c1 es where n: "patch_column_name p c = (c1, es)" by fastforce
  then have c1: "col_ID c1 = col_ID c" "col_ProjectID c1 = col_ProjectID c" "col_Category c1 = col_Category c"
    "col_Position c1 = col_Position c"
    by (auto simp: patch_column_name_def split: option.splits if_splits)
  have "w' = w \<and> col_ID (fst r) = col_ID c \<and> col_ProjectID (fst r) = col_ProjectID c \<and> col_Position (fst r) = col_Position c \<and>
      (\<exists>v. col_Category (fst r) = col_Category c \<or> requireCategorySurvives d c1 w = (Inr (), v))"
    using assms c1 by (auto simp: n patch_category_def svc_ok split: option.splits if_splits dest: requireCategorySurvives_pure)
  then show "w' = w" "col_ID (fst r) = col_ID c" "col_ProjectID (fst r) = col_ProjectID c" "col_Position (fst r) = col_Position c"
    "\<exists>v. col_Category (fst r) = col_Category c \<or> requireCategorySurvives d (fst (patch_column_name p c)) w = (Inr (), v)"
    by (simp_all add: n)
qed

lemma patch_wip_fields:
  "patch_wip p r = (c, es) \<Longrightarrow> col_ID c = col_ID (fst r) \<and> col_ProjectID c = col_ProjectID (fst r) \<and>
     col_Category c = col_Category (fst r) \<and> col_Position c = col_Position (fst r)"
  by (auto simp: patch_wip_def split: prod.splits OptInt.splits if_splits)

lemma patch_order_ok:
  assumes "patch_order d p c w = (Inr c2, w1)"
  shows "c2 = c\<lparr> col_Position := col_Position c2 \<rparr>"
    and "cp_AfterID p = OptAbsent \<and> w1 = w \<or> reorder d c (cp_AfterID p) w = (Inr (col_Position c2), w1)"
  using assms by (auto simp: patch_order_def svc_ok split: OptStr.splits)

text \<open>What a successful update has gone through.\<close>

lemma column_update_tx_ok:
  assumes "column_update_tx d i p w = (Inr (before, c), w')"
  obtains r c1 w1 c2 where "Columns_ByID (dk_faults d) i w = Inr before"
    and "patch_category d p (patch_column_name p before) w = (Inr r, w)" and "patch_wip p r = (c1, [])"
    and "patch_order d p (c1\<lparr> col_AutoStartDelegate := given (cp_AutoStartDelegate p) (col_AutoStartDelegate c1) \<rparr>) w = (Inr c2, w1)"
    and "Columns_Update (dk_faults d) c w1 = (Inr (), w')" and "c = c2\<lparr> col_UpdatedAt := dk_now d \<rparr>"
proof -
  obtain x r v where a: "Columns_ByID (dk_faults d) i w = Inr x"
    "patch_category d p (patch_column_name p x) w = (Inr r, v)"
    and b: "(case patch_wip p r of (c, es) \<Rightarrow> ensure (es = []) (SeFields es)
      (andThen (patch_order d p (c\<lparr> col_AutoStartDelegate := given (cp_AutoStartDelegate p) (col_AutoStartDelegate c) \<rparr>)) (\<lambda>c2.
       andThen (writing (Columns_Update (dk_faults d) (c2\<lparr> col_UpdatedAt := dk_now d \<rparr>))) (\<lambda>_.
       ret (x, c2\<lparr> col_UpdatedAt := dk_now d \<rparr>))))) v = (Inr (before, c), w')"
    using assms unfolding column_update_tx_def Let_def andThen_ok reading_ok by blast
  obtain c1 es where wip: "patch_wip p r = (c1, es)" by fastforce
  have "v = w" by (rule patched_column(1) [OF a(2)])
  with a b wip show thesis by (auto simp: svc_ok intro: that)
qed

lemma Columns_ByID_mem: "Columns_ByID f i w = Inr c \<Longrightarrow> c \<in> set (w_columns w) \<and> col_ID c = i"
  by (auto simp: Columns_ByID_def query_row_Inr dest: find_row_Some)

lemma column_update_full: "triple (full_board pid) (column_update_tx d i p) (\<lambda>_. full_board pid)"
  unfolding triple_def
proof (intro allI impI)
  fix w x w'
  assume full: "full_board pid w" and r: "column_update_tx d i p w = (Inr x, w')"
  obtain before c where x: "x = (before, c)" by (cases x)
  from r x obtain r1 c1 w1 c2 where
    before: "Columns_ByID (dk_faults d) i w = Inr before"
    and cat: "patch_category d p (patch_column_name p before) w = (Inr r1, w)" and wip: "patch_wip p r1 = (c1, [])"
    and ord: "patch_order d p (c1\<lparr> col_AutoStartDelegate := given (cp_AutoStartDelegate p) (col_AutoStartDelegate c1) \<rparr>) w = (Inr c2, w1)"
    and upd: "Columns_Update (dk_faults d) c w1 = (Inr (), w')" and c: "c = c2\<lparr> col_UpdatedAt := dk_now d \<rparr>"
    by (blast elim: column_update_tx_ok)
  have mem: "(col_ID before, col_ProjectID before, col_Category before) \<in> set (sigs w)"
    using Columns_ByID_mem [OF before] by (auto simp: mem_sigs)
  have d: "distinct (map fst (sigs w))" using full by (simp add: full_board_sigs full_sigs_def)
  have "col_ID c = col_ID before" "col_Category c = col_Category (fst r1)"
    using patched_column(2) [OF cat] patch_wip_fields [OF wip] patch_order_ok(1) [OF ord] c
    by (auto dest: arg_cong [where f = col_ID] arg_cong [where f = col_Category])
  moreover have "sigs w1 = sigs w" using patch_order_ok(2) [OF ord] reorder_sigs d by blast
  moreover have "\<exists>j. j \<noteq> col_ID before \<and> (j, col_ProjectID before, col_Category before) \<in> set (sigs w)"
    if ch: "col_Category (fst r1) \<noteq> col_Category before" "requiredCategories (col_Category before)"
  proof -
    have n: "col_ID (fst (patch_column_name p before)) = col_ID before"
      "col_ProjectID (fst (patch_column_name p before)) = col_ProjectID before"
      "col_Category (fst (patch_column_name p before)) = col_Category before"
      by (auto simp: patch_column_name_def split: option.splits if_splits)
    obtain v where "requireCategorySurvives d (fst (patch_column_name p before)) w = (Inr (), v)"
      using patched_column(5) [OF cat] ch(1) by blast
    from survivor [OF this] show ?thesis using ch(2) d n by simp
  qed
  ultimately have "full_sigs pid (sigs w')"
    using sigs_update [OF upd] recategorise_full [of pid "sigs w" "col_ID before" _ _ "col_Category c"] full mem
    by (auto simp: full_board_sigs)
  then show "full_board pid w'" by (simp add: full_board_sigs)
qed

lemma columns_frames:
  "w_columns (snd (Tickets_MoveAllToColumn f i j now w)) = w_columns w"
  by (auto simp: Tickets_MoveAllToColumn_def exec_def Let_def split: sum.splits list.splits option.splits)

lemma evacuate_columns: "evacuate d c dest n w = (Inr m, w') \<Longrightarrow> w_columns w' = w_columns w"
  using columns_frames [of "dk_faults d" "col_ID c"]
  by (auto simp: evacuate_def svc_ok split: if_splits sum.splits) (metis snd_conv)

lemma column_delete_full: "triple (full_board pid) (column_delete_tx d i dest) (\<lambda>_. full_board pid)"
  unfolding triple_def
proof (intro allI impI)
  fix w x w'
  assume full: "full_board pid w" and r: "column_delete_tx d i dest w = (Inr x, w')"
  obtain c w1 counts m where c: "Columns_ByID (dk_faults d) i w = Inr c"
    and g: "requireCategorySurvives d c w = (Inr (), w)"
    and ev: "evacuate d c dest (count_of counts (col_ID c)) w = (Inr m, w1)"
    and del: "Columns_Delete (dk_faults d) (col_ID c) w1 = (Inr (), w')"
    using r requireCategorySurvives_pure by (fastforce simp: column_delete_tx_def Let_def svc_ok)
  have "w_columns w' = filter (\<lambda>x. col_ID x \<noteq> col_ID c) (w_columns w)"
    using del evacuate_columns [OF ev] by (auto simp: Columns_Delete_def exec_one_def split: option.splits if_splits)
  then have w': "(j, p, k) \<in> set (sigs w') \<longleftrightarrow> (j, p, k) \<in> set (sigs w) \<and> j \<noteq> col_ID c" "map col_ID (w_columns w') = filter (\<lambda>x. x \<noteq> col_ID c) (map col_ID (w_columns w))" for j p k
    by (auto simp: mem_sigs filter_map comp_def)
  have "\<exists>j. (j, pid, k) \<in> set (sigs w')" if k: "requiredCategories k" for k
  proof -
    obtain j where j: "(j, pid, k) \<in> set (sigs w)" using full k by (auto simp: full_board_sigs full_sigs_def)
    show ?thesis
    proof (cases "j = col_ID c")
      case True
      have "(col_ID c, col_ProjectID c, col_Category c) \<in> set (sigs w)" using Columns_ByID_mem [OF c] by (auto simp: mem_sigs)
      then have "pid = col_ProjectID c" "k = col_Category c"
        using eq_key_imp_eq_value [of "sigs w" "col_ID c" "(pid, k)" "(col_ProjectID c, col_Category c)"] j True full
        by (simp_all add: full_board_def)
      then show ?thesis using survivor [OF g] k full w'(1) by (auto simp: full_board_def)
    qed (use j w'(1) in blast)
  qed
  moreover have "distinct (map col_ID (w_columns w'))" using full w'(2) by (simp add: full_board_def)
  ultimately show "full_board pid w'" by (simp add: full_board_sigs full_sigs_def)
qed

lemma column_create_full: "keeps (full_board pid) (column_tx d p name cat)"
  unfolding column_tx_def Let_def
proof (intro keep keeps_writing)
  fix c :: Column and w
  assume "full_board pid w"
  then show "full_board pid (snd (Columns_Create (dk_faults d) c w))"
    by (auto simp: full_board_def Columns_Create_def exec_def list_ex_iff split: option.splits)
qed

lemma keeps_full_rest [keep]:
  "keeps (full_board pid) (svc_audit d a k i p n b c)" "keeps (full_board pid) (emitBoard d x y)"
  unfolding svc_audit_def emitBoard_def
  by (rule keeps_writing keeps_doing, simp add: full_board_def)+

section \<open>Every sequence of requests\<close>

datatype board_request = BoardCreate string string string | BoardUpdate string ColumnPatch | BoardDelete string string

fun board_do :: "Desk \<times> board_request \<Rightarrow> World \<Rightarrow> World" where
  "board_do (d, BoardCreate key name cat) w = snd (ColumnCreate d key name cat w)"
| "board_do (d, BoardUpdate i p) w = snd (ColumnUpdate d i p w)"
| "board_do (d, BoardDelete i dest) w = snd (ColumnDelete d i dest w)"

lemma board_do_full: "full_board pid w \<Longrightarrow> full_board pid (board_do r w)"
proof -
  assume "full_board pid w"
  moreover have "keeps (full_board pid) (ColumnCreate d key name cat)" for d key name cat
    unfolding ColumnCreate_def Let_def
    by (intro keep column_create_full)
  moreover have "keeps (full_board pid) (ColumnUpdate d i p)" for d i p
    unfolding ColumnUpdate_def Let_def by (intro keep keeps_transact_triple column_update_full)
  moreover have "keeps (full_board pid) (ColumnDelete d i dest)" for d i dest
    unfolding ColumnDelete_def by (intro keep keeps_transact_triple column_delete_full)
  ultimately show ?thesis by (cases "(r, w)" rule: board_do.cases) (auto simp: keeps_def)
qed

lemma default_columns_full:
  "w_columns w = cols @ DefaultColumns pid now ids \<Longrightarrow> distinct (map col_ID (w_columns w)) \<Longrightarrow> full_board pid w"
  by (auto simp: full_board_def DefaultColumns_def default_column_def requiredCategories_def)

text \<open>
  C36. A project that starts with the default columns always keeps a backlog, a running and a done column:
  whatever columns are created, renamed, reordered, re-categorised or deleted by whom, in any order, with
  any failures of the store, and whatever the other projects do.
\<close>

theorem required_columns_survive:
  assumes "w_columns w = cols @ DefaultColumns pid now ids" and "distinct (map col_ID (w_columns w))"
  shows "full_board pid (fold board_do rs w)"
proof -
  have "full_board pid (fold board_do rs v)" if "full_board pid v" for v
    using that by (induction rs arbitrary: v) (simp_all add: board_do_full)
  then show ?thesis using default_columns_full [OF assms] .
qed

definition born_board :: World where
  "born_board = blank_World\<lparr> w_columns := DefaultColumns ''p'' ''now'' fmt_nat \<rparr>"

lemma required_columns_survive_witness:
  "full_board ''p'' (fold board_do [(plain_desk, BoardDelete ''0'' ''1''), (plain_desk, BoardDelete ''1'' '''')] born_board)"
  by (rule required_columns_survive [where cols = "[]" and now = "''now''" and ids = fmt_nat]) (simp add: born_board_def, code_simp)

section \<open>Where a reordered column lands\<close>

definition board_list :: "string \<Rightarrow> World \<Rightarrow> Column list" where
  "board_list pid w = sort_key board_order (filter (\<lambda>c. col_ProjectID c = pid) (w_columns w))"

definition board_ids :: "string \<Rightarrow> World \<Rightarrow> string list" where
  "board_ids pid w = map col_ID (board_list pid w)"

text \<open>What renumbering makes of a row, given the final order.\<close>

definition respaced :: "Desk \<Rightarrow> string \<Rightarrow> int \<Rightarrow> Column list \<Rightarrow> Column \<Rightarrow> Column" where
  "respaced d cid n xs t =
     (case index_where (\<lambda>x. col_ID x = col_ID t) xs of
        None \<Rightarrow> t
      | Some k \<Rightarrow> if col_ID t = cid then t
                   else (xs ! k)\<lparr> col_Position := (n + int k + 1) * col_positionGap, col_UpdatedAt := dk_now d,
                          col_ProjectID := col_ProjectID t, col_CreatedAt := col_CreatedAt t \<rparr>)"

lemma respaced_ids [simp]: "col_ID (respaced d cid n xs t) = col_ID t" "col_ProjectID (respaced d cid n xs t) = col_ProjectID t"
  by (auto simp: respaced_def split: option.splits dest: index_where_Some)

lemma renumber_columns_ok:
  assumes "renumber_columns d cid xs n pos w = (Inr p, w')" and "distinct (map col_ID xs)"
  shows "w_columns w' = map (respaced d cid n xs) (w_columns w) \<and>
    p = (case index_where (\<lambda>x. col_ID x = cid) xs of None \<Rightarrow> pos | Some k \<Rightarrow> (n + int k + 1) * col_positionGap)"
  using assms
proof (induction xs arbitrary: n pos w)
  case Nil
  then show ?case by (simp add: ret_ok respaced_def)
next
  case (Cons x xs)
  have absent: "index_where (\<lambda>y. col_ID y = col_ID x) xs = None"
    using Cons.prems(2) by (auto simp: index_where_None image_iff)
  show ?case
  proof (cases "col_ID x = cid")
    case True
    have "renumber_columns d cid xs (n + 1) ((n + 1) * col_positionGap) w = (Inr p, w')" using Cons.prems(1) True by simp
    from Cons.IH [OF this] Cons.prems(2) have IH: "w_columns w' = map (respaced d cid (n + 1) xs) (w_columns w)"
      "p = (n + 1) * col_positionGap" using absent True by auto
    have "respaced d cid (n + 1) xs t = respaced d cid n (x # xs) t" for t
      using True absent by (cases "col_ID t = col_ID x") (auto simp: respaced_def algebra_simps split: option.splits)
    then show ?thesis using IH True by simp
  next
    case False
    let ?x = "x\<lparr> col_Position := (n + 1) * col_positionGap, col_UpdatedAt := dk_now d \<rparr>"
    obtain u w1 where s: "Columns_Update (dk_faults d) ?x w = (Inr u, w1)" "renumber_columns d cid xs (n + 1) pos w1 = (Inr p, w')"
      using Cons.prems(1) False by (auto simp: svc_ok)
    have w1: "w_columns w1 = map (\<lambda>t. if col_ID t = col_ID x then ?x\<lparr> col_ProjectID := col_ProjectID t, col_CreatedAt := col_CreatedAt t \<rparr> else t)
        (w_columns w)" using Columns_Update_ok [OF s(1)] by simp
    from Cons.IH [OF s(2)] Cons.prems(2) have IH: "w_columns w' = map (respaced d cid (n + 1) xs) (w_columns w1)"
      "p = (case index_where (\<lambda>x. col_ID x = cid) xs of None \<Rightarrow> pos | Some k \<Rightarrow> (n + 1 + int k + 1) * col_positionGap)" by auto
    have "respaced d cid (n + 1) xs (if col_ID t = col_ID x then ?x\<lparr> col_ProjectID := col_ProjectID t, col_CreatedAt := col_CreatedAt t \<rparr> else t) =
      respaced d cid n (x # xs) t" for t
      using False absent by (cases "col_ID t = col_ID x") (auto simp: respaced_def algebra_simps split: option.splits)
    then show ?thesis using IH False w1 by (auto simp: algebra_simps split: option.splits)
  qed
qed

lemma sorted_between:
  fixes rest :: "Column list"
  assumes s: "sorted (map board_order rest)" and idx: "idx \<le> length rest"
    and lo: "0 < idx \<Longrightarrow> col_Position (rest ! (idx - 1)) < p" and hi: "idx < length rest \<Longrightarrow> p < col_Position (rest ! idx)"
  shows "sorted (map board_order (take idx rest) @ (p, i) # map board_order (drop idx rest))"
proof -
  have mono: "col_Position (rest ! a) \<le> col_Position (rest ! b)" if "a \<le> b" "b < length rest" for a b
    using sorted_nth_mono [OF s, of a b] that by (auto simp: board_order_def less_eq_prod_def)
  have before: "col_Position t < p" if t: "t \<in> set (take idx rest)" for t
  proof -
    obtain k where k: "t = rest ! k" "k < idx" "k < length rest" using t by (auto simp: in_set_conv_nth)
    then have "col_Position t \<le> col_Position (rest ! (idx - 1))" using mono [of k "idx - 1"] idx by simp
    also have "\<dots> < p" using lo k(2) by simp
    finally show ?thesis .
  qed
  have after: "p < col_Position t" if t: "t \<in> set (drop idx rest)" for t
  proof -
    obtain k where k: "t = rest ! (idx + k)" "idx + k < length rest" using t by (auto simp: in_set_conv_nth)
    have "p < col_Position (rest ! idx)" using hi k(2) by simp
    also have "\<dots> \<le> col_Position t" using mono [of idx "idx + k"] k by simp
    finally show ?thesis .
  qed
  have "sorted (map board_order (take idx rest))" "sorted (map board_order (drop idx rest))"
    using s by (simp_all add: sorted_wrt_take sorted_wrt_drop take_map [symmetric] drop_map [symmetric])
  moreover have "board_order x \<le> board_order y" if "x \<in> set (take idx rest)" "y \<in> set (drop idx rest)" for x y
    using before [OF that(1)] after [OF that(2)] by (auto simp: board_order_def less_eq_prod_def)
  ultimately show ?thesis using before after by (auto simp: sorted_append board_order_def less_eq_prod_def)
qed

text \<open>
  Reordering as one change of rows: the mover keeps its row, and its new position orders it, among the rows as
  they are then, at the index asked for.
\<close>

definition board_rest :: "string \<Rightarrow> string \<Rightarrow> World \<Rightarrow> Column list" where
  "board_rest pid i w = filter (\<lambda>x. col_ID x \<noteq> i) (board_list pid w)"

lemma board_rest_facts:
  assumes "distinct (map col_ID (w_columns w))"
  shows "distinct (map col_ID (board_rest pid i w))" "sorted (map board_order (board_rest pid i w))"
    and "x \<in> set (board_rest pid i w) \<longleftrightarrow> x \<in> set (w_columns w) \<and> col_ProjectID x = pid \<and> col_ID x \<noteq> i"
proof -
  have "distinct (map col_ID (board_list pid w))"
    using assms unfolding board_list_def by (auto simp: distinct_map inj_on_def)
  then show "distinct (map col_ID (board_rest pid i w))" unfolding board_rest_def by (simp add: distinct_map inj_on_def)
  have "sorted_wrt (\<lambda>a b. board_order a \<le> board_order b) (board_list pid w)"
    using sorted_sort_key [of board_order] by (simp add: board_list_def sorted_map)
  then show "sorted (map board_order (board_rest pid i w))" unfolding board_rest_def sorted_map by (rule sorted_wrt_filter)
  show "x \<in> set (board_rest pid i w) \<longleftrightarrow> x \<in> set (w_columns w) \<and> col_ProjectID x = pid \<and> col_ID x \<noteq> i"
    by (auto simp: board_rest_def board_list_def)
qed

definition placed :: "Column \<Rightarrow> Column list \<Rightarrow> nat \<Rightarrow> int \<Rightarrow> (Column \<Rightarrow> Column) \<Rightarrow> bool" where
  "placed c rest idx pos g \<longleftrightarrow> (\<forall>t. col_ID (g t) = col_ID t \<and> col_ProjectID (g t) = col_ProjectID t) \<and>
     sorted (map (\<lambda>t. board_order (g t)) (take idx rest) @ (pos, col_ID c) # map (\<lambda>t. board_order (g t)) (drop idx rest))"

lemma sorted_respaced: "sorted (map (\<lambda>k. ((int k + 1) * col_positionGap, f k :: string)) [0..<n])"
  by (auto simp: sorted_iff_nth_mono col_positionGap_def less_eq_prod_def) (metis le_neq_implies_less order_refl)

lemma ids_differ: "distinct (map h xs) \<Longrightarrow> k < length xs \<Longrightarrow> j < length xs \<Longrightarrow> k \<noteq> j \<Longrightarrow> h (xs ! k) \<noteq> h (xs ! j)"
  by (metis length_map nth_eq_iff_index_eq nth_map)

lemma between_placed:
  assumes b: "between d c rest idx lo hi w = (Inr pos, w1)" and rest: "rest = board_rest (col_ProjectID c) (col_ID c) w"
    and d: "distinct (map col_ID (w_columns w))" and idx: "idx \<le> length rest"
    and lo: "0 < idx \<Longrightarrow> col_Position (rest ! (idx - 1)) = lo" and hi: "idx < length rest \<Longrightarrow> col_Position (rest ! idx) = hi"
  shows "\<exists>g. w_columns w1 = map g (w_columns w) \<and> placed c rest idx pos g"
proof (cases "lo < lo + go_div (hi - lo) 2 \<and> lo + go_div (hi - lo) 2 < hi")
  case True
  define mid where "mid = lo + go_div (hi - lo) 2"
  have e: "pos = mid" "w1 = w" using b unfolding between_def Let_def if_P [OF True] mid_def by (simp_all add: svc_ok)
  have "lo < mid" "mid < hi" using True by (simp_all only: mid_def)
  then have "placed c rest idx pos (\<lambda>t. t)"
    unfolding placed_def rest e using sorted_between [OF board_rest_facts(2) [OF d] idx [unfolded rest]] lo hi rest by simp
  then show ?thesis using e(2) by (intro exI [of _ "\<lambda>t. t"]) simp
next
  case False
  let ?xs = "take idx rest @ c # drop idx rest"
  have r: "renumber_columns d (col_ID c) ?xs 0 0 w = (Inr pos, w1)" using b unfolding between_def Let_def if_not_P [OF False] .
  have ids: "distinct (map col_ID ?xs)"
  proof -
    have "map col_ID (take idx rest) @ map col_ID (drop idx rest) = map col_ID rest" by (metis append_take_drop_id map_append)
    then have "distinct (map col_ID (take idx rest) @ map col_ID (drop idx rest))" using board_rest_facts(1) [OF d] rest by simp
    moreover have "\<forall>x \<in> set (take idx rest) \<union> set (drop idx rest). col_ID x \<noteq> col_ID c"
      using board_rest_facts(3) [OF d] rest by (metis Un_iff in_set_dropD in_set_takeD)
    ultimately show ?thesis by auto
  qed
  let ?g = "respaced d (col_ID c) 0 ?xs"
  have at: "index_where (\<lambda>x. col_ID x = col_ID (?xs ! k)) ?xs = Some k" if "k < length ?xs" for k
    using index_where_nth [OF ids that] .
  have mid: "?xs ! idx = c" using idx by (simp add: nth_append)
  have "pos = (int idx + 1) * col_positionGap"
    using renumber_columns_ok [OF r ids] at [of idx] idx mid by simp
  have key: "board_order (?g (?xs ! k)) = ((int k + 1) * col_positionGap, col_ID (?xs ! k))" if "k < length ?xs" "k \<noteq> idx" for k
  proof -
    have "idx < length ?xs" using idx by simp
    from ids_differ [OF ids that(1) this that(2)] have "col_ID (?xs ! k) \<noteq> col_ID c" unfolding mid .
    then show ?thesis using at [OF that(1)] by (simp add: respaced_def board_order_def)
  qed
  have "map (\<lambda>t. board_order (?g t)) (take idx rest) @ (pos, col_ID c) # map (\<lambda>t. board_order (?g t)) (drop idx rest) =
      map (\<lambda>k. ((int k + 1) * col_positionGap, col_ID (?xs ! k))) [0..<length ?xs]" (is "?l = ?r")
  proof (rule nth_equalityI)
    show "length ?l = length ?r" by simp
    fix k
    assume k: "k < length ?l"
    then have n: "k < length ?xs" by simp
    have R: "?r ! k = ((int k + 1) * col_positionGap, col_ID (?xs ! k))"
      by (subst nth_map_upt) (use n in simp_all)
    consider "k < idx" | "k = idx" | "idx < k" by linarith
    then show "?l ! k = ?r ! k"
    proof cases
      case 1
      then have "?l ! k = board_order (?g (?xs ! k))" using idx by (simp add: nth_append del: respaced_ids)
      then show ?thesis unfolding R using key [OF n] 1 by simp
    next
      case 2
      then show ?thesis unfolding R using mid \<open>pos = _\<close> idx by (simp add: nth_append)
    next
      case 3
      then have "?l ! k = board_order (?g (?xs ! k))" using idx n by (simp add: nth_append nth_Cons' del: respaced_ids)
      then show ?thesis unfolding R using key [OF n] 3 by simp
    qed
  qed
  then have "placed c rest idx pos ?g" unfolding placed_def using sorted_respaced by (metis respaced_ids)
  then show ?thesis using renumber_columns_ok [OF r ids] by blast
qed

lemma reorder_placed:
  assumes r: "reorder d c after w = (Inr pos, w1)" and d: "distinct (map col_ID (w_columns w))"
    and rest: "rest = board_rest (col_ProjectID c) (col_ID c) w"
  shows "\<exists>g idx. slot_index c after rest w = (Inr idx, w) \<and> idx \<le> length rest \<and>
    w_columns w1 = map g (w_columns w) \<and> placed c rest idx pos g"
proof -
  obtain idx where slot: "slot_index c after rest w = (Inr idx, w)" and idx: "idx \<le> length rest"
    and body: "(if rest = [] then ret col_positionGap
       else if idx = 0 then between d c rest idx 0 (col_Position (hd rest))
       else if idx = length rest then ret (col_Position (last rest) + col_positionGap)
       else between d c rest idx (col_Position (rest ! (idx - 1))) (col_Position (rest ! idx))) w = (Inr pos, w1)"
    using r unfolding rest board_rest_def board_list_def
    by (fastforce simp: reorder_def Let_def svc_ok slot_index_def dest!: Columns_ForProject_ok dest: index_where_Some
        split: OptStr.splits option.splits if_splits)
  have tail_ok: "placed c rest idx pos (\<lambda>t. t)" if "rest = [] \<or> idx = length rest \<and> pos = col_Position (last rest) + col_positionGap"
  proof -
    have "0 < idx \<Longrightarrow> col_Position (rest ! (idx - 1)) < pos"
      using that idx by (auto simp: last_conv_nth col_positionGap_def)
    then show ?thesis unfolding placed_def
      using sorted_between [OF board_rest_facts(2) [OF d] idx [unfolded rest]] rest that idx by auto
  qed
  consider (e) "rest = []" | (f) "rest \<noteq> []" "idx = 0" | (l) "rest \<noteq> []" "idx \<noteq> 0" "idx = length rest"
    | (m) "rest \<noteq> []" "idx \<noteq> 0" "idx \<noteq> length rest" by blast
  then have "\<exists>g. w_columns w1 = map g (w_columns w) \<and> placed c rest idx pos g"
  proof cases
    case e
    then show ?thesis using body tail_ok by (intro exI [of _ "\<lambda>t. t"]) (simp add: svc_ok)
  next
    case f
    then show ?thesis using body by (intro between_placed [OF _ rest d idx]) (auto simp: hd_conv_nth)
  next
    case l
    then show ?thesis using body tail_ok by (intro exI [of _ "\<lambda>t. t"]) (simp add: svc_ok)
  next
    case m
    then show ?thesis using body by (intro between_placed [OF _ rest d idx]) auto
  qed
  then show ?thesis using slot idx by blast
qed

text \<open>
  C40. A reordered column lands where the request says: at the front, or right after the column it names, with
  the order of all the others unchanged, also when the gap between the neighbours is exhausted and the board
  is renumbered.
\<close>

theorem column_lands_in_place:
  assumes u: "column_update_tx d i p w = (Inr (before, c), w')" and d: "distinct (map col_ID (w_columns w))"
    and pid: "pid = col_ProjectID before" and rest: "rest = filter (\<lambda>x. x \<noteq> i) (board_ids pid w)"
  shows "(case cp_AfterID p of
      OptAbsent \<Rightarrow> True
    | OptNull \<Rightarrow> board_ids pid w' = i # rest
    | OptValue v \<Rightarrow> \<exists>xs ys. rest = xs @ v # ys \<and> board_ids pid w' = xs @ v # i # ys)"
proof (cases "cp_AfterID p = OptAbsent")
  case False
  from u obtain r1 c1 w1 c2 where
    before: "Columns_ByID (dk_faults d) i w = Inr before"
    and cat: "patch_category d p (patch_column_name p before) w = (Inr r1, w)" and wip: "patch_wip p r1 = (c1, [])"
    and ord: "patch_order d p (c1\<lparr> col_AutoStartDelegate := given (cp_AutoStartDelegate p) (col_AutoStartDelegate c1) \<rparr>) w = (Inr c2, w1)"
    and upd: "Columns_Update (dk_faults d) c w1 = (Inr (), w')" and c: "c = c2\<lparr> col_UpdatedAt := dk_now d \<rparr>"
    by (blast elim: column_update_tx_ok)
  let ?c = "c1\<lparr> col_AutoStartDelegate := given (cp_AutoStartDelegate p) (col_AutoStartDelegate c1) \<rparr>"
  have b: "before \<in> set (w_columns w)" "col_ID before = i" using Columns_ByID_mem [OF before] by simp_all
  have cc: "col_ID ?c = i" "col_ProjectID ?c = pid"
    using patched_column(2,3) [OF cat] patch_wip_fields [OF wip] b pid by simp_all
  have r: "reorder d ?c (cp_AfterID p) w = (Inr (col_Position c2), w1)" using patch_order_ok(2) [OF ord] False by blast
  have cid: "col_ID c = i" "col_Position c = col_Position c2" using patch_order_ok(1) [OF ord] cc(1) c
    by (auto dest: arg_cong [where f = col_ID])
  define rs where "rs = board_rest pid i w"
  have ids: "map col_ID rs = rest" by (simp add: rs_def board_rest_def rest board_ids_def filter_map comp_def)
  obtain g idx where slot: "slot_index ?c (cp_AfterID p) rs w = (Inr idx, w)" "idx \<le> length rs"
    and w1: "w_columns w1 = map g (w_columns w)" and g: "placed ?c rs idx (col_Position c2) g"
    using reorder_placed [OF r d] cc by (auto simp: rs_def)
  let ?h = "\<lambda>t. if col_ID t = i then c\<lparr> col_ProjectID := col_ProjectID t, col_CreatedAt := col_CreatedAt (g t) \<rparr> else g t"
  have gi: "col_ID (g t) = col_ID t" "col_ProjectID (g t) = col_ProjectID t" for t using g by (simp_all add: placed_def)
  have w': "w_columns w' = map ?h (w_columns w)"
    using Columns_Update_ok [OF upd] w1 by (simp add: cid gi)
  let ?F = "take idx rs @ before # drop idx rs"
  have mem: "x \<in> set rs \<longleftrightarrow> x \<in> set (w_columns w) \<and> col_ProjectID x = pid \<and> col_ID x \<noteq> i" for x
    using board_rest_facts(3) [OF d] by (simp add: rs_def)
  have setF: "set ?F = insert before (set rs)" by (metis append_take_drop_id set_append list.set(2) Un_insert_right)
  have others: "\<And>t. t \<in> set rs \<Longrightarrow> ?h t = g t" using mem by simp
  have "board_list pid w' = map ?h ?F" unfolding board_list_def w'
  proof (rule order_after [where i = col_ID and T = "w_columns w" and g = ?h and F = ?F and P = "\<lambda>c. col_ProjectID c = pid" and key = board_order])
    show "distinct (map col_ID (w_columns w))" by (rule d)
    show "col_ID (?h t) = col_ID t" for t using cid gi by simp
    have "map col_ID (take idx rs) @ map col_ID (drop idx rs) = map col_ID rs" by (metis append_take_drop_id map_append)
    then have "distinct (map col_ID (take idx rs) @ map col_ID (drop idx rs))" using board_rest_facts(1) [OF d] by (simp add: rs_def)
    then show "distinct (map col_ID ?F)" using b mem by (auto dest: in_set_takeD in_set_dropD)
    show "set ?F \<subseteq> set (w_columns w)" using setF b mem by auto
    show "col_ProjectID (?h t) = pid \<longleftrightarrow> t \<in> set ?F" if "t \<in> set (w_columns w)" for t
    proof -
      have "col_ID t = i \<Longrightarrow> t = before" using that b d by (auto simp: distinct_map inj_on_def)
      then show ?thesis using setF mem that gi pid b by auto
    qed
    have same: "map ?h (take idx rs) = map g (take idx rs)" "map ?h (drop idx rs) = map g (drop idx rs)"
      by (rule map_cong [OF refl], rule others, erule in_set_takeD in_set_dropD)+
    have "board_order (?h before) = (col_Position c2, i)" using b(2) cid by (simp add: board_order_def)
    then show "sorted (map board_order (map ?h ?F))"
      unfolding map_append list.map same using g cc by (simp add: placed_def comp_def)
    show "col_ID x = col_ID y" if "board_order x = board_order y" for x y using that by (simp add: board_order_def)
  qed
  then have new: "board_ids pid w' = take idx rest @ i # drop idx rest"
    using gi cid b(2) by (simp add: board_ids_def ids [symmetric] take_map drop_map comp_def)
  show ?thesis
  proof (cases "cp_AfterID p")
    case OptNull
    then show ?thesis using slot new by (simp add: slot_index_def svc_ok)
  next
    case (OptValue v)
    then obtain k where k: "index_where (\<lambda>x. col_ID x = v) rs = Some k" "idx = Suc k"
      using slot by (auto simp: slot_index_def svc_ok split: if_splits option.splits)
    then have "k < length rest" "rest ! k = v" using index_where_Some [OF k(1)] ids by (auto simp: nth_map)
    then have e: "rest = take k rest @ v # drop (Suc k) rest" "take idx rest = take k rest @ [v]"
      using id_take_nth_drop [of k rest] k(2) by (simp_all add: take_Suc_conv_app_nth)
    then have "board_ids pid w' = take k rest @ v # i # drop (Suc k) rest" using new k(2) by simp
    then have "\<exists>xs ys. rest = xs @ v # ys \<and> board_ids pid w' = xs @ v # i # ys" using e(1) by blast
    then show ?thesis by (simp add: OptValue)
  qed (use False in simp)
qed simp

definition tight_columns :: World where
  "tight_columns = blank_World\<lparr> w_columns :=
     [blank_Column\<lparr> col_ID := ''x'', col_ProjectID := ''p'', col_Position := 1 \<rparr>,
      blank_Column\<lparr> col_ID := ''y'', col_ProjectID := ''p'', col_Position := 2 \<rparr>,
      blank_Column\<lparr> col_ID := ''z'', col_ProjectID := ''p'', col_Position := 3 \<rparr>] \<rparr>"

definition after_x :: ColumnPatch where
  "after_x = \<lparr> cp_Name = None, cp_Category = None, cp_WIPLimit = IntAbsent, cp_AutoStartDelegate = None, cp_AfterID = OptValue ''x'' \<rparr>"

text \<open>Between positions 1 and 2 nothing fits: the board is renumbered.\<close>

lemma column_lands_in_place_witness:
  "\<exists>xs ys. [''x'', ''y''] = xs @ ''x'' # ys \<and>
     board_ids ''p'' (snd (column_update_tx plain_desk ''z'' after_x tight_columns)) = xs @ ''x'' # ''z'' # ys"
proof -
  have ok: "case fst (column_update_tx plain_desk ''z'' after_x tight_columns) of
      Inl _ \<Rightarrow> False | Inr (b, c) \<Rightarrow> ''p'' = col_ProjectID b" by code_simp
  then obtain b c w' where r: "column_update_tx plain_desk ''z'' after_x tight_columns = (Inr (b, c), w')" "''p'' = col_ProjectID b"
    by (cases "column_update_tx plain_desk ''z'' after_x tight_columns") (auto split: sum.splits prod.splits)
  have rest: "[''x'', ''y''] = filter (\<lambda>x. x \<noteq> ''z'') (board_ids ''p'' tight_columns)" by code_simp
  have d: "distinct (map col_ID (w_columns tight_columns))" by code_simp
  have a: "cp_AfterID after_x = OptValue ''x''" by (simp add: after_x_def)
  from column_lands_in_place [OF r(1) d r(2) rest] show ?thesis by (simp add: r(1) a)
qed

end
