(* ===== verification/TriggerService.thy ===== *)
theory TriggerService
  imports Service Validate Timestamps
begin

text \<open>
  The trigger service (\<^verbatim>\<open>internal/service/triggers/service.go\<close>, \<^verbatim>\<open>backtest.go\<close>): the CRUD surface of the
  rules, their health, and the dry run that replays stored events through the first two stages of the
  engine. An update is split where the code leaves its reads and starts to write: nothing locks the row
  in between.
\<close>

section \<open>The read model\<close>

record RuleDesk =
  rd_desk :: Desk
  rd_sources :: "EventSource list"
  rd_action :: "string \<Rightarrow> TriggerAction option"

abbreviation rd_faults :: "RuleDesk \<Rightarrow> faults" where
  "rd_faults rd \<equiv> dk_faults (rd_desk rd)"

record WithHealth =
  wh_Trigger :: Trigger
  wh_Health :: Health
  wh_Recent :: "FiringOutcome list"
  wh_ActionSummaries :: "string list"

definition sparklineN :: int where "sparklineN = 20"

definition describe_ref :: "RuleDesk \<Rightarrow> World \<Rightarrow> actionRef \<Rightarrow> string" where
  "describe_ref rd w r =
     (case rd_action rd (rf_ActionID r) of
        None \<Rightarrow> rf_ActionID r @ '' (not registered)''
      | Some act \<Rightarrow> (case ta_Describe act w (rf_Params r) of Inl _ \<Rightarrow> ta_Label act | Inr desc \<Rightarrow> desc))"

definition describeActions :: "RuleDesk \<Rightarrow> World \<Rightarrow> raw_json \<Rightarrow> string list" where
  "describeActions rd w raw = (case unmarshal_refs raw of None \<Rightarrow> [] | Some refs \<Rightarrow> map (describe_ref rd w) refs)"

definition withHealth :: "RuleDesk \<Rightarrow> Trigger \<Rightarrow> WithHealth svc" where
  "withHealth rd tr =
     andThen (reading (Firings_HealthFor (rd_faults rd) (tr_ID tr) 50)) (\<lambda>h.
     andThen (reading (Firings_ForTrigger (rd_faults rd) (tr_ID tr) sparklineN)) (\<lambda>rows.
     asking (\<lambda>w. \<lparr> wh_Trigger = tr, wh_Health = h, wh_Recent = rev (map tf_Outcome rows),
       wh_ActionSummaries = describeActions rd w (tr_Actions tr) \<rparr>)))"

fun with_each :: "RuleDesk \<Rightarrow> Trigger list \<Rightarrow> WithHealth list svc" where
  "with_each rd [] = ret []"
| "with_each rd (tr # trs) =
     andThen (withHealth rd tr) (\<lambda>wh. andThen (with_each rd trs) (\<lambda>whs. ret (wh # whs)))"

definition TriggerList :: "RuleDesk \<Rightarrow> string \<Rightarrow> WithHealth list svc" where
  "TriggerList rd key =
     andThen (reading (Projects_ByKey (rd_faults rd) key)) (\<lambda>p.
     andThen (reading (Triggers_ForProject (rd_faults rd) (prj_ID p))) (with_each rd))"

definition TriggerGet :: "RuleDesk \<Rightarrow> string \<Rightarrow> WithHealth svc" where
  "TriggerGet rd i = andThen (reading (Triggers_ByID (rd_faults rd) i)) (withHealth rd)"

definition TriggerFirings :: "RuleDesk \<Rightarrow> string \<Rightarrow> int \<Rightarrow> TriggerFiring list svc" where
  "TriggerFirings rd i limit =
     andThen (reading (Triggers_ByID (rd_faults rd) i)) (\<lambda>_.
     reading (Firings_ForTrigger (rd_faults rd) i limit))"

section \<open>The body of a request\<close>

record TriggerInput =
  inp_Name :: "string option"
  inp_Enabled :: "bool option"
  inp_SourceID :: "string option"
  inp_Event :: "string option"
  inp_ActivityTypes :: "string list option"
  inp_Filters :: "triggerFilters option"
  inp_Conditions :: "raw_json option"
  inp_Actions :: "raw_json option"
  inp_LoopConfig :: "raw_json option"
  inp_Cron :: "string option"

text \<open>\<^verbatim>\<open>json.Marshal\<close> of the filters: an empty list is omitted.\<close>

definition enc_list :: "string \<Rightarrow> string list \<Rightarrow> (string \<times> json) list" where
  "enc_list k xs = (if xs = [] then [] else [(k, JArr (map JStr xs))])"

definition enc_filters :: "triggerFilters \<Rightarrow> json" where
  "enc_filters f = JObj (enc_list ''branches'' (fl_Branches f) @ enc_list ''paths'' (fl_Paths f) @
     enc_list ''labels'' (fl_Labels f))"

definition applyInput :: "TriggerInput \<Rightarrow> Trigger \<Rightarrow> Trigger" where
  "applyInput inp tr = tr\<lparr>
     tr_Name := given (map_option trim_space (inp_Name inp)) (tr_Name tr),
     tr_Enabled := given (inp_Enabled inp) (tr_Enabled tr),
     tr_SourceID := given (inp_SourceID inp) (tr_SourceID tr),
     tr_Event := given (inp_Event inp) (tr_Event tr),
     tr_ActivityTypes := given (map_option (\<lambda>xs. Raw (JArr (map JStr xs))) (inp_ActivityTypes inp)) (tr_ActivityTypes tr),
     tr_Filters := given (map_option (\<lambda>fl. Raw (enc_filters fl)) (inp_Filters inp)) (tr_Filters tr),
     tr_Conditions := given (inp_Conditions inp) (tr_Conditions tr),
     tr_Actions := given (inp_Actions inp) (tr_Actions tr),
     tr_LoopConfig := given (inp_LoopConfig inp) (tr_LoopConfig tr),
     tr_Cron := given (map_option (\<lambda>c. if c = [] then None else Some (trim_space c)) (inp_Cron inp)) (tr_Cron tr) \<rparr>"

definition validated :: "RuleDesk \<Rightarrow> Trigger \<Rightarrow> unit svc" where
  "validated rd tr = andThen (asking (\<lambda>w. validate (rd_sources rd) (rd_action rd) w tr)) (\<lambda>es.
     ensure (es = []) (SeFields es) (ret ()))"

section \<open>Audit and events\<close>

text \<open>The raw columns go inline; one that is not JSON makes the whole snapshot \<^verbatim>\<open>{}\<close>.\<close>

definition raw_text :: "Desk \<Rightarrow> raw_json \<Rightarrow> string option" where
  "raw_text d raw = (case raw of RawEmpty \<Rightarrow> Some ''null'' | RawBad \<Rightarrow> None | Raw j \<Rightarrow> Some (marshal (dk_num d) j))"

definition trigger_snapshot :: "Desk \<Rightarrow> Trigger \<Rightarrow> (string \<times> string) list" where
  "trigger_snapshot d tr =
     (case (raw_text d (tr_ActivityTypes tr), raw_text d (tr_Filters tr), raw_text d (tr_Conditions tr),
            raw_text d (tr_Actions tr), raw_text d (tr_LoopConfig tr)) of
        (Some acts, Some fs, Some cs, Some as, Some lc) \<Rightarrow>
          [(''actions'', as), (''activity_types'', acts), (''conditions'', cs),
           (''cron'', case tr_Cron tr of None \<Rightarrow> ''null'' | Some c \<Rightarrow> c),
           (''enabled'', if tr_Enabled tr then ''true'' else ''false''), (''event'', tr_Event tr), (''filters'', fs),
           (''id'', tr_ID tr), (''loop_config'', lc), (''name'', tr_Name tr), (''project_id'', tr_ProjectID tr),
           (''source_id'', tr_SourceID tr)]
      | _ \<Rightarrow> [])"

text \<open>The engine ignores events of this kind.\<close>

definition trigger_event :: "Desk \<Rightarrow> string \<Rightarrow> Trigger \<Rightarrow> Event" where
  "trigger_event d activity tr = blank_Event\<lparr>
     ev_ProjectID := Some (tr_ProjectID tr), ev_Kind := ''trigger'', ev_ActivityType := activity,
     ev_ActorKind := ActorSystem, ev_SubjectKind := ''trigger'', ev_SubjectID := Some (tr_ID tr),
     ev_Payload := Raw (JObj [(''trigger'', JObj [(''enabled'', JBool (tr_Enabled tr)), (''id'', JStr (tr_ID tr)),
       (''name'', JStr (tr_Name tr))])]),
     ev_OccurredAt := dk_now d \<rparr>"

definition emitTrigger :: "Desk \<Rightarrow> string \<Rightarrow> Trigger \<Rightarrow> unit svc" where
  "emitTrigger d activity tr = doing (emit_frame (EventFrame (trigger_event d activity tr)))"

section \<open>The mutations\<close>

definition new_trigger :: "Desk \<Rightarrow> Project \<Rightarrow> string \<Rightarrow> World \<Rightarrow> Trigger" where
  "new_trigger d p user w = \<lparr>
     tr_ID = dk_newid d ''trigger'' 0 w, tr_ProjectID = prj_ID p, tr_Name = '''', tr_Enabled = True,
     tr_SourceID = ''github.poll'', tr_Event = '''', tr_ActivityTypes = Raw (JArr []), tr_Filters = Raw (JObj []),
     tr_Conditions = Raw (JObj [(''all'', JArr [])]), tr_Actions = Raw (JArr []), tr_LoopConfig = DefaultLoopConfig,
     tr_Cron = None, tr_CreatedBy = (if user = [] then None else Some user), tr_CreatedAt = dk_now d,
     tr_UpdatedAt = dk_now d \<rparr>"

definition TriggerCreate :: "RuleDesk \<Rightarrow> string \<Rightarrow> TriggerInput \<Rightarrow> string \<Rightarrow> Trigger svc" where
  "TriggerCreate rd key inp user =
     (let d = rd_desk rd in
      andThen (reading (Projects_ByKey (dk_faults d) key)) (\<lambda>p.
      andThen (asking (\<lambda>w. applyInput inp (new_trigger d p user w))) (\<lambda>tr.
      andThen (validated rd tr) (\<lambda>_.
      andThen (writing (Triggers_Create (dk_faults d) tr)) (\<lambda>_.
      andThen (svc_audit d ''trigger.create'' ''trigger'' (tr_ID tr) (prj_ID p) '''' [] (trigger_snapshot d tr)) (\<lambda>_.
      andThen (emitTrigger d ''created'' tr) (\<lambda>_. ret tr)))))))"

definition Update_read :: "RuleDesk \<Rightarrow> string \<Rightarrow> TriggerInput \<Rightarrow> (Trigger \<times> Trigger) svc" where
  "Update_read rd i inp =
     andThen (reading (Triggers_ByID (rd_faults rd) i)) (\<lambda>before.
     andThen (validated rd (applyInput inp before)) (\<lambda>_.
     ret (before, (applyInput inp before)\<lparr> tr_UpdatedAt := dk_now (rd_desk rd) \<rparr>)))"

definition Update_write :: "RuleDesk \<Rightarrow> Trigger \<times> Trigger \<Rightarrow> Trigger svc" where
  "Update_write rd r =
     (case r of (before, tr) \<Rightarrow>
        (let d = rd_desk rd in
         andThen (writing (Triggers_Update (dk_faults d) tr)) (\<lambda>_.
         andThen (svc_audit d ''trigger.update'' ''trigger'' (tr_ID tr) (tr_ProjectID tr) ''''
           (trigger_snapshot d before) (trigger_snapshot d tr)) (\<lambda>_.
         andThen (emitTrigger d ''updated'' tr) (\<lambda>_. ret tr)))))"

definition TriggerUpdate :: "RuleDesk \<Rightarrow> string \<Rightarrow> TriggerInput \<Rightarrow> Trigger svc" where
  "TriggerUpdate rd i inp = andThen (Update_read rd i inp) (Update_write rd)"

text \<open>A foreign key error of the transaction, and nothing else, becomes the refusal that names the rule.\<close>

definition in_use :: "string \<Rightarrow> unit svc \<Rightarrow> unit svc" where
  "in_use name m w =
     (case m w of (Inl (SeStore ErrForeignKey), w') \<Rightarrow> (Inl (SeInUse name), w') | r \<Rightarrow> r)"

definition TriggerDelete :: "RuleDesk \<Rightarrow> string \<Rightarrow> unit svc" where
  "TriggerDelete rd i =
     (let d = rd_desk rd in
      andThen (reading (Triggers_ByID (dk_faults d) i)) (\<lambda>tr.
      andThen (in_use (tr_Name tr) (transact (dk_faults d) (writing (Triggers_Delete (dk_faults d) i)))) (\<lambda>_.
      andThen (svc_audit d ''trigger.delete'' ''trigger'' (tr_ID tr) (tr_ProjectID tr) '''' (trigger_snapshot d tr) []) (\<lambda>_.
      emitTrigger d ''deleted'' tr))))"

section \<open>The dry run\<close>

definition backtestMinDays :: int where "backtestMinDays = 1"

definition backtestMaxDays :: int where "backtestMaxDays = 30"

definition backtestEventCap :: nat where "backtestEventCap = 100"

record BacktestResult =
  bt_Days :: int
  bt_Scanned :: int
  bt_Matched :: int
  bt_Truncated :: bool
  bt_Events :: "Event list"
  bt_WouldDo :: "string list"
  bt_NoHistory :: bool

definition clamp_days :: "int \<Rightarrow> int" where
  "clamp_days n = (let n1 = (if n < backtestMinDays then backtestMinDays else n)
     in if backtestMaxDays < n1 then backtestMaxDays else n1)"

definition passes :: "Trigger \<Rightarrow> Event \<Rightarrow> bool" where
  "passes tr e \<longleftrightarrow> (let p = parsePayload (ev_Payload e) in matchStage tr e p \<and> evalConditions (tr_Conditions tr) p)"

fun replay :: "Trigger \<Rightarrow> Event list \<Rightarrow> int \<times> Event list \<Rightarrow> int \<times> Event list" where
  "replay tr [] acc = acc"
| "replay tr (e # es) (n, hits) =
     (if passes tr e then replay tr es (n + 1, if length hits < backtestEventCap then hits @ [e] else hits)
      else replay tr es (n, hits))"

text \<open>The instant \<^verbatim>\<open>days\<close> before a parsed stamp; the clock of the model is in nanoseconds.\<close>

definition window_start :: "int \<Rightarrow> int \<Rightarrow> string" where
  "window_start now_ms days = FormatTime ((now_ms - days * ms_per_day) * 1000000)"

definition Backtest :: "RuleDesk \<Rightarrow> string \<Rightarrow> int \<Rightarrow> TriggerInput option \<Rightarrow> BacktestResult svc" where
  "Backtest rd i days0 draft =
     (let f = rd_faults rd; days = clamp_days days0 in
      andThen (reading (Triggers_ByID f i)) (\<lambda>stored.
      andThen (case draft of None \<Rightarrow> ret stored
         | Some inp \<Rightarrow> andThen (validated rd (applyInput inp stored)) (\<lambda>_. ret (applyInput inp stored))) (\<lambda>tr.
      case parse_stamp (dk_now (rd_desk rd)) of
        None \<Rightarrow> fail (SeTime (dk_now (rd_desk rd)))
      | Some now \<Rightarrow>
          andThen (reading (Events_SinceForProject f (tr_ProjectID tr) (window_start now days))) (\<lambda>events.
          andThen (asking (\<lambda>w. describeActions rd w (tr_Actions tr))) (\<lambda>would.
          case replay tr events (0, []) of
            (matched, hits) \<Rightarrow>
              andThen (if matched = 0 then reading (Events_HasExternalForProject f (tr_ProjectID tr)) else ret True) (\<lambda>has.
              ret \<lparr> bt_Days = days, bt_Scanned = int (length events), bt_Matched = matched,
                bt_Truncated = (int (length hits) < matched), bt_Events = hits, bt_WouldDo = would,
                bt_NoHistory = (\<not> has) \<rparr>))))))"

end
