(* ===== verification/TriggerSafety.thy ===== *)
theory TriggerSafety
  imports TriggerService TicketNest
begin

text \<open>
  What the trigger service guarantees: a dry run counts exactly the events for which the engine would ask
  its loop guard; every stored rule has passed the save-time checks, however requests overlap; and what
  overlapping requests do lose, because an update is a read and a later write of the whole row.
\<close>

section \<open>The dry run and the engine\<close>

lemma replay_spec:
  "length hits \<le> backtestEventCap \<Longrightarrow>
   replay tr es (n, hits) = (n + int (length (filter (passes tr) es)), take backtestEventCap (hits @ filter (passes tr) es))"
  by (induction es arbitrary: n hits) (auto simp: take_Cons')

text \<open>
  The engine asks its guard about an event when what it does depends on the guard: some guard in the place
  of the one it has would make a difference.
\<close>

definition guard_asked :: "Engine \<Rightarrow> Trigger \<Rightarrow> Event \<Rightarrow> Sys \<Rightarrow> bool" where
  "guard_asked eng tr e s \<longleftrightarrow>
     (\<exists>g. fire (eng\<lparr> en_guard := g \<rparr>) tr e (parsePayload (ev_Payload e)) s \<noteq> fire eng tr e (parsePayload (ev_Payload e)) s)"

definition silent_guard :: "(World \<Rightarrow> World) \<Rightarrow> GuardInput \<Rightarrow> World \<Rightarrow> Verdict \<times> World" where
  "silent_guard mark i w = (\<lparr> v_Proceed = False, v_Outcome = None, v_Reason = '''', v_AbsorbedByRunID = None,
     v_RunID = None, v_Pass = no_pass \<rparr>, mark w)"

lemma fire_silent:
  assumes "passes tr e" and "Firings_Exists (en_faults eng) (tr_ID tr) (ev_ID e) (snd s) = Inr False"
  shows "fire (eng\<lparr> en_guard := silent_guard mark \<rparr>) tr e (parsePayload (ev_Payload e)) s = (fst s, mark (snd s))"
  using assms by (simp add: fire_def passes_def Let_def silent_guard_def writeFiring_def verdict_outcome_def)

lemma writeFiring_guard: "writeFiring (eng\<lparr> en_guard := g \<rparr>) tr e res ws w = writeFiring eng tr e res ws w"
  by (simp add: writeFiring_def Let_def split: option.split prod.split sum.split bool.split)

lemma fire_unasked:
  assumes "\<not> passes tr e" and "Firings_Exists (en_faults eng) (tr_ID tr) (ev_ID e) (snd s) = Inr False"
  shows "fire (eng\<lparr> en_guard := g \<rparr>) tr e (parsePayload (ev_Payload e)) s = fire eng tr e (parsePayload (ev_Payload e)) s"
  using assms by (auto simp: fire_def passes_def Let_def writeFiring_guard)

lemma guard_asked_iff:
  assumes "Firings_Exists (en_faults eng) (tr_ID tr) (ev_ID e) (snd s) = Inr False"
  shows "guard_asked eng tr e s \<longleftrightarrow> passes tr e"
proof (cases "passes tr e")
  case True
  have "w_frames (emit_frame (EventFrame e) (snd s)) \<noteq> w_frames (snd s)" by (simp add: emit_frame_def)
  then have "(fst s, snd s) \<noteq> (fst s, emit_frame (EventFrame e) (snd s))" by (metis snd_conv)
  then show ?thesis
    using fire_silent [OF True assms, of "\<lambda>w. w"] fire_silent [OF True assms, of "emit_frame (EventFrame e)"]
    True unfolding guard_asked_def by metis
next
  case False
  then show ?thesis using fire_unasked [OF _ assms] by (simp add: guard_asked_def)
qed

text \<open>
  C37. A dry run of a stored rule is the engine's own view: of the events of the window it reports as
  matching exactly those for which the engine, processing the rule against them for the first time, would
  ask its loop guard, newest first and at most a hundred, with the count of them all; and it writes nothing.
\<close>

theorem backtest_agrees_with_engine:
  assumes "Backtest rd i days None w = (Inr res, w')"
    and "Triggers_ByID (rd_faults rd) i w = Inr tr" and "parse_stamp (dk_now (rd_desk rd)) = Some now"
    and "Events_SinceForProject (rd_faults rd) (tr_ProjectID tr) (window_start now (clamp_days days)) w = Inr evs"
    and fresh: "\<And>e. e \<in> set evs \<Longrightarrow> Firings_Exists (en_faults eng) (tr_ID tr) (ev_ID e) (snd s) = Inr False"
  shows "bt_Matched res = int (length (filter (\<lambda>e. guard_asked eng tr e s) evs)) \<and>
    bt_Events res = take 100 (filter (\<lambda>e. guard_asked eng tr e s) evs) \<and>
    (bt_Truncated res \<longleftrightarrow> 100 < bt_Matched res) \<and> bt_Scanned res = int (length evs) \<and>
    1 \<le> bt_Days res \<and> bt_Days res \<le> 30 \<and> w' = w"
proof -
  have "filter (\<lambda>e. guard_asked eng tr e s) evs = filter (passes tr) evs"
    using guard_asked_iff [OF fresh] by (auto intro: filter_cong)
  moreover have "1 \<le> clamp_days days" "clamp_days days \<le> 30"
    by (simp_all add: clamp_days_def Let_def backtestMinDays_def backtestMaxDays_def)
  ultimately show ?thesis
    using assms(1-4) replay_spec [of "[]" tr evs 0]
    by (auto simp: Backtest_def Let_def svc_ok backtestEventCap_def split: if_splits)
qed

section \<open>Overlapping requests\<close>

text \<open>
  The state is the world and the updates that have read their row and not yet written it. A request runs at
  once, except that an update may start, and another request run, before it finishes.
\<close>

datatype rule_request =
    RuleCreate string TriggerInput string
  | RuleStart string TriggerInput
  | RuleFinish nat
  | RuleDelete string

type_synonym rule_state = "World \<times> (Trigger \<times> Trigger) list"

fun rule_do :: "RuleDesk \<times> rule_request \<Rightarrow> rule_state \<Rightarrow> rule_state" where
  "rule_do (rd, RuleCreate key inp user) (w, ps) = (snd (TriggerCreate rd key inp user w), ps)"
| "rule_do (rd, RuleStart i inp) (w, ps) =
     (case Update_read rd i inp w of (Inr r, w') \<Rightarrow> (w', ps @ [r]) | (Inl _, w') \<Rightarrow> (w', ps))"
| "rule_do (rd, RuleFinish n) (w, ps) =
     (if n < length ps then (snd (Update_write rd (ps ! n) w), take n ps @ drop (Suc n) ps) else (w, ps))"
| "rule_do (rd, RuleDelete i) (w, ps) = (snd (TriggerDelete rd i w), ps)"

definition checked_rule :: "Trigger \<Rightarrow> bool" where
  "checked_rule tr \<longleftrightarrow> tr_Name tr \<noteq> '''' \<and> length (tr_Name tr) \<le> 120 \<and>
     validateConditions (tr_Conditions tr) [] = [] \<and> (tr_Cron tr \<noteq> None \<longrightarrow> tr_Event tr = ''schedule'')"

lemma checked_stored: "checked_rule tr \<Longrightarrow> checked_rule (stored_trigger tr)"
proof -
  assume c: "checked_rule tr"
  then have "tr_Conditions tr \<noteq> RawEmpty" by (auto simp: checked_rule_def validateConditions_def split: if_splits)
  then have "rawText (tr_Conditions tr) x = tr_Conditions tr" for x by (cases "tr_Conditions tr") simp_all
  with c show ?thesis by (simp add: checked_rule_def stored_trigger_def)
qed

lemma validate_checked: "validate sources acts w tr = [] \<Longrightarrow> checked_rule tr"
proof -
  assume v: "validate sources acts w tr = []"
  obtain es where "validateConditions (tr_Conditions tr) es = []" using accepted(3) [OF v] by blast
  moreover from this have "es = []" by (rule validateConditions_only)
  ultimately show ?thesis using accepted [OF v] by (simp add: checked_rule_def)
qed

lemma validated_checked: "validated rd tr w = (Inr u, w') \<Longrightarrow> checked_rule tr \<and> w' = w"
  by (auto simp: validated_def svc_ok dest: validate_checked)

definition rules_checked :: "World \<Rightarrow> bool" where
  "rules_checked w \<longleftrightarrow> list_all checked_rule (w_triggers w)"

lemma keeps_rules_rest [keep]:
  "keeps rules_checked (svc_audit d a k i p n b c)" "keeps rules_checked (emitTrigger d x y)"
  unfolding svc_audit_def emitTrigger_def
  by (rule keeps_writing keeps_doing, simp add: rules_checked_def)+

lemma keeps_Triggers_Create: "checked_rule tr \<Longrightarrow> keeps rules_checked (writing (Triggers_Create f tr))"
  by (rule keeps_writing) (auto simp: Triggers_Create_def exec_def rules_checked_def checked_stored split: option.splits)

lemma keeps_Triggers_Update: "checked_rule tr \<Longrightarrow> keeps rules_checked (writing (Triggers_Update f tr))"
proof (rule keeps_writing)
  fix w
  assume c: "checked_rule tr" and w: "rules_checked w"
  have "checked_rule ((stored_trigger tr)\<lparr> tr_ProjectID := a, tr_CreatedBy := b, tr_CreatedAt := e \<rparr>)" for a b e
    using checked_stored [OF c] by (simp add: checked_rule_def)
  then show "rules_checked (snd (Triggers_Update f tr w))"
    using w by (auto simp: Triggers_Update_def exec_one_def rules_checked_def list_all_iff update_where_def split: option.splits)
qed

lemma keeps_validated:
  assumes "checked_rule tr \<Longrightarrow> keeps P (k ())" shows "keeps P (andThen (validated rd tr) k)"
proof -
  have "P (snd (andThen (validated rd tr) k w))" if "P w" for w
  proof (cases "validated rd tr w")
    case (Pair r v)
    have "v = w" using Pair by (auto simp: validated_def andThen_def asking_def ensure_def ret_def fail_def split: if_splits)
    then show ?thesis using Pair assms that validated_checked [of rd tr w] by (cases r) (auto simp: andThen_def keeps_def)
  qed
  then show ?thesis by (simp add: keeps_def)
qed

lemma keeps_TriggerCreate: "keeps rules_checked (TriggerCreate rd key inp user)"
  unfolding TriggerCreate_def Let_def by (intro keep keeps_validated keeps_Triggers_Create)

lemma keeps_Triggers_Delete: "keeps rules_checked (writing (Triggers_Delete f i))"
  by (rule keeps_writing)
    (auto simp: Triggers_Delete_def exec_def exec_one_def rules_checked_def list_all_iff split: option.splits)

lemma keeps_in_use: "keeps P m \<Longrightarrow> keeps P (in_use name m)"
  unfolding keeps_def in_use_def
  by (auto split: prod.splits sum.splits svc_err.splits store_err.splits)

lemma keeps_TriggerDelete: "keeps rules_checked (TriggerDelete rd i)"
  unfolding TriggerDelete_def Let_def by (intro keep keeps_in_use keeps_Triggers_Delete)

lemma keeps_Update_write: "checked_rule (snd r) \<Longrightarrow> keeps rules_checked (Update_write rd r)"
  unfolding Update_write_def Let_def by (cases r) (auto intro!: keep keeps_Triggers_Update)

lemma Update_read_ok:
  "Update_read rd i inp w = (Inr r, w') \<Longrightarrow> w' = w \<and> checked_rule (snd r) \<and>
     Triggers_ByID (rd_faults rd) i w = Inr (fst r) \<and>
     snd r = (applyInput inp (fst r))\<lparr> tr_UpdatedAt := dk_now (rd_desk rd) \<rparr>"
  by (auto simp: Update_read_def svc_ok checked_rule_def dest!: validated_checked)

lemma Update_read_fail: "Update_read rd i inp w = (Inl e, w') \<Longrightarrow> w' = w"
  by (auto simp: Update_read_def andThen_def reading_def validated_def asking_def ensure_def ret_def fail_def
      split: sum.splits if_splits)

definition rule_inv :: "rule_state \<Rightarrow> bool" where
  "rule_inv s \<longleftrightarrow> rules_checked (fst s) \<and> (\<forall>r \<in> set (snd s). checked_rule (snd r))"

lemma rule_do_inv: "rule_inv s \<Longrightarrow> rule_inv (rule_do r s)"
proof (cases "(r, s)" rule: rule_do.cases)
  case (2 rd i inp w ps)
  assume "rule_inv s"
  then show ?thesis using 2 Update_read_ok [of rd i inp w] Update_read_fail [of rd i inp w]
    by (auto simp: rule_inv_def split: prod.splits sum.splits)
next
  case (3 rd n w ps)
  assume inv: "rule_inv s"
  then have "n < length ps \<Longrightarrow> rules_checked (snd (Update_write rd (ps ! n) w))"
    using 3 keeps_Update_write [of "ps ! n" rd] by (auto simp: rule_inv_def keeps_def)
  then show ?thesis using 3 inv by (auto simp: rule_inv_def dest: in_set_takeD in_set_dropD)
qed (use keeps_TriggerCreate keeps_TriggerDelete in \<open>auto simp: rule_inv_def keeps_def\<close>)


section \<open>The lost update\<close>

interpretation triggers_table: keyed_table tr_ID .

lemma rule_row_written:
  assumes "Triggers_Update f tr w = (Inr u, w')"
  shows "\<exists>x. find_row tr_ID (tr_ID tr) (w_triggers w') = Some x \<and> tr_Enabled x = tr_Enabled tr"
proof -
  let ?g = "\<lambda>t. (stored_trigger tr)\<lparr> tr_ProjectID := tr_ProjectID t, tr_CreatedBy := tr_CreatedBy t,
    tr_CreatedAt := tr_CreatedAt t \<rparr>"
  have n: "rows_affected (\<lambda>t. tr_ID t = tr_ID tr) (w_triggers w) \<noteq> 0"
    and w': "w_triggers w' = update_where (\<lambda>t. tr_ID t = tr_ID tr) ?g (w_triggers w)"
    using assms by (auto simp: Triggers_Update_def exec_one_def split: option.splits if_splits)
  have "\<exists>x. find_row tr_ID (tr_ID tr) (update_where (\<lambda>t. tr_ID t = tr_ID tr) ?g ts) = Some x \<and> tr_Enabled x = tr_Enabled tr"
    if "rows_affected (\<lambda>t. tr_ID t = tr_ID tr) ts \<noteq> 0" for ts
    using that by (induction ts) (auto simp: find_row_Cons update_where_Cons stored_trigger_def split: if_splits)
  then show ?thesis using n w' by simp
qed

lemma Update_write_ok:
  assumes "Update_write rd r w = (Inr t, w')"
  shows "\<exists>x. find_row tr_ID (tr_ID (snd r)) (w_triggers w') = Some x \<and> tr_Enabled x = tr_Enabled (snd r)"
proof -
  obtain b tr where r: "r = (b, tr)" by (cases r)
  obtain u v v1 u1 where upd: "Triggers_Update (rd_faults rd) tr w = (Inr u, v)"
    and aud: "svc_audit (rd_desk rd) ''trigger.update'' ''trigger'' (tr_ID tr) (tr_ProjectID tr) ''''
       (trigger_snapshot (rd_desk rd) b) (trigger_snapshot (rd_desk rd) tr) v = (Inr u1, v1)"
    and w': "w' = emit_frame (EventFrame (trigger_event (rd_desk rd) ''updated'' tr)) v1"
    using assms by (auto simp: r Update_write_def Let_def svc_ok emitTrigger_def)
  have "w_triggers v1 = w_triggers v"
    using aud audit_write_tables(6) unfolding svc_audit_def writing_ok by (metis snd_conv)
  then show ?thesis using rule_row_written [OF upd] by (simp add: w' r)
qed

text \<open>
  C39. An edit that overlaps the disabling of a rule undoes it: an update that has read its row writes the
  whole row, so when another request disables the rule in between and is acknowledged, a rename (or any
  edit that says nothing about \<^verbatim>\<open>enabled\<close>) leaves the rule enabled in the store.
\<close>

theorem overlapping_edit_reenables:
  assumes "Update_read rd i edit w = (Inr r, w)" and "tr_Enabled (fst r)" and "inp_Enabled edit = None"
    and "TriggerUpdate rd i off w = (Inr t, w1)" and "inp_Enabled off = Some False"
    and "Update_write rd r w1 = (Inr t', w2)"
  shows "(\<exists>x. find_row tr_ID i (w_triggers w1) = Some x \<and> \<not> tr_Enabled x) \<and>
    (\<exists>x. find_row tr_ID i (w_triggers w2) = Some x \<and> tr_Enabled x)"
proof -
  obtain r1 where r1: "Update_read rd i off w = (Inr r1, w)" and wr: "Update_write rd r1 w = (Inr t, w1)"
    using assms(4) Update_read_ok by (fastforce simp: TriggerUpdate_def svc_ok)
  have id: "tr_ID (fst x) = i" if "Update_read rd i inp w = (Inr x, w)" for inp x
    using Update_read_ok [OF that] by (auto simp: Triggers_ByID_def query_row_Inr dest: find_row_Some)
  show ?thesis
    using Update_write_ok [OF wr] Update_write_ok [OF assms(6)] Update_read_ok [OF r1] Update_read_ok [OF assms(1)]
      id [OF r1] id [OF assms(1)] assms(2,3,5)
    by (simp add: applyInput_def given_def)
qed

section \<open>A sample\<close>

definition rule_desk :: RuleDesk where
  "rule_desk = \<lparr> rd_desk = plain_desk\<lparr> dk_now := ''2026-01-08T00:00:00.000Z'' \<rparr>,
     rd_sources = [\<lparr> es_ID = ''github.poll'', es_Catalog = [\<lparr> ed_Kind = ''push'', ed_ActivityTypes = [], ed_Filters = [],
       ed_SubjectKey = '''' \<rparr>], es_Vet = None \<rparr>], rd_action = (\<lambda>_. None) \<rparr>"

definition rule_row :: Trigger where
  "rule_row = blank_Trigger\<lparr> tr_ID := ''R'', tr_ProjectID := ''P'', tr_Name := ''fix'', tr_Enabled := True,
     tr_SourceID := ''github.poll'', tr_Event := ''push'', tr_ActivityTypes := Raw (JArr []), tr_Filters := Raw (JObj []),
     tr_Conditions := Raw (JObj [(''all'', JArr [])]), tr_Actions := Raw (JArr []), tr_LoopConfig := DefaultLoopConfig \<rparr>"

definition push_event :: Event where
  "push_event = blank_Event\<lparr> ev_ID := ''e1'', ev_ProjectID := Some ''P'', ev_Kind := ''push'', ev_Payload := Raw (JObj []),
     ev_OccurredAt := ''2026-01-05T00:00:00.000Z'' \<rparr>"

definition rule_table :: World where
  "rule_table = blank_World\<lparr> w_triggers := [rule_row],
     w_events := [push_event, push_event\<lparr> ev_ID := ''e2'', ev_Kind := ''comment'' \<rparr>,
       push_event\<lparr> ev_ID := ''e0'', ev_OccurredAt := ''2025-12-31T23:59:59.999Z'' \<rparr>] \<rparr>"

definition no_edit :: TriggerInput where
  "no_edit = \<lparr> inp_Name = None, inp_Enabled = None, inp_SourceID = None, inp_Event = None, inp_ActivityTypes = None,
     inp_Filters = None, inp_Conditions = None, inp_Actions = None, inp_LoopConfig = None, inp_Cron = None \<rparr>"

lemma sample_window:
  "parse_stamp (dk_now (rd_desk rule_desk)) = Some 1767830400000"
  "window_start 1767830400000 (clamp_days 7) = ''2026-01-01T00:00:00.000Z''"
  by code_simp+

lemma sample_read: "Triggers_ByID (rd_faults rule_desk) ''R'' rule_table = Inr rule_row"
  by code_simp

lemma sample_events: "Events_SinceForProject (rd_faults rule_desk) (tr_ProjectID rule_row) ''2026-01-01T00:00:00.000Z'' rule_table =
    Inr [push_event\<lparr> ev_ID := ''e2'', ev_Kind := ''comment'' \<rparr>, push_event]"
  by code_simp

lemma sample_replay: "replay rule_row [push_event\<lparr> ev_ID := ''e2'', ev_Kind := ''comment'' \<rparr>, push_event] (0, []) = (1, [push_event])"
  by code_simp

lemma sample_backtest: "\<exists>res. Backtest rule_desk ''R'' 7 None rule_table = (Inr res, rule_table)"
  by (simp add: Backtest_def Let_def andThen_def reading_def sample_read ret_def sample_window sample_events asking_def
    sample_replay del: replay.simps)

lemma backtest_agrees_with_engine_witness:
  "\<exists>res. Backtest rule_desk ''R'' 7 None rule_table = (Inr res, rule_table) \<and>
     bt_Events res = take 100 (filter (\<lambda>e. guard_asked demo_engine rule_row e (\<lambda>_. None, rule_table))
       [push_event\<lparr> ev_ID := ''e2'', ev_Kind := ''comment'' \<rparr>, push_event])"
proof -
  obtain res where "Backtest rule_desk ''R'' 7 None rule_table = (Inr res, rule_table)" using sample_backtest by blast
  moreover from backtest_agrees_with_engine [OF this sample_read sample_window(1), of _ demo_engine "(\<lambda>_. None, rule_table)"]
  have "bt_Events res = take 100 (filter (\<lambda>e. guard_asked demo_engine rule_row e (\<lambda>_. None, rule_table))
       [push_event\<lparr> ev_ID := ''e2'', ev_Kind := ''comment'' \<rparr>, push_event])"
    using sample_events by (simp add: sample_window Firings_Exists_def query_def demo_engine_def fired_def rule_table_def blank_World_def)
  ultimately show ?thesis by blast
qed

lemma sample_validated: "fst (validated rule_desk rule_row rule_table) = Inr ()"
  by code_simp


lemma sample_edit: "Update_read rule_desk ''R'' (no_edit\<lparr> inp_Name := Some ''b'' \<rparr>) rule_table =
    (Inr (rule_row, rule_row\<lparr> tr_Name := ''b'', tr_UpdatedAt := ''2026-01-08T00:00:00.000Z'' \<rparr>), rule_table)"
  and sample_off: "Update_read rule_desk ''R'' (no_edit\<lparr> inp_Enabled := Some False \<rparr>) rule_table =
    (Inr (rule_row, rule_row\<lparr> tr_Enabled := False, tr_UpdatedAt := ''2026-01-08T00:00:00.000Z'' \<rparr>), rule_table)"
  by code_simp+

lemma Update_write_runs:
  assumes "dk_faults (rd_desk rd) = (\<lambda>_ _. None)" and "\<exists>t \<in> set (w_triggers w). tr_ID t = tr_ID tr"
  shows "\<exists>w'. Update_write rd (b, tr) w = (Inr tr, w') \<and> map tr_ID (w_triggers w') = map tr_ID (w_triggers w)"
proof -
  have "rows_affected (\<lambda>t. tr_ID t = tr_ID tr) (w_triggers w) \<noteq> 0" using assms(2) by (auto simp: rows_affected_zero)
  then show ?thesis
    by (simp add: Update_write_def Let_def andThen_def writing_def Triggers_Update_def exec_one_def exec_def assms(1) svc_audit_def
      audit_write_def emitTrigger_def doing_def ret_def emit_frame_def update_where_def stored_trigger_def)
qed

lemma overlapping_edit_reenables_witness:
  "\<exists>t w1 t' w2. TriggerUpdate rule_desk ''R'' (no_edit\<lparr> inp_Enabled := Some False \<rparr>) rule_table = (Inr t, w1) \<and>
     Update_write rule_desk (rule_row, rule_row\<lparr> tr_Name := ''b'', tr_UpdatedAt := ''2026-01-08T00:00:00.000Z'' \<rparr>) w1 = (Inr t', w2) \<and>
     (\<exists>x. find_row tr_ID ''R'' (w_triggers w1) = Some x \<and> \<not> tr_Enabled x) \<and>
     (\<exists>x. find_row tr_ID ''R'' (w_triggers w2) = Some x \<and> tr_Enabled x)"
proof -
  have row: "tr_ID rule_row = ''R''" "w_triggers rule_table = [rule_row]" by (simp_all add: rule_table_def rule_row_def)
  have f: "dk_faults (rd_desk rule_desk) = (\<lambda>_ _. None)" by (simp add: rule_desk_def plain_desk_def)
  obtain w1 where w1: "Update_write rule_desk (rule_row, rule_row\<lparr> tr_Enabled := False, tr_UpdatedAt := ''2026-01-08T00:00:00.000Z'' \<rparr>)
      rule_table = (Inr (rule_row\<lparr> tr_Enabled := False, tr_UpdatedAt := ''2026-01-08T00:00:00.000Z'' \<rparr>), w1)"
    "map tr_ID (w_triggers w1) = [''R'']"
    using Update_write_runs [OF f, of rule_table "rule_row\<lparr> tr_Enabled := False, tr_UpdatedAt := ''2026-01-08T00:00:00.000Z'' \<rparr>" rule_row]
    by (auto simp: row)
  then have off: "TriggerUpdate rule_desk ''R'' (no_edit\<lparr> inp_Enabled := Some False \<rparr>) rule_table =
      (Inr (rule_row\<lparr> tr_Enabled := False, tr_UpdatedAt := ''2026-01-08T00:00:00.000Z'' \<rparr>), w1)"
    by (simp add: TriggerUpdate_def andThen_def sample_off)
  obtain t' w2 where w2: "Update_write rule_desk
      (rule_row, rule_row\<lparr> tr_Name := ''b'', tr_UpdatedAt := ''2026-01-08T00:00:00.000Z'' \<rparr>) w1 = (Inr t', w2)"
    using Update_write_runs [OF f, of w1 "rule_row\<lparr> tr_Name := ''b'', tr_UpdatedAt := ''2026-01-08T00:00:00.000Z'' \<rparr>" rule_row] w1(2)
    by (fastforce simp: row)
  show ?thesis
    using overlapping_edit_reenables [OF sample_edit _ _ off _ w2] off w2 by (auto simp: rule_row_def no_edit_def)
qed

end
