(* ===== verification/Spec2Isabelle.thy ===== *)
theory Spec2Isabelle
  imports Cron Validate BusSafety SchedSystem RunSink TriageSafety TicketExtras BoardSafety TriggerSafety
begin

text \<open>
  A verification library of the core of Lexicode, a server that runs coding agents on tickets.

  \<^bold>\<open>The program and its parts.\<close> Something happens (a pull request is reviewed, a ticket moves, a minute
  of a schedule comes): a source publishes an event on the bus (\<^verbatim>\<open>internal/kernel/bus\<close>), which stores it and
  hands it to its subscriptions. The trigger engine (\<^verbatim>\<open>internal/service/triggers\<close>) takes it through four stages:
  matching, conditions, the loop guard (\<^verbatim>\<open>internal/kernel/guard\<close>) and actions, and records one firing per rule.
  The action \<^verbatim>\<open>run_agent\<close> (\<^verbatim>\<open>internal/module/actions\<close>) enqueues a run with the scheduler
  (\<^verbatim>\<open>internal/kernel/sched\<close>), which admits it under budgets and limits, supervises it, stops it, ends it and
  recovers it after a crash. Everything is kept in one database (\<^verbatim>\<open>internal/kernel/store\<close>), whose rows are the
  types of \<^verbatim>\<open>internal/domain\<close>. Events raised by a run carry its id, so that the guard can count how long a
  chain of causes has become.

  \<^bold>\<open>Which theory models what.\<close>
  \<^item> \<^verbatim>\<open>Prelude\<close>: tables as lists with a unique key (the locale \<^verbatim>\<open>keyed_table\<close>, interpreted on the runs,
    tickets, columns and triage items), store errors, the string functions of Go the code calls.
  \<^item> \<^verbatim>\<open>GoStd\<close>: decoded JSON and the decoding rules of \<^verbatim>\<open>encoding/json\<close>; the civil calendar.
  \<^item> \<^verbatim>\<open>Domain\<close>: the enumerations with their stored texts, the rows as records. \<^verbatim>\<open>Timestamps\<close>: the stored
    text of an instant, its order and its round trip.
  \<^item> \<^verbatim>\<open>StoreRuns\<close>, \<^verbatim>\<open>StoreBoard\<close>, \<^verbatim>\<open>StoreFlow\<close>: the repositories, one definition per method, over one
    record \<^verbatim>\<open>World\<close> of tables. Any statement can fail: a \<^verbatim>\<open>faults\<close> function, an argument of every
    operation, says which call answers which error. \<^verbatim>\<open>Samples\<close>: rows at their zero values.
  \<^item> \<^verbatim>\<open>RunStates\<close>: the run state machine with its compare-and-set loop, where other writers interfere
    between a read and its write. \<^verbatim>\<open>Admission\<close>, \<^verbatim>\<open>Supervisor\<close>, \<^verbatim>\<open>RunSink\<close>, \<^verbatim>\<open>RunEnd\<close>, \<^verbatim>\<open>Enqueue\<close>: the
    files of the scheduler of the same purpose. \<^verbatim>\<open>RunSafety\<close> states the contract each of their operations
    keeps on the runs table, and \<^verbatim>\<open>SchedSystem\<close> is the whole scheduler as a step relation whose reachable
    states satisfy the invariants.
  \<^item> \<^verbatim>\<open>Conditions\<close>: matching, condition trees, templates. \<^verbatim>\<open>Guard\<close>: the five layers of the loop guard and
    its interface, the locale \<^verbatim>\<open>guard_evaluator\<close>. \<^verbatim>\<open>Engine\<close>: the pipeline, the worker and \<^verbatim>\<open>run_agent\<close>; the
    locale \<^verbatim>\<open>trigger_pipeline\<close> extends the guard's interface. \<^verbatim>\<open>Validate\<close>: what a rule is checked for when it
    is saved.
  \<^item> \<^verbatim>\<open>Bus\<close>: the bus with its bounded queues, blocked publishers and consumers as steps of an interleaving;
    \<^verbatim>\<open>BusSafety\<close>: its refinement of a ledger of questions and answers.
  \<^item> \<^verbatim>\<open>Cron\<close>: schedule expressions on 64-bit words, the backward search and the minute scan.
  \<^item> \<^verbatim>\<open>StoreDesk\<close>: the repositories of labels, criteria, mentions and users. \<^verbatim>\<open>Mentions\<close>: the token grammar of
    mentions and its relabelling (\<^verbatim>\<open>internal/service/mentionparse\<close>).
  \<^item> \<^verbatim>\<open>Service\<close>: what the services share: a request as a computation on the world that can fail, transactions
    that take their writes back, attribution, audit and emission. \<^verbatim>\<open>Tickets\<close>, \<^verbatim>\<open>TicketMoves\<close>,
    \<^verbatim>\<open>TicketExtras\<close>, \<^verbatim>\<open>Triage\<close>: \<^verbatim>\<open>internal/service/tickets\<close> (creation and patches; moves and delegation;
    criteria, labels and comments; the triage queue and its wakers). \<^verbatim>\<open>TicketSafety\<close>, \<^verbatim>\<open>TicketNest\<close>,
    \<^verbatim>\<open>TriageSafety\<close>: their contracts, among them the mover the scheduler is given (the locale
    \<^verbatim>\<open>ticket_mover\<close>) and the calculus of triples the invariants are proved in.
  \<^item> \<^verbatim>\<open>BoardService\<close>, \<^verbatim>\<open>BoardSafety\<close>: the columns of a board (\<^verbatim>\<open>internal/service/board\<close>) and the categories
    a project never loses. \<^verbatim>\<open>TriggerService\<close>, \<^verbatim>\<open>TriggerSafety\<close>: the rules a user keeps and their dry run
    (\<^verbatim>\<open>service.go\<close>, \<^verbatim>\<open>backtest.go\<close> of \<^verbatim>\<open>internal/service/triggers\<close>), against the engine, and with requests
    that overlap.

  \<^bold>\<open>What the lemmas show.\<close> Of each component: its invariant and that every operation keeps it, the result of
  every branch with errors included, and the contract a client relies on. Of the system: a chain of causes
  cannot outgrow the depth limit, an event delivered twice acts once, what the guard decides lands on the run,
  no run leaves a terminal state, no event is marked done that a subscriber refused, a resolved triage item
  is final, a ticket filed by a rule waits for a human, a dry run agrees with the engine. Theorems that show the
  code not doing what a comment says are stated on concrete inputs beside the others.

  \<^bold>\<open>Conventions, bounds and fuel.\<close> A repository call returns a store error or a value; a Go error is a value of
  a sum type. Retries of a compare-and-set loop consume a list of interferences, one per attempt, so
  \<^verbatim>\<open>transition_verdict\<close> states that a finite list gives a verdict. The chain walk of the guard is bounded by
  the code's own 64 hops, condition trees by the depth and node limits of the validator. The backward search
  of a schedule is a partial function with a proof that it returns. Counters are unbounded integers except
  where wrapping can happen: list entries of a schedule. Column positions and JSON numbers are exact
  rationals. Instants are nanoseconds, and their stored text is read back in the years 0 to 9999.
  Identifiers, the text of library errors, digests and the printing of non-integral numbers are arguments.

  \<^bold>\<open>Not modelled.\<close> Container and process control (\<^verbatim>\<open>internal/module/docker\<close>, \<^verbatim>\<open>internal/module/claudecode\<close>),
  the forge client (\<^verbatim>\<open>internal/module/github\<close>), the HTTP layer, authentication, encryption, start-up and the
  browser client: they are I/O around library calls. Goroutines are modelled as interleavings of whole
  steps, a database transaction as one step. Also not modelled: the services of the wiki, projects, agents and
  notifications, the approval rules of the tool server, the context providers and the poller's diff.
\<close>

end
